(* ===== verification/Json_Value.thy ===== *)
theory Json_Value
  imports Netlog_Prelude
begin

text \<open>
  JSON values, as \<open>json.loads\<close> returns them and \<open>json.dumps\<close> takes them. A text column that holds
  JSON is modelled by what \<open>json.loads\<close> makes of it: \<open>Some j\<close>, or \<open>None\<close> where it raises.
  The conversions \<open>int(x)\<close>, \<open>float(x)\<close>, \<open>str(x)\<close> and truth testing follow the dynamic type of the
  value, with the exception Python raises as the \<open>Inl\<close> side. The only argument left open is
  \<open>float_repr\<close>, Python's shortest decimal text of a float.
\<close>

datatype json =
    JNull
  | JBool bool
  | JInt int
  | JNum rat
  | JStr string
  | JList "json list"
  | JObj "(string \<times> json) list"

fun truthy :: "json \<Rightarrow> bool" where
  "truthy JNull = False"
| "truthy (JBool b) = b"
| "truthy (JInt i) = (i \<noteq> 0)"
| "truthy (JNum r) = (r \<noteq> 0)"
| "truthy (JStr s) = (s \<noteq> [])"
| "truthy (JList xs) = (xs \<noteq> [])"
| "truthy (JObj kvs) = (kvs \<noteq> [])"

text \<open>\<open>value.get(key)\<close>: only a dict has \<open>get\<close>.\<close>

fun json_get :: "json \<Rightarrow> string \<Rightarrow> py_error + json option" where
  "json_get (JObj kvs) k = Inr (map_of kvs k)"
| "json_get _ k = Inl Attribute_Error"

definition json_field :: "(string \<times> json) list \<Rightarrow> string \<Rightarrow> json" where
  "json_field kvs k = (case map_of kvs k of None \<Rightarrow> JNull | Some v \<Rightarrow> v)"

text \<open>\<open>int(x)\<close> truncates a float towards zero and parses text.\<close>

definition trunc_rat :: "rat \<Rightarrow> int" where
  "trunc_rat r = (if r < 0 then \<lceil>r\<rceil> else \<lfloor>r\<rfloor>)"

fun py_int :: "json \<Rightarrow> py_error + int" where
  "py_int (JInt i) = Inr i"
| "py_int (JBool b) = Inr (if b then 1 else 0)"
| "py_int (JNum r) = Inr (trunc_rat r)"
| "py_int (JStr s) = (case parse_int s of None \<Rightarrow> Inl Value_Error | Some i \<Rightarrow> Inr i)"
| "py_int _ = Inl Type_Error"

text \<open>
  \<open>float(s)\<close> on text, for plain decimals \<open>[sign] digits [. digits]\<close>. Exponents, \<open>inf\<close> and \<open>nan\<close>
  are not modelled: no number the modelled code stores as text has them.
\<close>

definition parse_decimal :: "string \<Rightarrow> rat option" where
  "parse_decimal s =
     (let t = strip s;
          neg = starts_with ''-'' t;
          u = (if starts_with ''-'' t \<or> starts_with ''+'' t then drop 1 t else t);
          (ip, dot, fp) = partition_on (CHR ''.'') u
      in if (ip = [] \<and> fp = []) \<or> (ip \<noteq> [] \<and> \<not> digits_ok False ip) \<or> (fp \<noteq> [] \<and> \<not> digits_ok False fp)
         then None
         else let fd = filter is_digit fp;
                  v = of_nat (digits_value 0 (filter is_digit ip))
                      + of_nat (digits_value 0 fd) / 10 ^ length fd
              in Some (if neg then - v else v))"

fun py_float :: "json \<Rightarrow> py_error + rat" where
  "py_float (JInt i) = Inr (of_int i)"
| "py_float (JBool b) = Inr (if b then 1 else 0)"
| "py_float (JNum r) = Inr r"
| "py_float (JStr s) = (case parse_decimal s of None \<Rightarrow> Inl Value_Error | Some r \<Rightarrow> Inr r)"
| "py_float _ = Inl Type_Error"

section \<open>json.dumps\<close>

definition hex_digit :: "nat \<Rightarrow> char" where
  "hex_digit n = (if n < 10 then char_of (48 + n) else char_of (87 + n))"

text \<open>\<open>ensure_ascii\<close> escaping: everything outside the printable ASCII range is escaped.\<close>

definition json_escape_char :: "char \<Rightarrow> string" where
  "json_escape_char c =
     (let n = (of_char c :: nat)
      in if n = 34 then [char_of (92::nat), c]
         else if n = 92 then [char_of (92::nat), c]
         else if n = 10 then [char_of (92::nat), CHR ''n'']
         else if n = 13 then [char_of (92::nat), CHR ''r'']
         else if n = 9 then [char_of (92::nat), CHR ''t'']
         else if n = 8 then [char_of (92::nat), CHR ''b'']
         else if n = 12 then [char_of (92::nat), CHR ''f'']
         else if 32 \<le> n \<and> n \<le> 126 then [c]
         else [char_of (92::nat), CHR ''u'', CHR ''0'', CHR ''0'', hex_digit (n div 16), hex_digit (n mod 16)])"

definition json_quote :: "string \<Rightarrow> string" where
  "json_quote s = [char_of (34::nat)] @ concat (map json_escape_char s) @ [char_of (34::nat)]"

text \<open>The separators are arguments: \<open>(", ", ": ")\<close> by default, \<open>(",", ":")\<close> for the audit digest.\<close>

fun dumps :: "string \<Rightarrow> string \<Rightarrow> bool \<Rightarrow> (rat \<Rightarrow> string) \<Rightarrow> json \<Rightarrow> string" where
  "dumps isep ksep sk float_repr JNull = ''null''"
| "dumps isep ksep sk float_repr (JBool b) = (if b then ''true'' else ''false'')"
| "dumps isep ksep sk float_repr (JInt i) = show_int i"
| "dumps isep ksep sk float_repr (JNum r) = float_repr r"
| "dumps isep ksep sk float_repr (JStr s) = json_quote s"
| "dumps isep ksep sk float_repr (JList xs) =
     ''['' @ join_with isep (map (dumps isep ksep sk float_repr) xs) @ '']''"
| "dumps isep ksep sk float_repr (JObj kvs) =
     (let items = map (\<lambda>(k, v). (k, dumps isep ksep sk float_repr v)) kvs;
          ordered = (if sk then sort_key fst items else items)
      in ''{'' @ join_with isep (map (\<lambda>(k, t). json_quote k @ ksep @ t) ordered) @ ''}'')"

definition json_dumps :: "(rat \<Rightarrow> string) \<Rightarrow> json \<Rightarrow> string" where
  "json_dumps float_repr j = dumps '', '' '': '' False float_repr j"

lemma py_int_not_dict: "py_int j = Inr i \<Longrightarrow> (\<forall>kvs. j \<noteq> JObj kvs) \<and> j \<noteq> JNull"
  by (cases j) auto

lemma json_get_Inr_iff: "json_get j k = Inr r \<longleftrightarrow> (\<exists>kvs. j = JObj kvs \<and> r = map_of kvs k)"
  by (cases j) auto

end
