(* ===== verification/Rbac.thy ===== *)
theory Rbac
  imports Json_Value
begin

text \<open>
  Role-based access, \<open>rbac.py\<close>: roles and ranks, principals from the environment and from the RBAC
  file, the one-entry configuration cache and token authentication.

  SHA-256 is the argument \<open>digest\<close>; the environment is a function from names to values (the empty
  text for an unset name); the RBAC file is \<open>None\<close> when it cannot be read or parsed, else its JSON
  value with its modification time; \<open>repr\<close> is Python's text of a list, dict or float.
\<close>

section \<open>Roles and principals\<close>

definition roles :: "string list" where
  "roles = [''viewer'', ''operator'', ''admin'']"

definition rank :: "(string \<times> nat) list" where
  "rank = [(''viewer'', 1), (''operator'', 2), (''admin'', 3)]"

definition min_token_len :: nat where "min_token_len = 16"

definition check_len :: "string \<Rightarrow> py_error + string" where
  "check_len token = (if length token < min_token_len then Inl Config_Error else Inr token)"

record principal =
  pr_name :: string
  pr_role :: string
  pr_token_sha256 :: string

text \<open>\<open>RANK[required]\<close> raises on an unknown role, \<open>RANK.get(self.role, 0)\<close> does not.\<close>

definition allows :: "principal \<Rightarrow> string \<Rightarrow> py_error + bool" where
  "allows p required =
     (case map_of rank required of
        None \<Rightarrow> Inl Key_Error
      | Some r \<Rightarrow> Inr (dict_get rank (pr_role p) 0 \<ge> r))"

section \<open>Principals from the environment\<close>

definition tokens_var :: "string \<Rightarrow> string" where
  "tokens_var role = ''AI_LOG_ANALYZER_'' @ upper role @ ''_TOKENS''"

text \<open>One entry \<open>name:token\<close> or a bare token; \<open>None\<close> when the entry is skipped.\<close>

definition env_entry ::
  "(string \<Rightarrow> string) \<Rightarrow> string \<Rightarrow> nat \<Rightarrow> string \<Rightarrow> py_error + principal option" where
  "env_entry digest role i item =
     (if item = [] then Inr None
      else
        (let generated = role @ ''-'' @ show_nat (i + 1);
             (name0, sep, token0) = partition_on (CHR '':'') item;
             (name, token1) = (if sep then (name0, token0) else (generated, item));
             token = strip token1
         in if token = [] then Inr None
            else
              (let label = (if strip name = [] then generated else strip name)
               in case check_len token of
                    Inl e \<Rightarrow> Inl e
                  | Inr t \<Rightarrow> Inr (Some \<lparr>pr_name = label, pr_role = role, pr_token_sha256 = digest t\<rparr>))))"

text \<open>A loop that collects results and stops at the first exception.\<close>

fun collect :: "(py_error + 'a option) list \<Rightarrow> py_error + 'a list" where
  "collect [] = Inr []"
| "collect (Inl e # xs) = Inl e"
| "collect (Inr None # xs) = collect xs"
| "collect (Inr (Some x) # xs) = map_sum id (Cons x) (collect xs)"

definition env_items :: "(string \<Rightarrow> string) \<Rightarrow> string \<Rightarrow> string list" where
  "env_items env role = map strip (split_on (CHR '','') (env (tokens_var role)))"

definition env_principals :: "(string \<Rightarrow> string) \<Rightarrow> (string \<Rightarrow> string) \<Rightarrow> py_error + principal list" where
  "env_principals digest env =
     collect (concat (map (\<lambda>role. map (\<lambda>(i, item). env_entry digest role i item)
                                      (enumerate 0 (env_items env role))) roles))"

section \<open>Principals from the RBAC file\<close>

definition py_str :: "(json \<Rightarrow> string) \<Rightarrow> json \<Rightarrow> string" where
  "py_str repr j =
     (case j of JStr s \<Rightarrow> s | JInt i \<Rightarrow> show_int i | JBool b \<Rightarrow> if b then ''True'' else ''False''
      | JNull \<Rightarrow> ''None'' | _ \<Rightarrow> repr j)"

definition get_str :: "(json \<Rightarrow> string) \<Rightarrow> (string \<times> json) list \<Rightarrow> string \<Rightarrow> string" where
  "get_str repr u k = (case map_of u k of None \<Rightarrow> [] | Some v \<Rightarrow> py_str repr v)"

definition file_entry ::
  "(json \<Rightarrow> string) \<Rightarrow> (string \<Rightarrow> string) \<Rightarrow> json \<Rightarrow> py_error + principal option" where
  "file_entry repr digest u =
     (case u of
        JObj kvs \<Rightarrow>
          (let role = lower (get_str repr kvs ''role'');
               name = strip (get_str repr kvs ''name'');
               given = lower (strip (get_str repr kvs ''token_sha256''));
               usable = (role \<in> fst ` set rank \<and> name \<noteq> []);
               hashed = (if given = [] \<and> truthy (json_field kvs ''token'') \<and> usable
                         then map_sum id digest (check_len (get_str repr kvs ''token''))
                         else Inr given)
           in case hashed of
                Inl e \<Rightarrow> Inl e
              | Inr d \<Rightarrow> Inr (if \<not> usable \<or> length d \<noteq> 64 then None
                              else Some \<lparr>pr_name = name, pr_role = role, pr_token_sha256 = d\<rparr>))
      | _ \<Rightarrow> Inl Attribute_Error)"

text \<open>\<open>data.get("users") or []\<close>, iterated: a dict or text iterates over strings, which have no \<open>get\<close>.\<close>

definition file_users :: "json \<Rightarrow> py_error + json list" where
  "file_users data =
     (case json_get data ''users'' of
        Inl e \<Rightarrow> Inl e
      | Inr None \<Rightarrow> Inr []
      | Inr (Some j) \<Rightarrow>
          (if \<not> truthy j then Inr []
           else case j of JList us \<Rightarrow> Inr us | JObj _ \<Rightarrow> Inl Attribute_Error | JStr _ \<Rightarrow> Inl Attribute_Error
                | _ \<Rightarrow> Inl Type_Error))"

definition file_principals ::
  "(json \<Rightarrow> string) \<Rightarrow> (string \<Rightarrow> string) \<Rightarrow> json option \<Rightarrow> py_error + principal list" where
  "file_principals repr digest content =
     (case content of
        None \<Rightarrow> Inr []
      | Some data \<Rightarrow>
          (case file_users data of Inl e \<Rightarrow> Inl e | Inr us \<Rightarrow> collect (map (file_entry repr digest) us)))"

section \<open>The configuration and its cache\<close>

record rbac_file =
  rf_mtime :: instant
  rf_content :: "json option"

record rbac_config =
  rc_legacy :: string
  rc_env :: "string \<Rightarrow> string"
  rc_file :: "string \<Rightarrow> rbac_file option"   \<comment> \<open>the file system: \<open>None\<close> where \<open>stat\<close> raises\<close>

type_synonym cache_key = "string \<times> string \<times> instant \<times> string list"

definition rbac_path :: "rbac_config \<Rightarrow> string" where
  "rbac_path c = strip (rc_env c ''AI_LOG_ANALYZER_RBAC_FILE'')"

definition rbac_mtime :: "rbac_config \<Rightarrow> instant" where
  "rbac_mtime c =
     (if rbac_path c = [] then 0
      else case rc_file c (rbac_path c) of None \<Rightarrow> -1 | Some f \<Rightarrow> rf_mtime f)"

definition cache_key :: "rbac_config \<Rightarrow> cache_key" where
  "cache_key c = (rc_legacy c, rbac_path c, rbac_mtime c, map (\<lambda>r. rc_env c (tokens_var r)) roles)"

definition legacy_principals :: "(string \<Rightarrow> string) \<Rightarrow> string \<Rightarrow> py_error + principal list" where
  "legacy_principals digest legacy =
     (if legacy = [] then Inr []
      else map_sum id (\<lambda>t. [\<lparr>pr_name = ''shared-token'', pr_role = ''admin'', pr_token_sha256 = digest t\<rparr>])
             (check_len legacy))"

definition path_principals ::
  "(json \<Rightarrow> string) \<Rightarrow> (string \<Rightarrow> string) \<Rightarrow> rbac_config \<Rightarrow> py_error + principal list" where
  "path_principals repr digest c =
     (if rbac_path c = [] then Inr []
      else file_principals repr digest
             (case rc_file c (rbac_path c) of None \<Rightarrow> None | Some f \<Rightarrow> rf_content f))"

definition load_principals ::
  "(json \<Rightarrow> string) \<Rightarrow> (string \<Rightarrow> string) \<Rightarrow> rbac_config \<Rightarrow> py_error + principal list" where
  "load_principals repr digest c =
     (case legacy_principals digest (rc_legacy c) of
        Inl e \<Rightarrow> Inl e
      | Inr ls \<Rightarrow>
          (case env_principals digest (rc_env c) of
             Inl e \<Rightarrow> Inl e
           | Inr es \<Rightarrow>
               (case path_principals repr digest c of Inl e \<Rightarrow> Inl e | Inr fs \<Rightarrow> Inr (ls @ es @ fs))))"

type_synonym rbac_cache = "(cache_key \<times> principal list) list"

definition principals ::
  "(json \<Rightarrow> string) \<Rightarrow> (string \<Rightarrow> string) \<Rightarrow> rbac_config \<Rightarrow> rbac_cache \<Rightarrow> py_error + principal list \<times> rbac_cache" where
  "principals repr digest c cache =
     (case map_of cache (cache_key c) of
        Some hit \<Rightarrow> Inr (hit, cache)
      | None \<Rightarrow>
          (case load_principals repr digest c of
             Inl e \<Rightarrow> Inl e
           | Inr ps \<Rightarrow> Inr (ps, [(cache_key c, ps)])))"

definition auth_enabled :: "principal list \<Rightarrow> bool" where
  "auth_enabled ps = (ps \<noteq> [])"

definition auth_required :: "(string \<Rightarrow> string) \<Rightarrow> bool" where
  "auth_required env =
     (lower (strip (env ''AI_LOG_ANALYZER_REQUIRE_AUTH'')) \<in> {''1'', ''true'', ''yes'', ''on''})"

section \<open>Authentication\<close>

text \<open>\<open>hmac.compare_digest\<close> on two \<open>str\<close>: both must be ASCII.\<close>

definition ascii_text :: "string \<Rightarrow> bool" where
  "ascii_text s = list_all (\<lambda>c. (of_char c :: nat) < 128) s"

definition compare_digest :: "string \<Rightarrow> string \<Rightarrow> py_error + bool" where
  "compare_digest a b = (if ascii_text a \<and> ascii_text b then Inr (a = b) else Inl Type_Error)"

text \<open>Every entry is checked; the first match wins.\<close>

fun auth_scan :: "string \<Rightarrow> principal list \<Rightarrow> principal option \<Rightarrow> py_error + principal option" where
  "auth_scan d [] found = Inr found"
| "auth_scan d (p # ps) found =
     (case compare_digest (pr_token_sha256 p) d of
        Inl e \<Rightarrow> Inl e
      | Inr eq \<Rightarrow> auth_scan d ps (if eq \<and> found = None then Some p else found))"

definition authenticate ::
  "(string \<Rightarrow> string) \<Rightarrow> string \<Rightarrow> principal list \<Rightarrow> py_error + principal option" where
  "authenticate digest token ps = (if token = [] then Inr None else auth_scan (digest token) ps None)"

section \<open>Laws\<close>

lemma auth_scan_result:
  "auth_scan d ps found = Inr r \<Longrightarrow>
     r = (case found of Some p \<Rightarrow> Some p | None \<Rightarrow> List.find (\<lambda>p. pr_token_sha256 p = d) ps)"
  by (induction d ps found rule: auth_scan.induct)
     (auto simp: compare_digest_def split: sum.splits option.splits if_splits)

text \<open>
  Authentication returns exactly the first configured principal whose stored digest is the digest
  of the supplied token, and nobody when there is none or the token is empty.
\<close>

theorem authenticate_first_match:
  assumes "authenticate digest token ps = Inr r"
  shows "r = (if token = [] then None else List.find (\<lambda>p. pr_token_sha256 p = digest token) ps)"
  using assms auth_scan_result by (fastforce simp: authenticate_def split: if_splits)

theorem authenticate_first_match_witness:
  "authenticate id ''t2'' [\<lparr>pr_name = ''a'', pr_role = ''viewer'', pr_token_sha256 = ''t1''\<rparr>,
      \<lparr>pr_name = ''b'', pr_role = ''admin'', pr_token_sha256 = ''t2''\<rparr>]
     = Inr (Some \<lparr>pr_name = ''b'', pr_role = ''admin'', pr_token_sha256 = ''t2''\<rparr>)"
proof -
  let ?ps = "[\<lparr>pr_name = ''a'', pr_role = ''viewer'', pr_token_sha256 = ''t1''\<rparr>,
      \<lparr>pr_name = ''b'', pr_role = ''admin'', pr_token_sha256 = ''t2''\<rparr>]"
  obtain r where r: "authenticate id ''t2'' ?ps = Inr r"
    by (simp add: authenticate_def compare_digest_def ascii_text_def)
  from authenticate_first_match [OF r] r show ?thesis by simp
qed

text \<open>The rank order is total on the three roles, so a role allows everything a lower role allows.\<close>

lemma allows_upward:
  assumes "allows p r1 = Inr True" and "map_of rank r2 = Some n2" and "map_of rank r1 = Some n1" and "n2 \<le> n1"
  shows "allows p r2 = Inr True"
  using assms by (simp add: allows_def)

lemma collect_Inl: "collect xs = Inl e \<Longrightarrow> Inl e \<in> set xs"
proof (induction xs rule: collect.induct)
  case (4 x xs)
  then show ?case by (cases "collect xs") auto
qed auto

lemma collect_Inr:
  "collect xs = Inr ys \<Longrightarrow> (\<forall>x\<in>set xs. \<exists>o'. x = Inr o') \<and>
     ys = List.map_filter (\<lambda>x. case x of Inl _ \<Rightarrow> None | Inr o' \<Rightarrow> o') xs"
proof (induction xs arbitrary: ys rule: collect.induct)
  case (4 x xs)
  then show ?case by (cases "collect xs") (auto simp: map_filter_simps)
qed (auto simp: map_filter_simps)

lemma env_entry_token:
  "env_entry digest role i item = Inr (Some p) \<Longrightarrow>
     \<exists>token. length token \<ge> min_token_len \<and> pr_token_sha256 p = digest token \<and> pr_role p = role"
  by (auto simp: env_entry_def check_len_def Let_def not_less split: prod.splits if_splits; blast)

text \<open>
  Fail closed. If any role's token variable has a \<open>name:token\<close> or bare entry with a non-empty
  token, then loading the environment principals either raises a configuration error or yields at
  least one principal: a bad token never silently leaves the list empty, which would switch
  authentication off. Every principal it yields stands for a token of at least 16 characters.
\<close>

theorem env_principals_fail_closed:
  assumes "role \<in> set roles" and "item \<in> set (env_items env role)" and "item \<noteq> []"
    and "strip (case partition_on (CHR '':'') item of (a, sep, b) \<Rightarrow> if sep then b else item) \<noteq> []"
  shows "(case env_principals digest env of
            Inl e \<Rightarrow> e = Config_Error
          | Inr ps \<Rightarrow> auth_enabled ps \<and>
              (\<forall>p\<in>set ps. \<exists>token. length token \<ge> 16 \<and> pr_token_sha256 p = digest token))"
proof -
  define entries where "entries = concat (map (\<lambda>role. map (\<lambda>(i, item). env_entry digest role i item)
                                      (enumerate 0 (env_items env role))) roles)"
  have errs: "x = Inl e \<Longrightarrow> x \<in> set entries \<Longrightarrow> e = Config_Error" for x e
    by (auto simp: entries_def env_entry_def check_len_def Let_def split: if_splits prod.splits)
  obtain i where "(i, item) \<in> set (enumerate 0 (env_items env role))"
    using assms(2) by (metis in_set_impl_in_set_zip2 length_enumerate map_snd_enumerate in_set_conv_nth
        in_set_enumerate_eq add_0 nth_map prod.collapse length_map nth_enumerate_eq nth_mem)
  then have mem: "env_entry digest role i item \<in> set entries"
    using assms(1) by (force simp: entries_def)
  have not_skipped: "env_entry digest role i item \<noteq> Inr None"
    using assms(3,4) by (auto simp: env_entry_def check_len_def Let_def split: prod.splits if_splits)
  show ?thesis
  proof (cases "collect entries")
    case (Inl e)
    with errs collect_Inl [OF Inl] Inl show ?thesis by (simp add: env_principals_def entries_def [symmetric])
  next
    case (Inr ps)
    note col = collect_Inr [OF Inr]
    with mem obtain o' where o': "env_entry digest role i item = Inr o'" by blast
    with not_skipped obtain p where "o' = Some p" by (cases o') auto
    with o' mem col have "p \<in> set ps"
      by (force simp: set_map_filter)
    moreover have "\<exists>token. length token \<ge> 16 \<and> pr_token_sha256 q = digest token" if "q \<in> set ps" for q
    proof -
      have "Inr (Some q) \<in> set entries"
        using that col by (auto simp: set_map_filter split: sum.splits)
      then obtain y a b where "env_entry digest y a b = Inr (Some q)" by (auto simp: entries_def)
      from env_entry_token [OF this] show ?thesis by (auto simp: min_token_len_def)
    qed
    ultimately show ?thesis
      using Inr by (auto simp: env_principals_def entries_def [symmetric] auth_enabled_def)
  qed
qed

definition demo_env :: "string \<Rightarrow> string" where
  "demo_env v = (if v = ''AI_LOG_ANALYZER_ADMIN_TOKENS'' then ''ops:short'' else [])"

theorem env_principals_fail_closed_witness: "env_principals id demo_env = Inl Config_Error"
proof -
  have items: "''ops:short'' \<in> set (env_items demo_env ''admin'')"
    by code_simp
  have tok: "strip (case partition_on (CHR '':'') ''ops:short'' of (a, sep, b) \<Rightarrow> if sep then b else ''ops:short'') \<noteq> []"
    by (simp add: partition_on_def strip_def is_space_def)
  have "\<not> isl (map_sum id (\<lambda>_. ()) (env_principals id demo_env)) \<longrightarrow> False" by code_simp
  with env_principals_fail_closed [OF _ items _ tok, of id]
  show ?thesis by (cases "env_principals id demo_env") (auto simp: roles_def)
qed

definition cache_ok ::
  "(json \<Rightarrow> string) \<Rightarrow> (string \<Rightarrow> string) \<Rightarrow> rbac_config \<Rightarrow> rbac_cache \<Rightarrow> bool" where
  "cache_ok repr digest c cache \<longleftrightarrow>
     (\<forall>ps. map_of cache (cache_key c) = Some ps \<longrightarrow> load_principals repr digest c = Inr ps)"

text \<open>
  Two configurations whose keys agree load the same principals, provided the modification time tells
  file contents apart: everything else \<open>load_principals\<close> reads is part of the key.
\<close>

lemma load_principals_key:
  assumes "cache_key c = cache_key c'"
    and "rbac_path c \<noteq> [] \<Longrightarrow> map_option rf_content (rc_file c (rbac_path c))
                             = map_option rf_content (rc_file c' (rbac_path c'))"
  shows "load_principals repr digest c = load_principals repr digest c'"
proof -
  have key: "rc_legacy c = rc_legacy c'" "rbac_path c = rbac_path c'"
      "\<forall>r\<in>set roles. rc_env c (tokens_var r) = rc_env c' (tokens_var r)"
    using assms(1) by (auto simp: cache_key_def)
  have envs: "env_principals digest (rc_env c) = env_principals digest (rc_env c')"
    using key(3) unfolding env_principals_def env_items_def
    by (intro arg_cong [where f = collect] arg_cong [where f = concat] map_cong) auto
  have paths: "path_principals repr digest c = path_principals repr digest c'"
    using key(2) assms(2) by (auto simp: path_principals_def split: option.splits)
  show ?thesis unfolding load_principals_def key(1) envs paths ..
qed

text \<open>
  The one-entry cache is transparent. When what it holds for this configuration is what loading
  gives, \<open>principals\<close> returns exactly what loading afresh returns, errors included, and the cache it
  leaves is transparent again, for this configuration and for every one with the same key whose RBAC
  file has the same contents.
\<close>

theorem principals_cache_transparent:
  assumes "cache_ok repr digest c cache"
  shows "map_sum id fst (principals repr digest c cache) = load_principals repr digest c \<and>
         (\<forall>ps cache' c'. principals repr digest c cache = Inr (ps, cache') \<and> cache_key c' = cache_key c \<and>
            map_option rf_content (rc_file c' (rbac_path c')) = map_option rf_content (rc_file c (rbac_path c))
            \<longrightarrow> cache_ok repr digest c' cache')"
proof -
  have "map_sum id fst (principals repr digest c cache) = load_principals repr digest c"
    using assms by (auto simp: principals_def cache_ok_def split: option.splits sum.splits)
  moreover have "cache_ok repr digest c' cache'"
    if "principals repr digest c cache = Inr (ps, cache')" and key: "cache_key c' = cache_key c"
      and "map_option rf_content (rc_file c' (rbac_path c')) = map_option rf_content (rc_file c (rbac_path c))"
    for ps cache' c'
  proof -
    have "load_principals repr digest c' = load_principals repr digest c"
      by (rule load_principals_key) (use that in auto)
    then show ?thesis using that(1) assms key
      by (auto simp: principals_def cache_ok_def split: option.splits sum.splits if_splits)
  qed
  ultimately show ?thesis by blast
qed

definition demo_config :: rbac_config where
  "demo_config = \<lparr>rc_legacy = ''0123456789abcdef'', rc_env = (\<lambda>_. []), rc_file = (\<lambda>_. None)\<rparr>"

theorem principals_cache_transparent_witness:
  "map_sum id fst (principals (\<lambda>_. []) id demo_config []) =
     Inr [\<lparr>pr_name = ''shared-token'', pr_role = ''admin'', pr_token_sha256 = ''0123456789abcdef''\<rparr>]"
proof -
  have "cache_ok (\<lambda>_. []) id demo_config []" by (simp add: cache_ok_def)
  from principals_cache_transparent [OF this] 
  have "map_sum id fst (principals (\<lambda>_. []) id demo_config []) = load_principals (\<lambda>_. []) id demo_config" by blast
  also have "\<dots> = Inr [\<lparr>pr_name = ''shared-token'', pr_role = ''admin'', pr_token_sha256 = ''0123456789abcdef''\<rparr>]"
    by code_simp
  finally show ?thesis .
qed

end
