(* ===== verification/State_Store.thy ===== *)
theory State_Store
  imports Json_Value
begin

text \<open>
  The shared SQLite state database, \<open>state_store.py\<close>: tables as lists of rows, one definition per
  method of \<open>StateDB\<close>.

  A table with an \<open>AUTOINCREMENT\<close> key keeps the largest id ever handed out beside its rows
  (\<open>sqlite_sequence\<close>), so a pruned id is never used again. A \<open>write()\<close> block is one atomic step:
  \<open>BEGIN IMMEDIATE\<close> serialises writers, a raised exception rolls back, and the model returns the
  error without a new database. \<open>ORDER BY id\<close> is a stable sort by id. The connection handling
  (threads, fork, busy retry, schema migration) is not modelled. \<open>time.time()\<close> is the argument
  \<open>now\<close>.
\<close>

section \<open>Tables\<close>

record kv_row =
  kv_value :: "json option"   \<comment> \<open>what \<open>json.loads\<close> makes of the text, \<open>None\<close> if it raises\<close>
  kv_updated :: instant

record incident_rec =
  in_description :: string
  in_severity :: string
  in_category :: string
  in_devices :: "string list"
  in_count :: int
  in_samples :: "string list"
  in_generated_at :: string

record incident_row = incident_rec +
  in_id :: int
  in_resolution :: "string option"
  in_resolved_at :: "string option"
  in_resolved_by :: "string option"

record spool_row =
  sp_id :: int
  sp_source :: string
  sp_received_at :: instant
  sp_sender :: string
  sp_line :: string

record spool_meta =
  sm_rows :: int
  sm_pruned :: int
  sm_lost_unread :: int

record audit_fields =
  au_ts :: instant
  au_actor :: string
  au_role :: string
  au_action :: string
  au_target :: string
  au_outcome :: string
  au_remote :: string
  au_detail :: string

record audit_row =
  ar_id :: int
  ar_fields :: audit_fields
  ar_prev_hash :: string
  ar_hash :: string

record ticket =
  tk_fingerprint :: string
  tk_first_seen :: instant
  tk_last_seen :: instant
  tk_last_sent :: instant
  tk_severity :: "string option"
  tk_event_count :: int
  tk_last_event_at :: instant
  tk_sends :: int
  tk_held :: int
  tk_state :: "string option"
  tk_title :: "string option"
  tk_refs :: "string list"

type_synonym kv_key = "string \<times> string"

record state_db =
  db_kv :: "(kv_key \<times> kv_row) list"
  db_incidents :: "incident_row list"
  db_incident_seq :: int
  db_spool :: "spool_row list"
  db_spool_seq :: int
  db_spool_meta :: "(string \<times> spool_meta) list"
  db_audit :: "audit_row list"
  db_audit_seq :: int
  db_tickets :: "(string \<times> ticket) list"

definition empty_db :: state_db where
  "empty_db = \<lparr>db_kv = [], db_incidents = [], db_incident_seq = 0, db_spool = [], db_spool_seq = 0,
     db_spool_meta = [], db_audit = [], db_audit_seq = 0, db_tickets = []\<rparr>"

lemma empty_db_simps [simp]:
  "db_kv empty_db = []" "db_incidents empty_db = []" "db_incident_seq empty_db = 0" "db_spool empty_db = []"
  "db_spool_seq empty_db = 0" "db_spool_meta empty_db = []" "db_audit empty_db = []"
  "db_audit_seq empty_db = 0" "db_tickets empty_db = []"
  by (simp_all add: empty_db_def)

definition sync_modes :: "string list" where
  "sync_modes = [''OFF'', ''NORMAL'', ''FULL'', ''EXTRA'']"

definition sync_mode :: "string \<Rightarrow> string" where
  "sync_mode env = (let mode = upper (strip env) in if mode \<in> set sync_modes then mode else ''NORMAL'')"

section \<open>kv\<close>

definition kv_lookup :: "string \<Rightarrow> string \<Rightarrow> state_db \<Rightarrow> json option option" where
  "kv_lookup ns k db = map_option kv_value (map_of (db_kv db) (ns, k))"

definition kv_set :: "string \<Rightarrow> string \<Rightarrow> json \<Rightarrow> instant \<Rightarrow> state_db \<Rightarrow> state_db" where
  "kv_set ns k v now db =
     db\<lparr>db_kv := AList.update (ns, k) \<lparr>kv_value = Some v, kv_updated = now\<rparr> (db_kv db)\<rparr>"

definition kv_delete :: "string \<Rightarrow> string \<Rightarrow> state_db \<Rightarrow> state_db" where
  "kv_delete ns k db = db\<lparr>db_kv := AList.delete (ns, k) (db_kv db)\<rparr>"

text \<open>Rows whose value does not parse are skipped.\<close>

definition kv_get_all :: "string \<Rightarrow> state_db \<Rightarrow> (string \<times> json) list" where
  "kv_get_all ns db =
     [(k, v). ((n, k), r) \<leftarrow> db_kv db, n = ns, v \<leftarrow> (case kv_value r of None \<Rightarrow> [] | Some v \<Rightarrow> [v])]"

section \<open>Incident journal\<close>

definition next_incident :: "incident_rec \<Rightarrow> state_db \<Rightarrow> state_db" where
  "next_incident r db =
     db\<lparr>db_incidents := db_incidents db @
          [\<lparr>in_description = in_description r, in_severity = in_severity r, in_category = in_category r,
            in_devices = in_devices r, in_count = in_count r, in_samples = in_samples r,
            in_generated_at = in_generated_at r, in_id = db_incident_seq db + 1,
            in_resolution = None, in_resolved_at = None, in_resolved_by = None\<rparr>],
        db_incident_seq := db_incident_seq db + 1\<rparr>"

definition incidents_by_id :: "state_db \<Rightarrow> incident_row list" where
  "incidents_by_id db = sort_key in_id (db_incidents db)"

text \<open>\<open>DELETE ... WHERE id <= (SELECT id ... ORDER BY id DESC LIMIT 1 OFFSET cap)\<close>: no row at that
  offset gives NULL, and nothing is deleted.\<close>

definition incidents_prune :: "nat \<Rightarrow> state_db \<Rightarrow> state_db" where
  "incidents_prune cap db =
     (let newest_first = rev (incidents_by_id db)
      in if cap < length newest_first
         then db\<lparr>db_incidents := filter (\<lambda>r. \<not> in_id r \<le> in_id (newest_first ! cap)) (db_incidents db)\<rparr>
         else db)"

definition incidents_append :: "incident_rec list \<Rightarrow> nat \<Rightarrow> state_db \<Rightarrow> state_db \<times> nat" where
  "incidents_append records cap db =
     (let rows = filter (\<lambda>r. in_description r \<noteq> []) records
      in if rows = [] then (db, 0)
         else (incidents_prune cap (fold next_incident rows db), length rows))"

definition incidents_all :: "nat \<Rightarrow> state_db \<Rightarrow> incident_row list" where
  "incidents_all limit db = rev (take limit (rev (incidents_by_id db)))"

definition incidents_since :: "int \<Rightarrow> state_db \<Rightarrow> incident_row list" where
  "incidents_since after_id db = filter (\<lambda>r. in_id r > after_id) (incidents_by_id db)"

definition incidents_version :: "state_db \<Rightarrow> nat \<times> int \<times> nat" where
  "incidents_version db =
     (length (db_incidents db),
      (case map in_id (db_incidents db) of [] \<Rightarrow> 0 | i # is \<Rightarrow> max_by id i is),
      sum_list (map (\<lambda>r. case in_resolution r of None \<Rightarrow> 0 | Some t \<Rightarrow> length t) (db_incidents db)))"

definition incidents_resolve :: "int \<Rightarrow> string \<Rightarrow> string \<Rightarrow> string \<Rightarrow> state_db \<Rightarrow> state_db \<times> bool" where
  "incidents_resolve row_id res when who db =
     (db\<lparr>db_incidents := map (\<lambda>r. if in_id r = row_id
            then r\<lparr>in_resolution := Some res, in_resolved_at := Some when, in_resolved_by := Some who\<rparr>
            else r) (db_incidents db)\<rparr>,
      (\<exists>r \<in> set (db_incidents db). in_id r = row_id))"

definition incidents_count :: "state_db \<Rightarrow> nat" where
  "incidents_count db = length (db_incidents db)"

section \<open>Syslog spool\<close>

definition spool_rows :: "string \<Rightarrow> state_db \<Rightarrow> spool_row list" where
  "spool_rows src db = sort_key sp_id (filter (\<lambda>r. sp_source r = src) (db_spool db))"

definition spool_count :: "string \<Rightarrow> state_db \<Rightarrow> int" where
  "spool_count src db = int (length (filter (\<lambda>r. sp_source r = src) (db_spool db)))"

definition spool_insert :: "string \<Rightarrow> instant \<times> string \<times> string \<Rightarrow> state_db \<Rightarrow> state_db" where
  "spool_insert src row db =
     (case row of (ts, sender, line) \<Rightarrow>
        db\<lparr>db_spool := db_spool db @
             [\<lparr>sp_id = db_spool_seq db + 1, sp_source = src, sp_received_at = ts, sp_sender = sender,
               sp_line = line\<rparr>],
           db_spool_seq := db_spool_seq db + 1\<rparr>)"

definition set_meta :: "string \<Rightarrow> spool_meta \<Rightarrow> state_db \<Rightarrow> state_db" where
  "set_meta src m db = db\<lparr>db_spool_meta := AList.update src m (db_spool_meta db)\<rparr>"

text \<open>\<open>UPDATE spool_meta ... WHERE source=?\<close>: no row, no change.\<close>

definition update_meta :: "string \<Rightarrow> (spool_meta \<Rightarrow> spool_meta) \<Rightarrow> state_db \<Rightarrow> state_db" where
  "update_meta src f db =
     (case map_of (db_spool_meta db) src of None \<Rightarrow> db | Some m \<Rightarrow> set_meta src (f m) db)"

text \<open>\<open>SELECT id ... WHERE source=? ORDER BY id LIMIT 1 OFFSET excess-1\<close>.\<close>

definition spool_boundary :: "string \<Rightarrow> int \<Rightarrow> state_db \<Rightarrow> int option" where
  "spool_boundary src excess db =
     (let ids = map sp_id (spool_rows src db); off = nat (excess - 1)
      in if off < length ids then Some (ids ! off) else None)"

text \<open>The persisted read position of the triage consumer; an unusable value counts as the boundary.\<close>

definition triage_cursor :: "string \<Rightarrow> int \<Rightarrow> state_db \<Rightarrow> int option" where
  "triage_cursor src boundary db =
     (case kv_lookup ''triage'' (''cursor:'' @ src) db of
        None \<Rightarrow> None
      | Some None \<Rightarrow> Some boundary
      | Some (Some j) \<Rightarrow> Some (case py_int j of Inl _ \<Rightarrow> boundary | Inr c \<Rightarrow> c))"

definition unread_upto :: "string \<Rightarrow> int \<Rightarrow> state_db \<Rightarrow> int" where
  "unread_upto src boundary db =
     (case triage_cursor src boundary db of
        None \<Rightarrow> 0
      | Some cursor \<Rightarrow>
          (if cursor < boundary
           then int (length (filter (\<lambda>r. sp_source r = src \<and> sp_id r > cursor \<and> sp_id r \<le> boundary)
                             (db_spool db)))
           else 0))"

definition spool_delete_upto :: "string \<Rightarrow> int \<Rightarrow> int \<Rightarrow> state_db \<Rightarrow> int \<times> state_db" where
  "spool_delete_upto src tot boundary db =
     (let lost = unread_upto src boundary db;
          doomed = (\<lambda>r. sp_source r = src \<and> sp_id r \<le> boundary);
          removed = int (length (filter doomed (db_spool db)));
          db' = db\<lparr>db_spool := filter (\<lambda>r. \<not> doomed r) (db_spool db)\<rparr>
      in (tot - removed,
          update_meta src (\<lambda>m. m\<lparr>sm_pruned := sm_pruned m + removed,
                                 sm_lost_unread := sm_lost_unread m + lost\<rparr>) db'))"

definition spool_prune :: "string \<Rightarrow> int \<Rightarrow> int \<Rightarrow> state_db \<Rightarrow> int \<times> state_db" where
  "spool_prune src tot cap db =
     (let excess = tot - cap
      in if excess \<le> 0 then (tot, db)
         else case spool_boundary src excess db of
           Some b \<Rightarrow> spool_delete_upto src tot b db
         | None \<Rightarrow>  \<comment> \<open>the counter drifted above the real count: recount\<close>
             (let tot' = spool_count src db; excess' = tot' - cap
              in case (if excess' > 0 then spool_boundary src excess' db else None) of
                   None \<Rightarrow> (tot', db)
                 | Some b \<Rightarrow> spool_delete_upto src tot' b db))"

text \<open>The rows inserted since the last prune are counted per process, not in the database.\<close>

type_synonym prune_counter = "(string \<times> int) list"

definition spool_append ::
  "string \<Rightarrow> (instant \<times> string \<times> string) list \<Rightarrow> int \<Rightarrow> prune_counter \<times> state_db
     \<Rightarrow> (prune_counter \<times> state_db) \<times> nat" where
  "spool_append src rows cap st =
     (case st of (pc, db) \<Rightarrow>
        if rows = [] then ((pc, db), 0)
        else
          (let (tot0, db1) =
                 (case map_of (db_spool_meta db) src of
                    None \<Rightarrow>
                      (let n = spool_count src db
                       in (n, set_meta src \<lparr>sm_rows = n, sm_pruned = 0, sm_lost_unread = 0\<rparr> db))
                  | Some m \<Rightarrow> (sm_rows m, db));
               db2 = fold (spool_insert src) rows db1;
               tot = tot0 + int (length rows);
               pending = dict_get pc src 0 + int (length rows);
               (tot', pending', db3) =
                 (if pending \<ge> 1000 \<or> pending \<ge> cap
                  then (case spool_prune src tot cap db2 of (t, d) \<Rightarrow> (t, 0, d))
                  else (tot, pending, db2))
           in ((AList.update src pending' pc, update_meta src (\<lambda>m. m\<lparr>sm_rows := tot'\<rparr>) db3),
               length rows)))"

definition spool_gap :: "string \<Rightarrow> state_db \<Rightarrow> int \<times> int" where
  "spool_gap src db =
     (case map_of (db_spool_meta db) src of None \<Rightarrow> (0, 0) | Some m \<Rightarrow> (sm_pruned m, sm_lost_unread m))"

definition spool_tail :: "string \<Rightarrow> nat \<Rightarrow> state_db \<Rightarrow> spool_row list" where
  "spool_tail src limit db = rev (take limit (rev (spool_rows src db)))"

definition spool_after :: "string \<Rightarrow> int \<Rightarrow> nat \<Rightarrow> state_db \<Rightarrow> spool_row list" where
  "spool_after src after_id limit db =
     rev (take limit (rev (filter (\<lambda>r. sp_id r > after_id) (spool_rows src db))))"

definition spool_read :: "string \<Rightarrow> int \<Rightarrow> nat \<Rightarrow> state_db \<Rightarrow> spool_row list" where
  "spool_read src after_id limit db = take limit (filter (\<lambda>r. sp_id r > after_id) (spool_rows src db))"

definition spool_before :: "string \<Rightarrow> int \<Rightarrow> nat \<Rightarrow> state_db \<Rightarrow> spool_row list" where
  "spool_before src upto_id limit db =
     rev (take limit (rev (filter (\<lambda>r. sp_id r \<le> upto_id) (spool_rows src db))))"

text \<open>\<open>ORDER BY source\<close> on a table whose primary key is the source.\<close>

definition meta_by_source :: "state_db \<Rightarrow> (string \<times> spool_meta) list" where
  "meta_by_source db = sort_key fst (db_spool_meta db)"

definition spool_stats :: "state_db \<Rightarrow> (string \<times> int \<times> int \<times> instant) list" where
  "spool_stats db =
     List.map_filter (\<lambda>(src, m). case rev (spool_rows src db) of
                  [] \<Rightarrow> None
                | r # _ \<Rightarrow> Some (src, sm_rows m, sp_id r, sp_received_at r))
       (meta_by_source db)"

definition spool_sources :: "state_db \<Rightarrow> string list" where
  "spool_sources db = map fst (filter (\<lambda>(s, m). sm_rows m > 0) (meta_by_source db))"

definition spool_last_received :: "string \<Rightarrow> state_db \<Rightarrow> instant" where
  "spool_last_received src db = (case rev (spool_rows src db) of [] \<Rightarrow> 0 | r # _ \<Rightarrow> sp_received_at r)"

definition spool_min_id :: "string \<Rightarrow> state_db \<Rightarrow> int" where
  "spool_min_id src db = (case spool_rows src db of [] \<Rightarrow> 0 | r # _ \<Rightarrow> sp_id r)"

definition spool_max_id :: "string \<Rightarrow> state_db \<Rightarrow> int" where
  "spool_max_id src db = (case rev (spool_rows src db) of [] \<Rightarrow> 0 | r # _ \<Rightarrow> sp_id r)"

section \<open>Leases\<close>

definition lease_json :: "string \<Rightarrow> instant \<Rightarrow> json" where
  "lease_json owner expires = JObj [(''owner'', JStr owner), (''expires'', JNum expires)]"

text \<open>
  \<open>held.get("owner")\<close> and \<open>float(held.get("expires", 0))\<close> of a lease row. A row that does not parse
  reads as \<open>{}\<close>; a value that is not a dict raises.
\<close>

definition lease_fields :: "json option \<Rightarrow> py_error + json option \<times> rat" where
  "lease_fields cell =
     (case cell of
        None \<Rightarrow> Inr (None, 0)
      | Some j \<Rightarrow>
          (case json_get j ''owner'' of
             Inl e \<Rightarrow> Inl e
           | Inr own \<Rightarrow>
               (case json_get j ''expires'' of
                  Inl e \<Rightarrow> Inl e
                | Inr None \<Rightarrow> Inr (own, 0)
                | Inr (Some x) \<Rightarrow> (case py_float x of Inl e \<Rightarrow> Inl e | Inr r \<Rightarrow> Inr (own, r)))))"

definition lease_acquire ::
  "string \<Rightarrow> string \<Rightarrow> instant \<Rightarrow> instant \<Rightarrow> state_db \<Rightarrow> py_error + bool \<times> state_db" where
  "lease_acquire name owner ttl now db =
     (let take_it = Inr (True, kv_set ''lease'' name (lease_json owner (now + ttl)) now db)
      in case kv_lookup ''lease'' name db of
           None \<Rightarrow> take_it
         | Some cell \<Rightarrow>
             (case lease_fields cell of
                Inl e \<Rightarrow> Inl e
              | Inr (own, expires) \<Rightarrow>
                  (if own \<noteq> Some (JStr owner) \<and> now < expires \<and> expires \<le> now + 2 * ttl
                   then Inr (False, db) else take_it)))"

definition lease_release :: "string \<Rightarrow> string \<Rightarrow> state_db \<Rightarrow> py_error + state_db" where
  "lease_release name owner db =
     (case kv_lookup ''lease'' name db of
        None \<Rightarrow> Inr db
      | Some None \<Rightarrow> Inl Value_Error  \<comment> \<open>\<open>json.loads\<close> is not guarded here\<close>
      | Some (Some j) \<Rightarrow>
          (case json_get j ''owner'' of
             Inl e \<Rightarrow> Inl e
           | Inr own \<Rightarrow> Inr (if own = Some (JStr owner) then kv_delete ''lease'' name db else db)))"

definition lease_valid :: "string \<Rightarrow> string \<Rightarrow> instant \<Rightarrow> state_db \<Rightarrow> py_error + bool" where
  "lease_valid name owner now db =
     (case kv_lookup ''lease'' name db of
        None \<Rightarrow> Inr True
      | Some None \<Rightarrow> Inr True
      | Some (Some j) \<Rightarrow>
          (case json_get j ''owner'' of
             Inl e \<Rightarrow> Inl e
           | Inr own \<Rightarrow>
               (if own = Some (JStr owner) then Inr True  \<comment> \<open>\<open>or\<close> does not look at the expiry\<close>
                else map_sum id (\<lambda>(_, expires). expires \<le> now) (lease_fields (Some j)))))"

section \<open>Triage tickets\<close>

definition triage_get :: "string \<Rightarrow> state_db \<Rightarrow> ticket option" where
  "triage_get fp db = map_of (db_tickets db) fp"

text \<open>With a fence \<open>(lease, owner)\<close> the write is refused once another owner holds the lease.\<close>

definition fence_holds :: "(string \<times> string) option \<Rightarrow> instant \<Rightarrow> state_db \<Rightarrow> py_error + unit" where
  "fence_holds fence now db =
     (case fence of
        None \<Rightarrow> Inr ()
      | Some (lease, owner) \<Rightarrow>
          (case kv_lookup ''lease'' lease db of
             None \<Rightarrow> Inr ()
           | Some cell \<Rightarrow>
               (case (case cell of None \<Rightarrow> Inr None | Some j \<Rightarrow> json_get j ''owner'') of
                  Inl e \<Rightarrow> Inl e
                | Inr own \<Rightarrow>
                    (if own = Some (JStr owner) then Inr ()
                     else case lease_fields cell of
                       Inl e \<Rightarrow> Inl e
                     | Inr (_, expires) \<Rightarrow> (if expires > now then Inl Lease_Lost else Inr ())))))"

definition triage_put ::
  "ticket \<Rightarrow> (string \<times> string) option \<Rightarrow> instant \<Rightarrow> state_db \<Rightarrow> py_error + state_db" where
  "triage_put rec fence now db =
     (case fence_holds fence now db of
        Inl e \<Rightarrow> Inl e
      | Inr _ \<Rightarrow> Inr (db\<lparr>db_tickets := AList.update (tk_fingerprint rec) rec (db_tickets db)\<rparr>))"

definition triage_prune :: "instant \<Rightarrow> instant \<Rightarrow> state_db \<Rightarrow> state_db \<times> nat" where
  "triage_prune retention now db =
     (let cutoff = now - retention;
          doomed = (\<lambda>t. tk_last_seen t < cutoff \<and> tk_state t \<noteq> Some ''active'')
      in (db\<lparr>db_tickets := filter (\<lambda>(_, t). \<not> doomed t) (db_tickets db)\<rparr>,
          length (filter (\<lambda>(_, t). doomed t) (db_tickets db))))"

definition triage_all :: "nat \<Rightarrow> state_db \<Rightarrow> ticket list" where
  "triage_all limit db = take limit (sort_key (\<lambda>t. - tk_last_seen t) (map snd (db_tickets db)))"

definition triage_count :: "state_db \<Rightarrow> nat" where
  "triage_count db = length (db_tickets db)"

end
