(* ===== verification/Audit_Log.thy ===== *)
theory Audit_Log
  imports State_Store
begin

text \<open>
  The append-only, hash-chained audit trail: the \<open>audit_log\<close> methods of \<open>state_store.py\<close> and the
  recording layer of \<open>audit.py\<close> with its flood throttle.

  SHA-256 and the decimal text of a float are arguments (\<open>sha\<close>, \<open>fr\<close>). Nothing is assumed of them:
  tamper evidence is stated as "the logs agree, or here is a collision of the digest".
\<close>

section \<open>Rows and digests\<close>

definition audit_canon :: "(rat \<Rightarrow> string) \<Rightarrow> string \<Rightarrow> audit_fields \<Rightarrow> string" where
  "audit_canon fr prev f =
     dumps '','' '':'' False fr
       (JList [JStr prev, JNum (au_ts f), JStr (au_actor f), JStr (au_role f), JStr (au_action f),
               JStr (au_target f), JStr (au_outcome f), JStr (au_remote f), JStr (au_detail f)])"

definition audit_digest :: "(string \<Rightarrow> string) \<Rightarrow> (rat \<Rightarrow> string) \<Rightarrow> string \<Rightarrow> audit_fields \<Rightarrow> string" where
  "audit_digest sha fr prev f = sha (audit_canon fr prev f)"

text \<open>What a caller passes; a missing or empty text field takes the default of the code.\<close>

record audit_entry =
  ae_ts :: "instant option"
  ae_actor :: string
  ae_role :: string
  ae_action :: string
  ae_target :: string
  ae_outcome :: string
  ae_remote :: string
  ae_detail :: json

definition entry_fields :: "(rat \<Rightarrow> string) \<Rightarrow> instant \<Rightarrow> audit_entry \<Rightarrow> audit_fields" where
  "entry_fields fr now e =
     \<lparr>au_ts = round_digits 6 (case ae_ts e of None \<Rightarrow> now | Some t \<Rightarrow> if t = 0 then now else t),
      au_actor = take 200 (if ae_actor e = [] then ''unknown'' else ae_actor e),
      au_role = take 40 (ae_role e),
      au_action = take 200 (ae_action e),
      au_target = take 500 (ae_target e),
      au_outcome = take 40 (ae_outcome e),
      au_remote = take 100 (ae_remote e),
      au_detail = take 8000 (dumps '', '' '': '' True fr (if truthy (ae_detail e) then ae_detail e else JObj []))\<rparr>"

definition audit_by_id :: "state_db \<Rightarrow> audit_row list" where
  "audit_by_id db = sort_key ar_id (db_audit db)"

definition audit_append ::
  "(string \<Rightarrow> string) \<Rightarrow> (rat \<Rightarrow> string) \<Rightarrow> instant \<Rightarrow> audit_entry \<Rightarrow> state_db \<Rightarrow> state_db \<times> audit_row" where
  "audit_append sha fr now entry db =
     (let f = entry_fields fr now entry;
          prev = (case rev (audit_by_id db) of [] \<Rightarrow> [] | r # _ \<Rightarrow> ar_hash r);
          row = \<lparr>ar_id = db_audit_seq db + 1, ar_fields = f, ar_prev_hash = prev,
                 ar_hash = audit_digest sha fr prev f\<rparr>
      in (db\<lparr>db_audit := db_audit db @ [row], db_audit_seq := db_audit_seq db + 1\<rparr>, row))"

text \<open>SQL \<open>LIKE\<close>: \<open>%\<close> any run, \<open>_\<close> any character, ASCII letters compared without case.\<close>

fun sql_like :: "string \<Rightarrow> string \<Rightarrow> bool" where
  "sql_like [] s = (s = [])"
| "sql_like (p # ps) [] = (p = CHR ''%'' \<and> sql_like ps [])"
| "sql_like (p # ps) (c # cs) =
     (if p = CHR ''%'' then sql_like ps (c # cs) \<or> sql_like (p # ps) cs
      else (p = CHR ''_'' \<or> lower_char p = lower_char c) \<and> sql_like ps cs)"

definition star_to_percent :: "string \<Rightarrow> string" where
  "star_to_percent s = map (\<lambda>c. if c = CHR ''*'' then CHR ''%'' else c) s"

definition audit_query :: "int \<Rightarrow> string \<Rightarrow> string \<Rightarrow> instant \<Rightarrow> state_db \<Rightarrow> audit_row list" where
  "audit_query limit actor action since db =
     (let hits = filter (\<lambda>r. au_ts (ar_fields r) \<ge> since
                   \<and> (actor = [] \<or> au_actor (ar_fields r) = actor)
                   \<and> (action = [] \<or> sql_like (star_to_percent action) (au_action (ar_fields r))))
                 (rev (audit_by_id db))
      in if limit < 0 then hits else take (nat limit) hits)"

text \<open>\<open>audit_verify\<close>: the loop over the rows in id order, with the running hash and the count.\<close>

record verify_report =
  vr_ok :: bool
  vr_checked :: nat
  vr_broken_at :: "int option"

fun verify_from ::
  "(string \<Rightarrow> string) \<Rightarrow> (rat \<Rightarrow> string) \<Rightarrow> string \<Rightarrow> nat \<Rightarrow> audit_row list \<Rightarrow> verify_report" where
  "verify_from sha fr prev checked [] = \<lparr>vr_ok = True, vr_checked = checked, vr_broken_at = None\<rparr>"
| "verify_from sha fr prev checked (r # rs) =
     (if ar_prev_hash r \<noteq> prev \<or> audit_digest sha fr prev (ar_fields r) \<noteq> ar_hash r
      then \<lparr>vr_ok = False, vr_checked = checked, vr_broken_at = Some (ar_id r)\<rparr>
      else verify_from sha fr (ar_hash r) (Suc checked) rs)"

definition audit_verify :: "(string \<Rightarrow> string) \<Rightarrow> (rat \<Rightarrow> string) \<Rightarrow> state_db \<Rightarrow> verify_report" where
  "audit_verify sha fr db = verify_from sha fr [] 0 (audit_by_id db)"

section \<open>Recording\<close>

record actor =
  ac_name :: string
  ac_role :: string
  ac_remote :: string

definition anonymous :: actor where
  "anonymous = \<lparr>ac_name = ''anonymous'', ac_role = ''none'', ac_remote = []\<rparr>"

text \<open>
  \<open>record\<close>: the store is an argument, \<open>None\<close> when none is configured; an append that raises is
  swallowed, so the audited action is never blocked.
\<close>

definition audit_record ::
  "(audit_entry \<Rightarrow> 'db \<Rightarrow> py_error + 'db \<times> audit_row) \<Rightarrow> actor \<Rightarrow> string \<Rightarrow> string \<Rightarrow> string \<Rightarrow> json
     \<Rightarrow> 'db option \<Rightarrow> 'db option \<times> audit_row option" where
  "audit_record store_append who action target outcome detail store =
     (case store of
        None \<Rightarrow> (None, None)
      | Some db \<Rightarrow>
          (case store_append \<lparr>ae_ts = None, ae_actor = ac_name who, ae_role = ac_role who, ae_action = action,
                         ae_target = target, ae_outcome = outcome, ae_remote = ac_remote who,
                         ae_detail = detail\<rparr> db of
             Inl _ \<Rightarrow> (Some db, None)
           | Inr (db', row) \<Rightarrow> (Some db', Some row)))"

text \<open>The throttle state of \<open>record_throttled\<close> (module globals under one lock).\<close>

record throttle =
  th_last :: "((string \<times> string) \<times> instant) list"
  th_suppressed :: nat
  th_window_start :: instant
  th_window_rows :: nat

definition throttle_max_keys :: nat where "throttle_max_keys = 1024"
definition throttle_global_max :: nat where "throttle_global_max = 120"

definition throttle_init :: throttle where
  "throttle_init = \<lparr>th_last = [], th_suppressed = 0, th_window_start = 0, th_window_rows = 0\<rparr>"

text \<open>The critical section: \<open>None\<close> when the event is only counted, else the count to report.\<close>

definition throttle_step ::
  "string \<Rightarrow> string \<Rightarrow> instant \<Rightarrow> instant \<Rightarrow> throttle \<Rightarrow> throttle \<times> nat option" where
  "throttle_step action key now window_s th =
     (if (case map_of (th_last th) (action, key) of None \<Rightarrow> False | Some t0 \<Rightarrow> now - t0 < window_s)
      then (th\<lparr>th_suppressed := th_suppressed th + 1\<rparr>, None)
      else
        (let th1 = (if now - th_window_start th \<ge> window_s
                    then th\<lparr>th_window_start := now, th_window_rows := 0\<rparr> else th)
         in if th_window_rows th1 \<ge> throttle_global_max
            then (th1\<lparr>th_suppressed := th_suppressed th1 + 1\<rparr>, None)
            else
              (let keys = (if length (th_last th1) \<ge> throttle_max_keys then [] else th_last th1)
               in (th1\<lparr>th_window_rows := th_window_rows th1 + 1,
                       th_last := AList.update (action, key) now keys,
                       th_suppressed := 0\<rparr>,
                   Some (th_suppressed th1)))))"

definition with_suppressed :: "nat \<Rightarrow> (string \<times> json) list \<Rightarrow> json" where
  "with_suppressed n detail =
     JObj (if n = 0 then detail else AList.update ''suppressed'' (JInt (int n)) detail)"

definition record_throttled ::
  "(audit_entry \<Rightarrow> 'db \<Rightarrow> py_error + 'db \<times> audit_row) \<Rightarrow> actor \<Rightarrow> string \<Rightarrow> string \<Rightarrow> string \<Rightarrow> string
     \<Rightarrow> (string \<times> json) list \<Rightarrow> instant \<Rightarrow> instant \<Rightarrow> throttle \<times> 'db option
     \<Rightarrow> (throttle \<times> 'db option) \<times> audit_row option" where
  "record_throttled store_append who action key target outcome detail now window_s st =
     (case st of (th, store) \<Rightarrow>
        (case throttle_step action key now window_s th of
           (th', None) \<Rightarrow> ((th', store), None)
         | (th', Some n) \<Rightarrow>
             (case audit_record store_append who action target outcome (with_suppressed n detail) store of
                (store', row) \<Rightarrow> ((th', store'), row))))"

definition clamp_limit :: "int \<Rightarrow> int" where
  "clamp_limit limit = max 1 (min limit 1000)"

definition query_audit :: "int \<Rightarrow> string \<Rightarrow> string \<Rightarrow> instant \<Rightarrow> state_db option \<Rightarrow> audit_row list" where
  "query_audit limit actor action since store =
     (case store of None \<Rightarrow> [] | Some db \<Rightarrow> audit_query (clamp_limit limit) actor action since db)"

definition verify_audit ::
  "(string \<Rightarrow> string) \<Rightarrow> (rat \<Rightarrow> string) \<Rightarrow> state_db option \<Rightarrow> verify_report" where
  "verify_audit sha fr store =
     (case store of None \<Rightarrow> \<lparr>vr_ok = False, vr_checked = 0, vr_broken_at = None\<rparr>
      | Some db \<Rightarrow> audit_verify sha fr db)"

section \<open>The hash chain\<close>

definition audit_ordered :: "state_db \<Rightarrow> bool" where
  "audit_ordered db \<longleftrightarrow> sorted_wrt (\<lambda>a b. ar_id a < ar_id b) (db_audit db) \<and>
     (\<forall>r\<in>set (db_audit db). ar_id r \<le> db_audit_seq db)"

fun last_hash :: "string \<Rightarrow> audit_row list \<Rightarrow> string" where
  "last_hash h [] = h"
| "last_hash h (r # rs) = last_hash (ar_hash r) rs"

lemma audit_by_id_ordered: "audit_ordered db \<Longrightarrow> audit_by_id db = db_audit db"
proof -
  have "sorted (map f xs)" if "sorted_wrt (\<lambda>a b. f a < f b) xs" for f :: "audit_row \<Rightarrow> int" and xs
    using that by (induction xs) (auto simp: less_imp_le)
  then show "audit_ordered db \<Longrightarrow> ?thesis"
    by (simp add: audit_by_id_def audit_ordered_def sort_key_id_if_sorted)
qed

lemma verify_from_append:
  "vr_ok (verify_from sha fr h n (xs @ ys)) \<longleftrightarrow>
     vr_ok (verify_from sha fr h n xs) \<and> vr_ok (verify_from sha fr (last_hash h xs) (n + length xs) ys)"
  by (induction xs arbitrary: h n) auto

lemma last_hash_snoc [simp]: "last_hash h (xs @ [x]) = ar_hash x"
  by (induction xs arbitrary: h) auto

lemma last_hash_rev: "last_hash h xs = (case rev xs of [] \<Rightarrow> h | r # _ \<Rightarrow> ar_hash r)"
  by (cases xs rule: rev_cases) auto

lemma verify_ok_report:
  "vr_ok (verify_from sha fr h n xs) \<Longrightarrow>
     verify_from sha fr h n xs = \<lparr>vr_ok = True, vr_checked = n + length xs, vr_broken_at = None\<rparr>"
proof (induction xs arbitrary: h n)
  case (Cons a xs)
  then have "vr_ok (verify_from sha fr (ar_hash a) (Suc n) xs)" by (simp split: if_splits)
  from Cons.IH [OF this] Cons.prems show ?case by (auto split: if_splits)
qed simp

text \<open>
  C26: \<open>audit_append\<close> keeps the log ordered and its hash chain intact: a log that verifies still
  verifies after any entry is appended, with one more row checked, and the rows before it unchanged.
\<close>

theorem audit_append_verifies:
  assumes "audit_ordered db" and "vr_ok (audit_verify sha fr db)"
    and "audit_append sha fr now entry db = (db', row)"
  shows "audit_ordered db' \<and> db_audit db' = db_audit db @ [row] \<and>
         audit_verify sha fr db' = \<lparr>vr_ok = True, vr_checked = Suc (length (db_audit db)), vr_broken_at = None\<rparr>"
proof -
  let ?h = "last_hash [] (db_audit db)"
  have row: "db_audit db' = db_audit db @ [row]" "db_audit_seq db' = db_audit_seq db + 1"
      "ar_id row = db_audit_seq db + 1" "ar_prev_hash row = ?h"
      "ar_hash row = audit_digest sha fr ?h (ar_fields row)"
    using assms(3) by (auto simp: audit_append_def Let_def audit_by_id_ordered [OF assms(1)] last_hash_rev)
  have ord: "audit_ordered db'"
    using assms(1) row(1-3) by (auto simp: audit_ordered_def sorted_wrt_append le_less_trans intro: le_imp_less_Suc)
  have "vr_ok (verify_from sha fr [] 0 (db_audit db @ [row]))"
    using assms(1,2) row(4,5) unfolding verify_from_append audit_verify_def
    by (simp add: audit_by_id_ordered)
  from verify_ok_report [OF this] ord row(1) show ?thesis
    by (simp add: audit_verify_def audit_by_id_ordered)
qed

definition demo_entry :: audit_entry where
  "demo_entry = \<lparr>ae_ts = None, ae_actor = ''ana'', ae_role = ''admin'', ae_action = ''run'', ae_target = ''r1'',
     ae_outcome = ''ok'', ae_remote = [], ae_detail = JObj []\<rparr>"

lemma audit_ordered_empty: "audit_ordered empty_db"
  by (simp add: audit_ordered_def)

lemma audit_verify_empty: "vr_ok (audit_verify sha fr empty_db)"
  by (simp add: audit_verify_def audit_by_id_def)

theorem audit_append_verifies_witness:
  "vr_checked (audit_verify id (\<lambda>_. ''1.0'') (fst (audit_append id (\<lambda>_. ''1.0'') 1 demo_entry empty_db))) = 1"
proof -
  obtain db' row where e: "audit_append id (\<lambda>_. ''1.0'') 1 demo_entry empty_db = (db', row)" by force
  from audit_append_verifies [OF audit_ordered_empty audit_verify_empty e] show ?thesis
    by (simp add: e)
qed

lemma chain_agrees:
  assumes "length xs = length ys" and "vr_ok (verify_from sha fr h n xs)" and "vr_ok (verify_from sha fr h' m ys)"
    and "last_hash h xs = last_hash h' ys"
  shows "(h = h' \<and> map ar_fields xs = map ar_fields ys) \<or>
         (\<exists>p f p' f'. (p, f) \<noteq> (p', f') \<and> audit_digest sha fr p f = audit_digest sha fr p' f')"
  using assms
proof (induction xs ys arbitrary: h h' n m rule: list_induct2)
  case Nil
  then show ?case by simp
next
  case (Cons x xs y ys)
  from Cons.prems have ok: "audit_digest sha fr h (ar_fields x) = ar_hash x"
      "audit_digest sha fr h' (ar_fields y) = ar_hash y"
      "vr_ok (verify_from sha fr (ar_hash x) (Suc n) xs)" "vr_ok (verify_from sha fr (ar_hash y) (Suc m) ys)"
      "last_hash (ar_hash x) xs = last_hash (ar_hash y) ys"
    by (auto split: if_splits)
  from Cons.IH [OF ok(3-5)] show ?case
  proof
    assume "ar_hash x = ar_hash y \<and> map ar_fields xs = map ar_fields ys"
    with ok(1,2) show ?thesis by (cases "(h, ar_fields x) = (h', ar_fields y)") (auto, metis+)
  qed blast
qed



text \<open>
  An edit in place is located. Changing the fields of one row of a verified log, with its hash
  left alone, makes \<open>audit_verify\<close> stop at exactly that row, unless the edit collides with the
  original under the digest.
\<close>

theorem audit_edit_located:
  assumes "vr_ok (verify_from sha fr [] 0 (before @ r # after))"
    and "audit_digest sha fr (last_hash [] before) f' \<noteq> audit_digest sha fr (last_hash [] before) (ar_fields r)"
  shows "verify_from sha fr [] 0 (before @ r\<lparr>ar_fields := f'\<rparr> # after) =
           \<lparr>vr_ok = False, vr_checked = length before, vr_broken_at = Some (ar_id r)\<rparr>"
proof -
  have walk: "verify_from sha fr h n (xs @ ys) = verify_from sha fr (last_hash h xs) (n + length xs) ys"
    if "vr_ok (verify_from sha fr h n xs)" for h n xs ys
    using that by (induction xs arbitrary: h n) (auto split: if_splits)
  from assms(1) have "vr_ok (verify_from sha fr [] 0 before)"
    and r: "audit_digest sha fr (last_hash [] before) (ar_fields r) = ar_hash r"
    by (auto simp: verify_from_append split: if_splits)
  from walk [OF this(1)] r assms(2) show ?thesis by auto
qed

theorem audit_edit_located_witness:
  "vr_broken_at (verify_from id (\<lambda>_. ''1.0'') [] 0
     [(snd (audit_append id (\<lambda>_. ''1.0'') 1 demo_entry empty_db))\<lparr>ar_fields :=
        (entry_fields (\<lambda>_. ''1.0'') 1 demo_entry)\<lparr>au_actor := ''bob''\<rparr>\<rparr>]) = Some 1"
proof -
  let ?r = "snd (audit_append id (\<lambda>_. ''1.0'') 1 demo_entry empty_db)"
  let ?f = "(entry_fields (\<lambda>_. ''1.0'') 1 demo_entry)\<lparr>au_actor := ''bob''\<rparr>"
  have ok: "vr_ok (verify_from id (\<lambda>_. ''1.0'') [] 0 ([] @ ?r # []))"
    by (simp add: audit_append_def audit_by_id_def Let_def)
  have ne: "audit_digest id (\<lambda>_. ''1.0'') (last_hash [] []) ?f \<noteq>
            audit_digest id (\<lambda>_. ''1.0'') (last_hash [] []) (ar_fields ?r)"
    by (simp add: audit_append_def audit_digest_def audit_canon_def entry_fields_def demo_entry_def
        Let_def json_quote_def json_escape_char_def)
  have "ar_id ?r = 1" by (simp add: audit_append_def Let_def)
  with audit_edit_located [OF ok ne] show ?thesis by simp
qed

text \<open>
  What the chain does not show. Removing the newest rows of a verified log leaves a log that still
  verifies: only an anchor outside the file (its last hash or length) reveals a cut tail.
\<close>

theorem audit_truncation_undetected:
  assumes "audit_ordered db" and "vr_ok (audit_verify sha fr db)"
  shows "audit_verify sha fr (db\<lparr>db_audit := take k (db_audit db)\<rparr>) =
           \<lparr>vr_ok = True, vr_checked = min k (length (db_audit db)), vr_broken_at = None\<rparr>"
proof -
  have ord: "audit_ordered (db\<lparr>db_audit := take k (db_audit db)\<rparr>)"
    using assms(1) by (auto simp: audit_ordered_def sorted_wrt_take dest: in_set_takeD)
  have "vr_ok (verify_from sha fr [] 0 (take k (db_audit db) @ drop k (db_audit db)))"
    using assms by (simp add: audit_verify_def audit_by_id_ordered)
  then have "vr_ok (verify_from sha fr [] 0 (take k (db_audit db)))"
    unfolding verify_from_append by simp
  from verify_ok_report [OF this] ord show ?thesis
    by (simp add: audit_verify_def audit_by_id_ordered min.commute)
qed

theorem audit_truncation_undetected_witness:
  "vr_ok (audit_verify id (\<lambda>_. ''1.0'') ((fst (audit_append id (\<lambda>_. ''1.0'') 1 demo_entry empty_db))\<lparr>db_audit := []\<rparr>))"
proof -
  obtain db' row where e: "audit_append id (\<lambda>_. ''1.0'') 1 demo_entry empty_db = (db', row)" by force
  note a = audit_append_verifies [OF audit_ordered_empty audit_verify_empty e]
  then have "audit_ordered db'" "vr_ok (audit_verify id (\<lambda>_. ''1.0'') db')" by auto
  from audit_truncation_undetected [OF this, of 0] show ?thesis by (simp add: e)
qed

section \<open>The throttle\<close>

type_synonym attempt = "string \<times> string \<times> instant"

fun throttle_run :: "instant \<Rightarrow> attempt list \<Rightarrow> throttle \<Rightarrow> throttle \<times> nat list" where
  "throttle_run w [] th = (th, [])"
| "throttle_run w ((a, k, now) # es) th =
     (case throttle_step a k now w th of
        (th', None) \<Rightarrow> throttle_run w es th'
      | (th', Some n) \<Rightarrow> (case throttle_run w es th' of (th'', ns) \<Rightarrow> (th'', n # ns)))"

lemma throttle_step_count:
  "throttle_step a k now w th = (th', None) \<Longrightarrow> th_suppressed th' = Suc (th_suppressed th)"
  "throttle_step a k now w th = (th', Some n) \<Longrightarrow> n = th_suppressed th \<and> th_suppressed th' = 0"
  by (auto simp: throttle_step_def Let_def split: if_splits)

text \<open>
  A flood stays visible. Over any sequence of throttled events, the rows written plus the
  suppressed counts they carry plus the count still pending account for every event.
\<close>

theorem throttle_counts_everything:
  "throttle_run w es th = (th', written) \<Longrightarrow>
     length written + sum_list written + th_suppressed th' = length es + th_suppressed th"
proof (induction es arbitrary: th written)
  case Nil
  then show ?case by simp
next
  case (Cons e es)
  obtain a k now where e: "e = (a, k, now)" by (metis prod.exhaust)
  obtain th1 r where s: "throttle_step a k now w th = (th1, r)" by force
  show ?case
  proof (cases r)
    case None
    then have "throttle_run w es th1 = (th', written)" using Cons.prems e s by simp
    from Cons.IH [OF this] throttle_step_count(1) [OF s [unfolded None]] show ?thesis by simp
  next
    case (Some n)
    obtain ns where ns: "throttle_run w es th1 = (th', ns)" "written = n # ns"
      using Cons.prems e s Some by (auto split: prod.splits)
    from Cons.IH [OF ns(1)] throttle_step_count(2) [OF s [unfolded Some]] ns(2) show ?thesis by simp
  qed
qed

theorem throttle_counts_everything_witness:
  "snd (throttle_run 60 [(''auth'', ''ip'', 1), (''auth'', ''ip'', 2), (''auth'', ''ip'', 3), (''auth'', ''ip'', 70)]
      throttle_init) = [0, 2]"
proof -
  let ?es = "[(''auth'', ''ip'', 1), (''auth'', ''ip'', 2), (''auth'', ''ip'', 3), (''auth'', ''ip'', 70)] :: attempt list"
  obtain th' ws where r: "throttle_run 60 ?es throttle_init = (th', ws)" by force
  have "th_suppressed th' = 0" "ws = [0, 2]"
    using r by (auto simp: throttle_step_def throttle_init_def Let_def throttle_global_max_def
        throttle_max_keys_def)
  with throttle_counts_everything [OF r] r show ?thesis by simp
qed

text \<open>Between two resets of the global window at most 120 rows are written.\<close>

lemma throttle_step_window:
  assumes "throttle_step a k now w th = (th', r)" and "th_window_rows th \<le> throttle_global_max"
  shows "th_window_rows th' \<le> throttle_global_max"
  using assms by (auto simp: throttle_step_def Let_def split: if_splits)

text \<open>
  One row per key and window. After a row is written for \<open>(action, key)\<close> at time \<open>t\<close>, the same
  key is only counted until \<open>t + window\<close>, unless the key table was cleared because it was full.
\<close>

theorem throttle_key_once:
  assumes "throttle_step a k t w th = (th1, Some n)" and "now < t + w"
  shows "fst (throttle_step a k now w th1) = th1\<lparr>th_suppressed := 1\<rparr> \<and> snd (throttle_step a k now w th1) = None"
proof -
  have "map_of (th_last th1) (a, k) = Some t" and "th_suppressed th1 = 0"
    using assms(1) by (auto simp: throttle_step_def Let_def split: if_splits)
  with assms(2) show ?thesis by (simp add: throttle_step_def)
qed

theorem throttle_key_once_witness:
  "snd (throttle_step ''auth'' ''ip'' 59 60 (fst (throttle_step ''auth'' ''ip'' 0 60 throttle_init))) = None"
proof -
  have "throttle_step ''auth'' ''ip'' 0 60 throttle_init =
      (fst (throttle_step ''auth'' ''ip'' 0 60 throttle_init), Some 0)"
    by (simp add: throttle_step_def throttle_init_def throttle_global_max_def throttle_max_keys_def)
  from throttle_key_once [OF this, of 59] show ?thesis by simp
qed

end
