(* ===== verification/Web_Guard.thy ===== *)
theory Web_Guard
  imports Rbac Audit_Log
begin

text \<open>
  The guards of the HTTP API (\<open>web/app.py\<close>): the token taken from the headers, the role gate around a
  route with what it audits, the Host check of the unauthenticated mode, and the confinement of file
  reads. A request is the record of the parts the guards read; a route handler is a value saying what
  it would do (return a status or raise), and the gate decides whether it runs.
\<close>

section \<open>Requests\<close>

record request =
  rq_api_token :: string       \<comment> \<open>header \<open>X-API-Token\<close>, empty when absent\<close>
  rq_authorization :: string   \<comment> \<open>header \<open>Authorization\<close>\<close>
  rq_host :: string
  rq_remote :: string
  rq_path :: string
  rq_method :: string

definition token_supplied :: "request \<Rightarrow> string" where
  "token_supplied rq =
     (if rq_api_token rq \<noteq> [] then rq_api_token rq
      else if starts_with ''Bearer '' (rq_authorization rq) then strip (drop 7 (rq_authorization rq))
      else [])"

section \<open>The role gate\<close>

text \<open>What a route does when it runs: answer with a status, or raise with an optional HTTP code.\<close>

datatype route_result = Answer int | Raised "int option"

datatype audit_call =
    Audit_Recorded actor string string string "(string \<times> json) list"
      \<comment> \<open>actor, action, target, outcome, detail\<close>
  | Audit_Throttled actor string string string string "(string \<times> json) list"
      \<comment> \<open>actor, action, key, target, outcome, detail\<close>

datatype gate_outcome = Aborted int | Ran actor route_result

definition audit_auth_failure :: "request \<Rightarrow> audit_call" where
  "audit_auth_failure rq =
     Audit_Throttled \<lparr>ac_name = ''unknown'', ac_role = ''none'', ac_remote = rq_remote rq\<rparr>
       ''authn.failed'' (rq_remote rq) (rq_path rq) ''unauthorized''
       [(''method'', JStr (rq_method rq)),
        (''token'', JStr (if token_supplied rq \<noteq> [] then ''invalid'' else ''missing''))]"

text \<open>\<open>detail\<close> is the extractor's result, \<open>None\<close> when it raises.\<close>

definition audit_route ::
  "actor \<Rightarrow> string \<Rightarrow> (string \<times> json) list option \<Rightarrow> int \<Rightarrow> request \<Rightarrow> audit_call" where
  "audit_route who action detail status rq =
     Audit_Recorded who action (rq_path rq)
       (if status < 400 then ''ok'' else ''http_'' @ show_int status)
       (fold (\<lambda>(k, v) d. AList.update k v d) (case detail of None \<Rightarrow> [] | Some d \<Rightarrow> d)
             [(''method'', JStr (rq_method rq))])"

text \<open>
  \<open>require_role\<close>: \<open>ps\<close> are the configured principals. The result is the outcome and the audit calls in
  order; a configuration the gate cannot use (\<open>authenticate\<close> raises) propagates.
\<close>

definition run_route ::
  "actor \<Rightarrow> string option \<Rightarrow> (string \<times> json) list option \<Rightarrow> route_result \<Rightarrow> request
     \<Rightarrow> gate_outcome \<times> audit_call list" where
  "run_route who audit_action detail route rq =
     (Ran who route,
      (case audit_action of
         None \<Rightarrow> []
       | Some a \<Rightarrow>
           [audit_route who a detail
              (case route of Answer s \<Rightarrow> s
               | Raised code \<Rightarrow> (case code of None \<Rightarrow> 500 | Some c \<Rightarrow> if c = 0 then 500 else c)) rq]))"

definition require_role ::
  "(string \<Rightarrow> string) \<Rightarrow> principal list \<Rightarrow> string \<Rightarrow> string option \<Rightarrow> (string \<times> json) list option
     \<Rightarrow> route_result \<Rightarrow> request \<Rightarrow> py_error + gate_outcome \<times> audit_call list" where
  "require_role digest ps role audit_action detail route rq =
     (if map_of rank role = None then Inl Value_Error
      else if auth_enabled ps
      then (case authenticate digest (token_supplied rq) ps of
              Inl e \<Rightarrow> Inl e
            | Inr None \<Rightarrow> Inr (Aborted 401, [audit_auth_failure rq])
            | Inr (Some p) \<Rightarrow>
                (let who = \<lparr>ac_name = pr_name p, ac_role = pr_role p, ac_remote = rq_remote rq\<rparr>
                 in case allows p role of
                      Inl e \<Rightarrow> Inl e
                    | Inr False \<Rightarrow>
                        Inr (Aborted 403,
                             [Audit_Recorded who ''authz.denied'' (rq_path rq) ''denied''
                                [(''required'', JStr role), (''method'', JStr (rq_method rq))]])
                    | Inr True \<Rightarrow> Inr (run_route who audit_action detail route rq)))
      else Inr (run_route \<lparr>ac_name = ''anonymous'', ac_role = ''dev'', ac_remote = rq_remote rq\<rparr>
                  audit_action detail route rq))"

definition actor_allows :: "actor \<Rightarrow> string \<Rightarrow> py_error + bool" where
  "actor_allows who role =
     (if ac_role who = ''dev'' then Inr True
      else case map_of rank role of
             None \<Rightarrow> Inl Key_Error | Some r \<Rightarrow> Inr (dict_get rank (ac_role who) 0 \<ge> r))"

section \<open>Startup\<close>

text \<open>\<open>_check_auth_config\<close>: \<open>Inl\<close> is the \<open>RuntimeError\<close> that refuses to start.\<close>

definition check_auth_config :: "(string \<Rightarrow> string) \<Rightarrow> py_error + principal list \<Rightarrow> py_error + bool" where
  "check_auth_config env loaded =
     (case loaded of
        Inl e \<Rightarrow> Inl e
      | Inr ps \<Rightarrow> (if auth_required env \<and> \<not> auth_enabled ps then Inl Config_Error else Inr (auth_enabled ps)))"

section \<open>The Host check\<close>

definition count_char :: "char \<Rightarrow> string \<Rightarrow> nat" where
  "count_char c s = length (filter (\<lambda>x. x = c) s)"

text \<open>\<open>h.rsplit(":", 1)[0]\<close> of a text with exactly one colon is what precedes it.\<close>

definition host_only :: "string \<Rightarrow> string" where
  "host_only host =
     (let h = lower (strip host)
      in if starts_with ''['' h
         then (if CHR '']'' \<in> set h then takeWhile (\<lambda>c. c \<noteq> CHR '']'') h @ '']'' else h)
         else if count_char (CHR '':'') h = 1 then takeWhile (\<lambda>c. c \<noteq> CHR '':'') h else h)"

definition allowed_hosts :: "string option \<Rightarrow> string \<Rightarrow> string list" where
  "allowed_hosts configured bind_env =
     (let raw = (case configured of None \<Rightarrow> ''localhost,127.0.0.1,[::1]'' | Some r \<Rightarrow> r);
          hosts = map host_only (filter (\<lambda>h. strip h \<noteq> []) (split_on (CHR '','') raw));
          bnd = strip bind_env
      in if bnd \<noteq> [] \<and> bnd \<notin> {''0.0.0.0'', ''::''}
         then hosts @ [host_only (if CHR '':'' \<in> set bnd \<and> \<not> starts_with ''['' bnd then ''['' @ bnd @ '']'' else bnd)]
         else hosts)"

text \<open>\<open>True\<close>: the request is refused with 400 before any route runs.\<close>

definition reject_unknown_host :: "string list \<Rightarrow> bool \<Rightarrow> request \<Rightarrow> bool" where
  "reject_unknown_host hosts auth_on rq =
     (if ''*'' \<in> set hosts \<or> auth_on then False
      else rq_host rq \<noteq> [] \<and> host_only (rq_host rq) \<notin> set hosts)"

section \<open>File reads\<close>

text \<open>\<open>fnmatchcase\<close> for the patterns used here, whose only special character is \<open>*\<close>.\<close>

fun glob_match :: "string \<Rightarrow> string \<Rightarrow> bool" where
  "glob_match [] s = (s = [])"
| "glob_match (p # ps) [] = (p = CHR ''*'' \<and> glob_match ps [])"
| "glob_match (p # ps) (c # cs) =
     (if p = CHR ''*'' then glob_match ps (c # cs) \<or> glob_match (p # ps) cs
      else p = c \<and> glob_match ps cs)"

definition denied_name_globs :: "string list" where
  "denied_name_globs =
     [''id_rsa*'', ''id_dsa*'', ''id_ecdsa*'', ''id_ed25519*'', ''*.pem'', ''*.key'', ''*.p12'', ''*.pfx'',
      ''*.jks'', ''*.kdbx'', ''credentials*'', ''*rbac*'', ''shadow*'', ''htpasswd*'',
      ''*.db'', ''*.db-wal'', ''*.db-shm'', ''*.sqlite'', ''*.sqlite3'']"

definition denied_part :: "string \<Rightarrow> bool" where
  "denied_part part =
     (starts_with ''.'' part \<or> list_ex (\<lambda>g. glob_match g (lower part)) denied_name_globs)"

text \<open>
  \<open>_path_allowed\<close>: the resolved path and the roots are lists of components; \<open>None\<close> is a path whose
  \<open>resolve()\<close> raises \<open>OSError\<close>. The first root the path lies under decides.
\<close>

fun path_allowed :: "string list list \<Rightarrow> string list option \<Rightarrow> bool" where
  "path_allowed roots None = False"
| "path_allowed [] (Some p) = False"
| "path_allowed (rt # roots) (Some p) =
     (if starts_with rt p then \<not> list_ex denied_part (drop (length rt) p)
      else path_allowed roots (Some p))"

text \<open>\<open>_parse_bool\<close> of a JSON body field (\<open>None\<close>: the field is absent or null).\<close>

definition parse_bool :: "json \<Rightarrow> bool \<Rightarrow> bool" where
  "parse_bool value dflt =
     (case value of
        JNull \<Rightarrow> dflt
      | JBool b \<Rightarrow> b
      | JInt i \<Rightarrow> i \<noteq> 0
      | JNum r \<Rightarrow> r \<noteq> 0
      | JStr s \<Rightarrow> lower (strip s) \<in> {''1'', ''true'', ''yes'', ''on''}
      | _ \<Rightarrow> dflt)"

section \<open>Laws\<close>


definition demo_request :: request where
  "demo_request = \<lparr>rq_api_token = [], rq_authorization = ''Bearer secret-1'', rq_host = ''localhost'',
     rq_remote = ''10.0.0.9'', rq_path = ''/api/run'', rq_method = ''POST''\<rparr>"


text \<open>
  Refuse to start open. With \<open>AI_LOG_ANALYZER_REQUIRE_AUTH\<close> set, startup succeeds only when
  authentication is on, whatever tokens are configured; a configuration error also refuses.
\<close>

theorem startup_never_open:
  assumes "auth_required env" and "check_auth_config env loaded = Inr on"
  shows "on \<and> (\<exists>ps. loaded = Inr ps \<and> ps \<noteq> [])"
  using assms by (auto simp: check_auth_config_def auth_enabled_def split: sum.splits if_splits)

theorem startup_never_open_witness:
  "check_auth_config (\<lambda>_. ''TRUE'') (Inr []) = Inl Config_Error \<and>
   check_auth_config (\<lambda>_. ''TRUE'') (Inr [\<lparr>pr_name = ''a'', pr_role = ''admin'', pr_token_sha256 = ''x''\<rparr>]) = Inr True"
proof -
  have req: "auth_required (\<lambda>_. ''TRUE'')" by code_simp
  have ok: "check_auth_config (\<lambda>_. ''TRUE'') (Inr [\<lparr>pr_name = ''a'', pr_role = ''admin'', pr_token_sha256 = ''x''\<rparr>]) = Inr True"
    by (simp add: check_auth_config_def auth_enabled_def)
  from startup_never_open [OF req ok] req ok show ?thesis
    by (simp add: check_auth_config_def auth_enabled_def)
qed

text \<open>
  File reads are confined. An allowed path lies under one of the configured roots, and no
  component below that root is hidden (starts with a dot) or matches a credential or database pattern.
\<close>

theorem path_allowed_confined:
  assumes "path_allowed roots (Some p)"
  shows "\<exists>rt\<in>set roots. \<exists>below. p = rt @ below \<and>
           (\<forall>part\<in>set below. \<not> starts_with ''.'' part \<and>
              (\<forall>g\<in>set denied_name_globs. \<not> glob_match g (lower part)))"
  using assms
proof (induction roots)
  case (Cons rt roots)
  show ?case
  proof (cases "starts_with rt p")
    case True
    then obtain below where "p = rt @ below" by (auto simp: starts_with_iff)
    with True Cons.prems show ?thesis
      by (auto simp: list_ex_iff denied_part_def intro!: bexI [of _ rt])
  next
    case False
    with Cons show ?thesis by auto
  qed
qed simp

theorem path_allowed_confined_witness:
  "path_allowed [[''var'', ''log'']] (Some [''var'', ''log'', ''r1.log'']) \<and>
   \<not> path_allowed [[''var'', ''log'']] (Some [''var'', ''log'', ''.ssh'', ''x'']) \<and>
   \<not> path_allowed [[''var'', ''log'']] (Some [''var'', ''log'', ''Server.PEM''])"
proof -
  have a: "path_allowed [[''var'', ''log'']] (Some [''var'', ''log'', ''r1.log''])" by code_simp
  have b: "\<not> path_allowed [[''var'', ''log'']] (Some [''var'', ''log'', ''.ssh'', ''x''])"
  proof
    assume "path_allowed [[''var'', ''log'']] (Some [''var'', ''log'', ''.ssh'', ''x''])"
    from path_allowed_confined [OF this] show False by simp
  qed
  have c: "\<not> path_allowed [[''var'', ''log'']] (Some [''var'', ''log'', ''Server.PEM''])" by code_simp
  from a b c show ?thesis by blast
qed

end
