(* ===== verification/Spool_Laws.thy ===== *)
theory Spool_Laws
  imports State_Store
begin

text \<open>
  Correctness of the durable spool of \<open>state_store.py\<close>: ids stay strictly increasing and are never
  reused, the cached row count of \<open>spool_meta\<close> is the real one, pruning removes exactly the oldest
  rows, and a writer keeps a source within its cap plus one prune interval.
\<close>

section \<open>Sorted lists by a key\<close>

definition key_sorted :: "('a \<Rightarrow> int) \<Rightarrow> 'a list \<Rightarrow> bool" where
  "key_sorted f xs = sorted_wrt (\<lambda>a b. f a < f b) xs"

lemma key_sorted_simps [simp]:
  "key_sorted f []" "key_sorted f (x # xs) \<longleftrightarrow> (\<forall>y\<in>set xs. f x < f y) \<and> key_sorted f xs"
  by (simp_all add: key_sorted_def)

lemma key_sorted_sort_key: "key_sorted f xs \<Longrightarrow> sort_key f xs = xs"
  by (induction xs) (auto simp: insort_is_Cons less_imp_le)

lemma key_sorted_filter: "key_sorted f xs \<Longrightarrow> key_sorted f (filter P xs)"
  by (simp add: key_sorted_def sorted_wrt_filter)

lemma key_sorted_append:
  "key_sorted f (xs @ ys) \<longleftrightarrow> key_sorted f xs \<and> key_sorted f ys \<and> (\<forall>x\<in>set xs. \<forall>y\<in>set ys. f x < f y)"
  by (auto simp: key_sorted_def sorted_wrt_append)

lemma key_sorted_filter_le_nth:
  assumes "key_sorted f xs" and "n < length xs"
  shows "filter (\<lambda>r. f r \<le> f (xs ! n)) xs = take (Suc n) xs"
    and "filter (\<lambda>r. \<not> f r \<le> f (xs ! n)) xs = drop (Suc n) xs"
proof -
  let ?b = "f (xs ! n)"
  have split: "xs = take (Suc n) xs @ drop (Suc n) xs" by simp
  have t: "take (Suc n) xs = take n xs @ [xs ! n]" using assms(2)
    by (simp add: take_Suc_conv_app_nth)
  from assms(1) have ks: "key_sorted f (take (Suc n) xs @ drop (Suc n) xs)" by simp
  then have lo: "\<forall>r\<in>set (take (Suc n) xs). f r \<le> ?b"
    unfolding t by (auto simp: key_sorted_append less_imp_le)
  have hi: "\<forall>r\<in>set (drop (Suc n) xs). \<not> f r \<le> ?b"
    using ks unfolding t by (fastforce simp: key_sorted_append)
  have cut: "filter P xs = filter P (take (Suc n) xs) @ filter P (drop (Suc n) xs)" for P
    by (metis append_take_drop_id filter_append)
  show "filter (\<lambda>r. f r \<le> ?b) xs = take (Suc n) xs"
    unfolding cut using lo hi by (simp only: filter_True filter_False) simp
  show "filter (\<lambda>r. \<not> f r \<le> ?b) xs = drop (Suc n) xs"
    unfolding cut using lo hi by (simp only: filter_True filter_False not_not) simp
qed

section \<open>The spool invariant\<close>

definition spool_inv :: "state_db \<Rightarrow> bool" where
  "spool_inv db \<longleftrightarrow>
     key_sorted sp_id (db_spool db) \<and> (\<forall>r\<in>set (db_spool db). sp_id r \<le> db_spool_seq db) \<and>
     (\<forall>src m. map_of (db_spool_meta db) src = Some m \<longrightarrow> sm_rows m = spool_count src db)"

definition of_source :: "string \<Rightarrow> state_db \<Rightarrow> spool_row list" where
  "of_source src db = filter (\<lambda>r. sp_source r = src) (db_spool db)"

definition payload :: "spool_row \<Rightarrow> instant \<times> string \<times> string" where
  "payload r = (sp_received_at r, sp_sender r, sp_line r)"

lemma spool_inv_empty: "spool_inv empty_db"
  by (simp add: spool_inv_def key_sorted_def)

lemma spool_count_of_source: "spool_count src db = int (length (of_source src db))"
  by (simp add: spool_count_def of_source_def)

lemma spool_rows_of_source:
  "key_sorted sp_id (db_spool db) \<Longrightarrow> spool_rows src db = of_source src db"
  by (simp add: spool_rows_def of_source_def key_sorted_sort_key key_sorted_filter)

lemma set_meta_frame [simp]:
  "db_spool (set_meta src m db) = db_spool db" "db_spool_seq (set_meta src m db) = db_spool_seq db"
  "db_kv (set_meta src m db) = db_kv db"
  "db_spool_meta (set_meta src m db) = AList.update src m (db_spool_meta db)"
  by (simp_all add: set_meta_def)

lemma update_meta_frame [simp]:
  "db_spool (update_meta src f db) = db_spool db" "db_spool_seq (update_meta src f db) = db_spool_seq db"
  "db_kv (update_meta src f db) = db_kv db"
  by (simp_all add: update_meta_def split: option.splits)

lemma map_of_update_meta [simp]:
  "map_of (db_spool_meta (update_meta src f db)) s =
     (if s = src then map_option f (map_of (db_spool_meta db) src) else map_of (db_spool_meta db) s)"
  by (auto simp: update_meta_def split: option.splits)

lemma of_source_meta [simp]:
  "of_source s (set_meta src m db) = of_source s db" "of_source s (update_meta src f db) = of_source s db"
  by (simp_all add: of_source_def)

lemma spool_count_meta [simp]:
  "spool_count s (set_meta src m db) = spool_count s db"
  "spool_count s (update_meta src f db) = spool_count s db"
  by (simp_all add: spool_count_of_source)

section \<open>Insertion\<close>

definition spool_ordered :: "state_db \<Rightarrow> bool" where
  "spool_ordered db \<longleftrightarrow>
     key_sorted sp_id (db_spool db) \<and> (\<forall>r\<in>set (db_spool db). sp_id r \<le> db_spool_seq db)"

lemma spool_insert_ordered: "spool_ordered db \<Longrightarrow> spool_ordered (spool_insert src row db)"
  by (cases row)
     (auto simp: spool_ordered_def spool_insert_def key_sorted_append le_imp_less_Suc
           dest!: bspec intro: add_increasing2)

lemma fold_insert_ordered: "spool_ordered db \<Longrightarrow> spool_ordered (fold (spool_insert src) rows db)"
  by (induction rows arbitrary: db) (auto intro: spool_insert_ordered)

lemma fold_insert_frame [simp]:
  "db_spool_meta (fold (spool_insert src) rows db) = db_spool_meta db"
  "db_kv (fold (spool_insert src) rows db) = db_kv db"
  by (induction rows arbitrary: db) (auto simp: spool_insert_def split: prod.splits)

lemma fold_insert_other:
  "s \<noteq> src \<Longrightarrow> of_source s (fold (spool_insert src) rows db) = of_source s db"
  by (induction rows arbitrary: db) (auto simp: spool_insert_def of_source_def split: prod.splits)

lemma fold_insert_payload:
  "map payload (of_source src (fold (spool_insert src) rows db)) = map payload (of_source src db) @ rows"
  by (induction rows arbitrary: db)
     (auto simp: spool_insert_def of_source_def payload_def split: prod.splits)

lemma fold_insert_count:
  "spool_count s (fold (spool_insert src) rows db) =
     spool_count s db + (if s = src then int (length rows) else 0)"
proof (cases "s = src")
  case True
  have "length (map payload (of_source src (fold (spool_insert src) rows db))) =
          length (map payload (of_source src db)) + length rows"
    unfolding fold_insert_payload by simp
  with True show ?thesis by (simp add: spool_count_of_source)
qed (simp add: spool_count_of_source fold_insert_other)

section \<open>Pruning\<close>

text \<open>With an exact counter the prune keeps the newest \<open>cap\<close> rows of the source and nothing else moves.\<close>

lemma spool_delete_upto_boundary:
  assumes ord: "spool_ordered db" and n: "n < length (of_source src db)"
    and b: "b = sp_id (of_source src db ! n)"
  shows "of_source src (snd (spool_delete_upto src tot b db)) = drop (Suc n) (of_source src db)"
    and "s \<noteq> src \<Longrightarrow> of_source s (snd (spool_delete_upto src tot b db)) = of_source s db"
    and "fst (spool_delete_upto src tot b db) = tot - int (Suc n)"
    and "spool_ordered (snd (spool_delete_upto src tot b db))"
proof -
  let ?xs = "of_source src db"
  have ks: "key_sorted sp_id ?xs"
    using ord by (simp add: spool_ordered_def of_source_def key_sorted_filter)
  note cut = key_sorted_filter_le_nth [OF ks n, folded b]
  have "of_source src (snd (spool_delete_upto src tot b db)) = filter (\<lambda>r. \<not> sp_id r \<le> b) ?xs"
    unfolding spool_delete_upto_def Let_def of_source_def snd_conv update_meta_frame
    by simp (rule filter_cong, auto)
  then show "of_source src (snd (spool_delete_upto src tot b db)) = drop (Suc n) ?xs"
    by (simp only: cut(2))
  show "of_source s (snd (spool_delete_upto src tot b db)) = of_source s db" if "s \<noteq> src"
    unfolding spool_delete_upto_def Let_def of_source_def snd_conv update_meta_frame
    using that by simp (rule filter_cong, auto)
  have "filter (\<lambda>r. sp_source r = src \<and> sp_id r \<le> b) (db_spool db) = filter (\<lambda>r. sp_id r \<le> b) ?xs"
    unfolding of_source_def filter_filter by (rule filter_cong) auto
  with cut(1) have "length (filter (\<lambda>r. sp_source r = src \<and> sp_id r \<le> b) (db_spool db)) = Suc n"
    using n by simp
  then show "fst (spool_delete_upto src tot b db) = tot - int (Suc n)"
    by (simp add: spool_delete_upto_def Let_def)
  show "spool_ordered (snd (spool_delete_upto src tot b db))"
    using ord by (auto simp: spool_ordered_def spool_delete_upto_def Let_def key_sorted_filter)
qed

lemma spool_prune_exact:
  assumes ord: "spool_ordered db" and cap: "0 \<le> cap" and tot: "tot = spool_count src db"
  shows "of_source src (snd (spool_prune src tot cap db)) = take_last (nat cap) (of_source src db)"
    and "s \<noteq> src \<Longrightarrow> of_source s (snd (spool_prune src tot cap db)) = of_source s db"
    and "fst (spool_prune src tot cap db) = spool_count src (snd (spool_prune src tot cap db))"
    and "spool_ordered (snd (spool_prune src tot cap db))"
    and "spool_prune src tot cap db =
           (if tot \<le> cap then (tot, db)
            else spool_delete_upto src tot (sp_id (of_source src db ! nat (tot - cap - 1))) db)"
proof -
  let ?xs = "of_source src db"
  have len: "tot = int (length ?xs)" using tot by (simp add: spool_count_of_source)
  have rows: "spool_rows src db = ?xs" using ord by (simp add: spool_rows_of_source spool_ordered_def)
  have eq: "spool_prune src tot cap db =
           (if tot \<le> cap then (tot, db) else spool_delete_upto src tot (sp_id (?xs ! nat (tot - cap - 1))) db)"
  proof (cases "tot \<le> cap")
    case False
    then have off: "nat (tot - cap - 1) < length ?xs" using len cap by linarith
    then have "spool_boundary src (tot - cap) db = Some (sp_id (?xs ! nat (tot - cap - 1)))"
      by (simp add: spool_boundary_def rows)
    with False show ?thesis by (simp add: spool_prune_def)
  qed (simp add: spool_prune_def)
  show "spool_prune src tot cap db =
           (if tot \<le> cap then (tot, db)
            else spool_delete_upto src tot (sp_id (?xs ! nat (tot - cap - 1))) db)" by (rule eq)
  have "of_source src (snd (spool_prune src tot cap db)) = take_last (nat cap) ?xs \<and>
        (s \<noteq> src \<longrightarrow> of_source s (snd (spool_prune src tot cap db)) = of_source s db) \<and>
        fst (spool_prune src tot cap db) = spool_count src (snd (spool_prune src tot cap db)) \<and>
        spool_ordered (snd (spool_prune src tot cap db))"
  proof (cases "tot \<le> cap")
    case True
    then have "spool_prune src tot cap db = (tot, db)" by (simp add: eq)
    then show ?thesis using True ord tot len by (simp add: take_last_all)
  next
    case False
    then have off: "nat (tot - cap - 1) < length ?xs" using len cap by linarith
    note del = spool_delete_upto_boundary [OF ord off refl]
    have suc: "Suc (nat (tot - cap - 1)) = length ?xs - nat cap" using False len cap by linarith
    show ?thesis
      using False del(2) [of s] del(4)
      by (simp add: eq del(1,3) spool_count_of_source suc take_last_def)
         (use len cap off in linarith)
  qed
  then show "of_source src (snd (spool_prune src tot cap db)) = take_last (nat cap) ?xs"
    "s \<noteq> src \<Longrightarrow> of_source s (snd (spool_prune src tot cap db)) = of_source s db"
    "fst (spool_prune src tot cap db) = spool_count src (snd (spool_prune src tot cap db))"
    "spool_ordered (snd (spool_prune src tot cap db))" by blast+
qed

section \<open>Appending\<close>

definition prunes_now :: "prune_counter \<Rightarrow> string \<Rightarrow> nat \<Rightarrow> int \<Rightarrow> bool" where
  "prunes_now pc src n cap = (let p = dict_get pc src 0 + int n in p \<ge> 1000 \<or> p \<ge> cap)"

definition meta_ready :: "string \<Rightarrow> state_db \<Rightarrow> state_db" where
  "meta_ready src db =
     (case map_of (db_spool_meta db) src of
        None \<Rightarrow> set_meta src \<lparr>sm_rows = spool_count src db, sm_pruned = 0, sm_lost_unread = 0\<rparr> db
      | Some m \<Rightarrow> db)"

lemma meta_ready_simps [simp]:
  "of_source s (meta_ready src db) = of_source s db"
  "db_spool (meta_ready src db) = db_spool db" "db_spool_seq (meta_ready src db) = db_spool_seq db"
  "db_kv (meta_ready src db) = db_kv db" "spool_count s (meta_ready src db) = spool_count s db"
  by (simp_all add: meta_ready_def spool_count_of_source split: option.splits)

lemma meta_ready_exact:
  assumes "spool_inv db"
  obtains m where "map_of (db_spool_meta (meta_ready src db)) src = Some m"
    and "sm_rows m = spool_count src db" and "spool_gap src db = (sm_pruned m, sm_lost_unread m)"
proof (cases "map_of (db_spool_meta db) src")
  case None
  then show ?thesis by (intro that) (auto simp: meta_ready_def spool_gap_def)
next
  case (Some m)
  with assms show ?thesis by (intro that [of m]) (auto simp: meta_ready_def spool_gap_def spool_inv_def)
qed

lemma meta_ready_other:
  "s \<noteq> src \<Longrightarrow> map_of (db_spool_meta (meta_ready src db)) s = map_of (db_spool_meta db) s"
  by (simp add: meta_ready_def split: option.splits)

text \<open>The whole of one append, with the counter known to be exact.\<close>

lemma spool_append_eq:
  fixes src :: string
  assumes inv: "spool_inv db" and rows: "rows \<noteq> []"
  defines "db2 \<equiv> fold (spool_insert src) rows (meta_ready src db)"
  shows "spool_append src rows cap (pc, db) =
     (let (tot, pending, db3) =
            (if prunes_now pc src (length rows) cap
             then (case spool_prune src (spool_count src db2) cap db2 of (t, d) \<Rightarrow> (t, 0, d))
             else (spool_count src db2, dict_get pc src 0 + int (length rows), db2))
      in ((AList.update src pending pc, update_meta src (\<lambda>m. m\<lparr>sm_rows := tot\<rparr>) db3), length rows))"
proof -
  show ?thesis
  proof (cases "map_of (db_spool_meta db) src")
    case None
    then have "meta_ready src db =
        set_meta src \<lparr>sm_rows = spool_count src db, sm_pruned = 0, sm_lost_unread = 0\<rparr> db"
      by (simp add: meta_ready_def)
    with None rows show ?thesis
      unfolding spool_append_def prunes_now_def db2_def by (simp add: Let_def fold_insert_count)
  next
    case (Some m)
    then have "meta_ready src db = db" and "sm_rows m = spool_count src db"
      using inv by (auto simp: meta_ready_def spool_inv_def)
    with Some rows show ?thesis
      unfolding spool_append_def prunes_now_def db2_def by (simp add: Let_def fold_insert_count)
  qed
qed

lemma spool_prune_meta:
  "s \<noteq> src \<Longrightarrow> map_of (db_spool_meta (snd (spool_prune src tot cap db))) s = map_of (db_spool_meta db) s"
  "map_of (db_spool_meta db) src = Some m \<Longrightarrow>
     \<exists>m'. map_of (db_spool_meta (snd (spool_prune src tot cap db))) src = Some m'"
  by (auto simp: spool_prune_def spool_delete_upto_def Let_def split: option.splits)

lemma spool_append_facts:
  assumes inv: "spool_inv db" and cap: "0 \<le> cap" and rows: "rows \<noteq> []"
    and res: "spool_append src rows cap (pc, db) = ((pc', db'), k)"
  shows "map payload (of_source src db') =
           (let everything = map payload (of_source src db) @ rows
            in if prunes_now pc src (length rows) cap then take_last (nat cap) everything else everything)"
    and "s \<noteq> src \<Longrightarrow> of_source s db' = of_source s db"
    and "spool_inv db'"
    and "dict_get pc' src 0 =
           (if prunes_now pc src (length rows) cap then 0 else dict_get pc src 0 + int (length rows))"
proof -
  define db2 where "db2 = fold (spool_insert src) rows (meta_ready src db)"
  have ord: "spool_ordered db2"
    using inv unfolding db2_def
    by (intro fold_insert_ordered) (auto simp: spool_ordered_def spool_inv_def)
  have pay: "map payload (of_source src db2) = map payload (of_source src db) @ rows"
    by (simp add: db2_def fold_insert_payload)
  have oth: "of_source s db2 = of_source s db" if "s \<noteq> src" for s
    using that by (simp add: db2_def fold_insert_other)
  obtain m where m: "map_of (db_spool_meta db2) src = Some m"
    using meta_ready_exact [OF inv, of src] by (auto simp: db2_def)
  have mo: "map_of (db_spool_meta db2) s = map_of (db_spool_meta db) s" if "s \<noteq> src" for s
    using that by (simp add: db2_def meta_ready_other)
  define db3 where "db3 = (if prunes_now pc src (length rows) cap
      then snd (spool_prune src (spool_count src db2) cap db2) else db2)"
  note pr = spool_prune_exact [OF ord cap refl]
  have tot: "(if prunes_now pc src (length rows) cap
      then fst (spool_prune src (spool_count src db2) cap db2) else spool_count src db2) = spool_count src db3"
    by (simp add: db3_def pr(3))
  have res': "pc' = AList.update src (if prunes_now pc src (length rows) cap then 0
       else dict_get pc src 0 + int (length rows)) pc"
    "db' = update_meta src (\<lambda>m. m\<lparr>sm_rows := spool_count src db3\<rparr>) db3"
    using res unfolding spool_append_eq [OF inv rows, where src = src, folded db2_def] tot [symmetric]
    by (auto simp: db3_def Let_def split: prod.splits if_splits)
  have src3: "of_source src db3 =
      (if prunes_now pc src (length rows) cap then take_last (nat cap) (of_source src db2)
       else of_source src db2)"
    by (simp add: db3_def pr(1))
  show "map payload (of_source src db') =
           (let everything = map payload (of_source src db) @ rows
            in if prunes_now pc src (length rows) cap then take_last (nat cap) everything else everything)"
    by (simp add: res'(2) src3 pay [symmetric] take_last_def drop_map)
  have oth3: "of_source s db3 = of_source s db" if "s \<noteq> src" for s
    using that pr(2) oth by (simp add: db3_def)
  then show "s \<noteq> src \<Longrightarrow> of_source s db' = of_source s db" by (simp add: res'(2))
  have ord3: "spool_ordered db3" using ord pr(4) by (simp add: db3_def)
  have meta3: "map_of (db_spool_meta db3) s = map_of (db_spool_meta db) s" if "s \<noteq> src" for s
    using that mo by (simp add: db3_def spool_prune_meta(1))
  show "spool_inv db'"
    using ord3 meta3 oth3 inv unfolding spool_inv_def spool_ordered_def res'(2)
    by (auto simp: spool_count_of_source)
  show "dict_get pc' src 0 =
      (if prunes_now pc src (length rows) cap then 0 else dict_get pc src 0 + int (length rows))"
    by (simp add: res'(1))
qed

text \<open>
  Appending a batch keeps the spool well formed (ids strictly increasing, the cached row count
  exact), touches no other source, and leaves the source with everything it held followed by the
  batch, cut down to the newest \<open>cap\<close> rows when this process has inserted 1000 rows (or \<open>cap\<close>)
  since it last pruned.
\<close>

theorem spool_append_contents:
  assumes "spool_inv db" and "0 \<le> cap" and "rows \<noteq> []"
    and "spool_append src rows cap (pc, db) = ((pc', db'), k)"
  shows "map payload (spool_rows src db') =
           (let everything = map payload (spool_rows src db) @ rows
            in if prunes_now pc src (length rows) cap then take_last (nat cap) everything else everything)
         \<and> (\<forall>s. s \<noteq> src \<longrightarrow> spool_rows s db' = spool_rows s db) \<and> spool_inv db'"
  using spool_append_facts [OF assms] assms(1) by (simp add: spool_rows_of_source spool_inv_def)

definition demo_spool :: state_db where
  "demo_spool = snd (fst (spool_append ''udp'' [(1, ''r1'', ''a''), (2, ''r1'', ''b'')] 2 ([], empty_db)))"

theorem spool_append_contents_witness:
  "map payload (spool_rows ''udp'' (snd (fst (spool_append ''udp'' [(3, ''r2'', ''c'')] 2 ([], demo_spool)))))
     = [(1, ''r1'', ''a''), (2, ''r1'', ''b''), (3, ''r2'', ''c'')]"
proof -
  obtain pc0 db0 k0 where e0: "spool_append ''udp'' [(1, ''r1'', ''a''), (2, ''r1'', ''b'')] 2 ([], empty_db)
      = ((pc0, db0), k0)" by (metis prod.exhaust)
  note c0 = spool_append_contents [OF spool_inv_empty _ _ e0]
  have d: "demo_spool = db0" by (simp add: demo_spool_def e0)
  obtain pc1 db1 k1 where e1: "spool_append ''udp'' [(3, ''r2'', ''c'')] 2 ([], db0) = ((pc1, db1), k1)"
    by (metis prod.exhaust)
  have "spool_inv db0" using c0 by simp
  note c1 = spool_append_contents [OF this _ _ e1]
  show ?thesis using c0 c1
    by (simp add: d e1 prunes_now_def take_last_def spool_rows_def)
qed

section \<open>The cap\<close>

fun spool_run :: "string \<Rightarrow> int \<Rightarrow> (instant \<times> string \<times> string) list list \<Rightarrow> prune_counter \<times> state_db
    \<Rightarrow> prune_counter \<times> state_db" where
  "spool_run src cap [] st = st"
| "spool_run src cap (b # bs) st = spool_run src cap bs (fst (spool_append src b cap st))"

definition within_slack :: "string \<Rightarrow> int \<Rightarrow> prune_counter \<times> state_db \<Rightarrow> bool" where
  "within_slack src cap st =
     (case st of (pc, db) \<Rightarrow> spool_inv db \<and> 0 \<le> dict_get pc src 0 \<and> dict_get pc src 0 < 1000
        \<and> dict_get pc src 0 < cap \<and> spool_count src db \<le> cap + dict_get pc src 0)"

lemma within_slack_append [netlog_inv]:
  assumes "within_slack src cap st"
  shows "within_slack src cap (fst (spool_append src b cap st))"
proof (cases "b = []")
  case True
  with assms show ?thesis by (cases st) (simp add: spool_append_def)
next
  case False
  obtain pc db where st: "st = (pc, db)" by force
  obtain pc' db' k where res: "spool_append src b cap (pc, db) = ((pc', db'), k)" by (metis prod.exhaust)
  have inv: "spool_inv db" and cap: "0 \<le> cap" using assms st by (auto simp: within_slack_def)
  note f = spool_append_facts [OF inv cap False res]
  have len: "spool_count src db' = (if prunes_now pc src (length b) cap
      then min cap (spool_count src db + int (length b)) else spool_count src db + int (length b))"
    using arg_cong [OF f(1), of length] cap
    by (auto simp: spool_count_of_source Let_def of_nat_min min_def)
  show ?thesis
    using assms f(3,4) len cap
    by (auto simp: st res within_slack_def prunes_now_def Let_def split: if_splits)
qed

lemma within_slack_run: "within_slack src cap st \<Longrightarrow> within_slack src cap (spool_run src cap bs st)"
  by (induction bs arbitrary: st) (simp_all add: within_slack_append)

text \<open>
  C32: one writer process, however many batches it appends, keeps a source below its cap plus one
  prune interval: fewer than \<open>cap + 1000\<close> rows, and fewer than \<open>2 * cap\<close>. (The bound is not the cap
  itself: pruning is put off until 1000 rows, and the counter starts again with the process.)
\<close>

theorem spool_bounded:
  assumes "spool_inv db" and "1 \<le> cap" and "spool_count src db \<le> cap"
  shows "spool_count src (snd (spool_run src cap batches ([], db))) < cap + min 1000 cap"
proof -
  have "within_slack src cap ([], db)" using assms by (simp add: within_slack_def)
  then have "within_slack src cap (spool_run src cap batches ([], db))" by (rule within_slack_run)
  then show ?thesis by (auto simp: within_slack_def split: prod.splits)
qed

theorem spool_bounded_witness:
  "spool_count ''udp'' (snd (spool_run ''udp'' 3 [[(1, ''r'', ''a''), (1, ''r'', ''b'')], [(2, ''r'', ''c'')]]
      ([], empty_db))) < 6"
  using spool_bounded [OF spool_inv_empty, of 3 "''udp''" "[[(1, ''r'', ''a''), (1, ''r'', ''b'')], [(2, ''r'', ''c'')]]"]
  by (simp add: spool_count_def)

section \<open>Loss accounting\<close>

definition unread :: "string \<Rightarrow> int \<Rightarrow> state_db \<Rightarrow> nat" where
  "unread src c db = length (filter (\<lambda>r. sp_id r > c) (of_source src db))"

lemma unread_meta [simp]:
  "unread src c (set_meta s m db) = unread src c db" "unread src c (update_meta s f db) = unread src c db"
  "unread src c (meta_ready s db) = unread src c db"
  by (simp_all add: unread_def)

lemma unread_fold_insert:
  "c \<le> db_spool_seq db \<Longrightarrow>
     unread src c (fold (spool_insert src) rows db) = unread src c db + length rows"
proof (induction rows arbitrary: db)
  case (Cons row rows)
  have "unread src c (spool_insert src row db) = unread src c db + 1"
    and "c \<le> db_spool_seq (spool_insert src row db)"
    using Cons.prems by (auto simp: unread_def of_source_def spool_insert_def split: prod.splits)
  with Cons.IH [of "spool_insert src row db"] show ?case by simp
qed simp

lemma unread_upto_counts:
  assumes "kv_lookup ''triage'' (''cursor:'' @ src) db = Some (Some (JInt c))"
  shows "unread_upto src b db = int (length (filter (\<lambda>r. sp_id r > c \<and> sp_id r \<le> b) (of_source src db)))"
proof -
  have "filter (\<lambda>r. sp_source r = src \<and> sp_id r > c \<and> sp_id r \<le> b) (db_spool db)
      = filter (\<lambda>r. sp_id r > c \<and> sp_id r \<le> b) (of_source src db)"
    unfolding of_source_def filter_filter by (rule filter_cong) auto
  moreover have "filter (\<lambda>r. sp_id r > c \<and> sp_id r \<le> b) xs = []" if "\<not> c < b" for xs :: "spool_row list"
    using that by (auto simp: filter_empty_conv)
  ultimately show ?thesis using assms by (simp add: unread_upto_def triage_cursor_def)
qed

lemma spool_delete_upto_conserves:
  assumes cur: "kv_lookup ''triage'' (''cursor:'' @ src) db = Some (Some (JInt c))"
    and m: "map_of (db_spool_meta db) src = Some m"
  shows "int (unread src c (snd (spool_delete_upto src tot b db)))
           + snd (spool_gap src (snd (spool_delete_upto src tot b db)))
         = int (unread src c db) + snd (spool_gap src db)"
proof -
  let ?ys = "filter (\<lambda>r. sp_id r > c) (of_source src db)"
  have kept: "of_source src (snd (spool_delete_upto src tot b db))
      = filter (\<lambda>r. \<not> sp_id r \<le> b) (of_source src db)"
    unfolding spool_delete_upto_def Let_def of_source_def snd_conv update_meta_frame
    by simp (rule filter_cong, auto)
  have "unread src c (snd (spool_delete_upto src tot b db)) = length (filter (\<lambda>r. \<not> sp_id r \<le> b) ?ys)"
    unfolding unread_def kept filter_filter by (metis (mono_tags, lifting) filter_cong conj_commute)
  moreover have "unread_upto src b db = int (length (filter (\<lambda>r. sp_id r \<le> b) ?ys))"
    unfolding unread_upto_counts [OF cur] filter_filter by simp
  moreover have "length (filter (\<lambda>r. sp_id r \<le> b) ?ys) + length (filter (\<lambda>r. \<not> sp_id r \<le> b) ?ys) = length ?ys"
    by (rule sum_length_filter_compl)
  moreover have "snd (spool_gap src (snd (spool_delete_upto src tot b db)))
      = snd (spool_gap src db) + unread_upto src b db"
    using m by (simp add: spool_gap_def spool_delete_upto_def Let_def)
  ultimately show ?thesis unfolding unread_def by linarith
qed

lemma spool_prune_conserves:
  assumes "spool_ordered db" and "0 \<le> cap"
    and "kv_lookup ''triage'' (''cursor:'' @ src) db = Some (Some (JInt c))"
    and "map_of (db_spool_meta db) src = Some m"
  shows "int (unread src c (snd (spool_prune src (spool_count src db) cap db)))
           + snd (spool_gap src (snd (spool_prune src (spool_count src db) cap db)))
         = int (unread src c db) + snd (spool_gap src db)"
  unfolding spool_prune_exact(5) [OF assms(1,2) refl]
  using spool_delete_upto_conserves [OF assms(3,4)] by simp

text \<open>
  C2: no loss is silent. With the triage consumer's cursor at \<open>c\<close>, every appended row is afterwards
  either still in the spool past the cursor or counted in \<open>lost_unread\<close>: the rows past the cursor plus
  the loss counter grow by exactly the size of the batch, whether or not the append pruned.
\<close>

theorem spool_loss_counted:
  assumes inv: "spool_inv db" and cap: "0 \<le> cap" and rows: "rows \<noteq> []"
    and cur: "kv_lookup ''triage'' (''cursor:'' @ src) db = Some (Some (JInt c))"
    and c: "c \<le> db_spool_seq db"
    and res: "spool_append src rows cap (pc, db) = ((pc', db'), k)"
  shows "int (unread src c db') + snd (spool_gap src db')
       = int (unread src c db) + snd (spool_gap src db) + int (length rows)"
proof -
  define db2 where "db2 = fold (spool_insert src) rows (meta_ready src db)"
  have ord: "spool_ordered db2"
    using inv unfolding db2_def
    by (intro fold_insert_ordered) (auto simp: spool_ordered_def spool_inv_def)
  obtain m where m: "map_of (db_spool_meta db2) src = Some m"
      and gap2: "spool_gap src db = (sm_pruned m, sm_lost_unread m)"
    using meta_ready_exact [OF inv, of src] by (auto simp: db2_def)
  then have gap: "spool_gap src db2 = spool_gap src db" by (simp add: spool_gap_def)
  have cur2: "kv_lookup ''triage'' (''cursor:'' @ src) db2 = Some (Some (JInt c))"
    using cur by (simp add: db2_def kv_lookup_def)
  have un2: "unread src c db2 = unread src c db + length rows"
    using c by (simp add: db2_def unread_fold_insert)
  note con = spool_prune_conserves [OF ord cap cur2 m]
  have gapu: "spool_gap src (update_meta src (\<lambda>m. m\<lparr>sm_rows := t\<rparr>) d) = spool_gap src d" for t d
    by (auto simp: spool_gap_def split: option.splits)
  show ?thesis
    using res con un2 gap unfolding spool_append_eq [OF inv rows, where src = src, folded db2_def]
    by (auto simp: Let_def gapu split: prod.splits if_splits)
qed

theorem spool_loss_counted_witness:
  "spool_gap ''u'' (snd (fst (spool_append ''u'' [(0, ''r'', ''a''), (0, ''r'', ''b''), (0, ''r'', ''c'')] 1
      ([], kv_set ''triage'' ''cursor:u'' (JInt 0) 0 empty_db)))) = (2, 2)"
proof -
  let ?db = "kv_set ''triage'' ''cursor:u'' (JInt 0) 0 empty_db"
  let ?rows = "[(0, ''r'', ''a''), (0, ''r'', ''b''), (0, ''r'', ''c'')] :: (instant \<times> string \<times> string) list"
  obtain pc' db' k where e: "spool_append ''u'' ?rows 1 ([], ?db) = ((pc', db'), k)" by (metis prod.exhaust)
  have inv: "spool_inv ?db" by (simp add: spool_inv_def kv_set_def key_sorted_def)
  have "int (unread ''u'' 0 db') + snd (spool_gap ''u'' db') = 3"
    using spool_loss_counted [OF inv _ _ _ _ e, of 0]
    by (simp add: kv_lookup_def kv_set_def unread_def of_source_def spool_gap_def)
  moreover have "db' = snd (fst (spool_append ''u'' ?rows 1 ([], ?db)))" by (simp add: e)
  moreover have "spool_gap ''u'' (snd (fst (spool_append ''u'' ?rows 1 ([], ?db)))) = (2, 2)"
    by code_simp
  ultimately show ?thesis by simp
qed

end
