(* ===== verification/Lease.thy ===== *)
theory Lease
  imports State_Store
begin

text \<open>
  Leases of \<open>state_store.py\<close> (one active consumer across workers) as an interface: what
  \<open>lease_acquire\<close> and \<open>lease_release\<close> promise about the holder of a name, the exclusivity every
  client gets from it, and the proof that the table in \<open>State_Store\<close> provides it.
\<close>

section \<open>The interface\<close>

definition lease_blocks :: "string \<Rightarrow> instant \<Rightarrow> instant \<Rightarrow> (string \<times> instant) option \<Rightarrow> bool" where
  "lease_blocks owner ttl now h =
     (case h of None \<Rightarrow> False
      | Some (holder, expires) \<Rightarrow> holder \<noteq> owner \<and> now < expires \<and> expires \<le> now + 2 * ttl)"

locale lease_table =
  fixes wf :: "'db \<Rightarrow> bool"
    and holder :: "'db \<Rightarrow> string \<Rightarrow> (string \<times> instant) option"
    and acquire :: "string \<Rightarrow> string \<Rightarrow> instant \<Rightarrow> instant \<Rightarrow> 'db \<Rightarrow> py_error + bool \<times> 'db"
    and release :: "string \<Rightarrow> string \<Rightarrow> 'db \<Rightarrow> py_error + 'db"
  assumes acquire_blocked:
      "wf db \<Longrightarrow> lease_blocks owner ttl now (holder db n) \<Longrightarrow> acquire n owner ttl now db = Inr (False, db)"
    and acquire_granted:
      "wf db \<Longrightarrow> \<not> lease_blocks owner ttl now (holder db n) \<Longrightarrow>
         \<exists>db'. acquire n owner ttl now db = Inr (True, db') \<and> wf db' \<and>
               holder db' = (holder db)(n \<mapsto> (owner, now + ttl))"
    and release_spec:
      "wf db \<Longrightarrow> \<exists>db'. release n owner db = Inr db' \<and> wf db' \<and>
         holder db' = (holder db)(n := (if \<exists>e. holder db n = Some (owner, e) then None else holder db n))"

datatype lease_event = Lease_Acquire string instant | Lease_Release string

text \<open>A run of the workers' calls on one lease, with the answer of every acquire.\<close>

fun lease_run ::
  "(string \<Rightarrow> string \<Rightarrow> instant \<Rightarrow> instant \<Rightarrow> 'db \<Rightarrow> py_error + bool \<times> 'db) \<Rightarrow> (string \<Rightarrow> string \<Rightarrow> 'db \<Rightarrow> py_error + 'db)
     \<Rightarrow> string \<Rightarrow> instant \<Rightarrow> lease_event list \<Rightarrow> 'db \<Rightarrow> py_error + (string \<times> bool) list \<times> 'db" where
  "lease_run acq rel n ttl [] db = Inr ([], db)"
| "lease_run acq rel n ttl (Lease_Acquire who now # es) db =
     (case acq n who ttl now db of
        Inl e \<Rightarrow> Inl e
      | Inr (ok, db') \<Rightarrow> map_sum id (\<lambda>(l, d). ((who, ok) # l, d)) (lease_run acq rel n ttl es db'))"
| "lease_run acq rel n ttl (Lease_Release who # es) db =
     (case rel n who db of Inl e \<Rightarrow> Inl e | Inr db' \<Rightarrow> lease_run acq rel n ttl es db')"

text \<open>Every event of a window of length \<open>ttl\<close>: the clocks may differ and even run backwards in it.\<close>

fun in_window :: "string \<Rightarrow> instant \<Rightarrow> instant \<Rightarrow> lease_event \<Rightarrow> bool" where
  "in_window a t ttl (Lease_Acquire who now) = (t \<le> now \<and> now < t + ttl)"
| "in_window a t ttl (Lease_Release who) = (who \<noteq> a)"

context lease_table
begin

lemma held_by_stays:
  assumes "wf db" and "holder db n = Some (a, e)" and "t + ttl \<le> e" and "e \<le> t + 2 * ttl"
    and "list_all (in_window a t ttl) es"
  shows "\<exists>log db'. lease_run acquire release n ttl es db = Inr (log, db') \<and>
           (\<exists>e'. holder db' n = Some (a, e') \<and> t + ttl \<le> e') \<and>
           (\<forall>(who, ok) \<in> set log. ok \<longleftrightarrow> who = a)"
  using assms
proof (induction es arbitrary: db e)
  case Nil
  then show ?case by auto
next
  case (Cons ev es)
  show ?case
  proof (cases ev)
    case (Lease_Release who)
    obtain db1 where r: "release n who db = Inr db1" "wf db1"
      and h: "holder db1 = (holder db)(n := (if \<exists>e. holder db n = Some (who, e) then None else holder db n))"
      using release_spec [OF Cons.prems(1)] by blast
    have "holder db1 n = Some (a, e)" using Cons.prems(2,5) Lease_Release by (auto simp: h)
    from Cons.IH [OF r(2) this Cons.prems(3,4)] Cons.prems(5) Lease_Release r(1) show ?thesis by simp
  next
    case (Lease_Acquire who now)
    with Cons.prems(5) have now: "t \<le> now" "now < t + ttl" by auto
    show ?thesis
    proof (cases "who = a")
      case True
      then have "\<not> lease_blocks who ttl now (holder db n)"
        using Cons.prems(2) by (simp add: lease_blocks_def)
      from acquire_granted [OF Cons.prems(1) this] obtain db1
        where g: "acquire n who ttl now db = Inr (True, db1)" "wf db1"
          and h: "holder db1 = (holder db)(n \<mapsto> (who, now + ttl))" by blast
      have "holder db1 n = Some (a, now + ttl)" using True by (simp add: h)
      from Cons.IH [OF g(2) this] now Cons.prems(5) obtain log db'
        where "lease_run acquire release n ttl es db1 = Inr (log, db')"
          "\<exists>e'. holder db' n = Some (a, e') \<and> t + ttl \<le> e'" "\<forall>(who, ok) \<in> set log. ok \<longleftrightarrow> who = a"
        by auto
      with g(1) Lease_Acquire True show ?thesis by auto
    next
      case False
      then have "lease_blocks who ttl now (holder db n)"
        using Cons.prems(2-4) now by (auto simp: lease_blocks_def)
      from acquire_blocked [OF Cons.prems(1) this] have g: "acquire n who ttl now db = Inr (False, db)" .
      from Cons.IH [OF Cons.prems(1-4)] Cons.prems(5) obtain log db'
        where "lease_run acquire release n ttl es db = Inr (log, db')"
          "\<exists>e'. holder db' n = Some (a, e') \<and> t + ttl \<le> e'" "\<forall>(who, ok) \<in> set log. ok \<longleftrightarrow> who = a"
        by auto
      with g Lease_Acquire False show ?thesis by auto
    qed
  qed
qed

lemma exclusive_after_acquire:
  assumes "wf db" and "acquire n a ttl t db = Inr (True, db1)" and "0 \<le> ttl"
    and "list_all (in_window a t ttl) es"
  shows "\<exists>log db'. lease_run acquire release n ttl es db1 = Inr (log, db') \<and>
           (\<exists>e. holder db' n = Some (a, e) \<and> t + ttl \<le> e) \<and> (\<forall>(who, ok) \<in> set log. ok \<longleftrightarrow> who = a)"
proof -
  have "\<not> lease_blocks a ttl t (holder db n)"
    using acquire_blocked [OF assms(1)] assms(2) by force
  from acquire_granted [OF assms(1) this] assms(2) have "wf db1"
    and "holder db1 n = Some (a, t + ttl)" by auto
  then show ?thesis by (rule held_by_stays) (use assms in auto)
qed

end

section \<open>The table of the state database provides it\<close>

definition lease_holder :: "state_db \<Rightarrow> string \<Rightarrow> (string \<times> instant) option" where
  "lease_holder db n =
     (case kv_lookup ''lease'' n db of
        None \<Rightarrow> None
      | Some cell \<Rightarrow>
          (case lease_fields cell of Inr (Some (JStr owner), e) \<Rightarrow> Some (owner, e) | _ \<Rightarrow> None))"

text \<open>Only \<open>lease_acquire\<close> writes this namespace, always with \<open>lease_json\<close>.\<close>

definition lease_wf :: "state_db \<Rightarrow> bool" where
  "lease_wf db \<longleftrightarrow>
     (\<forall>n cell. kv_lookup ''lease'' n db = Some cell \<longrightarrow> (\<exists>owner e. cell = Some (lease_json owner e)))"

lemma lease_fields_json [simp]: "lease_fields (Some (lease_json owner e)) = Inr (Some (JStr owner), e)"
  by (simp add: lease_fields_def lease_json_def)

lemma kv_lookup_set [simp]:
  "kv_lookup ns k (kv_set ns' k' v now db) =
     (if ns = ns' \<and> k = k' then Some (Some v) else kv_lookup ns k db)"
  by (simp add: kv_lookup_def kv_set_def)

lemma kv_lookup_delete [simp]:
  "kv_lookup ns k (kv_delete ns' k' db) = (if ns = ns' \<and> k = k' then None else kv_lookup ns k db)"
  by (auto simp: kv_lookup_def kv_delete_def delete_conv)

lemma lease_wf_cases:
  assumes "lease_wf db"
  obtains "kv_lookup ''lease'' n db = None" "lease_holder db n = None"
  | owner e where "kv_lookup ''lease'' n db = Some (Some (lease_json owner e))"
      "lease_holder db n = Some (owner, e)"
proof (cases "kv_lookup ''lease'' n db")
  case None
  then show ?thesis using that(1) by (simp add: lease_holder_def)
next
  case (Some cell)
  with assms obtain owner e where "cell = Some (lease_json owner e)" unfolding lease_wf_def by blast
  with Some show ?thesis by (intro that(2)) (simp_all add: lease_holder_def)
qed

lemma lease_wf_empty: "lease_wf empty_db"
  by (simp add: lease_wf_def kv_lookup_def)

lemma lease_acquire_eq:
  assumes "lease_wf db"
  shows "lease_acquire n owner ttl now db =
     (if lease_blocks owner ttl now (lease_holder db n) then Inr (False, db)
      else Inr (True, kv_set ''lease'' n (lease_json owner (now + ttl)) now db))"
  using assms by (cases rule: lease_wf_cases [of db n]) (auto simp: lease_acquire_def lease_blocks_def)

lemma lease_holder_set:
  "lease_holder (kv_set ''lease'' n (lease_json owner e) now db) = (lease_holder db)(n \<mapsto> (owner, e))"
  by (auto simp: lease_holder_def)

lemma lease_release_eq:
  assumes "lease_wf db"
  shows "lease_release n owner db =
     Inr (if \<exists>e. lease_holder db n = Some (owner, e) then kv_delete ''lease'' n db else db)"
  using assms
  by (cases rule: lease_wf_cases [of db n]) (auto simp: lease_release_def lease_json_def json_get_Inr_iff)

lemma lease_holder_delete:
  "lease_holder (kv_delete ''lease'' n db) = (lease_holder db)(n := None)"
  by (auto simp: lease_holder_def)

interpretation kvl: lease_table lease_wf lease_holder lease_acquire lease_release
proof
  fix db owner ttl now n
  assume wf: "lease_wf db"
  show "lease_blocks owner ttl now (lease_holder db n) \<Longrightarrow> lease_acquire n owner ttl now db = Inr (False, db)"
    by (simp add: lease_acquire_eq [OF wf])
  have wf_set: "lease_wf (kv_set ''lease'' n (lease_json owner (now + ttl)) now db)"
    using wf by (auto simp: lease_wf_def)
  show "\<not> lease_blocks owner ttl now (lease_holder db n) \<Longrightarrow>
      \<exists>db'. lease_acquire n owner ttl now db = Inr (True, db') \<and> lease_wf db' \<and>
            lease_holder db' = (lease_holder db)(n \<mapsto> (owner, now + ttl))"
    using wf_set by (simp add: lease_acquire_eq [OF wf] lease_holder_set)
  have wf_del: "lease_wf (kv_delete ''lease'' n db)" using wf by (auto simp: lease_wf_def)
  show "\<exists>db'. lease_release n owner db = Inr db' \<and> lease_wf db' \<and>
      lease_holder db' = (lease_holder db)
        (n := (if \<exists>e. lease_holder db n = Some (owner, e) then None else lease_holder db n))"
    using wf wf_del by (auto simp: lease_release_eq [OF wf] lease_holder_delete)
qed

text \<open>
  C1: mutual exclusion. After an owner acquired the lease at time \<open>t\<close>, whatever acquires and releases
  the workers issue during \<open>[t, t + ttl)\<close>, in any order and with clocks that may disagree or step back
  within that window, every acquire of another owner is refused, every acquire of the owner itself is
  granted, and the owner still holds the lease past \<open>t + ttl\<close> unless it releases it itself.
\<close>

theorem lease_exclusive:
  assumes "lease_wf db" and "lease_acquire n a ttl t db = Inr (True, db1)" and "0 \<le> ttl"
    and "list_all (in_window a t ttl) es"
  shows "\<exists>log db'. lease_run lease_acquire lease_release n ttl es db1 = Inr (log, db') \<and>
           (\<exists>e. lease_holder db' n = Some (a, e) \<and> t + ttl \<le> e) \<and> (\<forall>(who, ok) \<in> set log. ok \<longleftrightarrow> who = a)"
  using assms by (rule kvl.exclusive_after_acquire)

theorem lease_exclusive_witness:
  "\<exists>log db'. lease_run lease_acquire lease_release ''triage'' 60
      [Lease_Acquire ''B'' 110, Lease_Acquire ''A'' 130, Lease_Release ''B'', Lease_Acquire ''B'' 159]
      (kv_set ''lease'' ''triage'' (lease_json ''A'' 160) 100 empty_db) = Inr (log, db') \<and>
      (\<exists>e. lease_holder db' ''triage'' = Some (''A'', e) \<and> 160 \<le> e) \<and> (\<forall>(who, ok) \<in> set log. ok \<longleftrightarrow> who = ''A'')"
proof -
  have "lease_acquire ''triage'' ''A'' 60 100 empty_db =
      Inr (True, kv_set ''lease'' ''triage'' (lease_json ''A'' 160) 100 empty_db)"
    by (simp add: lease_acquire_def kv_lookup_def)
  from lease_exclusive [OF lease_wf_empty this, of "[Lease_Acquire ''B'' 110, Lease_Acquire ''A'' 130,
      Lease_Release ''B'', Lease_Acquire ''B'' 159]"] show ?thesis by simp
qed

text \<open>
  C30: a lease never blocks for longer than it should. Once the holder's expiry has passed, or lies more
  than two TTLs ahead (a wall clock that stepped back), any owner that asks gets the lease, with the
  expiry one TTL ahead of its own clock.
\<close>

theorem lease_takeover:
  assumes "lease_wf db" and "lease_holder db n = Some (a, e)" and "e \<le> now \<or> now + 2 * ttl < e"
  shows "\<exists>db'. lease_acquire n b ttl now db = Inr (True, db') \<and> lease_holder db' n = Some (b, now + ttl)"
  using assms by (auto simp: lease_acquire_eq lease_blocks_def lease_holder_set)

theorem lease_takeover_witness:
  "\<exists>db'. lease_acquire ''triage'' ''B'' 60 160
      (kv_set ''lease'' ''triage'' (lease_json ''A'' 160) 100 empty_db) = Inr (True, db') \<and>
      lease_holder db' ''triage'' = Some (''B'', 220)"
proof -
  let ?db = "kv_set ''lease'' ''triage'' (lease_json ''A'' 160) 100 empty_db"
  have wf: "lease_wf ?db" using lease_wf_empty by (auto simp: lease_wf_def)
  have h: "lease_holder ?db ''triage'' = Some (''A'', 160)" by (simp add: lease_holder_set)
  from lease_takeover [OF wf h, of 160 60 "''B''"] show ?thesis by simp
qed

section \<open>Fencing\<close>

text \<open>
  C31: a fenced ticket write fails exactly when another owner holds an unexpired lease; otherwise it
  stores the record under its fingerprint and changes nothing else.
\<close>

theorem triage_put_fenced:
  assumes "lease_wf db"
  shows "triage_put rec (Some (lease, me)) now db =
     (case lease_holder db lease of
        Some (h, e) \<Rightarrow> if h \<noteq> me \<and> e > now then Inl Lease_Lost
                       else Inr (db\<lparr>db_tickets := AList.update (tk_fingerprint rec) rec (db_tickets db)\<rparr>)
      | None \<Rightarrow> Inr (db\<lparr>db_tickets := AList.update (tk_fingerprint rec) rec (db_tickets db)\<rparr>))"
proof -
  have g: "json_get (lease_json owner e) ''owner'' = Inr (Some (JStr owner))" for owner e
    by (simp add: lease_json_def)
  show ?thesis using assms
    by (cases rule: lease_wf_cases [of db lease]) (auto simp: triage_put_def fence_holds_def g)
qed

theorem triage_put_fenced_witness:
  "triage_put \<lparr>tk_fingerprint = ''F'', tk_first_seen = 0, tk_last_seen = 0, tk_last_sent = 0, tk_severity = None,
      tk_event_count = 0, tk_last_event_at = 0, tk_sends = 0, tk_held = 0, tk_state = None, tk_title = None,
      tk_refs = []\<rparr> (Some (''triage'', ''A'')) 150
      (kv_set ''lease'' ''triage'' (lease_json ''B'' 160) 100 empty_db) = Inl Lease_Lost"
proof -
  let ?db = "kv_set ''lease'' ''triage'' (lease_json ''B'' 160) 100 empty_db"
  have wf: "lease_wf ?db" using lease_wf_empty by (auto simp: lease_wf_def)
  show ?thesis by (simp add: triage_put_fenced [OF wf] lease_holder_set)
qed

lemma lease_valid_eq:
  assumes "lease_wf db"
  shows "lease_valid n me now db =
     Inr (case lease_holder db n of None \<Rightarrow> True | Some (h, e) \<Rightarrow> h = me \<or> e \<le> now)"
proof -
  have g: "json_get (lease_json owner e) ''owner'' = Inr (Some (JStr owner))" for owner e
    by (simp add: lease_json_def)
  show ?thesis using assms
    by (cases rule: lease_wf_cases [of db n]) (auto simp: lease_valid_def g)
qed

end
