(* ===== verification/Events.thy ===== *)
theory Events
  imports Netlog_Prelude
begin

text \<open>
  The event types every analysis component works on (\<open>classifier.py\<close>): \<open>log_event\<close>, what a parser or
  adapter produces, and \<open>event\<close>, the classified form. \<open>attrs\<close> is the dictionary of vendor extras.
  The record tables of severities are shared too.
\<close>

record log_event =
  le_timestamp :: string
  le_hostname :: string
  le_appname :: string
  le_severity_raw :: string
  le_message :: string
  le_vendor :: string
  le_event_type :: string
  le_interface :: string
  le_peer_ip :: string
  le_asn :: string
  le_vrf :: string
  le_vni :: string
  le_tunnel_id :: string
  le_action :: string
  le_state :: string
  le_normalized_utc_ts :: string
  le_attrs :: "(string \<times> string) list"

record event =
  ev_timestamp :: string
  ev_hostname :: string
  ev_appname :: string
  ev_severity :: string
  ev_severity_raw :: string
  ev_category :: string
  ev_description :: string
  ev_action :: string
  ev_message :: string
  ev_sample_message :: string
  ev_confidence :: rat
  ev_vendor :: string
  ev_event_type :: string
  ev_interface :: string
  ev_peer_ip :: string
  ev_asn :: string
  ev_vrf :: string
  ev_vni :: string
  ev_tunnel_id :: string
  ev_vendor_action :: string
  ev_state :: string
  ev_normalized_utc_ts :: string
  ev_attrs :: "(string \<times> string) list"

definition sev_order :: "(string \<times> nat) list" where
  "sev_order = [(''critical'', 0), (''high'', 1), (''medium'', 2), (''low'', 3), (''info'', 4)]"

definition structured_fields :: "string list" where
  "structured_fields = [''vendor'', ''event_type'', ''interface'', ''peer_ip'', ''asn'', ''vrf'', ''vni'',
     ''tunnel_id'', ''action'', ''state'', ''normalized_utc_ts'']"

definition le_field :: "string \<Rightarrow> log_event \<Rightarrow> string" where
  "le_field f e = (case map_of [(''vendor'', le_vendor e), (''event_type'', le_event_type e),
      (''interface'', le_interface e), (''peer_ip'', le_peer_ip e), (''asn'', le_asn e), (''vrf'', le_vrf e),
      (''vni'', le_vni e), (''tunnel_id'', le_tunnel_id e), (''action'', le_action e), (''state'', le_state e),
      (''normalized_utc_ts'', le_normalized_utc_ts e)] f of None \<Rightarrow> [] | Some v \<Rightarrow> v)"

definition ev_field :: "string \<Rightarrow> event \<Rightarrow> string" where
  "ev_field f e = (case map_of [(''vendor'', ev_vendor e), (''event_type'', ev_event_type e),
      (''interface'', ev_interface e), (''peer_ip'', ev_peer_ip e), (''asn'', ev_asn e), (''vrf'', ev_vrf e),
      (''vni'', ev_vni e), (''tunnel_id'', ev_tunnel_id e), (''action'', ev_vendor_action e),
      (''state'', ev_state e), (''normalized_utc_ts'', ev_normalized_utc_ts e)] f of None \<Rightarrow> [] | Some v \<Rightarrow> v)"

text \<open>\<open>structured()\<close>: the non-empty structured fields, in declaration order.\<close>

definition le_structured :: "log_event \<Rightarrow> (string \<times> string) list" where
  "le_structured e = [(f, le_field f e). f \<leftarrow> structured_fields, le_field f e \<noteq> []]"

definition ev_structured :: "event \<Rightarrow> (string \<times> string) list" where
  "ev_structured e = [(f, ev_field f e). f \<leftarrow> structured_fields, ev_field f e \<noteq> []]"

definition attr :: "event \<Rightarrow> string \<Rightarrow> string" where
  "attr e k = dict_get (ev_attrs e) k []"

text \<open>A blank event, the base of the examples.\<close>

definition blank_event :: event where
  "blank_event = \<lparr>ev_timestamp = [], ev_hostname = [], ev_appname = [], ev_severity = ''info'',
     ev_severity_raw = [], ev_category = ''other'', ev_description = [], ev_action = [], ev_message = [],
     ev_sample_message = [], ev_confidence = 9/10, ev_vendor = [], ev_event_type = [], ev_interface = [],
     ev_peer_ip = [], ev_asn = [], ev_vrf = [], ev_vni = [], ev_tunnel_id = [], ev_vendor_action = [],
     ev_state = [], ev_normalized_utc_ts = [], ev_attrs = []\<rparr>"

end
