(* ===== verification/Causal_Time.thy ===== *)
theory Causal_Time
  imports Events
begin

text \<open>
  Event times (\<open>causal.py\<close>): naive datetimes, the year inference for the yearless RFC 3164 stamps and
  the chronological sort key.

  The text-to-datetime parser (\<open>_parse_event_ts\<close>: ISO, RFC 3164, epoch and FRR stamps) is the argument
  \<open>pts\<close> of every definition that reads a stamp, and \<open>datetime.now()\<close> is \<open>now\<close>; what is proved holds for
  every parser. A yearless stamp is parsed into the sentinel year 4, a leap year. Python's
  \<open>replace(year=y)\<close> raises for a year outside 1..9999; the model lets the year range over the integers.
\<close>

section \<open>Datetimes\<close>

record datetime =
  dt_year :: int
  dt_month :: int
  dt_day :: int
  dt_secs :: rat   \<comment> \<open>seconds since midnight, with the microseconds as a fraction\<close>

definition leap :: "int \<Rightarrow> bool" where
  "leap y \<longleftrightarrow> 4 dvd y \<and> (\<not> 100 dvd y \<or> 400 dvd y)"

definition days_before_year :: "int \<Rightarrow> int" where
  "days_before_year y = (let p = y - 1 in p * 365 + p div 4 - p div 100 + p div 400)"

definition days_before_month :: "int \<Rightarrow> int \<Rightarrow> int" where
  "days_before_month y m =
     ([0, 31, 59, 90, 120, 151, 181, 212, 243, 273, 304, 334] ! nat (m - 1)) + (if m > 2 \<and> leap y then 1 else 0)"

definition dt_ordinal :: "datetime \<Rightarrow> int" where
  "dt_ordinal d = days_before_year (dt_year d) + days_before_month (dt_year d) (dt_month d) + dt_day d"

text \<open>Instants as seconds: \<open>(a - b).total_seconds()\<close> is the difference, \<open><\<close> on datetimes is \<open><\<close> here.\<close>

definition dt_seconds :: "datetime \<Rightarrow> rat" where
  "dt_seconds d = 86400 * of_int (dt_ordinal d) + dt_secs d"

definition days_in_month :: "int \<Rightarrow> int \<Rightarrow> int" where
  "days_in_month y m = (if m = 2 then (if leap y then 29 else 28) else if m \<in> {4, 6, 9, 11} then 30 else 31)"

definition valid_dt :: "datetime \<Rightarrow> bool" where
  "valid_dt d \<longleftrightarrow> 1 \<le> dt_month d \<and> dt_month d \<le> 12 \<and> 1 \<le> dt_day d \<and>
     dt_day d \<le> days_in_month (dt_year d) (dt_month d) \<and> 0 \<le> dt_secs d \<and> dt_secs d < 86400"

definition dt_max :: datetime where
  "dt_max = \<lparr>dt_year = 9999, dt_month = 12, dt_day = 31, dt_secs = 86399999999/1000000\<rparr>"

definition yearless :: int where "yearless = 4"

section \<open>Year inference\<close>

definition is_rollover_pair :: "datetime \<Rightarrow> datetime \<Rightarrow> bool" where
  "is_rollover_pair p r =
     ((dt_month p \<in> {11, 12} \<and> dt_month r \<in> {1, 2}) \<or> (dt_month p \<in> {1, 2} \<and> dt_month r \<in> {11, 12}))"

text \<open>\<open>replace(year=y)\<close> raises for 29 February of a common year; the day becomes 28.\<close>

definition with_year :: "datetime \<Rightarrow> int \<Rightarrow> datetime" where
  "with_year p y =
     (if dt_day p \<le> days_in_month y (dt_month p) then p\<lparr>dt_year := y\<rparr>
      else p\<lparr>dt_year := y, dt_day := 28\<rparr>)"

definition distance_to :: "datetime \<Rightarrow> datetime \<Rightarrow> rat" where
  "distance_to r c = \<bar>dt_seconds c - dt_seconds r\<bar>"

definition restamp_yearless :: "datetime \<Rightarrow> datetime \<Rightarrow> datetime" where
  "restamp_yearless p r =
     (if \<not> is_rollover_pair p r then with_year p (dt_year r)
      else min_by (distance_to r) (with_year p (dt_year r - 1))
             [with_year p (dt_year r), with_year p (dt_year r + 1)])"

type_synonym ts_parser = "string \<Rightarrow> datetime option"

text \<open>\<open>_reference_dt\<close>: the loop with the first yearless stamp remembered.\<close>

fun reference_loop :: "ts_parser \<Rightarrow> datetime \<Rightarrow> datetime option \<Rightarrow> string list \<Rightarrow> datetime" where
  "reference_loop pts now first [] =
     (case first of None \<Rightarrow> now | Some p \<Rightarrow> restamp_yearless p now)"
| "reference_loop pts now first (ts # rest) =
     (case pts ts of
        None \<Rightarrow> reference_loop pts now first rest
      | Some p \<Rightarrow>
          (if dt_year p \<noteq> yearless then p
           else reference_loop pts now (if first = None then Some p else first) rest))"

definition reference_dt :: "ts_parser \<Rightarrow> datetime \<Rightarrow> string list \<Rightarrow> datetime" where
  "reference_dt pts now stamps = reference_loop pts now None stamps"

text \<open>The anchor of \<open>event_time\<close>: a datetime, a literal calendar year, or none.\<close>

datatype anchor = At datetime | Year int | No_Anchor

definition event_time_of :: "ts_parser \<Rightarrow> datetime \<Rightarrow> string \<Rightarrow> anchor \<Rightarrow> datetime option" where
  "event_time_of pts now ts a =
     (case pts ts of
        None \<Rightarrow> None
      | Some p \<Rightarrow>
          Some (if dt_year p \<noteq> yearless then p
                else case a of
                  At r \<Rightarrow> restamp_yearless p r
                | Year y \<Rightarrow> with_year p y
                | No_Anchor \<Rightarrow> restamp_yearless p now))"

definition event_time :: "ts_parser \<Rightarrow> datetime \<Rightarrow> event \<Rightarrow> anchor \<Rightarrow> datetime option" where
  "event_time pts now e a = event_time_of pts now (ev_timestamp e) a"

definition event_sort_key :: "ts_parser \<Rightarrow> datetime \<Rightarrow> anchor \<Rightarrow> event \<Rightarrow> rat \<times> string" where
  "event_sort_key pts now a e =
     (case event_time pts now e a of
        None \<Rightarrow> (dt_seconds dt_max, ev_hostname e)
      | Some d \<Rightarrow> (dt_seconds d, ev_hostname e))"

definition event_gap_seconds :: "ts_parser \<Rightarrow> datetime \<Rightarrow> anchor \<Rightarrow> event \<Rightarrow> event \<Rightarrow> rat" where
  "event_gap_seconds pts now a e1 e2 =
     (case (event_time pts now e1 a, event_time pts now e2 a) of
        (Some ta, Some tb) \<Rightarrow> \<bar>dt_seconds tb - dt_seconds ta\<bar>
      | _ \<Rightarrow> 0)"

section \<open>Laws\<close>

lemma div_pred:
  fixes y n :: int
  assumes "n > 1"
  shows "y div n = (y - 1) div n + (if n dvd y then 1 else 0)"
proof (cases "n dvd y")
  case True
  then obtain k where k: "y = n * k" by blast
  have "(y - 1) div n = k - 1"
    by (rule int_div_pos_eq [where r = "n - 1"]) (use assms k in \<open>auto simp: algebra_simps\<close>)
  then show ?thesis using True k assms by simp
next
  case False
  have m: "y mod n \<noteq> 0" using False by (simp add: dvd_eq_mod_eq_0)
  moreover have "0 \<le> y mod n" "y mod n < n" using assms by simp_all
  ultimately have "(y - 1) div n = y div n"
    by (intro int_div_pos_eq [where r = "y mod n - 1"])
       (use mult_div_mod_eq [of n y] in linarith)+
  then show ?thesis using False by simp
qed

lemma leap_arith:
  fixes a b c a' b' c' y :: int
  assumes "a = a' + (if P then 1 else 0)" "b = b' + (if Q then 1 else 0)" "c = c' + (if R then 1 else 0)"
    and "Q \<Longrightarrow> P" "R \<Longrightarrow> Q"
  shows "y * 365 + a - b + c = ((y - 1) * 365 + a' - b' + c') + (if P \<and> (\<not> Q \<or> R) then 366 else 365)"
  using assms by (cases P; cases Q; cases R) simp_all

lemma days_before_year_Suc:
  "days_before_year (y + 1) = days_before_year y + (if leap y then 366 else 365)"
proof -
  have imp: "100 dvd y \<Longrightarrow> 4 dvd y" "400 dvd y \<Longrightarrow> 100 dvd y"
    by (rule dvd_trans [rotated], assumption, simp)+
  show ?thesis
    unfolding days_before_year_def leap_def Let_def add_diff_cancel_right'
    by (rule leap_arith [OF div_pred div_pred div_pred imp]) simp_all
qed

text \<open>The day of the year: where a November, December, January or February day can lie.\<close>

definition day_of_year :: "datetime \<Rightarrow> int" where
  "day_of_year d = days_before_month (dt_year d) (dt_month d) + dt_day d"

lemma day_of_year_late:
  assumes "valid_dt d" and "dt_month d \<in> {11, 12}"
  shows "305 \<le> day_of_year d" and "day_of_year d \<le> (if leap (dt_year d) then 366 else 365)"
  using assms by (auto simp: day_of_year_def days_before_month_def valid_dt_def days_in_month_def)

lemma day_of_year_early:
  assumes "valid_dt d" and "dt_month d \<in> {1, 2}"
  shows "1 \<le> day_of_year d" and "day_of_year d \<le> 60"
  using assms by (auto simp: day_of_year_def days_before_month_def valid_dt_def days_in_month_def split: if_splits)

text \<open>Distances between valid datetimes, read off the ordinals.\<close>

lemma distance_lt:
  assumes "valid_dt a" "valid_dt b" "\<bar>dt_ordinal a - dt_ordinal b\<bar> \<le> 121"
  shows "distance_to b a < 122 * 86400"
proof -
  have "\<bar>rat_of_int (dt_ordinal a) - rat_of_int (dt_ordinal b)\<bar> \<le> 121"
    using assms(3) by (metis of_int_abs of_int_diff of_int_le_iff of_int_numeral)
  moreover have "0 \<le> dt_secs a" "dt_secs a < 86400" "0 \<le> dt_secs b" "dt_secs b < 86400"
    using assms(1,2) by (simp_all add: valid_dt_def)
  ultimately show ?thesis unfolding distance_to_def dt_seconds_def by (simp add: abs_if split: if_splits)
qed

lemma distance_gt:
  assumes "valid_dt a" "valid_dt b" "\<bar>dt_ordinal a - dt_ordinal b\<bar> \<ge> 245"
  shows "distance_to b a > 244 * 86400"
proof -
  have "\<bar>rat_of_int (dt_ordinal a) - rat_of_int (dt_ordinal b)\<bar> \<ge> 245"
    using assms(3) by (metis of_int_abs of_int_diff of_int_le_iff of_int_numeral)
  moreover have "0 \<le> dt_secs a" "dt_secs a < 86400" "0 \<le> dt_secs b" "dt_secs b < 86400"
    using assms(1,2) by (simp_all add: valid_dt_def)
  ultimately show ?thesis unfolding distance_to_def dt_seconds_def by (simp add: abs_if split: if_splits)
qed

lemma valid_with_year [intro]: "valid_dt p \<Longrightarrow> valid_dt (with_year p y)"
  by (auto simp: valid_dt_def with_year_def days_in_month_def)

lemma with_year_simps [simp]:
  "dt_year (with_year p y) = y" "dt_month (with_year p y) = dt_month p" "dt_secs (with_year p y) = dt_secs p"
  by (simp_all add: with_year_def)

text \<open>
  Year ends stay ordered. A yearless November or December stamp next to a January or February
  anchor gets the year before the anchor's; a January or February stamp next to a November or December
  anchor gets the year after; every other stamp gets the anchor's year. So a December event always
  sorts before a following January one.
\<close>

theorem restamp_year:
  assumes "valid_dt p" and "valid_dt r"
  shows "dt_year (restamp_yearless p r) =
           (if dt_month p \<in> {11, 12} \<and> dt_month r \<in> {1, 2} then dt_year r - 1
            else if dt_month p \<in> {1, 2} \<and> dt_month r \<in> {11, 12} then dt_year r + 1
            else dt_year r)"
proof -
  let ?y = "dt_year r"
  have vy: "valid_dt (with_year p y)" for y using assms(1) by blast
  have up: "days_before_year ?y = days_before_year (?y - 1) + (if leap (?y - 1) then 366 else 365)"
    using days_before_year_Suc [of "?y - 1"] by simp
  have up': "days_before_year (?y + 1) = days_before_year ?y + (if leap ?y then 366 else 365)"
    by (rule days_before_year_Suc)
  have od: "dt_ordinal d = days_before_year (dt_year d) + day_of_year d" for d
    by (simp add: dt_ordinal_def day_of_year_def)
  consider (late) "dt_month p \<in> {11, 12}" "dt_month r \<in> {1, 2}"
    | (early) "dt_month p \<in> {1, 2}" "dt_month r \<in> {11, 12}"
    | (same) "\<not> is_rollover_pair p r"
    unfolding is_rollover_pair_def by blast
  then show ?thesis
  proof cases
    case late
    note b = day_of_year_early [OF assms(2) late(2)]
    have a: "305 \<le> day_of_year (with_year p y)"
      "day_of_year (with_year p y) \<le> (if leap y then 366 else 365)" for y
      using day_of_year_late [OF vy] late(1) by (metis with_year_simps(1,2))+
    have "distance_to r (with_year p (?y - 1)) < 122 * 86400"
      by (rule distance_lt [OF vy assms(2)]) (use a [of "?y - 1"] b up in \<open>auto simp: od split: if_splits\<close>)
    moreover have "distance_to r (with_year p ?y) > 244 * 86400"
      by (rule distance_gt [OF vy assms(2)]) (use a [of ?y] b in \<open>auto simp: od\<close>)
    moreover have "distance_to r (with_year p (?y + 1)) > 244 * 86400"
      by (rule distance_gt [OF vy assms(2)]) (use a [of "?y + 1"] b up' in \<open>auto simp: od split: if_splits\<close>)
    ultimately show ?thesis
      using late by (auto simp: restamp_yearless_def is_rollover_pair_def)
  next
    case early
    note b = day_of_year_late [OF assms(2) early(2)]
    have a: "1 \<le> day_of_year (with_year p y)" "day_of_year (with_year p y) \<le> 60" for y
      using day_of_year_early [OF vy] early(1) by (metis with_year_simps(2))+
    have "distance_to r (with_year p (?y + 1)) < 122 * 86400"
      by (rule distance_lt [OF vy assms(2)]) (use a [of "?y + 1"] b up' in \<open>auto simp: od split: if_splits\<close>)
    moreover have "distance_to r (with_year p ?y) > 244 * 86400"
      by (rule distance_gt [OF vy assms(2)]) (use a [of ?y] b in \<open>auto simp: od\<close>)
    moreover have "distance_to r (with_year p (?y - 1)) > 244 * 86400"
      by (rule distance_gt [OF vy assms(2)]) (use a [of "?y - 1"] b up in \<open>auto simp: od split: if_splits\<close>)
    ultimately show ?thesis
      using early by (auto simp: restamp_yearless_def is_rollover_pair_def)
  next
    case same
    then show ?thesis by (auto simp: restamp_yearless_def is_rollover_pair_def)
  qed
qed

definition new_years_eve :: datetime where
  "new_years_eve = \<lparr>dt_year = yearless, dt_month = 12, dt_day = 31, dt_secs = 86399\<rparr>"

definition new_years_day :: datetime where
  "new_years_day = \<lparr>dt_year = 2026, dt_month = 1, dt_day = 1, dt_secs = 1\<rparr>"

theorem restamp_year_witness:
  "dt_year (restamp_yearless new_years_eve new_years_day) = 2025"
  by (subst restamp_year) (simp_all add: new_years_eve_def new_years_day_def valid_dt_def days_in_month_def)

end
