(* ===== verification/Lru.thy ===== *)
theory Lru
  imports Netlog_Prelude
begin

text \<open>
  Least-recently-used order, shared by the bounded tables of the program (the entity tracker, the
  pattern miner). \<open>touch\<close> moves a key to the most recent end of an unbounded recency list;
  \<open>lru_step\<close> is what a table of capacity \<open>m\<close> does with an \<open>OrderedDict\<close>: move an existing key to
  the end, else evict the first key when the table is full and append. The law: a table is at every
  moment the last \<open>m\<close> keys of the unbounded recency list.
\<close>

definition touch :: "'k \<Rightarrow> 'k list \<Rightarrow> 'k list" where
  "touch k r = filter (\<lambda>x. x \<noteq> k) r @ [k]"

definition lru_step :: "nat \<Rightarrow> 'k \<Rightarrow> 'k list \<Rightarrow> 'k list" where
  "lru_step m k c = (if k \<in> set c then touch k c else (if m \<le> length c then tl c else c) @ [k])"

definition recency :: "'k list \<Rightarrow> 'k list" where
  "recency ks = fold touch ks []"

lemma distinct_touch [simp]: "distinct r \<Longrightarrow> distinct (touch k r)"
  by (simp add: touch_def)

lemma set_touch [simp]: "set (touch k r) = insert k (set r)"
  by (auto simp: touch_def)

lemma distinct_recency [simp]: "distinct (recency ks)"
  unfolding recency_def by (induction ks rule: rev_induct) simp_all

lemma set_recency [simp]: "set (recency ks) = set ks"
  unfolding recency_def by (induction ks rule: rev_induct) simp_all

lemma recency_snoc: "recency (ks @ [k]) = touch k (recency ks)"
  by (simp add: recency_def)

lemma take_last_snoc: "take_last (Suc m) (xs @ [x]) = take_last m xs @ [x]"
  by (simp add: take_last_def Suc_diff_le)

lemma filter_notin: "k \<notin> set xs \<Longrightarrow> filter (\<lambda>x. x \<noteq> k) xs = xs"
  by (induction xs) auto

lemma length_filter_remove:
  "distinct xs \<Longrightarrow> k \<in> set xs \<Longrightarrow> length (filter (\<lambda>x. x \<noteq> k) xs) = length xs - 1"
  by (induction xs) (auto simp: filter_notin neq_Nil_conv in_set_conv_decomp)

lemma lru_step_take_last:
  assumes "distinct r" and "0 < m"
  shows "lru_step m k (take_last m r) = take_last m (touch k r)"
proof -
  obtain n where m: "m = Suc n" using assms(2) gr0_implies_Suc by blast
  obtain a where a: "r = a @ take_last m r" using take_last_suffix by metis
  have goal: "take_last m (touch k r) = take_last n (filter (\<lambda>x. x \<noteq> k) r) @ [k]"
    by (simp add: touch_def m take_last_snoc)
  show ?thesis
  proof (cases "k \<in> set (take_last m r)")
    case True
    let ?b = "take_last m r"
    have na: "k \<notin> set a" using True assms(1) a by (metis IntI distinct_append empty_iff)
    have db: "distinct ?b" using assms(1) a by (metis distinct_append)
    have "length (filter (\<lambda>x. x \<noteq> k) ?b) = length ?b - 1"
      using True db by (rule length_filter_remove [rotated])
    then have len: "length (filter (\<lambda>x. x \<noteq> k) ?b) \<le> n" "length r > n \<Longrightarrow> length (filter (\<lambda>x. x \<noteq> k) ?b) = n"
      by (auto simp: m)
    have "filter (\<lambda>x. x \<noteq> k) r = a @ filter (\<lambda>x. x \<noteq> k) ?b"
      using na by (subst a) (simp add: filter_notin)
    moreover have "a = [] \<or> length r > n"
    proof (cases "length r \<le> m")
      case True
      with a take_last_all have "a @ r = r" by metis
      then show ?thesis by simp
    qed (simp add: m)
    ultimately have "take_last n (filter (\<lambda>x. x \<noteq> k) r) = filter (\<lambda>x. x \<noteq> k) ?b"
      using len by (auto simp: take_last_def)
    with True goal show ?thesis by (simp add: lru_step_def touch_def)
  next
    case False
    show ?thesis
    proof (cases "length r \<ge> m")
      case True
      let ?b = "take_last m r"
      have "filter (\<lambda>x. x \<noteq> k) r = filter (\<lambda>x. x \<noteq> k) a @ ?b"
        using False by (subst a) (simp add: filter_notin)
      then have "take_last n (filter (\<lambda>x. x \<noteq> k) r) = tl ?b"
        using True by (simp add: take_last_def m tl_drop flip: drop_Suc)
      with False True goal show ?thesis by (simp add: lru_step_def)
    next
      case short: False
      then have "take_last m r = r" by (simp add: take_last_all)
      with False have "filter (\<lambda>x. x \<noteq> k) r = r" by (simp add: filter_notin)
      with short False goal \<open>take_last m r = r\<close> show ?thesis
        by (simp add: lru_step_def take_last_all m)
    qed
  qed
qed

theorem lru_keeps_most_recent:
  assumes "0 < m"
  shows "fold (lru_step m) ks [] = take_last m (recency ks)"
proof (induction ks rule: rev_induct)
  case Nil
  then show ?case by (simp add: take_last_def recency_def)
next
  case (snoc k ks)
  then show ?case by (simp add: lru_step_take_last [OF distinct_recency assms] recency_snoc)
qed

end
