(* ===== verification/Entity_State.thy ===== *)
theory Entity_State
  imports Causal_Time Lru Json_Value
begin

text \<open>
  Down/up pairing per network entity (\<open>entity_state.py\<close>): the identity of the object an event is
  about, the bounded LRU tracker of transitions, the pairing of one entity's transitions into
  active / recovered / flapping / up, and the roll-ups over entities.

  The \<open>OrderedDict\<close> of slots is an association list in recency order.
\<close>

type_synonym entity_key = "string \<times> string \<times> string"

definition kind_by_event_type :: "(string \<times> string) list" where
  "kind_by_event_type =
     [(''bgp_session'', ''bgp''), (''bgp_max_prefix'', ''bgp''), (''interface_link'', ''intf''),
      (''ipsec_tunnel'', ''tunnel''), (''ike_phase1'', ''tunnel''), (''ike_phase2'', ''tunnel''),
      (''sdwan_sla'', ''sla''), (''bfd_session'', ''bfd''), (''omp_peer'', ''omp''),
      (''control_connection'', ''control''), (''ospf_adjacency'', ''ospf''), (''isis_adjacency'', ''isis''),
      (''ldp_session'', ''ldp''), (''lag_member'', ''lag''), (''conserve_mode'', ''conserve'')]"

definition status_rank :: "(string \<times> nat) list" where
  "status_rank = [(''active'', 0), (''flapping'', 1), (''recovered'', 2), (''up'', 3)]"

text \<open>\<open>a or b\<close> on strings.\<close>

abbreviation or_str :: "string \<Rightarrow> string \<Rightarrow> string" where
  "or_str a b \<equiv> (if a \<noteq> [] then a else b)"

definition env_int :: "(string \<Rightarrow> string) \<Rightarrow> string \<Rightarrow> int \<Rightarrow> int" where
  "env_int env name d =
     (case env name of
        [] \<Rightarrow> max 1 d
      | c # cs \<Rightarrow> (case parse_int (c # cs) of None \<Rightarrow> d | Some n \<Rightarrow> max 1 n))"

definition entity_ident :: "string \<Rightarrow> event \<Rightarrow> string" where
  "entity_ident kind e =
     (if kind = ''bgp'' then (if ev_peer_ip e = [] then [] else or_str (ev_vrf e) ''default'' @ ''|'' @ ev_peer_ip e)
      else if kind = ''intf'' \<or> kind = ''lag'' then ev_interface e
      else if kind = ''tunnel'' then or_str (ev_tunnel_id e) (ev_peer_ip e)
      else if kind = ''sla'' then
        (if attr e ''healthcheck'' \<noteq> [] \<or> ev_interface e \<noteq> []
         then attr e ''healthcheck'' @ ''|'' @ ev_interface e else [])
      else if kind = ''bfd'' \<or> kind = ''control'' then or_str (ev_tunnel_id e) (ev_peer_ip e)
      else if kind = ''omp'' \<or> kind = ''ospf'' then or_str (ev_peer_ip e) (ev_interface e)
      else if kind = ''isis'' then or_str (ev_interface e) (attr e ''neighbor'')
      else if kind = ''ldp'' then or_str (ev_peer_ip e) (ev_interface e)
      else ''memory'')"

definition entity_key :: "event \<Rightarrow> entity_key option" where
  "entity_key e =
     (let kind = dict_get kind_by_event_type (ev_event_type e) []
      in if kind = [] then None
         else let ident = entity_ident kind e
              in if ident = [] then None else Some (lower (ev_hostname e), kind, lower ident))"

section \<open>The tracker\<close>

text \<open>One transition: the stamp, the arrival number and the state.\<close>

record transition =
  tr_ts :: string
  tr_seq :: nat
  tr_state :: string

record slot =
  sl_t :: "transition list"
  sl_vendor :: string
  sl_event_type :: string
  sl_host :: string

record tracker =
  tk_flap_threshold :: nat
  tk_flap_window_s :: int
  tk_max_entities :: nat
  tk_max_transitions :: nat
  tk_entities :: "(entity_key \<times> slot) list"
  tk_dropped :: nat

definition new_tracker :: "(string \<Rightarrow> string) \<Rightarrow> nat option \<Rightarrow> int option \<Rightarrow> nat \<Rightarrow> nat \<Rightarrow> tracker" where
  "new_tracker env threshold window max_e max_t =
     \<lparr>tk_flap_threshold =
        (case threshold of Some n \<Rightarrow> (if n \<noteq> 0 then n else nat (env_int env ''AI_LOG_ANALYZER_FLAP_THRESHOLD'' 3))
         | None \<Rightarrow> nat (env_int env ''AI_LOG_ANALYZER_FLAP_THRESHOLD'' 3)),
      tk_flap_window_s =
        (case window of Some n \<Rightarrow> (if n \<noteq> 0 then n else env_int env ''AI_LOG_ANALYZER_FLAP_WINDOW_S'' 600)
         | None \<Rightarrow> env_int env ''AI_LOG_ANALYZER_FLAP_WINDOW_S'' 600),
      tk_max_entities = max_e, tk_max_transitions = max_t, tk_entities = [], tk_dropped = 0\<rparr>"

definition add_transition :: "nat \<Rightarrow> transition \<Rightarrow> slot \<Rightarrow> slot" where
  "add_transition m x sl =
     (let t = sl_t sl @ [x] in sl\<lparr>sl_t := (if length t > m then tl t else t)\<rparr>)"

text \<open>
  \<open>add\<close>: an event without a state or an identity is ignored. \<open>popitem\<close> on an empty table (a
  tracker built with \<open>max_entities = 0\<close>) raises \<open>KeyError\<close>.
\<close>

definition tracker_add :: "event \<Rightarrow> nat \<Rightarrow> tracker \<Rightarrow> py_error + (tracker \<times> entity_key option)" where
  "tracker_add e n tk =
     (if ev_state e \<noteq> ''down'' \<and> ev_state e \<noteq> ''up'' then Inr (tk, None)
      else case entity_key e of
        None \<Rightarrow> Inr (tk, None)
      | Some k \<Rightarrow>
          (let x = \<lparr>tr_ts = ev_timestamp e, tr_seq = n, tr_state = ev_state e\<rparr>;
               blank = \<lparr>sl_t = [], sl_vendor = ev_vendor e, sl_event_type = ev_event_type e,
                        sl_host = ev_hostname e\<rparr>;
               ents = tk_entities tk
           in case map_of ents k of
                Some sl \<Rightarrow>
                  Inr (tk\<lparr>tk_entities := filter (\<lambda>(k', _). k' \<noteq> k) ents
                                           @ [(k, add_transition (tk_max_transitions tk) x sl)]\<rparr>, Some k)
              | None \<Rightarrow>
                  (if length ents \<ge> tk_max_entities tk then
                     (if ents = [] then Inl Key_Error
                      else Inr (tk\<lparr>tk_entities := tl ents @ [(k, add_transition (tk_max_transitions tk) x blank)],
                                   tk_dropped := tk_dropped tk + 1\<rparr>, Some k))
                   else Inr (tk\<lparr>tk_entities := ents @ [(k, add_transition (tk_max_transitions tk) x blank)]\<rparr>,
                             Some k))))"

text \<open>The driver: every event in order, numbered by arrival.\<close>

fun tracker_run :: "(event \<times> nat) list \<Rightarrow> tracker \<Rightarrow> py_error + tracker" where
  "tracker_run [] tk = Inr tk"
| "tracker_run ((e, n) # es) tk =
     (case tracker_add e n tk of Inl err \<Rightarrow> Inl err | Inr (tk', _) \<Rightarrow> tracker_run es tk')"

definition tracker_status :: "tracker \<Rightarrow> (string \<times> nat) list" where
  "tracker_status tk = [(''tracked'', length (tk_entities tk)), (''max_entities'', tk_max_entities tk),
     (''dropped_entities'', tk_dropped tk)]"

section \<open>Pairing the transitions of one entity\<close>

record pairing =
  pr_downs :: "(datetime option \<times> string) list"
  pr_ups :: nat
  pr_current :: string
  pr_last_change :: string
  pr_outage :: "rat option"
  pr_last_down_at :: "datetime option"

definition no_pairing :: pairing where
  "no_pairing = \<lparr>pr_downs = [], pr_ups = 0, pr_current = [], pr_last_change = [], pr_outage = None,
     pr_last_down_at = None\<rparr>"

type_synonym timed = "datetime option \<times> nat \<times> string \<times> string"

definition pair_step :: "timed \<Rightarrow> pairing \<Rightarrow> pairing" where
  "pair_step x p =
     (case x of (when, _, state, ts) \<Rightarrow>
        if state = pr_current p then p
        else let p = p\<lparr>pr_current := state, pr_last_change := ts\<rparr>
             in if state = ''down'' then p\<lparr>pr_downs := pr_downs p @ [(when, ts)], pr_last_down_at := when\<rparr>
                else p\<lparr>pr_ups := pr_ups p + 1,
                       pr_outage := (case (pr_last_down_at p, when) of
                          (Some d, Some w) \<Rightarrow> Some (dt_seconds w - dt_seconds d) | _ \<Rightarrow> pr_outage p)\<rparr>)"

definition pair_all :: "timed list \<Rightarrow> pairing" where
  "pair_all timed = fold pair_step timed no_pairing"

text \<open>Chronological when every stamp parses, otherwise arrival order.\<close>

definition time_order :: "timed list \<Rightarrow> timed list" where
  "time_order timed =
     (if list_all (\<lambda>t. fst t \<noteq> None) timed
      then sort_key (\<lambda>t. (dt_seconds (the (fst t)), fst (snd t))) timed
      else sort_key (\<lambda>t. fst (snd t)) timed)"

definition timed_of :: "ts_parser \<Rightarrow> datetime \<Rightarrow> datetime \<Rightarrow> slot \<Rightarrow> timed list" where
  "timed_of pts now ref sl =
     map (\<lambda>x. (if tr_ts x \<noteq> [] then event_time_of pts now (tr_ts x) (At ref) else None,
               tr_seq x, tr_state x, tr_ts x)) (sl_t sl)"

definition is_flapping :: "nat \<Rightarrow> int \<Rightarrow> datetime option list \<Rightarrow> bool" where
  "is_flapping n window down_times =
     (if length down_times < n then False
      else if list_ex (\<lambda>t. t = None) down_times then True
      else let times = sort (map (\<lambda>t. dt_seconds (the t)) down_times)
           in list_ex (\<lambda>i. times ! (i + n - 1) - times ! i \<le> of_int window) [0 ..< length times + 1 - n])"

record entity_state =
  es_hostname :: string
  es_kind :: string
  es_entity :: string
  es_status :: string
  es_current_state :: string
  es_downs :: nat
  es_ups :: nat
  es_first_down :: string
  es_last_change :: string
  es_outage_seconds :: "rat option"
  es_vendor :: string
  es_event_type :: string

definition state_of_timed :: "nat \<Rightarrow> int \<Rightarrow> timed list \<Rightarrow> string \<times> pairing" where
  "state_of_timed n window timed =
     (let p = pair_all (time_order timed)
      in (if is_flapping n window (map fst (pr_downs p)) then ''flapping''
          else if pr_downs p = [] then ''up''
          else if pr_current p = ''up'' then ''recovered''
          else ''active'', p))"

definition state_for :: "ts_parser \<Rightarrow> datetime \<Rightarrow> tracker \<Rightarrow> entity_key \<Rightarrow> slot \<Rightarrow> datetime \<Rightarrow> entity_state" where
  "state_for pts now tk k sl ref =
     (let (status, p) = state_of_timed (tk_flap_threshold tk) (tk_flap_window_s tk) (timed_of pts now ref sl)
      in \<lparr>es_hostname = sl_host sl, es_kind = fst (snd k), es_entity = snd (snd k), es_status = status,
          es_current_state = pr_current p, es_downs = length (pr_downs p), es_ups = pr_ups p,
          es_first_down = (case pr_downs p of [] \<Rightarrow> [] | (_, ts) # _ \<Rightarrow> ts),
          es_last_change = pr_last_change p,
          es_outage_seconds = (if status \<noteq> ''active'' then pr_outage p else None),
          es_vendor = sl_vendor sl, es_event_type = sl_event_type sl\<rparr>)"

definition report :: "ts_parser \<Rightarrow> datetime \<Rightarrow> tracker \<Rightarrow> (entity_key \<times> entity_state) list" where
  "report pts now tk =
     (let ref = reference_dt pts now (concat (map (\<lambda>(_, sl). map tr_ts (take 1 (sl_t sl))) (tk_entities tk)))
      in map (\<lambda>(k, sl). (k, state_for pts now tk k sl ref)) (tk_entities tk))"

section \<open>Roll-ups\<close>

definition es_dict :: "entity_state \<Rightarrow> json" where
  "es_dict s = JObj
     [(''hostname'', JStr (es_hostname s)), (''kind'', JStr (es_kind s)), (''entity'', JStr (es_entity s)),
      (''status'', JStr (es_status s)), (''current_state'', JStr (es_current_state s)),
      (''downs'', JInt (int (es_downs s))), (''ups'', JInt (int (es_ups s))),
      (''first_down'', JStr (es_first_down s)), (''last_change'', JStr (es_last_change s)),
      (''outage_seconds'', case es_outage_seconds s of None \<Rightarrow> JNull | Some r \<Rightarrow> JNum r),
      (''vendor'', JStr (es_vendor s)), (''event_type'', JStr (es_event_type s))]"

definition worst_first :: "entity_state list \<Rightarrow> entity_state list" where
  "worst_first = sort_key (\<lambda>s. (dict_get status_rank (es_status s) 9, es_hostname s, es_entity s))"

definition status_counts :: "entity_state list \<Rightarrow> (string \<times> nat) list" where
  "status_counts ss = counts_of (map es_status ss)"

definition counts_json :: "(string \<times> nat) list \<Rightarrow> json" where
  "counts_json cs = JObj (map (\<lambda>(k, n). (k, JInt (int n))) cs)"

definition summarize :: "entity_state list \<Rightarrow> nat \<Rightarrow> nat \<Rightarrow> json" where
  "summarize states limit dropped =
     (let items = worst_first states
      in JObj ([(''counts'', counts_json (status_counts items)),
                (''entities'', JList (map es_dict (take limit items))),
                (''total'', JInt (int (length items)))]
               @ (if dropped \<noteq> 0 then [(''dropped_entities'', JInt (int dropped))] else [])))"

definition tracker_summary :: "ts_parser \<Rightarrow> datetime \<Rightarrow> tracker \<Rightarrow> nat \<Rightarrow> json" where
  "tracker_summary pts now tk limit = summarize (map snd (report pts now tk)) limit (tk_dropped tk)"

definition group_state :: "entity_key list \<Rightarrow> (entity_key \<times> entity_state) list \<Rightarrow> string \<times> json" where
  "group_state keys rep =
     (let states = List.map_filter (map_of rep) keys
      in if states = [] then ([], JObj [])
         else let counts = status_counts states;
                  status = (if dict_get counts ''active'' 0 \<noteq> 0 then ''active''
                            else if dict_get counts ''flapping'' 0 \<noteq> 0 then ''flapping''
                            else if dict_get counts ''recovered'' 0 \<noteq> 0 then ''recovered''
                            else ''up'')
              in (status, JObj [(''counts'', counts_json counts),
                                (''entities'', JList (map es_dict (take 10 (worst_first states))))]))"

end
