(* ===== verification/Entity_Laws.thy ===== *)
theory Entity_Laws
  imports Entity_State "HOL-Library.Multiset"
begin

text \<open>
  Laws of the entity tracker: which entities it keeps and how much of each, what the pairing of one
  entity's transitions counts, when the flap rule fires, and what a group's status says of its members.
\<close>

section \<open>What the tracker keeps\<close>

text \<open>The entity an event updates: none without a state or an identity.\<close>

definition touched :: "event \<Rightarrow> entity_key option" where
  "touched e = (if ev_state e = ''down'' \<or> ev_state e = ''up'' then entity_key e else None)"

definition touched_keys :: "(event \<times> nat) list \<Rightarrow> entity_key list" where
  "touched_keys es = List.map_filter (\<lambda>(e, _). touched e) es"

definition tracker_ok :: "tracker \<Rightarrow> entity_key list \<Rightarrow> bool" where
  "tracker_ok tk hist \<longleftrightarrow> 0 < tk_max_entities tk
     \<and> map fst (tk_entities tk) = take_last (tk_max_entities tk) (recency hist)
     \<and> (\<forall>sl\<in>snd ` set (tk_entities tk). length (sl_t sl) \<le> tk_max_transitions tk)"

definition same_caps :: "tracker \<Rightarrow> tracker \<Rightarrow> bool" where
  "same_caps a b \<longleftrightarrow> tk_max_entities a = tk_max_entities b \<and> tk_max_transitions a = tk_max_transitions b
     \<and> tk_flap_threshold a = tk_flap_threshold b \<and> tk_flap_window_s a = tk_flap_window_s b"

lemma add_transition_length [simp]:
  "length (sl_t sl) \<le> m \<Longrightarrow> length (sl_t (add_transition m x sl)) \<le> m"
  by (auto simp: add_transition_def Let_def)

lemma map_fst_filter_key: "map fst (filter (\<lambda>(k', _). k' \<noteq> k) d) = filter (\<lambda>k'. k' \<noteq> k) (map fst d)"
  by (induction d) auto

lemma tracker_add_ok:
  assumes ok: "tracker_ok tk hist"
  obtains tk' where "tracker_add e n tk = Inr (tk', touched e)" and "same_caps tk' tk"
    and "tracker_ok tk' (hist @ (case touched e of None \<Rightarrow> [] | Some k \<Rightarrow> [k]))"
proof (cases "touched e")
  case None
  then have "tracker_add e n tk = Inr (tk, None)"
    by (auto simp: tracker_add_def touched_def split: if_splits)
  with None ok that show ?thesis by (auto simp: same_caps_def)
next
  case (Some k)
  let ?ents = "tk_entities tk" and ?m = "tk_max_entities tk"
  let ?x = "\<lparr>tr_ts = ev_timestamp e, tr_seq = n, tr_state = ev_state e\<rparr>"
  let ?blank = "\<lparr>sl_t = [], sl_vendor = ev_vendor e, sl_event_type = ev_event_type e, sl_host = ev_hostname e\<rparr>"
  have st: "ev_state e = ''down'' \<or> ev_state e = ''up''" and key: "entity_key e = Some k"
    using Some by (auto simp: touched_def split: if_splits)
  have m: "0 < ?m" and ks: "map fst ?ents = take_last ?m (recency hist)"
    and bd: "\<And>sl. sl \<in> snd ` set ?ents \<Longrightarrow> length (sl_t sl) \<le> tk_max_transitions tk"
    using ok by (auto simp: tracker_ok_def)
  have goal: "take_last ?m (recency (hist @ [k])) = lru_step ?m k (map fst ?ents)"
    by (simp add: recency_snoc lru_step_take_last [OF distinct_recency m] ks)
  show ?thesis
  proof (cases "map_of ?ents k")
    case None
    then have nk: "k \<notin> set (map fst ?ents)" by (simp add: map_of_eq_None_iff)
    show ?thesis
    proof (cases "?m \<le> length ?ents")
      case True
      then have ne: "?ents \<noteq> []" using m by auto
      let ?tk = "tk\<lparr>tk_entities := tl ?ents @ [(k, add_transition (tk_max_transitions tk) ?x ?blank)],
                    tk_dropped := tk_dropped tk + 1\<rparr>"
      have "tracker_add e n tk = Inr (?tk, touched e)"
        using st key None True ne Some unfolding tracker_add_def Let_def by auto
      moreover have "tracker_ok ?tk (hist @ [k])"
        using m nk True goal bd
        by (auto simp: tracker_ok_def lru_step_def map_tl dest: list.set_sel(2) [OF ne])
      ultimately show ?thesis using that [of ?tk] Some by (simp add: same_caps_def)
    next
      case False
      let ?tk = "tk\<lparr>tk_entities := ?ents @ [(k, add_transition (tk_max_transitions tk) ?x ?blank)]\<rparr>"
      have "tracker_add e n tk = Inr (?tk, touched e)"
        using st key None False Some unfolding tracker_add_def Let_def by auto
      moreover have "tracker_ok ?tk (hist @ [k])"
        using m nk False goal bd by (auto simp: tracker_ok_def lru_step_def)
      ultimately show ?thesis using that [of ?tk] Some by (simp add: same_caps_def)
    qed
  next
    case (Some sl)
    then have kin: "k \<in> set (map fst ?ents)" "sl \<in> snd ` set ?ents"
      by (force dest: map_of_SomeD)+
    let ?tk = "tk\<lparr>tk_entities := filter (\<lambda>(k', _). k' \<noteq> k) ?ents
                                  @ [(k, add_transition (tk_max_transitions tk) ?x sl)]\<rparr>"
    have "tracker_add e n tk = Inr (?tk, touched e)"
      using st key Some \<open>touched e = Some k\<close> unfolding tracker_add_def Let_def by auto
    moreover have "tracker_ok ?tk (hist @ [k])"
      using m kin goal bd by (auto simp: tracker_ok_def lru_step_def touch_def map_fst_filter_key)
    ultimately show ?thesis using that [of ?tk] \<open>touched e = Some k\<close> by (simp add: same_caps_def)
  qed
qed

lemma touched_keys_Cons:
  "touched_keys ((e, n) # es) = (case touched e of None \<Rightarrow> [] | Some k \<Rightarrow> [k]) @ touched_keys es"
  by (simp add: touched_keys_def map_filter_simps split: option.splits)

lemma tracker_run_ok:
  assumes "tracker_ok tk hist"
  shows "\<exists>tk'. tracker_run es tk = Inr tk' \<and> same_caps tk' tk \<and> tracker_ok tk' (hist @ touched_keys es)"
  using assms
proof (induction es arbitrary: tk hist)
  case Nil
  then show ?case by (simp add: same_caps_def touched_keys_def map_filter_simps)
next
  case (Cons en es)
  obtain e n where en: "en = (e, n)" by (cases en)
  obtain tk1 where s: "tracker_add e n tk = Inr (tk1, touched e)" "same_caps tk1 tk"
    "tracker_ok tk1 (hist @ (case touched e of None \<Rightarrow> [] | Some k \<Rightarrow> [k]))"
    using tracker_add_ok [OF Cons.prems] .
  from Cons.IH [OF s(3)] obtain tk' where
    "tracker_run es tk1 = Inr tk'" "same_caps tk' tk1"
    "tracker_ok tk' (hist @ (case touched e of None \<Rightarrow> [] | Some k \<Rightarrow> [k]) @ touched_keys es)" by auto
  with s show ?case by (auto simp: en same_caps_def touched_keys_Cons)
qed

text \<open>
  C29: the entity tracker never fails and its memory is bounded: after any stream of events it tracks
  exactly the \<open>max_entities\<close> most recently updated entities, least recently updated first, and keeps
  at most \<open>max_transitions\<close> transitions of each.
\<close>

theorem tracker_keeps_recent:
  assumes "0 < max_e"
  shows "\<exists>tk. tracker_run es (new_tracker env threshold window max_e max_t) = Inr tk
     \<and> map fst (tk_entities tk) = take_last max_e (recency (touched_keys es))
     \<and> (\<forall>(k, sl)\<in>set (tk_entities tk). length (sl_t sl) \<le> max_t)"
proof -
  let ?tk = "new_tracker env threshold window max_e max_t"
  have "tracker_ok ?tk []"
    using assms by (simp add: tracker_ok_def new_tracker_def recency_def take_last_def)
  from tracker_run_ok [OF this, of es] obtain tk where
    "tracker_run es ?tk = Inr tk" "same_caps tk ?tk" "tracker_ok tk (touched_keys es)" by auto
  then show ?thesis by (auto simp: tracker_ok_def same_caps_def new_tracker_def image_iff)
qed

definition intf_event :: "string \<Rightarrow> string \<Rightarrow> string \<Rightarrow> event" where
  "intf_event host intf state = blank_event\<lparr>ev_hostname := host, ev_event_type := ''interface_link'',
     ev_interface := intf, ev_state := state\<rparr>"

theorem tracker_keeps_recent_witness:
  "\<exists>tk. tracker_run [(intf_event ''r1'' ''e1'' ''down'', 0), (intf_event ''r2'' ''e1'' ''down'', 1),
                     (intf_event ''r1'' ''e1'' ''up'', 2), (intf_event ''r3'' ''e1'' ''down'', 3)]
          (new_tracker (\<lambda>_. []) (Some 3) (Some 600) 2 32) = Inr tk
     \<and> map fst (tk_entities tk) = take_last 2 (recency (touched_keys
         [(intf_event ''r1'' ''e1'' ''down'', 0), (intf_event ''r2'' ''e1'' ''down'', 1),
          (intf_event ''r1'' ''e1'' ''up'', 2), (intf_event ''r3'' ''e1'' ''down'', 3)]))"
  using tracker_keeps_recent [of 2 "[(intf_event ''r1'' ''e1'' ''down'', 0), (intf_event ''r2'' ''e1'' ''down'', 1),
    (intf_event ''r1'' ''e1'' ''up'', 2), (intf_event ''r3'' ''e1'' ''down'', 3)]" "\<lambda>_. []" "Some 3" "Some 600" 32]
  by auto

section \<open>Pairing\<close>

definition states_of :: "timed list \<Rightarrow> string list" where
  "states_of timed = map (\<lambda>t. fst (snd (snd t))) timed"

text \<open>Repeated reports of the same state are one transition.\<close>

lemma pair_all_counts:
  assumes "set (states_of timed) \<subseteq> {''down'', ''up''}"
  shows "length (pr_downs (pair_all timed)) = count_list (remdups_adj (states_of timed)) ''down''
     \<and> pr_ups (pair_all timed) = count_list (remdups_adj (states_of timed)) ''up''
     \<and> pr_current (pair_all timed) = (if timed = [] then [] else last (states_of timed))"
  using assms
proof (induction timed rule: rev_induct)
  case Nil
  then show ?case by (simp add: pair_all_def no_pairing_def states_of_def)
next
  case (snoc x xs)
  obtain w n s ts where x: "x = (w, n, s, ts)" by (cases x) auto
  have s: "s \<in> {''down'', ''up''}" using snoc.prems by (auto simp: states_of_def x)
  have p: "pair_all (xs @ [x]) = pair_step x (pair_all xs)" by (simp add: pair_all_def)
  have so: "states_of (xs @ [x]) = states_of xs @ [s]" by (simp add: states_of_def x)
  have IH: "length (pr_downs (pair_all xs)) = count_list (remdups_adj (states_of xs)) ''down''"
    "pr_ups (pair_all xs) = count_list (remdups_adj (states_of xs)) ''up''"
    "pr_current (pair_all xs) = (if xs = [] then [] else last (states_of xs))"
    using snoc by (auto simp: so)
  have e: "states_of xs = [] \<longleftrightarrow> xs = []" by (simp add: states_of_def)
  show ?case
  proof (cases "s = pr_current (pair_all xs)")
    case True
    with s IH(3) have "xs \<noteq> []" "last (states_of xs) = s" by (auto split: if_splits)
    then have "remdups_adj (states_of xs @ [s]) = remdups_adj (states_of xs)"
      using e by (simp add: remdups_adj_snoc)
    with True IH \<open>xs \<noteq> []\<close> e show ?thesis
      unfolding p so by (simp add: pair_step_def x)
  next
    case False
    with s IH(3) have "xs = [] \<or> last (states_of xs) \<noteq> s" by (auto split: if_splits)
    then have "remdups_adj (states_of xs @ [s]) = remdups_adj (states_of xs) @ [s]"
      using e by (cases "states_of xs = []") (simp_all add: remdups_adj_snoc)
    with False IH s e show ?thesis
      unfolding p so by (auto simp: pair_step_def x Let_def split: option.splits)
  qed
qed

text \<open>
  What the loop knows at each moment: while down, where the current outage began; while up after an
  outage, the last outage as a stretch of the list.
\<close>

definition state_at :: "timed \<Rightarrow> string" where
  "state_at t = fst (snd (snd t))"

definition time_at :: "timed \<Rightarrow> rat" where
  "time_at t = dt_seconds (the (fst t))"

definition outage_begins :: "timed list \<Rightarrow> timed list \<Rightarrow> timed \<Rightarrow> timed list \<Rightarrow> bool" where
  "outage_begins xs pre d mid \<longleftrightarrow> xs = pre @ d # mid \<and> (\<forall>t\<in>set (d # mid). state_at t = ''down'')
     \<and> (pre = [] \<or> state_at (last pre) = ''up'')"

definition last_outage :: "timed list \<Rightarrow> timed \<Rightarrow> timed \<Rightarrow> bool" where
  "last_outage xs d u \<longleftrightarrow> (\<exists>pre mid post. xs = pre @ d # mid @ u # post
     \<and> (\<forall>t\<in>set (d # mid). state_at t = ''down'') \<and> (\<forall>t\<in>set (u # post). state_at t = ''up'')
     \<and> (pre = [] \<or> state_at (last pre) = ''up''))"

lemma last_outage_snoc: "last_outage xs d u \<Longrightarrow> state_at x = ''up'' \<Longrightarrow> last_outage (xs @ [x]) d u"
  unfolding last_outage_def by (elim exE conjE) (rule exI, rule exI, rule_tac x = "post @ [x]" in exI, auto)

lemma outage_begins_snoc: "outage_begins xs pre d mid \<Longrightarrow> state_at x = ''down'' \<Longrightarrow> outage_begins (xs @ [x]) pre d (mid @ [x])"
  by (auto simp: outage_begins_def)

lemma outage_ends: "outage_begins xs pre d mid \<Longrightarrow> state_at x = ''up'' \<Longrightarrow> last_outage (xs @ [x]) d x"
  unfolding outage_begins_def last_outage_def
  by (rule exI [where x = pre], rule exI [where x = mid], rule exI [where x = "[]"]) auto

lemma pair_all_trace:
  assumes "\<forall>t\<in>set xs. state_at t \<in> {''down'', ''up''} \<and> fst t \<noteq> None"
  shows "(pr_current (pair_all xs) = ''down'' \<longrightarrow>
            (\<exists>pre d mid. outage_begins xs pre d mid \<and> pr_last_down_at (pair_all xs) = fst d))
       \<and> (pr_current (pair_all xs) = ''up'' \<and> pr_downs (pair_all xs) \<noteq> [] \<longrightarrow>
            (\<exists>d u. last_outage xs d u \<and> pr_outage (pair_all xs) = Some (time_at u - time_at d)))
       \<and> (pr_current (pair_all xs) = (if xs = [] then [] else state_at (last xs)))"
  using assms
proof (induction xs rule: rev_induct)
  case Nil
  then show ?case by (simp add: pair_all_def no_pairing_def)
next
  case (snoc x xs)
  obtain w n s ts where x: "x = (w, n, s, ts)" by (cases x) auto
  have s: "s = ''down'' \<or> s = ''up''" and w: "w \<noteq> None" "state_at x = s"
    using snoc.prems by (auto simp: state_at_def x)
  have p: "pair_all (xs @ [x]) = pair_step x (pair_all xs)" by (simp add: pair_all_def)
  let ?p = "pair_all xs"
  have IH: "pr_current ?p = ''down'' \<Longrightarrow> \<exists>pre d mid. outage_begins xs pre d mid \<and> pr_last_down_at ?p = fst d"
    "pr_current ?p = ''up'' \<Longrightarrow> pr_downs ?p \<noteq> [] \<Longrightarrow>
       \<exists>d u. last_outage xs d u \<and> pr_outage ?p = Some (time_at u - time_at d)"
    "pr_current ?p = (if xs = [] then [] else state_at (last xs))"
    using snoc by auto
  have lst: "xs \<noteq> [] \<Longrightarrow> state_at (last xs) = ''down'' \<or> state_at (last xs) = ''up''"
    using snoc.prems by (metis Un_iff empty_iff insert_iff last_in_set set_append)
  consider (rep) "s = pr_current ?p" | (new_down) "s = ''down''" "pr_current ?p \<noteq> ''down''"
    | (recover) "s = ''up''" "pr_current ?p = ''down''" | (first_up) "s = ''up''" "xs = []"
    using s IH(3) lst by (auto split: if_splits)
  then show ?case
  proof cases
    case rep
    then have e: "pair_step x ?p = ?p" by (simp add: pair_step_def x)
    show ?thesis
      unfolding p e using IH rep s w outage_begins_snoc [of xs _ _ _ x] last_outage_snoc [of xs _ _ x]
      by (metis append_is_Nil_conv last_snoc not_Cons_self2)
  next
    case new_down
    have "outage_begins (xs @ [x]) xs x []"
      using new_down IH(3) w snoc.prems by (auto simp: outage_begins_def split: if_splits)
    moreover have c: "pr_last_down_at (pair_step x ?p) = fst x" "pr_current (pair_step x ?p) = ''down''"
      using new_down by (auto simp: pair_step_def x Let_def)
    ultimately have "\<exists>pre d mid. outage_begins (xs @ [x]) pre d mid \<and> pr_last_down_at (pair_step x ?p) = fst d"
      by blast
    then show ?thesis
      unfolding p using c new_down w by simp
  next
    case recover
    obtain pre d mid where d: "outage_begins xs pre d mid" "pr_last_down_at ?p = fst d"
      using IH(1) recover(2) by blast
    have "fst d \<noteq> None" using d(1) snoc.prems by (auto simp: outage_begins_def)
    then have "pr_outage (pair_step x ?p) = Some (time_at x - time_at d)"
      using d(2) w recover by (auto simp: pair_step_def x Let_def time_at_def)
    moreover have "last_outage (xs @ [x]) d x" using outage_ends [OF d(1)] w recover by simp
    ultimately have "\<exists>d u. last_outage (xs @ [x]) d u \<and> pr_outage (pair_step x ?p) = Some (time_at u - time_at d)"
      by blast
    moreover have "pr_current (pair_step x ?p) = ''up''"
      using recover by (auto simp: pair_step_def x Let_def split: option.splits)
    ultimately show ?thesis
      unfolding p using w recover(1) by simp
  next
    case first_up
    then show ?thesis
      unfolding p using w by (auto simp: pair_step_def x Let_def pair_all_def no_pairing_def split: option.splits)
  qed
qed

lemma sorted_time_order:
  assumes "\<forall>t\<in>set xs. fst t \<noteq> None"
  shows "sorted (map time_at (time_order xs))"
proof -
  have "sorted (map (\<lambda>t. (dt_seconds (the (fst t)), fst (snd t))) (time_order xs))"
    using assms by (simp add: time_order_def list_all_iff)
  then have "sorted_wrt (\<lambda>a b. time_at a \<le> time_at b) (time_order xs)"
    unfolding sorted_map by (rule sorted_wrt_mono_rel [rotated]) (auto simp: less_eq_prod_def time_at_def)
  then show ?thesis by (simp add: sorted_map)
qed

lemma set_time_order [simp]: "set (time_order xs) = set xs"
  by (simp add: time_order_def)

text \<open>
  What "recovered" means. When every stamp parses, an entity is recovered only if its chronological
  history ends in a run of up reports after a run of down reports, and the outage it reports is the
  time from the first down of that run to the first up after it, never negative.
\<close>

theorem recovered_outage:
  assumes "\<forall>t\<in>set xs. state_at t \<in> {''down'', ''up''} \<and> fst t \<noteq> None"
    and "state_of_timed n window xs = (''recovered'', p)"
  shows "\<exists>d u. last_outage (time_order xs) d u \<and> pr_outage p = Some (time_at u - time_at d)
     \<and> time_at d \<le> time_at u"
proof -
  have p: "p = pair_all (time_order xs)" "pr_current p = ''up''" "pr_downs p \<noteq> []"
    using assms(2) by (auto simp: state_of_timed_def Let_def split: if_splits)
  obtain d u where du: "last_outage (time_order xs) d u" "pr_outage p = Some (time_at u - time_at d)"
    using pair_all_trace [of "time_order xs"] assms(1) p by auto
  have "sorted (map time_at (time_order xs))" using sorted_time_order assms(1) by blast
  with du(1) have "time_at d \<le> time_at u" by (auto simp: last_outage_def sorted_append)
  with du show ?thesis by blast
qed

definition flap_history :: "timed list" where
  "flap_history = [(Some (new_years_day\<lparr>dt_secs := 20\<rparr>), 1, ''up'', ''t20''), (Some new_years_day, 0, ''down'', ''t1'')]"

theorem recovered_outage_witness:
  "\<exists>p. state_of_timed 3 600 flap_history = (''recovered'', p) \<and> pr_outage p = Some 19"
proof -
  have e: "state_of_timed 3 600 flap_history =
      (''recovered'', pair_all [(Some new_years_day, 0, ''down'', ''t1''),
                                (Some (new_years_day\<lparr>dt_secs := 20\<rparr>), 1, ''up'', ''t20'')])"
    by (simp add: state_of_timed_def flap_history_def time_order_def pair_all_def pair_step_def no_pairing_def
        is_flapping_def dt_seconds_def dt_ordinal_def new_years_day_def Let_def)
  have "\<exists>d u. last_outage (time_order flap_history) d u \<and> pr_outage (pair_all
      [(Some new_years_day, 0, ''down'', ''t1''), (Some (new_years_day\<lparr>dt_secs := 20\<rparr>), 1, ''up'', ''t20'')])
      = Some (time_at u - time_at d) \<and> time_at d \<le> time_at u"
    by (rule recovered_outage [OF _ e]) (simp add: flap_history_def state_at_def)
  then show ?thesis
    using e by (simp add: pair_all_def pair_step_def no_pairing_def dt_seconds_def dt_ordinal_def new_years_day_def)
qed

section \<open>Flapping\<close>

lemma sorted_split:
  assumes "sorted xs" and "\<And>x y. x \<le> y \<Longrightarrow> P y \<Longrightarrow> P x"
  shows "xs = filter P xs @ filter (\<lambda>x. \<not> P x) xs"
  using assms(1)
proof (induction xs)
  case (Cons x xs)
  show ?case
  proof (cases "P x")
    case False
    with Cons.prems assms(2) have "\<forall>y\<in>set xs. \<not> P y" by auto
    then have "filter P xs = []" by (simp add: filter_empty_conv)
    with False \<open>\<forall>y\<in>set xs. \<not> P y\<close> show ?thesis by simp
  qed (use Cons in auto)
qed simp

text \<open>In a sorted list the values of an interval are consecutive.\<close>

lemma sorted_window:
  fixes S :: "rat list"
  assumes "sorted S" and "0 < n" and "n \<le> length (filter (\<lambda>u. t \<le> u \<and> u \<le> t + w) S)"
  shows "\<exists>i. i + n \<le> length S \<and> S ! (i + n - 1) - S ! i \<le> w"
proof -
  let ?A = "filter (\<lambda>x. x < t) S" and ?F = "filter (\<lambda>u. t \<le> u \<and> u \<le> t + w) S"
  let ?R = "filter (\<lambda>x. \<not> x < t) S"
  have "S = ?A @ ?R" by (rule sorted_split [OF assms(1)]) auto
  moreover have "?R = filter (\<lambda>x. x \<le> t + w) ?R @ filter (\<lambda>x. \<not> x \<le> t + w) ?R"
    by (rule sorted_split) (use assms(1) in \<open>auto intro: sorted_wrt_filter\<close>)
  moreover have "filter (\<lambda>x. x \<le> t + w) ?R = ?F" by (auto intro: filter_cong simp: not_less conj_commute)
  ultimately obtain z where S: "S = ?A @ ?F @ z" by metis
  let ?i = "length ?A"
  have at_i: "S ! (?i + j) = ?F ! j" if "j < length ?F" for j
    using that by (subst S) (simp add: nth_append)
  have "?F ! (n - 1) \<in> set ?F" "?F ! 0 \<in> set ?F" by (rule nth_mem, use assms(2,3) in linarith)+
  then have "?F ! (n - 1) - ?F ! 0 \<le> w" by auto
  moreover have "S ! (?i + (n - 1)) = ?F ! (n - 1)" "S ! (?i + 0) = ?F ! 0"
    by (rule at_i, use assms(2,3) in linarith)+
  moreover have "?i + n \<le> length S"
    using assms(3) by (subst S) simp
  ultimately show ?thesis using assms(2) by (intro exI [of _ ?i]) simp
qed

lemma window_sorted:
  fixes S :: "rat list"
  assumes "sorted S" and "i + n \<le> length S" and "0 < n" and "S ! (i + n - 1) - S ! i \<le> w"
  shows "n \<le> length (filter (\<lambda>u. S ! i \<le> u \<and> u \<le> S ! i + w) S)"
proof -
  let ?P = "\<lambda>u. S ! i \<le> u \<and> u \<le> S ! i + w"
  have "?P u" if u: "u \<in> set (take n (drop i S))" for u
  proof -
    obtain j where j: "j < n" "u = S ! (i + j)"
      using u assms(2) by (auto simp: in_set_conv_nth)
    have "S ! i \<le> S ! (i + j)" "S ! (i + j) \<le> S ! (i + n - 1)"
      using assms(1,2) j by (auto intro!: sorted_nth_mono)
    then show ?thesis using j assms(4) by simp
  qed
  then have "filter ?P (take n (drop i S)) = take n (drop i S)" by simp
  moreover have "filter ?P S = filter ?P (take i S) @ filter ?P (take n (drop i S)) @ filter ?P (drop n (drop i S))"
    by (metis append_take_drop_id filter_append)
  ultimately show ?thesis using assms(2) by simp
qed

text \<open>
  The flap rule. With a clock on every down, an entity flaps exactly when some window of
  \<open>flap_window_s\<close> seconds holds at least \<open>flap_threshold\<close> of its down transitions.
\<close>

theorem flapping_iff_window:
  assumes "0 < n" and "\<forall>d\<in>set downs. d \<noteq> None"
  shows "is_flapping n window downs \<longleftrightarrow>
     (\<exists>t. n \<le> length (filter (\<lambda>d. t \<le> dt_seconds (the d) \<and> dt_seconds (the d) \<le> t + of_int window) downs))"
proof -
  let ?T = "map (\<lambda>d. dt_seconds (the d)) downs"
  let ?S = "sort ?T"
  have len: "length (filter (\<lambda>d. Q (dt_seconds (the d))) downs) = length (filter Q ?S)" for Q
  proof -
    have "length (filter Q ?S) = size (filter_mset Q (mset ?T))"
      by (metis mset_filter mset_sort size_mset)
    also have "\<dots> = length (filter Q ?T)" by (metis mset_filter size_mset)
    finally show ?thesis by (simp add: filter_map comp_def)
  qed
  have nn: "\<not> list_ex (\<lambda>t. t = None) downs" using assms(2) by (auto simp: list_ex_iff)
  have "is_flapping n window downs \<longleftrightarrow> (\<exists>i. i + n \<le> length ?S \<and> ?S ! (i + n - 1) - ?S ! i \<le> of_int window)"
  proof -
    have "i < length ?T + 1 - n \<and> n \<le> length ?T \<longleftrightarrow> i + n \<le> length ?T" for i by auto
    then show ?thesis
      unfolding is_flapping_def Let_def list_ex_iff using assms(1) nn [unfolded list_ex_iff]
      by (auto simp: not_less)
  qed
  also have "\<dots> \<longleftrightarrow> (\<exists>t. n \<le> length (filter (\<lambda>u. t \<le> u \<and> u \<le> t + of_int window) ?S))"
    by (rule iffI; elim exE conjE; (rule exI, rule window_sorted [OF sorted_sort _ assms(1)], assumption, assumption
          | rule sorted_window [OF sorted_sort assms(1)], assumption))
  finally show ?thesis unfolding len [of "\<lambda>u. t \<le> u \<and> u \<le> t + of_int window" for t] .
qed

theorem flapping_iff_window_witness:
  "is_flapping 2 60 [Some new_years_day, Some (new_years_day\<lparr>dt_secs := 50\<rparr>)] \<longleftrightarrow>
     (\<exists>t. 2 \<le> length (filter (\<lambda>d. t \<le> dt_seconds (the d) \<and> dt_seconds (the d) \<le> t + of_int 60)
        [Some new_years_day, Some (new_years_day\<lparr>dt_secs := 50\<rparr>)]))"
  by (rule flapping_iff_window) simp_all

end
