(* ===== verification/Regex.thy ===== *)
theory Regex
  imports Netlog_Prelude
begin

text \<open>
  The part of Python's \<open>re\<close> the program uses, as a backtracking matcher. A position is the reversed
  text to its left, the text to its right and the captured groups; \<open>rx_run\<close> lists the positions a
  pattern can end in, in the order Python's engine tries them, so the first one is the match.
  Every call either consumes a character or moves to a smaller pattern.
\<close>

datatype rx =
    Eps
  | Cls "char \<Rightarrow> bool"
  | Seq rx rx
  | Alt rx rx
  | Star rx          \<comment> \<open>greedy\<close>
  | Lazy rx          \<comment> \<open>\<open>*?\<close>\<close>
  | Eol              \<comment> \<open>\<open>$\<close>\<close>
  | Eos              \<comment> \<open>\<open>\\Z\<close>\<close>
  | Bos              \<comment> \<open>\<open>^\<close>\<close>
  | Wordb            \<comment> \<open>\<open>\\b\<close>\<close>
  | Not_Ahead rx     \<comment> \<open>\<open>(?!...)\<close>\<close>
  | Not_Behind "char \<Rightarrow> bool"   \<comment> \<open>\<open>(?<!c)\<close> for one character\<close>
  | Grp nat rx

type_synonym caps = "(nat \<times> string) list"
type_synonym rx_pos = "string \<times> string \<times> caps"

definition word_char :: "char \<Rightarrow> bool" where
  "word_char c = (let n = (of_char c :: nat) in
     is_digit c \<or> (65 \<le> n \<and> n \<le> 90) \<or> (97 \<le> n \<and> n \<le> 122) \<or> n = 95)"

definition at_boundary :: "string \<Rightarrow> string \<Rightarrow> bool" where
  "at_boundary l r = ((l \<noteq> [] \<and> word_char (hd l)) \<noteq> (r \<noteq> [] \<and> word_char (hd r)))"

function rx_run :: "rx \<Rightarrow> rx_pos \<Rightarrow> rx_pos list" where
  "rx_run Eps p = [p]"
| "rx_run (Cls f) (l, r, g) = (case r of [] \<Rightarrow> [] | c # cs \<Rightarrow> (if f c then [(c # l, cs, g)] else []))"
| "rx_run (Seq a b) p = concat (map (\<lambda>q. if length (fst (snd q)) \<le> length (fst (snd p)) then rx_run b q else []) (rx_run a p))"
| "rx_run (Alt a b) p = rx_run a p @ rx_run b p"
| "rx_run (Star a) p = concat (map (\<lambda>q. if length (fst (snd q)) < length (fst (snd p)) then rx_run (Star a) q else []) (rx_run a p)) @ [p]"
| "rx_run (Lazy a) p = p # concat (map (\<lambda>q. if length (fst (snd q)) < length (fst (snd p)) then rx_run (Lazy a) q else []) (rx_run a p))"
| "rx_run Eol (l, r, g) = (if r = [] \<or> r = [char_of (10::nat)] then [(l, r, g)] else [])"
| "rx_run Eos (l, r, g) = (if r = [] then [(l, r, g)] else [])"
| "rx_run Bos (l, r, g) = (if l = [] then [(l, r, g)] else [])"
| "rx_run Wordb (l, r, g) = (if at_boundary l r then [(l, r, g)] else [])"
| "rx_run (Not_Ahead a) (l, r, g) = (if rx_run a (l, r, g) = [] then [(l, r, g)] else [])"
| "rx_run (Not_Behind f) (l, r, g) = (if l \<noteq> [] \<and> f (hd l) then [] else [(l, r, g)])"
| "rx_run (Grp n a) (l, r, g) = map (\<lambda>(l', r', g'). (l', r', (n, take (length r - length r') r) # g')) (rx_run a (l, r, g))"
  by pat_completeness auto

termination
  by (relation "measures [\<lambda>(_, p). length (fst (snd p)), \<lambda>(a, _). size a]") auto

definition rx_first :: "rx \<Rightarrow> rx_pos \<Rightarrow> rx_pos option" where
  "rx_first a p = (case rx_run a p of [] \<Rightarrow> None | q # _ \<Rightarrow> Some q)"

text \<open>\<open>re.match\<close>: anchored at the start.\<close>

definition rx_match :: "rx \<Rightarrow> string \<Rightarrow> caps option" where
  "rx_match a s = map_option (\<lambda>(_, _, g). g) (rx_first a ([], s, []))"

definition rx_fullmatch :: "rx \<Rightarrow> string \<Rightarrow> caps option" where
  "rx_fullmatch a s = rx_match (Seq a Eos) s"

text \<open>\<open>re.search\<close>: the first position from which the pattern matches.\<close>

fun rx_search_from :: "rx \<Rightarrow> string \<Rightarrow> string \<Rightarrow> caps option" where
  "rx_search_from a l [] = map_option (\<lambda>(_, _, g). g) (rx_first a (l, [], []))"
| "rx_search_from a l (c # cs) =
     (case rx_first a (l, c # cs, []) of Some (_, _, g) \<Rightarrow> Some g | None \<Rightarrow> rx_search_from a (c # l) cs)"

definition rx_search :: "rx \<Rightarrow> string \<Rightarrow> caps option" where
  "rx_search a s = rx_search_from a [] s"

text \<open>
  \<open>re.sub(f, s)\<close> for a replacement computed from the whole match and its groups. A pattern that can match
  the empty string is not used with it; the matcher then moves on by one character.
\<close>

function rx_sub_from :: "rx \<Rightarrow> (string \<Rightarrow> caps \<Rightarrow> string) \<Rightarrow> string \<Rightarrow> string \<Rightarrow> string" where
  "rx_sub_from a f l [] = []"
| "rx_sub_from a f l (c # cs) =
     (case rx_first a (l, c # cs, []) of
        Some (l', r', g) \<Rightarrow>
          (if length r' < length (c # cs)
           then f (take (length (c # cs) - length r') (c # cs)) g @ rx_sub_from a f l' r'
           else c # rx_sub_from a f (c # l) cs)
      | None \<Rightarrow> c # rx_sub_from a f (c # l) cs)"
  by pat_completeness auto

termination
  by (relation "measure (\<lambda>(_, _, _, r). length r)") auto

definition rx_sub :: "rx \<Rightarrow> (string \<Rightarrow> caps \<Rightarrow> string) \<Rightarrow> string \<Rightarrow> string" where
  "rx_sub a f s = rx_sub_from a f [] s"

text \<open>\<open>re.findall\<close> of whole matches.\<close>

function rx_all_from :: "rx \<Rightarrow> string \<Rightarrow> string \<Rightarrow> (string \<times> caps) list" where
  "rx_all_from a l [] = []"
| "rx_all_from a l (c # cs) =
     (case rx_first a (l, c # cs, []) of
        Some (l', r', g) \<Rightarrow>
          (if length r' < length (c # cs)
           then (take (length (c # cs) - length r') (c # cs), g) # rx_all_from a l' r'
           else rx_all_from a (c # l) cs)
      | None \<Rightarrow> rx_all_from a (c # l) cs)"
  by pat_completeness auto

termination
  by (relation "measure (\<lambda>(_, _, r). length r)") auto

definition rx_findall :: "rx \<Rightarrow> string \<Rightarrow> (string \<times> caps) list" where
  "rx_findall a s = rx_all_from a [] s"

section \<open>Pattern abbreviations\<close>

abbreviation opt :: "rx \<Rightarrow> rx" where "opt a \<equiv> Alt a Eps"
abbreviation plus1 :: "rx \<Rightarrow> rx" where "plus1 a \<equiv> Seq a (Star a)"

definition lit_char :: "char \<Rightarrow> rx" where "lit_char c = Cls (\<lambda>d. d = c)"

fun seqs :: "rx list \<Rightarrow> rx" where
  "seqs [] = Eps"
| "seqs [a] = a"
| "seqs (a # b # as) = Seq a (seqs (b # as))"

fun alts :: "rx list \<Rightarrow> rx" where
  "alts [] = Cls (\<lambda>_. False)"
| "alts [a] = a"
| "alts (a # b # as) = Alt a (alts (b # as))"

definition lit :: "string \<Rightarrow> rx" where "lit s = seqs (map lit_char s)"

text \<open>A literal under \<open>IGNORECASE\<close>.\<close>

definition ilit :: "string \<Rightarrow> rx" where
  "ilit s = seqs (map (\<lambda>c. Cls (\<lambda>d. lower_char d = lower_char c)) s)"

fun reps :: "nat \<Rightarrow> rx \<Rightarrow> rx" where
  "reps 0 a = Eps"
| "reps (Suc n) a = (if n = 0 then a else Seq a (reps n a))"

text \<open>\<open>a{0,n}\<close>, greedy.\<close>

fun upto_reps :: "nat \<Rightarrow> rx \<Rightarrow> rx" where
  "upto_reps 0 a = Eps"
| "upto_reps (Suc n) a = Alt (Seq a (upto_reps n a)) Eps"

definition digit :: rx where "digit = Cls is_digit"
definition space :: rx where "space = Cls is_space"
definition nonspace :: rx where "nonspace = Cls (\<lambda>c. \<not> is_space c)"
definition wordc :: rx where "wordc = Cls word_char"
definition hexc :: rx where
  "hexc = Cls (\<lambda>c. let n = (of_char c :: nat) in is_digit c \<or> (65 \<le> n \<and> n \<le> 70) \<or> (97 \<le> n \<and> n \<le> 102))"
definition any_of :: "string \<Rightarrow> rx" where "any_of s = Cls (\<lambda>c. c \<in> set s)"
definition none_of :: "string \<Rightarrow> rx" where "none_of s = Cls (\<lambda>c. c \<notin> set s)"

definition group_of :: "caps \<Rightarrow> nat \<Rightarrow> string" where
  "group_of g n = dict_get g n []"

section \<open>The matcher only moves right over the text\<close>

declare rx_run.simps(5,6) [simp del]

lemma in_rx_run_Star:
  "q \<in> set (rx_run (Star a) p) \<longleftrightarrow>
     q = p \<or> (\<exists>q1\<in>set (rx_run a p). length (fst (snd q1)) < length (fst (snd p)) \<and> q \<in> set (rx_run (Star a) q1))"
  by (subst rx_run.simps) (auto split: if_splits)

lemma in_rx_run_Lazy:
  "q \<in> set (rx_run (Lazy a) p) \<longleftrightarrow>
     q = p \<or> (\<exists>q1\<in>set (rx_run a p). length (fst (snd q1)) < length (fst (snd p)) \<and> q \<in> set (rx_run (Lazy a) q1))"
  by (subst rx_run.simps) (auto split: if_splits)

lemma rx_run_splits:
  "(l', r', g') \<in> set (rx_run a (l, r, g)) \<Longrightarrow> \<exists>m. r = m @ r' \<and> l' = rev m @ l"
proof (induction a "(l, r, g)" arbitrary: l r g l' r' g' rule: rx_run.induct)
  case (2 f l r g)
  then show ?case by (auto split: list.splits if_splits)
next
  case (3 a b l r g)
  then obtain l1 r1 g1 where q: "(l1, r1, g1) \<in> set (rx_run a (l, r, g))" "(l', r', g') \<in> set (rx_run b (l1, r1, g1))"
    and le: "length r1 \<le> length r"
    by (auto split: if_splits)
  from 3(1) [OF q(1)] obtain m1 where m1: "r = m1 @ r1" "l1 = rev m1 @ l" by blast
  from 3(2) [OF q(1) _ q(2)] le obtain m2 where "r1 = m2 @ r'" "l' = rev m2 @ l1" by auto
  with m1 show ?case by (intro exI [of _ "m1 @ m2"]) simp
next
  case (5 a l r g)
  show ?case
  proof (cases "(l', r', g') = (l, r, g)")
    case False
    with iffD1 [OF in_rx_run_Star 5(3)] obtain l1 r1 g1 where q: "(l1, r1, g1) \<in> set (rx_run a (l, r, g))"
      "(l', r', g') \<in> set (rx_run (Star a) (l1, r1, g1))" "length r1 < length r"
      by auto
    from 5(1) [OF q(1)] obtain m1 where m1: "r = m1 @ r1" "l1 = rev m1 @ l" by blast
    from 5(2) [OF q(1) _ q(2)] q(3) obtain m2 where "r1 = m2 @ r'" "l' = rev m2 @ l1" by auto
    with m1 show ?thesis by (intro exI [of _ "m1 @ m2"]) simp
  qed simp
next
  case (6 a l r g)
  show ?case
  proof (cases "(l', r', g') = (l, r, g)")
    case False
    with iffD1 [OF in_rx_run_Lazy 6(3)] obtain l1 r1 g1 where q: "(l1, r1, g1) \<in> set (rx_run a (l, r, g))"
      "(l', r', g') \<in> set (rx_run (Lazy a) (l1, r1, g1))" "length r1 < length r"
      by auto
    from 6(1) [OF q(1)] obtain m1 where m1: "r = m1 @ r1" "l1 = rev m1 @ l" by blast
    from 6(2) [OF q(1) _ q(2)] q(3) obtain m2 where "r1 = m2 @ r'" "l' = rev m2 @ l1" by auto
    with m1 show ?thesis by (intro exI [of _ "m1 @ m2"]) simp
  qed simp
qed (auto split: if_splits)

lemma rx_first_splits:
  "rx_first a (l, r, g) = Some (l', r', g') \<Longrightarrow> \<exists>m. r = m @ r' \<and> l' = rev m @ l"
  using rx_run_splits [of l' r' g' a l r g] by (auto simp: rx_first_def split: list.splits)

text \<open>Substituting the whole match for itself changes nothing.\<close>

lemma rx_sub_id: "rx_sub_from a (\<lambda>m _. m) l s = s"
proof (induction s arbitrary: l rule: length_induct)
  case (1 s)
  show ?case
  proof (cases s)
    case (Cons c cs)
    show ?thesis
    proof (cases "rx_first a (l, c # cs, [])")
      case None
      with 1 Cons show ?thesis by simp
    next
      case (Some q)
      obtain l' r' g where q: "q = (l', r', g)" by (cases q)
      from rx_first_splits Some q obtain m where m: "c # cs = m @ r'" by blast
      show ?thesis
      proof (cases "length r' < length (c # cs)")
        case True
        moreover have "take (length (c # cs) - length r') (c # cs) = m" unfolding m by simp
        moreover have "rx_sub_from a (\<lambda>m _. m) l' r' = r'" using 1 True Cons by simp
        ultimately show ?thesis unfolding Cons rx_sub_from.simps(2) Some q by (simp add: m)
      next
        case False
        with 1 Cons Some q show ?thesis by simp
      qed
    qed
  qed simp
qed

section \<open>Running literals and greedy classes\<close>

lemma rx_run_Seq: "rx_run (Seq a b) p = concat (map (rx_run b) (rx_run a p))"
proof -
  have "length (fst (snd q)) \<le> length (fst (snd p))" if q: "q \<in> set (rx_run a p)" for q
  proof -
    obtain l r g l' r' g' where p: "p = (l, r, g)" "q = (l', r', g')" by (cases p, cases q)
    show ?thesis using rx_run_splits [OF q [unfolded p]] by (auto simp: p)
  qed
  then show ?thesis by (simp cong: map_cong)
qed

lemma rx_run_lit:
  "rx_run (lit s) (l, r, g) = (if starts_with s r then [(rev s @ l, drop (length s) r, g)] else [])"
proof (induction s arbitrary: l r)
  case (Cons c s)
  have "rx_run (lit (c # s)) (l, r, g) = concat (map (rx_run (lit s)) (rx_run (lit_char c) (l, r, g)))"
    by (cases s) (simp_all add: lit_def rx_run_Seq concat_map_singleton del: rx_run.simps(3) cong: list.map_cong)
  then show ?case using Cons by (cases r) (auto simp: lit_char_def)
qed (simp add: lit_def)

lemma rx_run_ilit:
  "rx_run (ilit s) (l, r, g) =
     (if lower (take (length s) r) = lower s then [(rev (take (length s) r) @ l, drop (length s) r, g)] else [])"
proof (induction s arbitrary: l r)
  case (Cons c s)
  have "rx_run (ilit (c # s)) (l, r, g) =
      concat (map (rx_run (ilit s)) (rx_run (Cls (\<lambda>d. lower_char d = lower_char c)) (l, r, g)))"
    by (cases s) (simp_all add: ilit_def rx_run_Seq concat_map_singleton del: rx_run.simps(3) cong: list.map_cong)
  then show ?case using Cons by (cases r) (auto simp: lower_def)
qed (simp add: ilit_def lower_def)

text \<open>A greedy class before a pattern that cannot start in the class runs to the end of the class.\<close>

lemma rx_run_star_skip:
  assumes "\<And>c l s g. f c \<Longrightarrow> rx_run b (l, c # s, g) = []"
  shows "concat (map (rx_run b) (rx_run (Star (Cls f)) (l, r, g))) = rx_run b (rev (takeWhile f r) @ l, dropWhile f r, g)"
proof (induction r arbitrary: l)
  case (Cons c r)
  show ?case using Cons.IH [of "c # l"] assms [of c l r g] by (subst rx_run.simps) auto
qed (subst rx_run.simps, simp)

end
