(* ===== verification/Stability.thy ===== *)
theory Stability
  imports Entity_State Regex "HOL-Library.Multiset"
begin

text \<open>
  Fabric stability (\<open>stability.py\<close>): flap counting per entity, minute buckets, burst ratio, trend, the
  device score and risk band, and the report. Dictionaries are insertion-ordered association lists.
  The stamp parser \<open>pts\<close> is an argument (see \<open>Causal_Time\<close>); quotients are exact rationals.
\<close>

type_synonym entity = "string \<times> string"   \<comment> \<open>entity class, entity id\<close>

definition down_descriptions :: "(string \<times> string) list" where
  "down_descriptions =
     [(''Interface link down'', ''interface''), (''BGP peer down / connect failure'', ''bgp''),
      (''BGP peer idle / notification'', ''bgp''), (''BGP notification / adjacency down (FRR/IOS)'', ''bgp''),
      (''OSPF neighbor state change'', ''ospf''), (''OSPF adjacency loss (FRR/IOS)'', ''ospf''),
      (''BFD session down'', ''bfd''), (''LACP/LAG member down'', ''lag''), (''LAG member leaving bundle'', ''lag''),
      (''VPN/IPsec tunnel failure'', ''vpn''), (''VRRP/gateway failover'', ''redundancy''),
      (''IS-IS adjacency down'', ''isis''), (''IS-IS adjacency change'', ''isis''),
      (''LDP neighbor/session down'', ''ldp''), (''STP root/loop/BPDU guard block'', ''stp'')]"

definition up_descriptions :: "(string \<times> string) list" where
  "up_descriptions =
     [(''Interface link up'', ''interface''), (''BGP peer established'', ''bgp''),
      (''OSPF neighbor established'', ''ospf''), (''LAG member joining bundle'', ''lag''),
      (''IS-IS adjacency up'', ''isis''), (''LDP neighbor/session up'', ''ldp''), (''STP guard recovered'', ''stp'')]"

definition entity_labels :: "(string \<times> string) list" where
  "entity_labels =
     [(''interface'', ''interface''), (''bgp'', ''BGP peer''), (''ospf'', ''OSPF neighbor''),
      (''bfd'', ''BFD session''), (''lag'', ''LAG member''), (''vpn'', ''VPN tunnel''),
      (''redundancy'', ''gateway redundancy''), (''isis'', ''IS-IS adjacency''), (''ldp'', ''LDP session''),
      (''stp'', ''STP port'')]"

definition max_buckets_per_host :: nat where "max_buckets_per_host = 512"
definition max_entities_per_host :: nat where "max_entities_per_host = 1024"
definition arrival_bucket_size :: nat where "arrival_bucket_size = 200"

record device_state =
  dv_transitions :: "(entity \<times> nat) list"
  dv_last_state :: "(entity \<times> string) list"
  dv_downs :: "(entity \<times> nat) list"
  dv_criticals :: nat
  dv_highs :: nat
  dv_total :: nat
  dv_buckets :: "(string \<times> nat) list"

definition new_device :: device_state where
  "new_device = \<lparr>dv_transitions = [], dv_last_state = [], dv_downs = [], dv_criticals = 0, dv_highs = 0,
     dv_total = 0, dv_buckets = []\<rparr>"

record stability =
  sb_devices :: "(string \<times> device_state) list"
  sb_seq :: nat

definition new_stability :: stability where
  "new_stability = \<lparr>sb_devices = [], sb_seq = 0\<rparr>"

section \<open>Minute buckets\<close>

text \<open>\<open>_SECONDS_RE\<close>: a trailing \<open>:SS\<close>, \<open>:SS.mmm\<close> with an optional zone.\<close>

definition seconds_re :: rx where
  "seconds_re = seqs [lit_char (CHR '':''), digit, digit, opt (Seq (any_of ''.,'') (plus1 digit)), Star space,
     opt (Alt (lit_char (CHR ''Z''))
              (seqs [any_of ''+-'', digit, digit, opt (lit_char (CHR '':'')), digit, digit])), Eol]"

definition seq_re :: rx where
  "seq_re = seqs [lit ''seq-'', Grp 1 (plus1 digit), Eol]"

definition dt_min :: datetime where
  "dt_min = \<lparr>dt_year = 1, dt_month = 1, dt_day = 1, dt_secs = 0\<rparr>"

definition bucket_order :: "ts_parser \<Rightarrow> string \<Rightarrow> nat \<times> rat \<times> string" where
  "bucket_order pts key =
     (case rx_match seq_re key of
        Some g \<Rightarrow> (2, of_nat (digits_value 0 (group_of g 1)), key)
      | None \<Rightarrow>
          (case pts (key @ '':00'') of
             None \<Rightarrow> (1, 0, key)
           | Some d \<Rightarrow> (0, dt_seconds d - dt_seconds dt_min, key)))"

definition bucket_key :: "nat \<Rightarrow> string \<Rightarrow> string" where
  "bucket_key seq ts =
     (if ts \<noteq> [] then rx_sub seconds_re (\<lambda>_ _. []) ts else ''seq-'' @ show_nat (seq div arrival_bucket_size))"

definition add_bucket :: "ts_parser \<Rightarrow> string \<Rightarrow> (string \<times> nat) list \<Rightarrow> (string \<times> nat) list" where
  "add_bucket pts key b =
     (let b' = bump b key
      in if length b' > max_buckets_per_host
         then AList.delete (min_by (bucket_order pts) (fst (hd b')) (map fst (tl b'))) b'
         else b')"

section \<open>Adding an event\<close>

text \<open>\<open>_entity\<close>: beyond the cap new entities share the slot of their class.\<close>

definition resolve_entity :: "device_state \<Rightarrow> string \<Rightarrow> event \<Rightarrow> entity" where
  "resolve_entity st cls e =
     (let key = (cls, case entity_key e of None \<Rightarrow> [] | Some ek \<Rightarrow> snd (snd ek))
      in if snd key \<noteq> [] \<and> map_of (dv_last_state st) key = None
            \<and> length (dv_last_state st) \<ge> max_entities_per_host
         then (cls, []) else key)"

definition note_down :: "entity \<Rightarrow> device_state \<Rightarrow> device_state" where
  "note_down en st = st\<lparr>dv_downs := bump (dv_downs st) en,
     dv_transitions := (if map_of (dv_last_state st) en = Some ''up'' then bump (dv_transitions st) en
                        else dv_transitions st),
     dv_last_state := AList.update en ''down'' (dv_last_state st)\<rparr>"

definition note_up :: "entity \<Rightarrow> device_state \<Rightarrow> device_state" where
  "note_up en st = st\<lparr>
     dv_transitions := (if map_of (dv_last_state st) en = Some ''down'' then bump (dv_transitions st) en
                        else dv_transitions st),
     dv_last_state := AList.update en ''up'' (dv_last_state st)\<rparr>"

definition device_add :: "ts_parser \<Rightarrow> nat \<Rightarrow> event \<Rightarrow> device_state \<Rightarrow> device_state" where
  "device_add pts seq e st0 =
     (let st = st0\<lparr>dv_total := dv_total st0 + 1,
                   dv_criticals := dv_criticals st0 + (if ev_severity e = ''critical'' then 1 else 0),
                   dv_highs := dv_highs st0 + (if ev_severity e = ''high'' then 1 else 0)\<rparr>;
          st = (case map_of down_descriptions (ev_description e) of
                  Some cls \<Rightarrow> note_down (resolve_entity st cls e) st
                | None \<Rightarrow>
                    (case map_of up_descriptions (ev_description e) of
                       Some cls \<Rightarrow> note_up (resolve_entity st cls e) st
                     | None \<Rightarrow> st))
      in st\<lparr>dv_buckets := add_bucket pts (bucket_key seq (ev_timestamp e)) (dv_buckets st)\<rparr>)"

definition stability_add :: "ts_parser \<Rightarrow> event \<Rightarrow> stability \<Rightarrow> stability" where
  "stability_add pts e sb =
     (if ev_hostname e = [] then sb
      else sb\<lparr>sb_devices := AList.update (ev_hostname e)
                (device_add pts (sb_seq sb) e (dict_get (sb_devices sb) (ev_hostname e) new_device)) (sb_devices sb),
              sb_seq := sb_seq sb + 1\<rparr>)"

definition stability_run :: "ts_parser \<Rightarrow> event list \<Rightarrow> stability" where
  "stability_run pts es = fold (stability_add pts) es new_stability"

section \<open>Report\<close>

definition flap_count :: "device_state \<Rightarrow> nat" where
  "flap_count st = sum_list (map (\<lambda>(_, t). t div 2) (dv_transitions st))"

definition burst_ratio :: "device_state \<Rightarrow> rat" where
  "burst_ratio st =
     (let counts = sort (map snd (dv_buckets st))
      in if length counts < 3 then 1
         else let m = counts ! (length counts div 2); median = (if m = 0 then 1 else m)
              in round_digits 1 (of_nat (last counts) / of_nat median))"

definition trend :: "ts_parser \<Rightarrow> device_state \<Rightarrow> string" where
  "trend pts st =
     (let counts = map (dict_get (dv_buckets st)) (sort_key (bucket_order pts) (map fst (dv_buckets st)));
          counts = map (\<lambda>f. f 0) counts
      in if length counts < 4 then ''stable''
         else let half = length counts div 2;
                  s1 = sum_list (take half counts); first = (if s1 = 0 then 1 else s1);
                  second = sum_list (drop half counts);
                  ratio = rat_of_nat second / of_nat first
              in if ratio \<ge> 3/2 then ''rising'' else if ratio \<le> 67/100 then ''falling'' else ''stable'')"

definition device_score :: "device_state \<Rightarrow> nat \<Rightarrow> rat \<Rightarrow> int" where
  "device_score st flaps burst =
     max 0 (100 - min (int flaps * 6) 35 - min (int (dv_criticals st) * 5) 25 - min (int (dv_highs st)) 15
            - (if burst \<ge> 10 then 20 else if burst \<ge> 5 then 12 else if burst \<ge> 3 then 6 else 0))"

definition risk_band :: "int \<Rightarrow> string \<Rightarrow> string" where
  "risk_band score tr =
     (if score < 50 \<or> (score < 70 \<and> tr = ''rising'') then ''high''
      else if score < 70 \<or> tr = ''rising'' then ''medium'' else ''low'')"

record device_row =
  dr_hostname :: string
  dr_score :: int
  dr_flaps :: nat
  dr_flapping_entity :: string
  dr_flapping_entity_id :: string
  dr_criticals :: nat
  dr_highs :: nat
  dr_events :: nat
  dr_burst_ratio :: rat
  dr_trend :: string
  dr_risk_24h :: string

definition worst_entity :: "(entity \<times> nat) list \<Rightarrow> entity" where
  "worst_entity transitions =
     (case filter (\<lambda>(_, n). n \<ge> 2) transitions of
        [] \<Rightarrow> ([], [])
      | x # xs \<Rightarrow> fst (max_by snd x xs))"

definition device_row :: "ts_parser \<Rightarrow> string \<Rightarrow> device_state \<Rightarrow> device_row" where
  "device_row pts host st =
     (let flaps = flap_count st; burst = burst_ratio st; tr = trend pts st; sc = device_score st flaps burst;
          (wc, wid) = worst_entity (dv_transitions st)
      in \<lparr>dr_hostname = host, dr_score = sc, dr_flaps = flaps, dr_flapping_entity = dict_get entity_labels wc wc,
          dr_flapping_entity_id = wid, dr_criticals = dv_criticals st, dr_highs = dv_highs st,
          dr_events = dv_total st, dr_burst_ratio = burst, dr_trend = tr, dr_risk_24h = risk_band sc tr\<rparr>)"

definition device_rows :: "ts_parser \<Rightarrow> stability \<Rightarrow> device_row list" where
  "device_rows pts sb =
     sort_key (\<lambda>d. (dr_score d, - int (dr_flaps d))) (map (\<lambda>(h, st). device_row pts h st) (sb_devices sb))"

definition fabric_score :: "device_row list \<Rightarrow> int" where
  "fabric_score rows =
     (if rows = [] then 100
      else let n = sum_list (map dr_events rows); tot = (if n = 0 then 1 else n)
           in round_half_even (of_int (sum_list (map (\<lambda>d. dr_score d * int (dr_events d)) rows)) / of_nat tot))"

text \<open>
  An advice is its kind and its text up to the fixed closing sentence of that kind; \<open>f\<close> is Python's text
  of a float. The loop breaks once eight are there.
\<close>

definition device_advice :: "(rat \<Rightarrow> string) \<Rightarrow> device_row \<Rightarrow> (string \<times> string) list" where
  "device_advice f d =
     (if dr_flaps d \<ge> 2 \<and> dr_flapping_entity d \<noteq> []
      then [(''flap'', dr_hostname d @ '': '' @ dr_flapping_entity d @ '' flapped '' @ show_nat (dr_flaps d))] else [])
     @ (if dr_risk_24h d = ''high''
        then [(''risk'', dr_hostname d @ '': high 24h risk (score '' @ show_int (dr_score d) @ '', '' @ dr_trend d)] else [])
     @ (if dr_burst_ratio d \<ge> 5
        then [(''burst'', dr_hostname d @ '': event rate spiked '' @ f (dr_burst_ratio d))] else [])"

fun advice_loop :: "(rat \<Rightarrow> string) \<Rightarrow> (string \<times> string) list \<Rightarrow> device_row list \<Rightarrow> (string \<times> string) list" where
  "advice_loop f recs [] = recs"
| "advice_loop f recs (d # ds) =
     (let recs = recs @ device_advice f d in if length recs \<ge> 8 then recs else advice_loop f recs ds)"

definition recommendations :: "(rat \<Rightarrow> string) \<Rightarrow> device_row list \<Rightarrow> (string \<times> string) list" where
  "recommendations f rows = take 8 (advice_loop f [] rows)"

record stability_report =
  sr_fabric_score :: int
  sr_device_count :: nat
  sr_devices :: "device_row list"
  sr_recommendations :: "(string \<times> string) list"

definition stability_report :: "ts_parser \<Rightarrow> (rat \<Rightarrow> string) \<Rightarrow> nat \<Rightarrow> stability \<Rightarrow> stability_report" where
  "stability_report pts f top_n sb =
     (let rows = device_rows pts sb
      in \<lparr>sr_fabric_score = fabric_score rows, sr_device_count = length rows, sr_devices = take top_n rows,
          sr_recommendations = recommendations f rows\<rparr>)"

end
