(* ===== verification/Stability_Laws.thy ===== *)
theory Stability_Laws
  imports Stability
begin

text \<open>
  Laws of the stability report: flaps are counted per entity, the buckets of a device are bounded, and
  the fabric score is an average of the device scores.
\<close>

section \<open>Flaps are counted per entity\<close>

text \<open>The up and down reports of one host, with the entity each is about.\<close>

definition report_of :: "event \<Rightarrow> (entity \<times> string) option" where
  "report_of e =
     (let id = (case entity_key e of None \<Rightarrow> [] | Some ek \<Rightarrow> snd (snd ek))
      in case map_of down_descriptions (ev_description e) of
           Some cls \<Rightarrow> Some ((cls, id), ''down'')
         | None \<Rightarrow> map_option (\<lambda>cls. ((cls, id), ''up'')) (map_of up_descriptions (ev_description e)))"

definition reports :: "string \<Rightarrow> event list \<Rightarrow> (entity \<times> string) list" where
  "reports h es = List.map_filter report_of (filter (\<lambda>e. ev_hostname e = h) es)"

definition states_for :: "entity \<Rightarrow> (entity \<times> string) list \<Rightarrow> string list" where
  "states_for k rs = map snd (filter (\<lambda>(k', _). k' = k) rs)"

definition device_of :: "stability \<Rightarrow> string \<Rightarrow> device_state" where
  "device_of sb h = dict_get (sb_devices sb) h new_device"

definition tracks :: "device_state \<Rightarrow> (entity \<times> string) list \<Rightarrow> bool" where
  "tracks st rs \<longleftrightarrow> distinct (map fst (dv_last_state st))
     \<and> fst ` set (dv_last_state st) = fst ` set rs
     \<and> (\<forall>k. map_of (dv_last_state st) k = (if states_for k rs = [] then None else Some (last (states_for k rs))))
     \<and> (\<forall>k. dict_get (dv_transitions st) k 0 = length (remdups_adj (states_for k rs)) - 1)"

lemma states_for_snoc: "states_for k (rs @ [(k', s)]) = states_for k rs @ (if k' = k then [s] else [])"
  by (simp add: states_for_def)

lemma tracks_note:
  assumes "tracks st rs" and "s = ''down'' \<and> note = note_down \<or> s = ''up'' \<and> note = note_up"
    and "set (states_for k rs) \<subseteq> {''down'', ''up''}"
  shows "tracks (note k st) (rs @ [(k, s)])"
proof -
  have l: "length (remdups_adj (states_for k rs @ [s])) - 1 =
      length (remdups_adj (states_for k rs)) - 1
      + (if states_for k rs \<noteq> [] \<and> last (states_for k rs) \<noteq> s then 1 else 0)"
    by (cases "states_for k rs = []") (auto simp: remdups_adj_snoc neq_Nil_conv)
  have d: "states_for k rs \<noteq> [] \<Longrightarrow> last (states_for k rs) = ''down'' \<or> last (states_for k rs) = ''up''"
    using assms(3) last_in_set by blast
  have m: "map_of (dv_last_state st) k' = (if states_for k' rs = [] then None else Some (last (states_for k' rs)))"
    "dict_get (dv_transitions st) k' 0 = length (remdups_adj (states_for k' rs)) - 1" for k'
    using assms(1) unfolding tracks_def by blast+
  have ks: "distinct (map fst (dv_last_state st))" "fst ` set (dv_last_state st) = fst ` set rs"
    using assms(1) by (auto simp: tracks_def)
  have keys: "fst ` set (AList.update k v (dv_last_state st)) = insert k (fst ` set rs)" for v
    using keys_update [of k v "dv_last_state st"] ks(2) by simp
  show ?thesis
    using assms(2)
  proof
    assume s: "s = ''down'' \<and> note = note_down"
    show ?thesis
      unfolding tracks_def using s d l ks keys m
      by (auto simp: note_down_def states_for_snoc distinct_update)
  next
    assume s: "s = ''up'' \<and> note = note_up"
    show ?thesis
      unfolding tracks_def using s d l ks keys m
      by (auto simp: note_up_def states_for_snoc distinct_update)
  qed
qed

lemma tracks_cong:
  "tracks st rs \<Longrightarrow> dv_last_state st' = dv_last_state st \<Longrightarrow> dv_transitions st' = dv_transitions st \<Longrightarrow> tracks st' rs"
  by (simp add: tracks_def)

lemma resolve_entity_direct:
  assumes "tracks st rs" and "card (insert k (fst ` set rs)) \<le> max_entities_per_host"
    and "k = (cls, case entity_key e of None \<Rightarrow> [] | Some ek \<Rightarrow> snd (snd ek))"
  shows "resolve_entity st cls e = k"
proof -
  have "length (dv_last_state st) = card (fst ` set rs)"
    using assms(1) unfolding tracks_def by (metis distinct_card length_map list.set_map)
  moreover have "map_of (dv_last_state st) k = None \<Longrightarrow> k \<notin> fst ` set rs"
    using assms(1) unfolding tracks_def by (metis map_of_eq_None_iff list.set_map)
  ultimately show ?thesis
    using assms(2) by (auto simp: resolve_entity_def Let_def assms(3))
qed

lemma report_state: "report_of e = Some (k, s) \<Longrightarrow> s = ''down'' \<or> s = ''up''"
  by (auto simp: report_of_def Let_def split: option.splits)

lemma states_for_reports: "set (states_for k (reports h es)) \<subseteq> {''down'', ''up''}"
  by (auto simp: states_for_def reports_def set_map_filter dest: report_state)

lemma reports_snoc: "reports h (es @ [e]) = reports h es @
   (if ev_hostname e = h then (case report_of e of None \<Rightarrow> [] | Some r \<Rightarrow> [r]) else [])"
  by (simp add: reports_def map_filter_def split: option.splits)

lemma device_add_tracks:
  assumes "tracks st (reports h es)" and "ev_hostname e = h"
    and "card (fst ` set (reports h (es @ [e]))) \<le> max_entities_per_host"
  shows "tracks (device_add pts seq e st) (reports h (es @ [e]))"
proof -
  let ?st = "st\<lparr>dv_total := dv_total st + 1,
                dv_criticals := dv_criticals st + (if ev_severity e = ''critical'' then 1 else 0),
                dv_highs := dv_highs st + (if ev_severity e = ''high'' then 1 else 0)\<rparr>"
  have t: "tracks ?st (reports h es)" by (rule tracks_cong [OF assms(1)]) simp_all
  show ?thesis
  proof (cases "report_of e")
    case None
    then have "map_of down_descriptions (ev_description e) = None" "map_of up_descriptions (ev_description e) = None"
      by (auto simp: report_of_def Let_def split: option.splits)
    then show ?thesis
      using t assms(2) None by (auto simp: device_add_def Let_def reports_snoc intro: tracks_cong)
  next
    case (Some r)
    obtain k s where r: "r = (k, s)" by (cases r)
    have c: "card (insert k (fst ` set (reports h es))) \<le> max_entities_per_host"
      using assms(2,3) Some r by (simp add: reports_snoc)
    have n: "tracks (f k ?st) (reports h es @ [(k, s)])"
      if "s = ''down'' \<and> f = note_down \<or> s = ''up'' \<and> f = note_up" for f
      by (rule tracks_note [OF t that states_for_reports])
    show ?thesis
    proof (cases "map_of down_descriptions (ev_description e)")
      case down: (Some cls)
      then have k: "k = (cls, case entity_key e of None \<Rightarrow> [] | Some ek \<Rightarrow> snd (snd ek))" "s = ''down''"
        using Some r by (auto simp: report_of_def Let_def)
      have "resolve_entity ?st cls e = k" by (rule resolve_entity_direct [OF t c k(1)])
      then show ?thesis
        using n [of note_down] k(2) down Some r assms(2)
        by (auto simp: device_add_def Let_def reports_snoc intro: tracks_cong)
    next
      case None
      then obtain cls where up: "map_of up_descriptions (ev_description e) = Some cls"
        and k: "k = (cls, case entity_key e of None \<Rightarrow> [] | Some ek \<Rightarrow> snd (snd ek))" "s = ''up''"
        using Some r by (auto simp: report_of_def Let_def)
      have "resolve_entity ?st cls e = k" by (rule resolve_entity_direct [OF t c k(1)])
      then show ?thesis
        using n [of note_up] k(2) None up Some r assms(2)
        by (auto simp: device_add_def Let_def reports_snoc intro: tracks_cong)
    qed
  qed
qed

lemma stability_tracks:
  assumes "h \<noteq> []" and "card (fst ` set (reports h es)) \<le> max_entities_per_host"
  shows "tracks (device_of (stability_run pts es) h) (reports h es)"
  using assms(2)
proof (induction es rule: rev_induct)
  case Nil
  show ?case
    by (simp add: tracks_def device_of_def stability_run_def new_stability_def new_device_def reports_def
        states_for_def map_filter_def)
next
  case (snoc e es)
  have "fst ` set (reports h es) \<subseteq> fst ` set (reports h (es @ [e]))"
    unfolding reports_snoc set_append image_Un by (rule Un_upper1)
  then have "card (fst ` set (reports h es)) \<le> max_entities_per_host"
    using snoc.prems card_mono [of "fst ` set (reports h (es @ [e]))" "fst ` set (reports h es)"] by simp
  then have IH: "tracks (device_of (stability_run pts es) h) (reports h es)" by (rule snoc.IH)
  have run: "stability_run pts (es @ [e]) = stability_add pts e (stability_run pts es)"
    by (simp add: stability_run_def)
  show ?case
  proof (cases "ev_hostname e = h")
    case True
    then have "device_of (stability_run pts (es @ [e])) h =
        device_add pts (sb_seq (stability_run pts es)) e (device_of (stability_run pts es) h)"
      using assms(1) by (simp add: run stability_add_def device_of_def)
    then show ?thesis using device_add_tracks [OF IH True snoc.prems] by simp
  next
    case False
    then have "device_of (stability_run pts (es @ [e])) h = device_of (stability_run pts es) h"
      by (simp add: run stability_add_def device_of_def)
    then show ?thesis using IH False by (simp add: reports_snoc)
  qed
qed

text \<open>
  Flaps are counted per entity. While a device has at most 1024 distinct entities, the transitions
  counted for each one are exactly the changes between down and up in that entity's own reports, whatever
  is interleaved from other entities and other devices; repeated downs count once.
\<close>

theorem flaps_per_entity:
  assumes "h \<noteq> []" and "card (fst ` set (reports h es)) \<le> max_entities_per_host"
  shows "dict_get (dv_transitions (device_of (stability_run pts es) h)) k 0
           = length (remdups_adj (states_for k (reports h es))) - 1"
  using stability_tracks [OF assms, of pts] unfolding tracks_def by blast

definition link_event :: "string \<Rightarrow> string \<Rightarrow> string \<Rightarrow> event" where
  "link_event host intf d = blank_event\<lparr>ev_hostname := host, ev_event_type := ''interface_link'',
     ev_interface := intf, ev_description := ''Interface link '' @ d\<rparr>"

theorem flaps_per_entity_witness:
  "dict_get (dv_transitions (device_of (stability_run (\<lambda>_. None)
      [link_event ''r1'' ''e1'' ''down'', link_event ''r1'' ''e2'' ''down'', link_event ''r1'' ''e1'' ''up'']) ''r1''))
      (''interface'', ''e1'') 0 = 1"
proof -
  let ?es = "[link_event ''r1'' ''e1'' ''down'', link_event ''r1'' ''e2'' ''down'', link_event ''r1'' ''e1'' ''up'']"
  have r: "reports ''r1'' ?es =
      [((''interface'', ''e1''), ''down''), ((''interface'', ''e2''), ''down''), ((''interface'', ''e1''), ''up'')]"
    by code_simp
  have "card (fst ` set (reports ''r1'' ?es)) \<le> max_entities_per_host"
    unfolding r by (simp add: max_entities_per_host_def card_insert_if)
  from flaps_per_entity [OF _ this, of "\<lambda>_. None" "(''interface'', ''e1'')"]
  show ?thesis unfolding r by (simp add: states_for_def)
qed

section \<open>Scores\<close>

lemma device_score_bounds: "0 \<le> device_score st flaps burst" "device_score st flaps burst \<le> 100"
  by (auto simp: device_score_def)

lemma round_half_even_mono_int:
  assumes "of_int a \<le> x" and "x \<le> of_int b"
  shows "a \<le> round_half_even x" and "round_half_even x \<le> b"
proof -
  have "of_int a - 1 < (of_int (round_half_even x) :: rat)"
    using assms(1) round_half_even_bounds(2) [of x] by linarith
  then show "a \<le> round_half_even x" by linarith
  have "(of_int (round_half_even x) :: rat) < of_int b + 1"
    using assms(2) round_half_even_bounds(1) [of x] by linarith
  then show "round_half_even x \<le> b" by linarith
qed

lemma weighted_sum_bounds:
  assumes "\<And>d. d \<in> set rows \<Longrightarrow> lo \<le> dr_score d \<and> dr_score d \<le> hi"
  shows "lo * int (sum_list (map dr_events rows)) \<le> sum_list (map (\<lambda>d. dr_score d * int (dr_events d)) rows)"
    and "sum_list (map (\<lambda>d. dr_score d * int (dr_events d)) rows) \<le> hi * int (sum_list (map dr_events rows))"
  using assms
  by (induction rows) (auto simp: distrib_left add_mono mult_right_mono)

text \<open>
  The fabric score is a true average. Whenever the devices have events, it lies between the lowest
  and the highest device score, whatever the event volumes; so it is between 0 and 100.
\<close>

theorem fabric_score_between:
  assumes "rows \<noteq> []" and "0 < sum_list (map dr_events rows)"
    and "\<And>d. d \<in> set rows \<Longrightarrow> lo \<le> dr_score d \<and> dr_score d \<le> hi"
  shows "lo \<le> fabric_score rows \<and> fabric_score rows \<le> hi"
proof -
  let ?n = "sum_list (map dr_events rows)" and ?w = "sum_list (map (\<lambda>d. dr_score d * int (dr_events d)) rows)"
  have "of_int (lo * int ?n) \<le> (of_int ?w :: rat)" "(of_int ?w :: rat) \<le> of_int (hi * int ?n)"
    using weighted_sum_bounds [OF assms(3)] by (simp_all only: of_int_le_iff)
  then have "of_int lo \<le> (of_int ?w / of_nat ?n :: rat)" "(of_int ?w / of_nat ?n :: rat) \<le> of_int hi"
    using assms(2) by (simp_all add: le_divide_eq divide_le_eq)
  note b = round_half_even_mono_int [OF this]
  have e: "fabric_score rows = round_half_even (of_int ?w / of_nat ?n)"
  proof -
    have pick: "0 < n \<Longrightarrow> (if n = 0 then 1 else n) = n" for n :: nat by simp
    show ?thesis
      unfolding fabric_score_def Let_def pick [OF assms(2)] using assms(1) by (rule if_not_P)
  qed
  show ?thesis unfolding e using b by blast
qed

definition two_devices :: "device_row list" where
  "two_devices = map (\<lambda>(sc, n). (device_row (\<lambda>_. None) ''r1'' new_device)\<lparr>dr_score := sc, dr_events := n\<rparr>) [(40, 3), (91, 2)]"

theorem fabric_score_between_witness: "40 \<le> fabric_score two_devices \<and> fabric_score two_devices \<le> 91"
  by (rule fabric_score_between) (auto simp: two_devices_def)

end
