(* ===== verification/Triage_Ingest.thy ===== *)
theory Triage_Ingest
  imports Spool_Laws Lease Events
begin

text \<open>
  The streaming triage worker (\<open>triage_worker.py\<close>), first half: its configuration and state, the
  persisted read positions, and \<open>_ingest\<close>: draining the spool, dropping exact repeats and keeping the
  sliding window of classified events.

  The line parser and the classifier are arguments (\<open>parse\<close>, \<open>classify\<close>), and so is the monotonic
  clock. Python's \<open>_Seen\<close> objects are shared between \<open>_recent\<close> and the batch being processed and point
  into the window: here an object is an id, \<open>wk_seens\<close> is the store of the objects, and a window entry
  carries the id of the object it came from.
\<close>

section \<open>Configuration\<close>

definition sev_rank :: "(string \<times> nat) list" where
  "sev_rank = [(''critical'', 0), (''high'', 1), (''medium'', 2), (''low'', 3), (''info'', 4)]"

definition rank_of :: "string \<Rightarrow> nat" where
  "rank_of sev = dict_get sev_rank sev 5"

definition triage_lease :: string where "triage_lease = ''triage-worker''"

definition env_float :: "(string \<Rightarrow> string) \<Rightarrow> string \<Rightarrow> rat \<Rightarrow> rat" where
  "env_float env name d =
     (case env name of
        [] \<Rightarrow> d
      | c # cs \<Rightarrow> (case parse_decimal (c # cs) of None \<Rightarrow> d | Some r \<Rightarrow> r))"

record triage_config =
  tc_window_s :: rat
  tc_poll_s :: rat
  tc_cooldown_s :: rat
  tc_min_severity :: string
  tc_max_tickets_per_hour :: int
  tc_batch :: int
  tc_max_window_events :: nat
  tc_dedup_s :: rat
  tc_site :: string
  tc_use_llm :: bool
  tc_sources :: "string list"
  tc_lease_ttl_s :: rat
  tc_tick_budget_s :: rat
  tc_sink_backoff_s :: rat
  tc_sink_backoff_max_s :: rat
  tc_sink_breaker_threshold :: nat
  tc_pending_ttl_s :: rat
  tc_retention_days :: rat

definition default_config :: triage_config where
  "default_config = \<lparr>tc_window_s = 300, tc_poll_s = 15, tc_cooldown_s = 900, tc_min_severity = ''high'',
     tc_max_tickets_per_hour = 30, tc_batch = 5000, tc_max_window_events = 20000, tc_dedup_s = 5,
     tc_site = ''default'', tc_use_llm = False, tc_sources = [], tc_lease_ttl_s = 60, tc_tick_budget_s = 10,
     tc_sink_backoff_s = 30, tc_sink_backoff_max_s = 900, tc_sink_breaker_threshold = 5,
     tc_pending_ttl_s = 86400, tc_retention_days = 30\<rparr>"

definition env_or :: "(string \<Rightarrow> string) \<Rightarrow> string \<Rightarrow> string \<Rightarrow> string" where
  "env_or env name d = (if env name = [] then d else env name)"

definition config_from_env :: "(string \<Rightarrow> string) \<Rightarrow> triage_config" where
  "config_from_env env =
     (let sev = lower (strip (env_or env ''AI_LOG_ANALYZER_TRIAGE_MIN_SEVERITY'' ''high''))
      in default_config\<lparr>
        tc_window_s := env_float env ''AI_LOG_ANALYZER_TRIAGE_WINDOW_S'' 300,
        tc_poll_s := env_float env ''AI_LOG_ANALYZER_TRIAGE_POLL_S'' 15,
        tc_cooldown_s := env_float env ''AI_LOG_ANALYZER_TRIAGE_COOLDOWN_S'' 900,
        tc_min_severity := (if sev \<in> set (map fst sev_rank) then sev else ''high''),
        tc_max_tickets_per_hour := trunc_rat (env_float env ''AI_LOG_ANALYZER_TRIAGE_MAX_TICKETS_PER_HOUR'' 30),
        tc_site := strip (env_or env ''AI_LOG_ANALYZER_TRIAGE_SITE'' ''default''),
        tc_use_llm := lower (strip (env ''AI_LOG_ANALYZER_TRIAGE_USE_LLM'')) \<in> {''1'', ''true'', ''yes''},
        tc_sources := filter (\<lambda>s. s \<noteq> []) (map strip (split_on (CHR '','') (env ''AI_LOG_ANALYZER_TRIAGE_SOURCES''))),
        tc_tick_budget_s := env_float env ''AI_LOG_ANALYZER_TRIAGE_TICK_BUDGET_S'' 10,
        tc_retention_days := env_float env ''AI_LOG_ANALYZER_TRIAGE_RETENTION_DAYS'' 30\<rparr>)"

section \<open>State of a worker\<close>

record windowed =
  wn_id :: nat
  wn_received_at :: instant
  wn_event :: event
  wn_dups :: nat

record seen =
  sn_first_at :: instant
  sn_windowed :: bool    \<comment> \<open>\<open>windowed is not None\<close>: its entry has this object's id\<close>
  sn_extra :: nat
  sn_last_at :: instant

record worker =
  wk_db :: state_db
  wk_window :: "windowed list"
  wk_recent :: "((string \<times> string) \<times> nat) list"
  wk_seens :: "(nat \<times> seen) list"
  wk_next_id :: nat
  wk_send_times :: "instant list"
  wk_cursor_pending :: "(string \<times> int) list"
  wk_gap_pending :: "(string \<times> int) list"
  wk_warmed :: "string list"
  wk_state_loaded :: bool
  wk_sink_state :: "(string \<times> nat \<times> instant) list"
  wk_last_prune :: instant
  wk_last_renew :: instant
  wk_explicit_now :: "instant option"
  wk_role :: string
  wk_totals :: "(string \<times> int) list"

definition new_worker :: "state_db \<Rightarrow> worker" where
  "new_worker db = \<lparr>wk_db = db, wk_window = [], wk_recent = [], wk_seens = [], wk_next_id = 0, wk_send_times = [],
     wk_cursor_pending = [], wk_gap_pending = [], wk_warmed = [], wk_state_loaded = False, wk_sink_state = [],
     wk_last_prune = 0, wk_last_renew = 0, wk_explicit_now = None, wk_role = ''idle'', wk_totals = []\<rparr>"

definition count_total :: "string \<Rightarrow> int \<Rightarrow> worker \<Rightarrow> worker" where
  "count_total k n wk = wk\<lparr>wk_totals := AList.update k (dict_get (wk_totals wk) k 0 + n) (wk_totals wk)\<rparr>"

definition sources_of :: "triage_config \<Rightarrow> worker \<Rightarrow> string list" where
  "sources_of cfg wk = (if tc_sources cfg \<noteq> [] then tc_sources cfg else spool_sources (wk_db wk))"

definition reset_active_state :: "worker \<Rightarrow> worker" where
  "reset_active_state wk = wk\<lparr>wk_window := [], wk_recent := [], wk_seens := [], wk_cursor_pending := [],
     wk_gap_pending := [], wk_warmed := [], wk_state_loaded := False\<rparr>"

text \<open>\<open>float(t) for t in times\<close>, sorted; a row that is not a list of numbers raises.\<close>

fun floats_of :: "json list \<Rightarrow> py_error + rat list" where
  "floats_of [] = Inr []"
| "floats_of (j # js) =
     (case py_float j of
        Inl e \<Rightarrow> Inl e
      | Inr r \<Rightarrow> (case floats_of js of Inl e \<Rightarrow> Inl e | Inr rs \<Rightarrow> Inr (r # rs)))"

definition load_state :: "worker \<Rightarrow> py_error + worker" where
  "load_state wk =
     (if wk_state_loaded wk then Inr wk
      else case (case map_of (kv_get_all ''triage'' (wk_db wk)) ''send_times'' of
                   None \<Rightarrow> Inr []
                 | Some (JList js) \<Rightarrow> floats_of js
                 | Some j \<Rightarrow> (if truthy j then Inl Type_Error else Inr [])) of
        Inl e \<Rightarrow> Inl e
      | Inr ts \<Rightarrow> Inr (wk\<lparr>wk_send_times := sort ts, wk_state_loaded := True\<rparr>))"

definition commit_cursors :: "instant \<Rightarrow> worker \<Rightarrow> worker" where
  "commit_cursors now wk =
     (let db1 = fold (\<lambda>(s, c). kv_set ''triage'' (''cursor:'' @ s) (JInt c) now) (wk_cursor_pending wk) (wk_db wk);
          db2 = fold (\<lambda>(s, g). kv_set ''triage'' (''gapseen:'' @ s) (JInt g) now) (wk_gap_pending wk) db1
      in wk\<lparr>wk_db := db2, wk_cursor_pending := [], wk_gap_pending := []\<rparr>)"

section \<open>The sliding window\<close>

text \<open>\<open>_Seen.bump\<close>: an entry that already left the window is only kept alive by the marker.\<close>

definition bump_seen :: "nat \<Rightarrow> instant \<Rightarrow> worker \<Rightarrow> worker" where
  "bump_seen i t wk =
     (case map_of (wk_seens wk) i of
        None \<Rightarrow> wk
      | Some sn \<Rightarrow>
          (if sn_windowed sn
           then wk\<lparr>wk_window := map (\<lambda>w. if wn_id w = i
                     then w\<lparr>wn_dups := wn_dups w + 1, wn_received_at := max (wn_received_at w) t\<rparr> else w)
                   (wk_window wk)\<rparr>
           else wk\<lparr>wk_seens := AList.update i (sn\<lparr>sn_extra := sn_extra sn + 1, sn_last_at := max (sn_last_at sn) t\<rparr>)
                   (wk_seens wk)\<rparr>))"

type_synonym parser = "string \<Rightarrow> string \<Rightarrow> log_event option"

text \<open>
  First pass over a batch: the kept events in order, with their stamps and marker objects. The marker
  of a key is replaced only when the repeat interval, counted from the first kept copy, is over.
\<close>

definition tag_sender :: "string \<Rightarrow> log_event \<Rightarrow> log_event" where
  "tag_sender sender e = (if sender = [] then e else e\<lparr>le_attrs := AList.update ''sender_ip'' sender (le_attrs e)\<rparr>)"

definition admit_row ::
  "triage_config \<Rightarrow> parser \<Rightarrow> string \<Rightarrow> instant \<Rightarrow> spool_row
     \<Rightarrow> worker \<times> (instant \<times> log_event \<times> nat) list \<Rightarrow> worker \<times> (instant \<times> log_event \<times> nat) list" where
  "admit_row cfg parse source horizon row st =
     (case st of (wk, kept) \<Rightarrow>
        if sp_received_at row < horizon then (wk, kept)
        else case parse (sp_line row) (if sp_sender row \<noteq> [] then sp_sender row else source) of
          None \<Rightarrow> (wk, kept)
        | Some ev0 \<Rightarrow>
            (let ev = tag_sender (sp_sender row) ev0; t = sp_received_at row; key = (le_hostname ev, le_message ev)
             in case (case map_of (wk_recent wk) key of
                        None \<Rightarrow> None
                      | Some i \<Rightarrow> (case map_of (wk_seens wk) i of
                                     None \<Rightarrow> None
                                   | Some sn \<Rightarrow> if t - sn_first_at sn \<le> tc_dedup_s cfg then Some i else None)) of
                  Some i \<Rightarrow> (bump_seen i t (count_total ''duplicates_dropped'' 1 wk), kept)
                | None \<Rightarrow>
                    (let i = wk_next_id wk
                     in (wk\<lparr>wk_next_id := i + 1, wk_recent := AList.update key i (wk_recent wk),
                            wk_seens := AList.update i \<lparr>sn_first_at = t, sn_windowed = False, sn_extra = 0,
                                                        sn_last_at = 0\<rparr> (wk_seens wk)\<rparr>,
                         kept @ [(t, ev, i)]))))"

text \<open>Second pass: interesting events enter the window with the repeats counted so far.\<close>

definition window_row :: "(log_event \<Rightarrow> event) \<Rightarrow> instant \<times> log_event \<times> nat \<Rightarrow> worker \<times> nat \<Rightarrow> worker \<times> nat" where
  "window_row classify x st =
     (case (x, st) of ((t, ev, i), (wk, added)) \<Rightarrow>
        let ce = classify ev
        in if ev_severity ce \<in> {''critical'', ''high'', ''medium''} \<or> ev_event_type ce \<noteq> []
           then (case map_of (wk_seens wk) i of
                   None \<Rightarrow> (wk, added)
                 | Some sn \<Rightarrow>
                     (wk\<lparr>wk_window := wk_window wk @
                            [\<lparr>wn_id = i, wn_received_at = (if sn_extra sn \<noteq> 0 then max t (sn_last_at sn) else t),
                              wn_event = ce, wn_dups = sn_extra sn\<rparr>],
                         wk_seens := AList.update i (sn\<lparr>sn_windowed := True\<rparr>) (wk_seens wk)\<rparr>, added + 1))
           else (wk, added))"

definition process_rows ::
  "triage_config \<Rightarrow> parser \<Rightarrow> (log_event \<Rightarrow> event) \<Rightarrow> string \<Rightarrow> instant \<Rightarrow> spool_row list \<Rightarrow> worker \<Rightarrow> worker \<times> nat" where
  "process_rows cfg parse classify source horizon rows wk =
     (let (wk1, kept) = fold (admit_row cfg parse source horizon) rows (wk, [])
      in fold (window_row classify) kept (wk1, 0))"

definition warm ::
  "triage_config \<Rightarrow> parser \<Rightarrow> (log_event \<Rightarrow> event) \<Rightarrow> string \<Rightarrow> int \<Rightarrow> instant \<Rightarrow> worker \<Rightarrow> worker" where
  "warm cfg parse classify source cursor horizon wk =
     (let rows = filter (\<lambda>r. sp_received_at r \<ge> horizon)
                   (spool_before source cursor (tc_max_window_events cfg) (wk_db wk))
      in if rows = [] then wk
         else (case process_rows cfg parse classify source horizon rows wk of
                 (wk', n) \<Rightarrow> count_total ''window_rebuilt'' (int n) wk'))"

section \<open>Draining the spool\<close>

text \<open>
  The \<open>while True\<close> loop of \<open>_ingest\<close> over one source, with the read call, the deadline test and the
  handling of a batch as arguments. Out of fuel is \<open>None\<close>; the result is the state, whether a backlog
  remains, and the cursor.
\<close>

fun drain_loop ::
  "(int \<Rightarrow> 'row list) \<Rightarrow> ('row \<Rightarrow> int) \<Rightarrow> nat \<Rightarrow> ('s \<Rightarrow> bool \<times> 's) \<Rightarrow> ('row list \<Rightarrow> 's \<Rightarrow> 's) \<Rightarrow> nat \<Rightarrow> int \<Rightarrow> 's
     \<Rightarrow> ('s \<times> bool \<times> int) option" where
  "drain_loop read ident batch late handle 0 cursor s = None"
| "drain_loop read ident batch late handle (Suc fuel) cursor s =
     (let rows = read cursor
      in if rows = [] then Some (s, False, cursor)
         else let s1 = handle rows s; c1 = ident (last rows)
              in if length rows < batch then Some (s1, False, c1)
                 else (case late s1 of (stop, s2) \<Rightarrow>
                         if stop then Some (s2, True, c1)
                         else drain_loop read ident batch late handle fuel c1 s2))"

text \<open>What a reader of one source promises: the unread rows, oldest first, at most \<open>batch\<close> of them.\<close>

locale spool_reader =
  fixes wf :: "'db \<Rightarrow> bool" and read :: "'db \<Rightarrow> nat \<Rightarrow> int \<Rightarrow> 'row list"
    and ident :: "'row \<Rightarrow> int" and contents :: "'db \<Rightarrow> 'row list"
  assumes read_unread: "wf db \<Longrightarrow> read db n c = take n (filter (\<lambda>r. c < ident r) (contents db))"
    and ordered: "wf db \<Longrightarrow> key_sorted ident (contents db)"

lemma key_sorted_last_split:
  assumes "key_sorted ident xs" and "0 < n" and "xs \<noteq> []"
  shows "filter (\<lambda>r. ident (last (take n xs)) < ident r) xs = drop n xs"
proof -
  have ne: "take n xs \<noteq> []" using assms by simp
  have s: "key_sorted ident (take n xs @ drop n xs)" using assms(1) by simp
  have a: "\<forall>r\<in>set (take n xs). ident r \<le> ident (last (take n xs))"
  proof -
    have "key_sorted ident (take n xs)" using s unfolding key_sorted_append by blast
    then have "key_sorted ident (butlast (take n xs) @ [last (take n xs)])" using ne by simp
    then have "\<forall>r\<in>set (butlast (take n xs)). ident r < ident (last (take n xs))"
      unfolding key_sorted_append by simp
    then show ?thesis using ne by (metis append_butlast_last_id in_set_butlastD less_imp_le order_refl
          set_append Un_iff set_ConsD empty_iff list.set(1))
  qed
  have b: "\<forall>r\<in>set (drop n xs). ident (last (take n xs)) < ident r"
    using s ne unfolding key_sorted_append by (metis last_in_set)
  have "filter (\<lambda>r. ident (last (take n xs)) < ident r) (take n xs @ drop n xs) = drop n xs"
    using a b unfolding filter_append by (auto simp: filter_empty_conv filter_id_conv)
  then show ?thesis by (metis append_take_drop_id)
qed

context spool_reader
begin

abbreviation unread_rows :: "'db \<Rightarrow> int \<Rightarrow> 'row list" where
  "unread_rows db c \<equiv> filter (\<lambda>r. c < ident r) (contents db)"

lemma unread_after:
  assumes "wf db" and "0 < batch" and "unread_rows db c \<noteq> []"
  shows "unread_rows db (ident (last (read db batch c))) = drop batch (unread_rows db c)"
proof -
  let ?u = "unread_rows db c" and ?l = "ident (last (read db batch c))"
  have r: "read db batch c = take batch ?u" by (rule read_unread [OF assms(1)])
  have "last (read db batch c) \<in> set ?u"
    using assms(2,3) unfolding r by (metis in_set_takeD last_in_set take_eq_Nil not_gr_zero)
  then have "c < ?l" by simp
  then have "unread_rows db ?l = filter (\<lambda>r. ?l < ident r) ?u"
    unfolding filter_filter by (intro filter_cong) auto
  also have "\<dots> = drop batch ?u"
    unfolding r by (rule key_sorted_last_split [OF _ assms(2,3)]) (simp add: key_sorted_filter ordered assms(1))
  finally show ?thesis .
qed

text \<open>The loop hands over the unread rows in order, each once, and all of them unless the deadline stops it.\<close>

lemma drain_loop_complete:
  assumes wf: "wf db" and pos: "0 < batch" and "length (unread_rows db c) < fuel"
    and h: "\<And>rows s. seen (handle rows s) = seen s @ rows" and l: "\<And>s. seen (snd (late s)) = seen s"
  shows "\<exists>s' stop c' k. drain_loop (read db batch) ident batch late handle fuel c s = Some (s', stop, c')
     \<and> seen s' = seen s @ take k (unread_rows db c) \<and> unread_rows db c' = drop k (unread_rows db c)
     \<and> (\<not> stop \<longrightarrow> unread_rows db c' = [])"
  using assms(3)
proof (induction fuel arbitrary: c s)
  case (Suc fuel)
  let ?u = "unread_rows db c"
  have r: "read db batch c = take batch ?u" by (rule read_unread [OF wf])
  show ?case
  proof (cases "?u = []")
    case True
    then have "drain_loop (read db batch) ident batch late handle (Suc fuel) c s = Some (s, False, c)" by (simp add: r)
    with True show ?thesis by auto
  next
    case False
    then have ne: "read db batch c \<noteq> []" using pos by (simp add: r)
    let ?c = "ident (last (read db batch c))" and ?s = "handle (read db batch c) s"
    have u': "unread_rows db ?c = drop batch ?u" by (rule unread_after [OF wf pos False])
    have seen1: "seen ?s = seen s @ take batch ?u" by (simp add: h r)
    show ?thesis
    proof (cases "length (read db batch c) < batch")
      case True
      then have "drain_loop (read db batch) ident batch late handle (Suc fuel) c s = Some (?s, False, ?c)"
        using ne by (simp add: Let_def)
      moreover have "drop batch ?u = []" using True by (simp add: r)
      ultimately show ?thesis using seen1 u' by (intro exI [of _ ?s] exI [of _ False] exI [of _ ?c] exI [of _ batch]) simp
    next
      case full: False
      obtain stop s2 where lt: "late ?s = (stop, s2)" by (cases "late ?s")
      have s2: "seen s2 = seen s @ take batch ?u" using l [of ?s] seen1 lt by simp
      show ?thesis
      proof (cases stop)
        case True
        then have "drain_loop (read db batch) ident batch late handle (Suc fuel) c s = Some (s2, True, ?c)"
          using ne full lt by (simp add: Let_def)
        then show ?thesis using s2 u' by (intro exI [of _ s2] exI [of _ True] exI [of _ ?c] exI [of _ batch]) simp
      next
        case False
        then have step: "drain_loop (read db batch) ident batch late handle (Suc fuel) c s
            = drain_loop (read db batch) ident batch late handle fuel ?c s2"
          using ne full lt by (simp add: Let_def)
        have "length (unread_rows db ?c) < fuel"
          using Suc.prems pos \<open>?u \<noteq> []\<close> by (simp add: u') (metis diff_less_mono2 length_greater_0_conv less_antisym less_imp_diff_less Suc_lessI diff_Suc_Suc diff_less less_trans_Suc not_less_eq)
        from Suc.IH [OF this, of s2] obtain s' stop' c' k where
          g: "drain_loop (read db batch) ident batch late handle fuel ?c s2 = Some (s', stop', c')"
          "seen s' = seen s2 @ take k (unread_rows db ?c)" "unread_rows db c' = drop k (unread_rows db ?c)"
          "\<not> stop' \<longrightarrow> unread_rows db c' = []" by blast
        have "seen s' = seen s @ take (batch + k) ?u" using g(2) s2 u' by (simp add: take_add)
        moreover have "unread_rows db c' = drop (batch + k) ?u" using g(3) u' by (simp add: add.commute)
        ultimately show ?thesis using g(1,4) step
          by (intro exI [of _ s'] exI [of _ stop'] exI [of _ c'] exI [of _ "batch + k"]) simp
      qed
    qed
  qed
qed simp

end

end
