(* ===== verification/Triage_Worker.thy ===== *)
theory Triage_Worker
  imports Triage_Ingest
begin

text \<open>
  The streaming triage worker (\<open>triage_worker.py\<close>), second half: one tick. The incidents of a window
  (\<open>candidates\<close>) and the outgoing payload are arguments, as are the outside calls, gathered in
  \<open>outside\<close>: delivery to a sink, the clocks, the random jitter and the audit trail, each a function of a
  world state \<open>'w\<close> that it may change. While a delivery runs another worker may take the lease over: \<open>ou_rival\<close>.

  A step returns its result or the exception it raised, and the state it leaves: database writes made
  before an exception stay. \<open>Lease_Lost\<close> stands for \<open>_LeaseGone\<close> and \<open>LeaseLost\<close>. Sinks are identified
  by their names. The incident dictionaries parked in the database are encoded by \<open>cand_json\<close>.
\<close>

section \<open>Incidents\<close>

record cand =
  cd_fingerprint :: string
  cd_kind :: string
  cd_severity :: string
  cd_category :: string
  cd_description :: string
  cd_summary :: string
  cd_root_device :: string
  cd_layer :: string
  cd_interface :: "string option"
  cd_devices :: "string list"
  cd_suppressed :: int
  cd_count :: int
  cd_messages :: "string list"
  cd_state :: string
  cd_vendor :: string
  cd_confidence :: rat
  cd_latest :: rat
  cd_related :: "string list"

definition strs_json :: "string list \<Rightarrow> json" where
  "strs_json xs = JList (map JStr xs)"

definition cand_json :: "cand \<Rightarrow> json" where
  "cand_json c = JObj
     [(''fingerprint'', JStr (cd_fingerprint c)), (''kind'', JStr (cd_kind c)), (''severity'', JStr (cd_severity c)),
      (''category'', JStr (cd_category c)), (''description'', JStr (cd_description c)),
      (''summary'', JStr (cd_summary c)), (''root_device'', JStr (cd_root_device c)), (''layer'', JStr (cd_layer c)),
      (''interface'', case cd_interface c of None \<Rightarrow> JNull | Some i \<Rightarrow> JStr i),
      (''devices'', strs_json (cd_devices c)), (''suppressed'', JInt (cd_suppressed c)), (''count'', JInt (cd_count c)),
      (''messages'', strs_json (cd_messages c)), (''state'', JStr (cd_state c)), (''vendor'', JStr (cd_vendor c)),
      (''confidence'', JNum (cd_confidence c)), (''latest'', JNum (cd_latest c)),
      (''related'', strs_json (cd_related c))]"

fun as_str :: "json \<Rightarrow> string option" where
  "as_str (JStr s) = Some s" | "as_str _ = None"

fun as_strs :: "json \<Rightarrow> string list option" where
  "as_strs (JList js) = those (map as_str js)" | "as_strs _ = None"

fun as_int :: "json \<Rightarrow> int option" where
  "as_int (JInt i) = Some i" | "as_int _ = None"

fun as_num :: "json \<Rightarrow> rat option" where
  "as_num (JNum r) = Some r" | "as_num (JInt i) = Some (of_int i)" | "as_num _ = None"

fun as_bool :: "json \<Rightarrow> bool option" where
  "as_bool (JBool b) = Some b" | "as_bool _ = None"

definition cand_of_json :: "json \<Rightarrow> cand option" where
  "cand_of_json j =
     (case j of
        JObj kvs \<Rightarrow>
          (let s = (\<lambda>k. as_str (json_field kvs k)); l = (\<lambda>k. as_strs (json_field kvs k))
           in case (s ''fingerprint'', s ''kind'', s ''severity'', s ''category'', s ''description'', s ''summary'',
                    s ''root_device'', s ''layer'', l ''devices'', as_int (json_field kvs ''suppressed''),
                    as_int (json_field kvs ''count''), l ''messages'', s ''state'', s ''vendor'',
                    as_num (json_field kvs ''confidence''), as_num (json_field kvs ''latest''), l ''related'') of
                (Some fp, Some kind, Some sev, Some cat, Some desc, Some summ, Some rt, Some layer, Some devs, Some supp,
                 Some cnt, Some msgs, Some state, Some ven, Some conf, Some lat, Some rel) \<Rightarrow>
                  Some \<lparr>cd_fingerprint = fp, cd_kind = kind, cd_severity = sev, cd_category = cat,
                        cd_description = desc, cd_summary = summ, cd_root_device = rt, cd_layer = layer,
                        cd_interface = as_str (json_field kvs ''interface''), cd_devices = devs, cd_suppressed = supp,
                        cd_count = cnt, cd_messages = msgs, cd_state = state, cd_vendor = ven, cd_confidence = conf,
                        cd_latest = lat, cd_related = rel\<rparr>
              | _ \<Rightarrow> None)
      | _ \<Rightarrow> None)"

text \<open>The sites's fingerprint; \<open>digest\<close> is the SHA-256 hex digest.\<close>

definition triage_fingerprint :: "(string \<Rightarrow> string) \<Rightarrow> string \<Rightarrow> cand \<Rightarrow> string" where
  "triage_fingerprint digest site c =
     ''NETLOG-'' @ upper (take 12 (digest (site @ ''|'' @ lower (cd_root_device c) @ ''|'' @ cd_layer c @ ''|triage'')))"

definition merge_into :: "cand \<Rightarrow> cand \<Rightarrow> cand" where
  "merge_into c c0 = c0\<lparr>cd_count := cd_count c0 + cd_count c, cd_suppressed := cd_suppressed c0 + cd_suppressed c,
     cd_latest := max (cd_latest c0) (cd_latest c),
     cd_severity := (if rank_of (cd_severity c) < rank_of (cd_severity c0) then cd_severity c else cd_severity c0),
     cd_state := (if cd_state c = ''active'' then ''active'' else cd_state c0),
     cd_devices := sort (dedup (cd_devices c0 @ cd_devices c)),
     cd_related := cd_related c0 @ [cd_summary c]\<rparr>"

definition merge_cands :: "(cand \<Rightarrow> string) \<Rightarrow> cand list \<Rightarrow> cand list" where
  "merge_cands fpr cs =
     map snd (fold (\<lambda>c m. case map_of m (fpr c) of
                            None \<Rightarrow> m @ [(fpr c, c\<lparr>cd_fingerprint := fpr c, cd_related := []\<rparr>)]
                          | Some c0 \<Rightarrow> AList.update (fpr c) (merge_into c c0) m) cs [])"

section \<open>Outside calls\<close>

record payload =
  pl_fingerprint :: string
  pl_title :: string
  pl_devices :: "string list"
  pl_status :: "string option"    \<comment> \<open>the \<open>Status\<close> attachment\<close>

record sink_result =
  sr_sink :: string
  sr_action :: string
  sr_ref :: string

record 'w outside =
  ou_upsert :: "string \<Rightarrow> payload \<Rightarrow> 'w \<Rightarrow> (string + string \<times> string) \<times> 'w"  \<comment> \<open>error text, or action and ref\<close>
  ou_rand :: "'w \<Rightarrow> rat \<times> 'w"
  ou_clock :: "'w \<Rightarrow> instant \<times> 'w"
  ou_monotonic :: "'w \<Rightarrow> instant \<times> 'w"
  ou_rival :: "'w \<Rightarrow> (string \<times> instant) option \<times> 'w"
  ou_audit :: "string \<Rightarrow> string \<Rightarrow> json \<Rightarrow> 'w \<Rightarrow> 'w"
  ou_payload :: "cand \<Rightarrow> payload"
  ou_parse :: parser
  ou_classify :: "log_event \<Rightarrow> event"
  ou_candidates :: "windowed list \<Rightarrow> cand list"
  ou_digest :: "string \<Rightarrow> string"

type_synonym 'w st = "worker \<times> 'w"

definition now_of :: "'w outside \<Rightarrow> 'w st \<Rightarrow> instant \<times> 'w st" where
  "now_of ou st =
     (case wk_explicit_now (fst st) of
        Some t \<Rightarrow> (t, st)
      | None \<Rightarrow> (case ou_clock ou (snd st) of (t, w) \<Rightarrow> (t, (fst st, w))))"

text \<open>A lease written by another worker while this one waits on the network.\<close>

definition rival_step :: "'w outside \<Rightarrow> 'w st \<Rightarrow> 'w st" where
  "rival_step ou st =
     (case ou_rival ou (snd st) of
        (None, w) \<Rightarrow> (fst st, w)
      | (Some (o', e), w) \<Rightarrow>
          ((fst st)\<lparr>wk_db := kv_set ''lease'' triage_lease (lease_json o' e) e (wk_db (fst st))\<rparr>, w))"

section \<open>Rate limit, cooldown and sink retry state\<close>

definition rate_ok :: "triage_config \<Rightarrow> instant \<Rightarrow> worker \<Rightarrow> bool \<times> worker" where
  "rate_ok cfg now wk =
     (let times = dropWhile (\<lambda>t. t < now - 3600) (wk_send_times wk)
      in (int (length times) < tc_max_tickets_per_hour cfg, wk\<lparr>wk_send_times := times\<rparr>))"

definition note_attempt :: "instant \<Rightarrow> worker \<Rightarrow> worker" where
  "note_attempt now wk =
     (let times = wk_send_times wk @ [now]
      in wk\<lparr>wk_send_times := times, wk_db := kv_set ''triage'' ''send_times'' (JList (map JNum times)) now (wk_db wk)\<rparr>)"

datatype decision = Skip_Recovered | Open | Update | Hold

definition or_text :: "string option \<Rightarrow> string \<Rightarrow> string" where
  "or_text s d = (case s of None \<Rightarrow> d | Some [] \<Rightarrow> d | Some (c # cs) \<Rightarrow> c # cs)"

definition escalated :: "ticket \<Rightarrow> cand \<Rightarrow> bool" where
  "escalated rec c = (rank_of (cd_severity c) < rank_of (or_text (tk_severity rec) ''info''))"

definition state_changed :: "ticket \<Rightarrow> cand \<Rightarrow> bool" where
  "state_changed rec c = (case tk_state rec of None \<Rightarrow> False | Some s \<Rightarrow> s \<noteq> [] \<and> cd_state c \<noteq> s)"

definition decide :: "triage_config \<Rightarrow> ticket option \<Rightarrow> cand \<Rightarrow> instant \<Rightarrow> decision" where
  "decide cfg rec c now =
     (case rec of
        None \<Rightarrow> (if cd_state c = ''recovered'' \<or> cd_state c = ''up'' then Skip_Recovered else Open)
      | Some r \<Rightarrow>
          (if escalated r c \<or> state_changed r c then Update
           else if now - tk_last_sent r < tc_cooldown_s cfg then Hold
           else if cd_latest c > tk_last_event_at r then Update else Hold))"

definition sink_ready :: "string \<Rightarrow> instant \<Rightarrow> worker \<Rightarrow> bool" where
  "sink_ready name now wk = (case map_of (wk_sink_state wk) name of None \<Rightarrow> now \<ge> 0 | Some (_, t) \<Rightarrow> now \<ge> t)"

definition backoff_delay :: "triage_config \<Rightarrow> nat \<Rightarrow> rat" where
  "backoff_delay cfg fails =
     (if fails \<ge> tc_sink_breaker_threshold cfg then tc_sink_backoff_max_s cfg
      else min (tc_sink_backoff_s cfg * 2 ^ min (fails - 1) 20) (tc_sink_backoff_max_s cfg))"

definition sink_failed :: "triage_config \<Rightarrow> 'w outside \<Rightarrow> string \<Rightarrow> instant \<Rightarrow> 'w st \<Rightarrow> 'w st" where
  "sink_failed cfg ou name now st =
     (case st of (wk, w) \<Rightarrow>
        let fails = (case map_of (wk_sink_state wk) name of None \<Rightarrow> 0 | Some (n, _) \<Rightarrow> n) + 1;
            (r, w') = ou_rand ou w
        in (wk\<lparr>wk_sink_state := AList.update name
                 (fails, now + backoff_delay cfg fails * (4/5 + 2/5 * r)) (wk_sink_state wk)\<rparr>, w'))"

section \<open>Leadership and delivery\<close>

definition still_leader :: "triage_config \<Rightarrow> 'w outside \<Rightarrow> string \<Rightarrow> 'w st \<Rightarrow> (py_error + bool) \<times> 'w st" where
  "still_leader cfg ou owner st =
     (case now_of ou st of (t, (wk, w)) \<Rightarrow>
        (case lease_valid triage_lease owner t (wk_db wk) of
           Inl e \<Rightarrow> (Inl e, (wk, w))
         | Inr ok \<Rightarrow>
             (if \<not> ok then (Inr False, (wk, w))
              else if t - wk_last_renew wk \<ge> tc_lease_ttl_s cfg / 4
              then (case lease_acquire triage_lease owner (tc_lease_ttl_s cfg) t (wk_db wk) of
                      Inl e \<Rightarrow> (Inl e, (wk, w))
                    | Inr (got, db) \<Rightarrow>
                        (if got then (Inr True, (wk\<lparr>wk_db := db, wk_last_renew := t\<rparr>, w))
                         else (Inr False, (wk\<lparr>wk_db := db\<rparr>, w))))
              else (Inr True, (wk, w)))))"

record sent =
  st_results :: "sink_result list"
  st_errors :: "string list"
  st_failed :: "string list"

fun send_loop ::
  "triage_config \<Rightarrow> 'w outside \<Rightarrow> string \<Rightarrow> payload \<Rightarrow> instant \<Rightarrow> string list \<Rightarrow> sent \<Rightarrow> 'w st
     \<Rightarrow> (py_error + sent) \<times> 'w st" where
  "send_loop cfg ou owner p now [] acc st = (Inr acc, st)"
| "send_loop cfg ou owner p now (name # names) acc st =
     (case still_leader cfg ou owner st of
        (Inl e, st1) \<Rightarrow> (Inl e, st1)
      | (Inr False, st1) \<Rightarrow> (Inl Lease_Lost, st1)
      | (Inr True, (wk, w)) \<Rightarrow>
          (case ou_upsert ou name p w of
             (Inl err, w1) \<Rightarrow>
               send_loop cfg ou owner p now names
                 (acc\<lparr>st_errors := st_errors acc @ [name @ '': '' @ take 200 err], st_failed := st_failed acc @ [name]\<rparr>)
                 (sink_failed cfg ou name now (rival_step ou (wk, w1)))
           | (Inr (act, ref), w1) \<Rightarrow>
               (case rival_step ou (wk, w1) of (wk2, w2) \<Rightarrow>
                  send_loop cfg ou owner p now names
                    (acc\<lparr>st_results := st_results acc @ [\<lparr>sr_sink = name, sr_action = act, sr_ref = ref\<rparr>]\<rparr>)
                    (wk2\<lparr>wk_sink_state := AList.delete name (wk_sink_state wk2)\<rparr>, w2))))"

definition send ::
  "triage_config \<Rightarrow> 'w outside \<Rightarrow> string \<Rightarrow> payload \<Rightarrow> string list \<Rightarrow> instant \<Rightarrow> 'w st \<Rightarrow> (py_error + sent) \<times> 'w st" where
  "send cfg ou owner p names now st = send_loop cfg ou owner p now names \<lparr>st_results = [], st_errors = [], st_failed = []\<rparr> st"

section \<open>Pending deliveries\<close>

record pend =
  pd_cand :: cand
  pd_action :: string
  pd_sinks :: "string list"
  pd_since :: instant
  pd_attempts :: int
  pd_nowhere :: bool

definition pend_json :: "pend \<Rightarrow> json" where
  "pend_json p = JObj [(''c'', cand_json (pd_cand p)), (''action'', JStr (pd_action p)), (''sinks'', strs_json (pd_sinks p)),
     (''since'', JNum (pd_since p)), (''attempts'', JInt (pd_attempts p)), (''nowhere'', JBool (pd_nowhere p))]"

text \<open>Only \<open>_park\<close> writes this namespace; anything else counts as having no incident and is deleted.\<close>

definition pend_of_json :: "json \<Rightarrow> pend option" where
  "pend_of_json j =
     (case j of
        JObj kvs \<Rightarrow>
          (case (cand_of_json (json_field kvs ''c''), as_str (json_field kvs ''action''),
                 as_strs (json_field kvs ''sinks''), as_num (json_field kvs ''since''),
                 as_int (json_field kvs ''attempts''), as_bool (json_field kvs ''nowhere'')) of
             (Some c, Some act, Some sinks, Some since, Some att, Some nw) \<Rightarrow>
               Some \<lparr>pd_cand = c, pd_action = act, pd_sinks = sinks, pd_since = since, pd_attempts = att,
                     pd_nowhere = nw\<rparr>
           | _ \<Rightarrow> None)
      | _ \<Rightarrow> None)"

definition park :: "cand \<Rightarrow> string \<Rightarrow> string list \<Rightarrow> pend option \<Rightarrow> instant \<Rightarrow> bool \<Rightarrow> worker \<Rightarrow> worker" where
  "park c action names old now nowhere wk =
     wk\<lparr>wk_db := kv_set ''triage_pending'' (cd_fingerprint c)
          (pend_json \<lparr>pd_cand = c, pd_action = action, pd_sinks = sort names,
                      pd_since = (case old of None \<Rightarrow> now | Some p \<Rightarrow> pd_since p),
                      pd_attempts = (case old of None \<Rightarrow> 0 | Some p \<Rightarrow> pd_attempts p) + 1, pd_nowhere = nowhere\<rparr>)
          now (wk_db wk)\<rparr>"

definition unpark :: "string \<Rightarrow> worker \<Rightarrow> worker" where
  "unpark fp wk = wk\<lparr>wk_db := kv_delete ''triage_pending'' fp (wk_db wk)\<rparr>"

definition put_ticket :: "'w outside \<Rightarrow> string \<Rightarrow> ticket \<Rightarrow> 'w st \<Rightarrow> (py_error + unit) \<times> 'w st" where
  "put_ticket ou owner rec st =
     (case now_of ou st of (t, (wk, w)) \<Rightarrow>
        (case triage_put rec (Some (triage_lease, owner)) t (wk_db wk) of
           Inl e \<Rightarrow> (Inl e, (wk, w))
         | Inr db \<Rightarrow> (Inr (), (wk\<lparr>wk_db := db\<rparr>, w))))"

section \<open>One incident\<close>

record tick =
  ti_role :: string
  ti_at :: instant
  ti_new_events :: nat
  ti_window_events :: nat
  ti_opened :: "string list"      \<comment> \<open>fingerprints\<close>
  ti_updated :: "string list"
  ti_held :: nat
  ti_deferred :: nat
  ti_backoff :: nat
  ti_skipped_recovered :: nat
  ti_errors :: "string list"
  ti_gap_rows :: int
  ti_backlog :: bool
  ti_aborted :: bool

definition new_tick :: "instant \<Rightarrow> tick" where
  "new_tick now = \<lparr>ti_role = ''active'', ti_at = now, ti_new_events = 0, ti_window_events = 0, ti_opened = [],
     ti_updated = [], ti_held = 0, ti_deferred = 0, ti_backoff = 0, ti_skipped_recovered = 0, ti_errors = [],
     ti_gap_rows = 0, ti_backlog = False, ti_aborted = False\<rparr>"

definition new_ticket :: "string \<Rightarrow> cand \<Rightarrow> instant \<Rightarrow> ticket" where
  "new_ticket fp c now = \<lparr>tk_fingerprint = fp, tk_first_seen = now, tk_last_seen = 0, tk_last_sent = 0,
     tk_severity = Some (cd_severity c), tk_event_count = 0, tk_last_event_at = 0, tk_sends = 0, tk_held = 0,
     tk_state = Some (cd_state c), tk_title = None, tk_refs = []\<rparr>"

text \<open>The last part of \<open>_handle\<close>: what is recorded after the sinks answered.\<close>

definition after_send ::
  "'w outside \<Rightarrow> string \<Rightarrow> cand \<Rightarrow> pend option \<Rightarrow> ticket option \<Rightarrow> decision \<Rightarrow> string list \<Rightarrow> string list \<Rightarrow> payload
     \<Rightarrow> instant \<Rightarrow> sent \<Rightarrow> tick \<Rightarrow> 'w st \<Rightarrow> (py_error + unit) \<times> tick \<times> 'w st" where
  "after_send ou owner c old rec act targets ready p now s ti0 st0 =
     (let fp = cd_fingerprint c; action = (if act = Open then ''open'' else ''update'');
          base = (case rec of None \<Rightarrow> new_ticket fp c now | Some r \<Rightarrow> r);
          st = (note_attempt now (fst st0), snd st0);
          ti = ti0\<lparr>ti_errors := ti_errors ti0 @ st_errors s\<rparr>;
          undelivered = st_failed s @ filter (\<lambda>n. n \<notin> set ready) targets
      in if st_results s = [] then (Inr (), ti, (park c action undelivered old now (rec = None) (fst st), snd st))
         else
           (case put_ticket ou owner (base\<lparr>tk_last_seen := now, tk_last_sent := now, tk_severity := Some (cd_severity c),
                    tk_event_count := cd_count c, tk_last_event_at := cd_latest c, tk_sends := tk_sends base + 1,
                    tk_state := Some (cd_state c), tk_title := Some (take 300 (pl_title p)),
                    tk_refs := dedup (tk_refs base @ map (\<lambda>r. sr_sink r @ '':'' @ sr_ref r) (st_results s))\<rparr>) st of
              (Inl e, st1) \<Rightarrow> (Inl e, ti, st1)
            | (Inr _, (wk, w)) \<Rightarrow>
                (let wk' = (if undelivered \<noteq> [] then park c action undelivered old now False wk
                            else if old \<noteq> None then unpark fp wk else wk);
                     ti' = (if act = Open then ti\<lparr>ti_opened := ti_opened ti @ [fp]\<rparr>
                            else ti\<lparr>ti_updated := ti_updated ti @ [fp]\<rparr>)
                 in (Inr (), ti',
                     (wk', ou_audit ou (''triage.ticket.'' @ action) fp
                        (JObj [(''severity'', JStr (cd_severity c)), (''devices'', strs_json (take 20 (pl_devices p))),
                               (''sinks'', JList (map (\<lambda>r. JObj [(''sink'', JStr (sr_sink r)),
                                  (''action'', JStr (sr_action r)), (''ref'', JStr (sr_ref r))]) (st_results s))),
                               (''errors'', strs_json (st_errors s))]) w)))))"

text \<open>The payload, with a note when the update says that everything recovered.\<close>

definition outgoing :: "'w outside \<Rightarrow> decision \<Rightarrow> cand \<Rightarrow> payload" where
  "outgoing ou act c =
     (if act = Update \<and> (cd_state c = ''recovered'' \<or> cd_state c = ''up'')
      then (ou_payload ou c)\<lparr>pl_status := Some ''All affected entities have recovered; verify and close.''\<rparr>
      else ou_payload ou c)"

text \<open>What \<open>_handle\<close> does once it has decided to send: the limiter, the sinks that are not backing off, the delivery.\<close>

definition deliver ::
  "triage_config \<Rightarrow> 'w outside \<Rightarrow> string \<Rightarrow> string list \<Rightarrow> cand \<Rightarrow> pend option \<Rightarrow> ticket option \<Rightarrow> decision
     \<Rightarrow> string list option \<Rightarrow> instant \<Rightarrow> tick \<Rightarrow> 'w st \<Rightarrow> (py_error + unit) \<times> tick \<times> 'w st" where
  "deliver cfg ou owner sinks c old rec act owed now ti st =
     (let action = (if act = Open then ''open'' else ''update'');
          targets = (case owed of None \<Rightarrow> sinks | Some ns \<Rightarrow> filter (\<lambda>s. s \<in> set ns) sinks);
          (ok, wk) = rate_ok cfg now (fst st); w = snd st
      in if \<not> ok then (Inr (), ti\<lparr>ti_deferred := ti_deferred ti + 1\<rparr>, (park c action targets old now (rec = None) wk, w))
         else let ready = filter (\<lambda>s. sink_ready s now wk) targets
              in if ready = []
                 then (Inr (), ti\<lparr>ti_backoff := ti_backoff ti + 1\<rparr>, (park c action targets old now (rec = None) wk, w))
                 else (case send cfg ou owner (outgoing ou act c) ready now (wk, w) of
                         (Inl e, st1) \<Rightarrow> (Inl e, ti, st1)
                       | (Inr s, st1) \<Rightarrow> after_send ou owner c old rec act targets ready (outgoing ou act c) now s ti st1))"

definition handle ::
  "triage_config \<Rightarrow> 'w outside \<Rightarrow> string \<Rightarrow> string list \<Rightarrow> cand \<Rightarrow> pend option \<Rightarrow> bool \<Rightarrow> instant \<Rightarrow> tick \<Rightarrow> 'w st
     \<Rightarrow> (py_error + unit) \<times> tick \<times> 'w st" where
  "handle cfg ou owner sinks c old orphan now ti st =
     (let fp = cd_fingerprint c; rec = triage_get fp (wk_db (fst st));
          owed_sinks = (case old of None \<Rightarrow> None | Some p \<Rightarrow> Some (pd_sinks p));
          base = (case rec of None \<Rightarrow> new_ticket fp c now | Some r \<Rightarrow> r)
      in if orphan
         then deliver cfg ou owner sinks c old rec (if rec \<noteq> None then Update else Open) owed_sinks now ti st
         else case decide cfg rec c now of
           Skip_Recovered \<Rightarrow>
             (Inr (), ti\<lparr>ti_skipped_recovered := ti_skipped_recovered ti + 1\<rparr>,
              (if old \<noteq> None then unpark fp (fst st) else fst st, snd st))
         | Hold \<Rightarrow>
             (if old \<noteq> None
              then deliver cfg ou owner sinks c old rec (if rec \<noteq> None then Update else Open) owed_sinks now ti st
              else case put_ticket ou owner (base\<lparr>tk_last_seen := now, tk_held := tk_held base + 1\<rparr>) st of
                     (Inl e, st1) \<Rightarrow> (Inl e, ti, st1)
                   | (Inr _, st1) \<Rightarrow> (Inr (), ti\<lparr>ti_held := ti_held ti + 1\<rparr>, st1))
         | act \<Rightarrow> deliver cfg ou owner sinks c old rec act None now ti st)"

section \<open>One tick\<close>

text \<open>\<open>_ingest\<close> for one source, then over all of them.\<close>

definition set_cursor_pending :: "string \<Rightarrow> int \<Rightarrow> worker \<Rightarrow> worker" where
  "set_cursor_pending s c wk = wk\<lparr>wk_cursor_pending := AList.update s c (wk_cursor_pending wk)\<rparr>"

definition kv_int :: "(string \<times> json) list \<Rightarrow> string \<Rightarrow> py_error + int" where
  "kv_int kvs k = (case map_of kvs k of None \<Rightarrow> Inr 0 | Some j \<Rightarrow> py_int j)"

text \<open>Rows the spool pruned before they were read, counted once.\<close>

definition note_gap :: "string \<Rightarrow> int \<Rightarrow> int \<Rightarrow> worker \<Rightarrow> worker" where
  "note_gap source lost seen_lost wk =
     (if lost > seen_lost
      then (count_total ''gap_rows'' (lost - seen_lost) wk)
             \<lparr>wk_gap_pending := AList.update source lost (wk_gap_pending wk)\<rparr>
      else wk)"

definition warm_once ::
  "triage_config \<Rightarrow> 'w outside \<Rightarrow> instant \<Rightarrow> string \<Rightarrow> int \<Rightarrow> worker \<Rightarrow> worker" where
  "warm_once cfg ou horizon source cursor wk =
     (if source \<in> set (wk_warmed wk) then wk
      else let wk' = wk\<lparr>wk_warmed := wk_warmed wk @ [source]\<rparr>
           in if cursor > 0 then warm cfg (ou_parse ou) (ou_classify ou) source cursor horizon wk' else wk')"

definition take_batch ::
  "triage_config \<Rightarrow> 'w outside \<Rightarrow> instant \<Rightarrow> string \<Rightarrow> spool_row list \<Rightarrow> worker \<times> 'w \<times> nat \<Rightarrow> worker \<times> 'w \<times> nat" where
  "take_batch cfg ou horizon source rows st =
     (case st of (wk, w, n) \<Rightarrow>
        (case process_rows cfg (ou_parse ou) (ou_classify ou) source horizon rows wk of
           (wk', k) \<Rightarrow> (count_total ''lines_read'' (int (length rows))
                         (set_cursor_pending source (sp_id (last rows)) wk'), w, n + k)))"

definition past_deadline :: "'w outside \<Rightarrow> instant \<Rightarrow> worker \<times> 'w \<times> nat \<Rightarrow> bool \<times> worker \<times> 'w \<times> nat" where
  "past_deadline ou deadline st =
     (case st of (wk, w, n) \<Rightarrow> (case ou_monotonic ou w of (t, w') \<Rightarrow> (t \<ge> deadline, (wk, w', n))))"

definition ingest_source ::
  "triage_config \<Rightarrow> 'w outside \<Rightarrow> (string \<times> json) list \<Rightarrow> instant \<Rightarrow> instant \<Rightarrow> string
     \<Rightarrow> 'w st \<times> nat \<times> bool \<times> int \<Rightarrow> py_error + 'w st \<times> nat \<times> bool \<times> int" where
  "ingest_source cfg ou kvs horizon deadline source acc =
     (case acc of ((wk, w), fresh, backlog, gap) \<Rightarrow>
        (case (case map_of (wk_cursor_pending wk) source of Some c \<Rightarrow> Inr c | None \<Rightarrow> kv_int kvs (''cursor:'' @ source)) of
           Inl e \<Rightarrow> Inl e
         | Inr cursor \<Rightarrow>
             (let lost = snd (spool_gap source (wk_db wk))
              in case (case map_of (wk_gap_pending wk) source of Some g \<Rightarrow> Inr g | None \<Rightarrow> kv_int kvs (''gapseen:'' @ source)) of
                   Inl e \<Rightarrow> Inl e
                 | Inr seen_lost \<Rightarrow>
                     (let wk1 = warm_once cfg ou horizon source cursor (note_gap source lost seen_lost wk);
                          batch = nat (max 1 (tc_batch cfg))
                      in case drain_loop (\<lambda>c. spool_read source c batch (wk_db wk1)) sp_id batch (past_deadline ou deadline)
                                (take_batch cfg ou horizon source) (Suc (length (db_spool (wk_db wk1)))) cursor
                                (wk1, w, fresh) of
                           None \<Rightarrow> Inl Value_Error  \<comment> \<open>never: \<open>spool_drain_complete\<close>\<close>
                         | Some ((wk2, w2, fresh2), stop, _) \<Rightarrow>
                             Inr ((wk2, w2), fresh2, backlog \<or> stop, gap + max 0 (lost - seen_lost))))))"

fun ingest_sources ::
  "triage_config \<Rightarrow> 'w outside \<Rightarrow> (string \<times> json) list \<Rightarrow> instant \<Rightarrow> instant \<Rightarrow> string list
     \<Rightarrow> 'w st \<times> nat \<times> bool \<times> int \<Rightarrow> py_error + 'w st \<times> nat \<times> bool \<times> int" where
  "ingest_sources cfg ou kvs horizon deadline [] acc = Inr acc"
| "ingest_sources cfg ou kvs horizon deadline (s # ss) acc =
     (case ingest_source cfg ou kvs horizon deadline s acc of
        Inl e \<Rightarrow> Inl e | Inr acc' \<Rightarrow> ingest_sources cfg ou kvs horizon deadline ss acc')"

fun trim_window :: "instant \<Rightarrow> nat \<Rightarrow> windowed list \<Rightarrow> windowed list" where
  "trim_window horizon cap [] = []"
| "trim_window horizon cap (w # ws) =
     (if wn_received_at w < horizon \<or> length (w # ws) > cap then trim_window horizon cap ws else w # ws)"

definition expire_recent :: "instant \<Rightarrow> worker \<Rightarrow> worker" where
  "expire_recent keep wk =
     (let live = filter (\<lambda>(k, i). case map_of (wk_seens wk) i of None \<Rightarrow> False | Some sn \<Rightarrow> sn_first_at sn \<ge> keep)
                   (wk_recent wk)
      in wk\<lparr>wk_recent := live, wk_seens := filter (\<lambda>(i, _). i \<in> set (map snd live)) (wk_seens wk)\<rparr>)"

definition ingest ::
  "triage_config \<Rightarrow> 'w outside \<Rightarrow> instant \<Rightarrow> instant \<Rightarrow> 'w st \<Rightarrow> py_error + 'w st \<times> nat \<times> bool \<times> int" where
  "ingest cfg ou now deadline st =
     (let horizon = now - tc_window_s cfg
      in case ingest_sources cfg ou (kv_get_all ''triage'' (wk_db (fst st))) horizon deadline (sources_of cfg (fst st))
                (st, 0, False, 0) of
           Inl e \<Rightarrow> Inl e
         | Inr ((wk, w), fresh, backlog, gap) \<Rightarrow>
             Inr ((expire_recent (now - max (tc_dedup_s cfg) 1)
                     (wk\<lparr>wk_window := trim_window horizon (tc_max_window_events cfg) (wk_window wk)\<rparr>), w),
                  fresh, backlog, gap))"

text \<open>The pending deliveries at the start of a tick: sinks that are gone are no longer owed, the rest expires.\<close>

definition keep_pending ::
  "triage_config \<Rightarrow> string list \<Rightarrow> instant \<Rightarrow> string \<times> json \<Rightarrow> worker \<times> (string \<times> pend) list
     \<Rightarrow> worker \<times> (string \<times> pend) list" where
  "keep_pending cfg names now x acc =
     (case (x, acc) of ((fp, j), (wk, pending)) \<Rightarrow>
        (case pend_of_json j of
           None \<Rightarrow> (unpark fp wk, pending)
         | Some p \<Rightarrow>
             (let s1 = filter (\<lambda>n. n \<in> set names) (pd_sinks p);
                  s2 = (if s1 = [] \<and> pd_nowhere p then sort (dedup names) else s1)
              in if s2 = [] then (unpark fp wk, pending)
                 else if now - pd_since p > tc_pending_ttl_s cfg then (unpark fp wk, pending)
                 else (wk, pending @ [(fp, p\<lparr>pd_sinks := s2\<rparr>)]))))"

type_synonym work_item = "cand \<times> pend option \<times> bool"

definition work_items :: "cand list \<Rightarrow> (string \<times> pend) list \<Rightarrow> work_item list" where
  "work_items cs pending =
     sort_key (\<lambda>(c, _, _). (rank_of (cd_severity c), cd_fingerprint c))
       (map (\<lambda>c. (c, map_of pending (cd_fingerprint c), False)) cs
        @ [(pd_cand p, Some p, True). (fp, p) \<leftarrow> pending, fp \<notin> set (map cd_fingerprint cs)])"

fun handle_all ::
  "triage_config \<Rightarrow> 'w outside \<Rightarrow> string \<Rightarrow> string list \<Rightarrow> instant \<Rightarrow> work_item list \<Rightarrow> tick \<Rightarrow> 'w st
     \<Rightarrow> (py_error + unit) \<times> tick \<times> 'w st" where
  "handle_all cfg ou owner sinks now [] ti st = (Inr (), ti, st)"
| "handle_all cfg ou owner sinks now ((c, old, orphan) # items) ti st =
     (case still_leader cfg ou owner st of
        (Inl e, st1) \<Rightarrow> (Inl e, ti, st1)
      | (Inr False, st1) \<Rightarrow> (Inl Lease_Lost, ti, st1)
      | (Inr True, st1) \<Rightarrow>
          (case handle cfg ou owner sinks c old orphan now ti st1 of
             (Inl e, ti1, st2) \<Rightarrow> (Inl e, ti1, st2)
           | (Inr _, ti1, st2) \<Rightarrow> handle_all cfg ou owner sinks now items ti1 st2))"

definition run_active ::
  "triage_config \<Rightarrow> 'w outside \<Rightarrow> string \<Rightarrow> string list \<Rightarrow> instant \<Rightarrow> tick \<Rightarrow> 'w st
     \<Rightarrow> (py_error + unit) \<times> tick \<times> 'w st" where
  "run_active cfg ou owner sinks now ti st =
     (case ou_monotonic ou (snd st) of (m, w0) \<Rightarrow>
        case ingest cfg ou now (m + tc_tick_budget_s cfg) (fst st, w0) of
          Inl e \<Rightarrow> (Inl e, ti, (fst st, w0))
        | Inr ((wk, w), fresh, backlog, gap) \<Rightarrow>
            (let ti1 = ti\<lparr>ti_new_events := fresh, ti_backlog := backlog, ti_gap_rows := gap,
                          ti_window_events := length (wk_window wk)\<rparr>;
                 (wk1, pending) = fold (keep_pending cfg sinks now) (kv_get_all ''triage_pending'' (wk_db wk)) (wk, []);
                 cs = (if fresh \<noteq> 0
                       then merge_cands (triage_fingerprint (ou_digest ou) (tc_site cfg)) (ou_candidates ou (wk_window wk1))
                       else [])
             in case handle_all cfg ou owner sinks now (work_items cs pending) ti1 (wk1, w) of
                  (Inl e, ti2, st2) \<Rightarrow> (Inl e, ti2, st2)
                | (Inr _, ti2, (wk2, w2)) \<Rightarrow>
                    (let wk3 = commit_cursors now wk2;
                         wk4 = (if tc_retention_days cfg > 0 \<and> now - wk_last_prune wk3 \<ge> 3600
                                then wk3\<lparr>wk_last_prune := now,
                                         wk_db := fst (triage_prune (tc_retention_days cfg * 86400) now (wk_db wk3))\<rparr>
                                else wk3)
                     in (Inr (), ti2, (wk4, w2)))))"

definition finish_tick :: "tick \<Rightarrow> worker \<Rightarrow> tick \<times> worker" where
  "finish_tick ti wk =
     (ti\<lparr>ti_window_events := length (wk_window wk)\<rparr>,
      count_total ''ticks'' 1 (count_total ''updated'' (int (length (ti_updated ti)))
        (count_total ''opened'' (int (length (ti_opened ti)))
          (count_total ''skipped_recovered'' (int (ti_skipped_recovered ti))
            (count_total ''deferred'' (int (ti_deferred ti)) (count_total ''held'' (int (ti_held ti)) wk))))))"

definition run_once ::
  "triage_config \<Rightarrow> 'w outside \<Rightarrow> string \<Rightarrow> string list \<Rightarrow> instant option \<Rightarrow> 'w st \<Rightarrow> (py_error + tick) \<times> 'w st" where
  "run_once cfg ou owner sinks given st =
     (let (now, (wk, w)) = now_of ou ((fst st)\<lparr>wk_explicit_now := given\<rparr>, snd st)
      in case lease_acquire triage_lease owner (tc_lease_ttl_s cfg) now (wk_db wk) of
           Inl e \<Rightarrow> (Inl e, (wk, w))
         | Inr (False, db) \<Rightarrow>
             (Inr ((new_tick now)\<lparr>ti_role := ''standby''\<rparr>),
              (reset_active_state (wk\<lparr>wk_db := db, wk_role := ''standby''\<rparr>), w))
         | Inr (True, db) \<Rightarrow>
             (case load_state (wk\<lparr>wk_db := db, wk_role := ''active'', wk_last_renew := now\<rparr>) of
                Inl e \<Rightarrow> (Inl e, (wk\<lparr>wk_db := db, wk_role := ''active'', wk_last_renew := now\<rparr>, w))
              | Inr wk1 \<Rightarrow>
                  (case run_active cfg ou owner sinks now (new_tick now) (wk1, w) of
                     (Inl e, ti, (wk2, w2)) \<Rightarrow>
                       (if e = Lease_Lost
                        then (case finish_tick (ti\<lparr>ti_aborted := True\<rparr>)
                                     (reset_active_state (wk2\<lparr>wk_role := ''standby''\<rparr>)) of
                                (ti', wk3) \<Rightarrow> (Inr ti', (wk3, w2)))
                        else (Inl e, (wk2, w2)))
                   | (Inr _, ti, (wk2, w2)) \<Rightarrow> (case finish_tick ti wk2 of (ti', wk3) \<Rightarrow> (Inr ti', (wk3, w2))))))"

end
