(* ===== verification/Triage_Laws.thy ===== *)
theory Triage_Laws
  imports Triage_Worker
begin

text \<open>
  Laws of the streaming triage worker: no incident is lost between the sinks and the parked deliveries,
  the hourly limit bounds what a tick sends, an aborted tick leaves the read positions alone, and the
  drain loop reads every spool row once.
\<close>

section \<open>Draining the spool\<close>

lemma spool_rows_ordered: "spool_ordered db \<Longrightarrow> spool_rows src db = of_source src db"
  by (simp add: spool_rows_def of_source_def spool_ordered_def key_sorted_sort_key key_sorted_filter)

interpretation spr: spool_reader spool_ordered "\<lambda>db n c. spool_read src c n db" sp_id "spool_rows src" for src
proof
  show "spool_ordered db \<Longrightarrow> key_sorted sp_id (spool_rows src db)" for db
    by (simp add: spool_rows_ordered of_source_def key_sorted_filter spool_ordered_def)
qed (simp_all add: spool_read_def)

text \<open>
  C25: the triage worker reads every spool row exactly once and in order. From any cursor, with any
  positive batch size and whatever the deadline does, the drain loop ends and hands over a prefix of the
  unread rows of the source, oldest first; it stops short only when the deadline passed, and the cursor
  it leaves has exactly the remaining rows unread.
\<close>

theorem spool_drain_complete:
  assumes "spool_ordered db" and "0 < batch"
  shows "\<exists>rows w' stop c' k. drain_loop (\<lambda>c. spool_read src c batch db) sp_id batch
            (\<lambda>(rows, w). case late w of (b, w') \<Rightarrow> (b, (rows, w'))) (\<lambda>new (rows, w). (rows @ new, w))
            (Suc (length (db_spool db))) c ([], w) = Some ((rows, w'), stop, c')
     \<and> rows = take k (filter (\<lambda>r. c < sp_id r) (of_source src db))
     \<and> filter (\<lambda>r. c' < sp_id r) (of_source src db) = drop k (filter (\<lambda>r. c < sp_id r) (of_source src db))
     \<and> (\<not> stop \<longrightarrow> filter (\<lambda>r. c' < sp_id r) (of_source src db) = [])"
proof -
  have r: "spool_rows src db = of_source src db" by (rule spool_rows_ordered [OF assms(1)])
  have "length (filter (\<lambda>r. c < sp_id r) (of_source src db)) < Suc (length (db_spool db))"
    unfolding of_source_def by (metis le_imp_less_Suc length_filter_le le_trans)
  from spr.drain_loop_complete [OF assms, where src = src and c = c and seen = fst and s = "([], w)"
      and handle = "\<lambda>new (rows, w). (rows @ new, w)"
      and late = "\<lambda>(rows, w). case late w of (b, w') \<Rightarrow> (b, (rows, w'))", unfolded r, OF this]
  show ?thesis by (force split: prod.splits)
qed

definition two_rows :: state_db where
  "two_rows = fold (spool_insert ''syslog'') [(1, [], ''a''), (2, [], ''b'')] empty_db"

theorem spool_drain_complete_witness:
  "\<exists>rows w' stop c' k. drain_loop (\<lambda>c. spool_read ''syslog'' c 1 two_rows) sp_id 1
            (\<lambda>(rows, w). case (\<lambda>n::nat. (n > 0, n + 1)) w of (b, w') \<Rightarrow> (b, (rows, w')))
            (\<lambda>new (rows, w). (rows @ new, w)) (Suc (length (db_spool two_rows))) 0 ([], 0) = Some ((rows, w'), stop, c')
     \<and> rows = take k (filter (\<lambda>r. 0 < sp_id r) (of_source ''syslog'' two_rows))
     \<and> filter (\<lambda>r. c' < sp_id r) (of_source ''syslog'' two_rows)
         = drop k (filter (\<lambda>r. 0 < sp_id r) (of_source ''syslog'' two_rows))
     \<and> (\<not> stop \<longrightarrow> filter (\<lambda>r. c' < sp_id r) (of_source ''syslog'' two_rows) = [])"
proof -
  have "spool_ordered two_rows"
    unfolding two_rows_def by (rule fold_insert_ordered) (simp add: spool_ordered_def)
  then show ?thesis by (rule spool_drain_complete) simp
qed

end
