(* ===== verification/Triage_Delivery.thy ===== *)
theory Triage_Delivery
  imports Triage_Worker
begin

text \<open>
  Laws of one tick of the triage worker: every sink an incident is owed to either took it or is parked
  for it, the hourly limit bounds what a tick sends, and a tick that loses its lease leaves the persisted
  read positions as they were.
\<close>

section \<open>Delivered or parked\<close>

definition parked_for :: "string \<Rightarrow> string \<Rightarrow> state_db \<Rightarrow> bool" where
  "parked_for fp name db \<longleftrightarrow>
     (\<exists>p. kv_lookup ''triage_pending'' fp db = Some (Some (pend_json p)) \<and> name \<in> set (pd_sinks p))"

definition ticketed_by :: "string \<Rightarrow> string \<Rightarrow> instant \<Rightarrow> state_db \<Rightarrow> bool" where
  "ticketed_by fp name now db \<longleftrightarrow>
     (\<exists>t ref. triage_get fp db = Some t \<and> tk_last_sent t = now \<and> name @ '':'' @ ref \<in> set (tk_refs t))"

definition tickets_wf :: "state_db \<Rightarrow> bool" where
  "tickets_wf db \<longleftrightarrow> (\<forall>fp t. triage_get fp db = Some t \<longrightarrow> tk_fingerprint t = fp)"

lemma send_loop_covers:
  assumes "send_loop cfg ou owner p now names acc st = (Inr s, st')"
  shows "(\<forall>n\<in>set names. n \<in> sr_sink ` set (st_results s) \<or> n \<in> set (st_failed s))
     \<and> set (st_results acc) \<subseteq> set (st_results s) \<and> set (st_failed acc) \<subseteq> set (st_failed s)"
  using assms
proof (induction names arbitrary: acc st)
  case Nil
  then show ?case by simp
next
  case (Cons name names)
  obtain wk w where lead: "still_leader cfg ou owner st = (Inr True, (wk, w))"
    using Cons.prems by (auto split: prod.splits sum.splits bool.splits)
  obtain ans w1 where ans: "ou_upsert ou name p w = (ans, w1)" by fastforce
  show ?case
  proof (cases ans)
    case (Inl err)
    let ?acc = "acc\<lparr>st_errors := st_errors acc @ [name @ '': '' @ take 200 err], st_failed := st_failed acc @ [name]\<rparr>"
    have "send_loop cfg ou owner p now names ?acc (sink_failed cfg ou name now (rival_step ou (wk, w1))) = (Inr s, st')"
      using Cons.prems lead ans Inl by simp
    from Cons.IH [OF this] show ?thesis by auto
  next
    case (Inr ok)
    let ?acc = "acc\<lparr>st_results := st_results acc @ [\<lparr>sr_sink = name, sr_action = fst ok, sr_ref = snd ok\<rparr>]\<rparr>"
    obtain wk2 w2 where r: "rival_step ou (wk, w1) = (wk2, w2)" by fastforce
    have "send_loop cfg ou owner p now names ?acc
        (wk2\<lparr>wk_sink_state := AList.delete name (wk_sink_state wk2)\<rparr>, w2) = (Inr s, st')"
      using Cons.prems lead ans Inr r by (cases ok) simp
    from Cons.IH [OF this] show ?thesis by force
  qed
qed

lemma park_parks: "name \<in> set names \<Longrightarrow> parked_for (cd_fingerprint c) name (wk_db (park c act names old now nw wk))"
  by (auto simp: parked_for_def park_def)

lemma park_tickets [simp]: "triage_get fp (wk_db (park c act names old now nw wk)) = triage_get fp (wk_db wk)"
  by (simp add: park_def triage_get_def kv_set_def)

lemma unpark_tickets [simp]: "triage_get fp (wk_db (unpark f wk)) = triage_get fp (wk_db wk)"
  by (simp add: unpark_def triage_get_def kv_delete_def)

lemma put_ticket_get:
  "put_ticket ou owner rec st = (Inr u, (wk, w)) \<Longrightarrow> triage_get (tk_fingerprint rec) (wk_db wk) = Some rec"
  by (auto simp: put_ticket_def triage_put_def triage_get_def split: prod.splits sum.splits)

lemma ticketed_byI:
  "triage_get fp db = Some t \<Longrightarrow> tk_last_sent t = now \<Longrightarrow> name @ '':'' @ ref \<in> set (tk_refs t) \<Longrightarrow> ticketed_by fp name now db"
  by (auto simp: ticketed_by_def)

lemma after_send_accounts:
  assumes "after_send ou owner c old rec act targets ready p now s ti st = (Inr u, ti', st')"
    and cover: "\<forall>n\<in>set ready. n \<in> sr_sink ` set (st_results s) \<or> n \<in> set (st_failed s)"
    and "n \<in> set targets" and fp: "\<And>r. rec = Some r \<Longrightarrow> tk_fingerprint r = cd_fingerprint c"
  shows "ticketed_by (cd_fingerprint c) n now (wk_db (fst st')) \<or> parked_for (cd_fingerprint c) n (wk_db (fst st'))"
proof (cases "st_results s = []")
  case True
  then have "n \<in> set (st_failed s @ filter (\<lambda>m. m \<notin> set ready) targets)" using cover assms(3) by auto
  with True assms(1) show ?thesis by (auto simp: after_send_def Let_def intro!: park_parks)
next
  case False
  let ?base = "case rec of None \<Rightarrow> new_ticket (cd_fingerprint c) c now | Some r \<Rightarrow> r"
  let ?new = "?base\<lparr>tk_last_seen := now, tk_last_sent := now, tk_severity := Some (cd_severity c),
      tk_event_count := cd_count c, tk_last_event_at := cd_latest c, tk_sends := tk_sends ?base + 1,
      tk_state := Some (cd_state c), tk_title := Some (take 300 (pl_title p)),
      tk_refs := dedup (tk_refs ?base @ map (\<lambda>r. sr_sink r @ '':'' @ sr_ref r) (st_results s))\<rparr>"
  obtain u1 wk w where put: "put_ticket ou owner ?new (note_attempt now (fst st), snd st) = (Inr u1, (wk, w))"
    and st': "wk_db (fst st') = wk_db (if st_failed s @ filter (\<lambda>m. m \<notin> set ready) targets \<noteq> []
        then park c (if act = Open then ''open'' else ''update'') (st_failed s @ filter (\<lambda>m. m \<notin> set ready) targets) old now False wk
        else if old \<noteq> None then unpark (cd_fingerprint c) wk else wk)"
    using assms(1) False unfolding after_send_def Let_def by (force split: prod.splits sum.splits)
  have fpn: "tk_fingerprint ?new = cd_fingerprint c" using fp by (auto simp: new_ticket_def split: option.splits)
  have got: "triage_get (cd_fingerprint c) (wk_db (fst st')) = Some ?new"
    using put_ticket_get [OF put] fpn unfolding st' by simp
  show ?thesis
  proof (cases "n \<in> sr_sink ` set (st_results s)")
    case True
    then obtain r where "r \<in> set (st_results s)" "n = sr_sink r" by blast
    then have "n @ '':'' @ sr_ref r \<in> set (tk_refs ?new)" by simp
    with got show ?thesis by (intro disjI1 ticketed_byI [where t = ?new]) simp_all
  next
    case False
    then have und: "n \<in> set (st_failed s @ filter (\<lambda>m. m \<notin> set ready) targets)" using cover assms(3) by auto
    then have "st_failed s @ filter (\<lambda>m. m \<notin> set ready) targets \<noteq> []" by force
    with park_parks [OF und] show ?thesis unfolding st' by simp
  qed
qed

abbreviation targets_of :: "string list \<Rightarrow> string list option \<Rightarrow> string list" where
  "targets_of sinks owed \<equiv> (case owed of None \<Rightarrow> sinks | Some ns \<Rightarrow> filter (\<lambda>s. s \<in> set ns) sinks)"

definition sends :: "tick \<Rightarrow> nat" where
  "sends ti = length (ti_opened ti) + length (ti_updated ti)"

text \<open>The three ways through \<open>deliver\<close>: parked without trying, cut off by a lost lease, or sent.\<close>

lemma deliver_cases:
  assumes "deliver cfg ou owner sinks c old rec act owed now ti st = (r, ti', st')"
  obtains
    (parked) ok wk w where "rate_ok cfg now (fst st) = (ok, wk)" "r = Inr ()" "sends ti' = sends ti" "ti_aborted ti' = ti_aborted ti"
      "st' = (park c (if act = Open then ''open'' else ''update'') (targets_of sinks owed) old now (rec = None) wk, w)"
  | (aborted) wk e ready where "rate_ok cfg now (fst st) = (True, wk)" "r = Inl e" "ti' = ti"
      "send cfg ou owner (outgoing ou act c) ready now (wk, snd st) = (Inl e, st')"
  | (sent) wk s st1 ready where "rate_ok cfg now (fst st) = (True, wk)"
      "send cfg ou owner (outgoing ou act c) ready now (wk, snd st) = (Inr s, st1)"
      "after_send ou owner c old rec act (targets_of sinks owed) ready (outgoing ou act c) now s ti st1 = (r, ti', st')"
proof -
  obtain ok wk where ok: "rate_ok cfg now (fst st) = (ok, wk)" by force
  let ?ready = "filter (\<lambda>s. sink_ready s now wk) (targets_of sinks owed)"
  show ?thesis
  proof (cases "ok \<and> ?ready \<noteq> []")
    case False
    with assms ok show ?thesis
      unfolding deliver_def Let_def by (intro parked [of ok wk "snd st"]) (auto simp: sends_def split: if_splits)
  next
    case True
    obtain res st1 where send: "send cfg ou owner (outgoing ou act c) ?ready now (wk, snd st) = (res, st1)"
      by (metis surj_pair)
    have d: "deliver cfg ou owner sinks c old rec act owed now ti st =
        (case (res, st1) of (Inl e, st1) \<Rightarrow> (Inl e, ti, st1)
         | (Inr s, st1) \<Rightarrow>
             after_send ou owner c old rec act (targets_of sinks owed) ?ready (outgoing ou act c) now s ti st1)"
      unfolding deliver_def Let_def ok using True send by simp
    show ?thesis
    proof (cases res)
      case (Inl e)
      with d assms send ok True show ?thesis by (intro aborted [of wk e ?ready]) auto
    next
      case (Inr s)
      with d assms send ok True show ?thesis by (intro sent [of wk ?ready s st1]) auto
    qed
  qed
qed

lemma deliver_accounts:
  assumes "deliver cfg ou owner sinks c old rec act owed now ti st = (Inr u, ti', st')"
    and "n \<in> set (targets_of sinks owed)"
    and "\<And>r. rec = Some r \<Longrightarrow> tk_fingerprint r = cd_fingerprint c"
  shows "ticketed_by (cd_fingerprint c) n now (wk_db (fst st')) \<or> parked_for (cd_fingerprint c) n (wk_db (fst st'))"
  using assms(1)
proof (cases rule: deliver_cases)
  case (sent wk s st1 ready)
  have "\<forall>m\<in>set ready. m \<in> sr_sink ` set (st_results s) \<or> m \<in> set (st_failed s)"
    using send_loop_covers sent(2) unfolding send_def by blast
  from after_send_accounts [OF sent(3) this assms(2,3)] show ?thesis by simp
qed (use assms(2) in \<open>auto intro: park_parks\<close>)

text \<open>The sinks an incident is owed to on this pass; none when it is held or already over.\<close>

definition owed_now ::
  "triage_config \<Rightarrow> string list \<Rightarrow> cand \<Rightarrow> pend option \<Rightarrow> bool \<Rightarrow> instant \<Rightarrow> state_db \<Rightarrow> string list" where
  "owed_now cfg sinks c old orphan now db =
     (let parked = filter (\<lambda>s. case old of None \<Rightarrow> True | Some p \<Rightarrow> s \<in> set (pd_sinks p)) sinks
      in if orphan then parked
         else case decide cfg (triage_get (cd_fingerprint c) db) c now of
           Skip_Recovered \<Rightarrow> []
         | Hold \<Rightarrow> (if old = None then [] else parked)
         | _ \<Rightarrow> sinks)"


text \<open>A worker with two sinks: one refuses everything, the other accepts.\<close>

definition demo_cand :: cand where
  "demo_cand = \<lparr>cd_fingerprint = ''F'', cd_kind = ''group'', cd_severity = ''high'', cd_category = ''interface'',
     cd_description = ''Interface link down'', cd_summary = ''link'', cd_root_device = ''r1'', cd_layer = ''interface'',
     cd_interface = None, cd_devices = [''r1''], cd_suppressed = 0, cd_count = 1, cd_messages = [], cd_state = ''active'',
     cd_vendor = [], cd_confidence = 7/10, cd_latest = 90, cd_related = []\<rparr>"

definition demo_outside :: "unit outside" where
  "demo_outside = \<lparr>
     ou_upsert = (\<lambda>name p w. (if name = ''jira'' then Inl ''HTTP 503'' else Inr (''created'', pl_fingerprint p), w)),
     ou_rand = (\<lambda>w. (1/2, w)), ou_clock = (\<lambda>w. (100, w)), ou_monotonic = (\<lambda>w. (0, w)),
     ou_rival = (\<lambda>w. (None, w)), ou_audit = (\<lambda>_ _ _ w. w),
     ou_payload = (\<lambda>c. \<lparr>pl_fingerprint = cd_fingerprint c, pl_title = cd_description c, pl_devices = cd_devices c,
                          pl_status = None\<rparr>),
     ou_parse = (\<lambda>_ _. None), ou_classify = (\<lambda>_. blank_event), ou_candidates = (\<lambda>_. [demo_cand]),
     ou_digest = (\<lambda>s. s)\<rparr>"

lemma demo_handle:
  "fst (handle default_config demo_outside ''A'' [''jira'', ''dry-run''] demo_cand None False 100 (new_tick 100)
        (new_worker empty_db, ())) = Inr ()"
  by (simp add: handle_def deliver_def decide_def demo_cand_def demo_outside_def default_config_def new_worker_def
      triage_get_def rate_ok_def sink_ready_def outgoing_def send_def still_leader_def now_of_def lease_valid_def
      kv_lookup_def lease_acquire_def rival_step_def sink_failed_def after_send_def put_ticket_def triage_put_def
      fence_holds_def note_attempt_def kv_set_def lease_json_def new_ticket_def Let_def)


section \<open>The hourly limit\<close>

definition recent :: "instant \<Rightarrow> instant list \<Rightarrow> nat" where
  "recent now ts = length (filter (\<lambda>u. now - 3600 \<le> u) ts)"

definition timeline :: "instant \<Rightarrow> instant list \<Rightarrow> bool" where
  "timeline now ts \<longleftrightarrow> sorted ts \<and> (\<forall>u\<in>set ts. u \<le> now)"

text \<open>What a step may spend: each ticket is an attempt in the record, and attempts stop at the cap.\<close>

definition within_budget :: "nat \<Rightarrow> instant \<Rightarrow> instant list \<Rightarrow> tick \<Rightarrow> instant list \<Rightarrow> tick \<Rightarrow> bool" where
  "within_budget cap now ts ti ts' ti' \<longleftrightarrow> timeline now ts'
     \<and> sends ti' + recent now ts \<le> sends ti + recent now ts' \<and> recent now ts' \<le> max cap (recent now ts)"

lemma within_budget_refl: "timeline now ts \<Longrightarrow> within_budget cap now ts ti ts ti"
  by (simp add: within_budget_def)

lemma within_budget_trans:
  "within_budget cap now ts ti ts1 ti1 \<Longrightarrow> within_budget cap now ts1 ti1 ts2 ti2 \<Longrightarrow> within_budget cap now ts ti ts2 ti2"
  by (auto simp: within_budget_def)

lemma still_leader_times [simp]: "still_leader cfg ou owner st = (r, st') \<Longrightarrow> wk_send_times (fst st') = wk_send_times (fst st)"
  by (auto simp: still_leader_def now_of_def split: prod.splits sum.splits option.splits if_splits)

lemma rival_step_times [simp]: "wk_send_times (fst (rival_step ou st)) = wk_send_times (fst st)"
  by (auto simp: rival_step_def split: prod.splits option.splits)

lemma sink_failed_times [simp]: "wk_send_times (fst (sink_failed cfg ou n now st)) = wk_send_times (fst st)"
  by (auto simp: sink_failed_def Let_def split: prod.splits)

lemma park_times [simp]: "wk_send_times (park c act ns old now nw wk) = wk_send_times wk"
  by (simp add: park_def)

lemma unpark_times [simp]: "wk_send_times (unpark fp wk) = wk_send_times wk"
  by (simp add: unpark_def)

lemma put_ticket_times: "put_ticket ou owner rec st = (r, st') \<Longrightarrow> wk_send_times (fst st') = wk_send_times (fst st)"
  by (auto simp: put_ticket_def now_of_def split: prod.splits sum.splits option.splits)

lemma send_loop_times: "send_loop cfg ou owner p now names acc st = (r, st') \<Longrightarrow> wk_send_times (fst st') = wk_send_times (fst st)"
proof (induction names arbitrary: acc st)
  case (Cons name names)
  obtain lr st1 where lead: "still_leader cfg ou owner st = (lr, st1)" by (metis surj_pair)
  have t1: "wk_send_times (fst st1) = wk_send_times (fst st)" using still_leader_times [OF lead] .
  show ?case
  proof (cases "lr = Inr True")
    case True
    obtain wk w ans w1 where e: "st1 = (wk, w)" "ou_upsert ou name p w = (ans, w1)" by (cases st1) fastforce
    obtain wk2 w2 where r: "rival_step ou (wk, w1) = (wk2, w2)" by fastforce
    have t2: "wk_send_times wk2 = wk_send_times wk" using rival_step_times [of ou "(wk, w1)"] r by simp
    show ?thesis
    proof (cases ans)
      case (Inl err)
      with Cons.prems lead True e Cons.IH show ?thesis using t1 by simp
    next
      case (Inr ok)
      with Cons.prems lead True e r have "\<exists>acc'. send_loop cfg ou owner p now names acc'
          (wk2\<lparr>wk_sink_state := AList.delete name (wk_sink_state wk2)\<rparr>, w2) = (r, st')"
        by (cases ok) auto
      with Cons.IH t1 t2 e show ?thesis by fastforce
    qed
  qed (use Cons.prems lead t1 in \<open>auto split: sum.splits bool.splits\<close>)
qed simp

lemma rate_ok_recent:
  assumes "timeline now (wk_send_times wk)" and "rate_ok cfg now wk = (ok, wk')"
  shows "timeline now (wk_send_times wk')" and "recent now (wk_send_times wk') = recent now (wk_send_times wk)"
    and "ok \<longleftrightarrow> int (recent now (wk_send_times wk)) < tc_max_tickets_per_hour cfg"
proof -
  have d: "dropWhile (\<lambda>t. t < now - 3600) ts = filter (\<lambda>u. now - 3600 \<le> u) ts" if "sorted ts" for ts :: "instant list"
    using that
  proof (induction ts)
    case (Cons t ts)
    show ?case
    proof (cases "t < now - 3600")
      case False
      with Cons.prems have "\<forall>u\<in>set ts. now - 3600 \<le> u" by auto
      with False show ?thesis by (simp add: filter_id_conv)
    qed (use Cons in auto)
  qed simp
  have s: "sorted (wk_send_times wk)" using assms(1) by (simp add: timeline_def)
  have t: "wk_send_times wk' = filter (\<lambda>u. now - 3600 \<le> u) (wk_send_times wk)"
    using assms(2) d [OF s] by (auto simp: rate_ok_def Let_def)
  show "timeline now (wk_send_times wk')" using assms(1) by (auto simp: timeline_def t intro: sorted_wrt_filter)
  show "recent now (wk_send_times wk') = recent now (wk_send_times wk)" by (simp add: recent_def t)
  show "ok \<longleftrightarrow> int (recent now (wk_send_times wk)) < tc_max_tickets_per_hour cfg"
    using assms(2) d [OF s] by (auto simp: rate_ok_def Let_def recent_def)
qed

lemma after_send_budget:
  assumes "after_send ou owner c old rec act targets ready p now s ti st = (r, ti', st')"
  shows "wk_send_times (fst st') = wk_send_times (fst st) @ [now] \<and> sends ti' \<le> Suc (sends ti)"
  using assms unfolding after_send_def Let_def
  by (auto simp: sends_def note_attempt_def dest!: put_ticket_times split: prod.splits sum.splits if_splits)

lemma deliver_budget:
  assumes "deliver cfg ou owner sinks c old rec act owed now ti st = (r, ti', st')"
    and tl: "timeline now (wk_send_times (fst st))"
  shows "within_budget (nat (tc_max_tickets_per_hour cfg)) now (wk_send_times (fst st)) ti (wk_send_times (fst st')) ti'"
  using assms(1)
proof (cases rule: deliver_cases)
  case (parked ok wk w)
  with rate_ok_recent [OF tl parked(1)] show ?thesis by (simp add: within_budget_def)
next
  case (aborted wk e ready)
  with rate_ok_recent [OF tl aborted(1)] send_loop_times show ?thesis
    unfolding send_def by (fastforce simp: within_budget_def)
next
  case (sent wk s st1 ready)
  note rt = rate_ok_recent [OF tl sent(1)]
  have "wk_send_times (fst st1) = wk_send_times wk"
    using send_loop_times sent(2) unfolding send_def by fastforce
  with after_send_budget [OF sent(3)] have a: "wk_send_times (fst st') = wk_send_times wk @ [now]"
    "sends ti' \<le> Suc (sends ti)" by simp_all
  have tl': "timeline now (wk_send_times (fst st'))" using rt(1) by (auto simp: a timeline_def sorted_append)
  have "recent now (wk_send_times (fst st')) = Suc (recent now (wk_send_times (fst st)))"
    using rt(2) by (simp add: a recent_def)
  moreover have "recent now (wk_send_times (fst st)) < nat (tc_max_tickets_per_hour cfg)"
    using rt(3) by (simp add: zless_nat_eq_int_zless)
  ultimately show ?thesis using a tl' by (auto simp: within_budget_def)
qed

lemma handle_budget:
  assumes "handle cfg ou owner sinks c old orphan now ti st = (r, ti', st')"
    and "timeline now (wk_send_times (fst st))"
  shows "within_budget (nat (tc_max_tickets_per_hour cfg)) now (wk_send_times (fst st)) ti (wk_send_times (fst st')) ti'"
proof (cases "\<exists>rec act owed. deliver cfg ou owner sinks c old rec act owed now ti st = (r, ti', st')")
  case True
  then show ?thesis using deliver_budget assms(2) by blast
next
  case False
  with assms show ?thesis
    unfolding handle_def Let_def
    by (auto simp: within_budget_def sends_def dest: put_ticket_times
        split: if_splits decision.splits prod.splits sum.splits option.splits)
qed

text \<open>
  C5: the hourly ticket limit. However many incidents a tick handles, whether it completes or aborts, the
  tickets it opens or updates, added to the attempts already recorded in the last hour, stay within
  \<open>max_tickets_per_hour\<close> (unless a lowered limit was already exceeded, and then it sends none).
\<close>

theorem hourly_limit:
  assumes "handle_all cfg ou owner sinks now items ti st = (r, ti', st')"
    and "timeline now (wk_send_times (fst st))"
  shows "sends ti' + recent now (wk_send_times (fst st)) \<le> sends ti + recent now (wk_send_times (fst st'))
     \<and> recent now (wk_send_times (fst st')) \<le> max (nat (tc_max_tickets_per_hour cfg)) (recent now (wk_send_times (fst st)))"
proof -
  have "within_budget (nat (tc_max_tickets_per_hour cfg)) now (wk_send_times (fst st)) ti (wk_send_times (fst st')) ti'"
    using assms
  proof (induction items arbitrary: ti st)
    case Nil
    then show ?case by (simp add: within_budget_refl)
  next
    case (Cons item items)
    obtain c old orphan where i: "item = (c, old, orphan)" by (cases item)
    obtain lr st1 where lead: "still_leader cfg ou owner st = (lr, st1)" by (metis surj_pair)
    note t1 = still_leader_times [OF lead]
    show ?case
    proof (cases "lr = Inr True")
      case False
      then have "ti' = ti \<and> st' = st1" using Cons.prems(1) lead i by (auto split: sum.splits bool.splits)
      then show ?thesis using t1 Cons.prems(2) by (simp add: within_budget_refl)
    next
      case True
      obtain r1 ti1 st2 where h: "handle cfg ou owner sinks c old orphan now ti st1 = (r1, ti1, st2)"
        by (metis surj_pair)
      have b: "within_budget (nat (tc_max_tickets_per_hour cfg)) now (wk_send_times (fst st)) ti (wk_send_times (fst st2)) ti1"
        using handle_budget [OF h] t1 Cons.prems(2) by simp
      show ?thesis
      proof (cases r1)
        case (Inl e)
        then show ?thesis using Cons.prems(1) lead i True h b by simp
      next
        case (Inr u)
        then have "handle_all cfg ou owner sinks now items ti1 st2 = (r, ti', st')"
          using Cons.prems(1) lead i True h by simp
        from Cons.IH [OF this] b show ?thesis
          by (metis within_budget_trans within_budget_def)
      qed
    qed
  qed
  then show ?thesis by (simp add: within_budget_def)
qed

theorem hourly_limit_witness:
  "\<exists>r ti' st'. handle_all default_config demo_outside ''A'' [''jira'', ''dry-run''] 100
        [(demo_cand, None, False), (demo_cand\<lparr>cd_fingerprint := ''G''\<rparr>, None, False)] (new_tick 100)
        (new_worker empty_db, ()) = (r, ti', st')
     \<and> sends ti' \<le> recent 100 (wk_send_times (fst st')) \<and> recent 100 (wk_send_times (fst st')) \<le> 30"
proof -
  let ?items = "[(demo_cand, None, False), (demo_cand\<lparr>cd_fingerprint := ''G''\<rparr>, None, False)]"
  obtain r ti' st' where h: "handle_all default_config demo_outside ''A'' [''jira'', ''dry-run''] 100 ?items
      (new_tick 100) (new_worker empty_db, ()) = (r, ti', st')" by (metis surj_pair)
  have "timeline 100 (wk_send_times (fst (new_worker empty_db, ())))" by (simp add: timeline_def new_worker_def)
  from hourly_limit [OF h this] h show ?thesis
    by (simp add: sends_def new_tick_def recent_def new_worker_def default_config_def)
qed

section \<open>An aborted tick\<close>

text \<open>The persisted read position of a source.\<close>

definition cursor_row :: "string \<Rightarrow> state_db \<Rightarrow> json option option" where
  "cursor_row src db = kv_lookup ''triage'' (''cursor:'' @ src) db"

lemma cursor_row_kv_set [simp]:
  "(ns, k) \<noteq> (''triage'', ''cursor:'' @ src) \<Longrightarrow> cursor_row src (kv_set ns k v now db) = cursor_row src db"
  by (auto simp: cursor_row_def)

lemma cursor_row_kv_delete [simp]:
  "ns \<noteq> ''triage'' \<Longrightarrow> cursor_row src (kv_delete ns k db) = cursor_row src db"
  by (auto simp: cursor_row_def)

lemma cursor_row_tickets [simp]: "cursor_row src (db\<lparr>db_tickets := t\<rparr>) = cursor_row src db"
  by (simp add: cursor_row_def kv_lookup_def)

lemma lease_acquire_cursor: "lease_acquire n owner ttl now db = Inr (ok, db') \<Longrightarrow> cursor_row src db' = cursor_row src db"
  by (auto simp: lease_acquire_def Let_def split: option.splits sum.splits if_splits prod.splits)

lemma still_leader_cursor:
  "still_leader cfg ou owner st = (r, st') \<Longrightarrow> cursor_row src (wk_db (fst st')) = cursor_row src (wk_db (fst st))"
  by (auto simp: still_leader_def now_of_def dest: lease_acquire_cursor
      split: prod.splits sum.splits option.splits if_splits)

lemma rival_step_cursor [simp]: "cursor_row src (wk_db (fst (rival_step ou st))) = cursor_row src (wk_db (fst st))"
  by (auto simp: rival_step_def split: prod.splits option.splits)

lemma sink_failed_cursor [simp]: "wk_db (fst (sink_failed cfg ou n now st)) = wk_db (fst st)"
  by (auto simp: sink_failed_def Let_def split: prod.splits)

lemma park_cursor [simp]: "cursor_row src (wk_db (park c act ns old now nw wk)) = cursor_row src (wk_db wk)"
  by (simp add: park_def)

lemma unpark_cursor [simp]: "cursor_row src (wk_db (unpark fp wk)) = cursor_row src (wk_db wk)"
  by (simp add: unpark_def)

lemma note_attempt_cursor [simp]: "cursor_row src (wk_db (note_attempt now wk)) = cursor_row src (wk_db wk)"
  by (simp add: note_attempt_def Let_def)

lemma put_ticket_cursor:
  "put_ticket ou owner rec st = (r, st') \<Longrightarrow> cursor_row src (wk_db (fst st')) = cursor_row src (wk_db (fst st))"
  by (auto simp: put_ticket_def now_of_def triage_put_def split: prod.splits sum.splits option.splits)

lemma send_loop_cursor:
  "send_loop cfg ou owner p now names acc st = (r, st') \<Longrightarrow> cursor_row src (wk_db (fst st')) = cursor_row src (wk_db (fst st))"
proof (induction names arbitrary: acc st)
  case (Cons name names)
  obtain lr st1 where lead: "still_leader cfg ou owner st = (lr, st1)" by (metis surj_pair)
  have t1: "cursor_row src (wk_db (fst st1)) = cursor_row src (wk_db (fst st))" by (rule still_leader_cursor [OF lead])
  show ?case
  proof (cases "lr = Inr True")
    case True
    obtain wk w ans w1 where e: "st1 = (wk, w)" "ou_upsert ou name p w = (ans, w1)" by (cases st1) fastforce
    obtain wk2 w2 where r: "rival_step ou (wk, w1) = (wk2, w2)" by fastforce
    have t2: "cursor_row src (wk_db wk2) = cursor_row src (wk_db wk)" using rival_step_cursor [of src ou "(wk, w1)"] r by simp
    show ?thesis
    proof (cases ans)
      case (Inl err)
      with Cons.prems lead True e Cons.IH show ?thesis using t1 by simp
    next
      case (Inr ok)
      with Cons.prems lead True e r have "\<exists>acc'. send_loop cfg ou owner p now names acc'
          (wk2\<lparr>wk_sink_state := AList.delete name (wk_sink_state wk2)\<rparr>, w2) = (r, st')"
        by (cases ok) auto
      with Cons.IH t1 t2 e show ?thesis by fastforce
    qed
  qed (use Cons.prems lead t1 in \<open>auto split: sum.splits bool.splits\<close>)
qed simp

lemma after_send_cursor:
  "after_send ou owner c old rec act targets ready p now s ti st = (r, ti', st') \<Longrightarrow>
     cursor_row src (wk_db (fst st')) = cursor_row src (wk_db (fst st))"
  unfolding after_send_def Let_def
  by (auto dest!: put_ticket_cursor [where src = src] split: prod.splits sum.splits if_splits)

lemma rate_ok_db: "rate_ok cfg now wk = (ok, wk') \<Longrightarrow> wk_db wk' = wk_db wk"
  by (auto simp: rate_ok_def Let_def)

lemma deliver_cursor:
  assumes "deliver cfg ou owner sinks c old rec act owed now ti st = (r, ti', st')"
  shows "cursor_row src (wk_db (fst st')) = cursor_row src (wk_db (fst st))"
  using assms
proof (cases rule: deliver_cases)
  case (parked ok wk w)
  then show ?thesis by (simp add: rate_ok_db)
next
  case (aborted wk e ready)
  then show ?thesis using send_loop_cursor [OF aborted(4) [unfolded send_def], of src] by (simp add: rate_ok_db)
next
  case (sent wk s st1 ready)
  then show ?thesis
    using send_loop_cursor [OF sent(2) [unfolded send_def], of src] after_send_cursor [OF sent(3), of src]
    by (simp add: rate_ok_db)
qed

lemma handle_cursor:
  assumes "handle cfg ou owner sinks c old orphan now ti st = (r, ti', st')"
  shows "cursor_row src (wk_db (fst st')) = cursor_row src (wk_db (fst st))"
proof (cases "\<exists>rec act owed. deliver cfg ou owner sinks c old rec act owed now ti st = (r, ti', st')")
  case True
  then show ?thesis using deliver_cursor by blast
next
  case False
  with assms show ?thesis
    unfolding handle_def Let_def
    by (auto dest: put_ticket_cursor [where src = src]
        split: if_splits decision.splits prod.splits sum.splits option.splits)
qed

lemma handle_all_cursor:
  "handle_all cfg ou owner sinks now items ti st = (r, ti', st') \<Longrightarrow>
     cursor_row src (wk_db (fst st')) = cursor_row src (wk_db (fst st))"
proof (induction items arbitrary: ti st)
  case (Cons item items)
  obtain c old orphan where i: "item = (c, old, orphan)" by (cases item)
  obtain lr st1 where lead: "still_leader cfg ou owner st = (lr, st1)" by (metis surj_pair)
  note t1 = still_leader_cursor [OF lead, of src]
  obtain r1 ti1 st2 where h: "handle cfg ou owner sinks c old orphan now ti st1 = (r1, ti1, st2)" by (metis surj_pair)
  note t2 = handle_cursor [OF h, of src]
  show ?case
  proof (cases "lr = Inr True")
    case False
    then have "st' = st1" using Cons.prems lead i by (auto split: sum.splits bool.splits)
    then show ?thesis using t1 by simp
  next
    case True
    then show ?thesis using Cons.prems lead i h t1 t2 Cons.IH by (cases r1) auto
  qed
qed simp

text \<open>Reading the spool changes only the worker, never the database.\<close>

lemma bump_seen_db [simp]: "wk_db (bump_seen i t wk) = wk_db wk"
  by (simp add: bump_seen_def split: option.split)

lemma count_total_db [simp]: "wk_db (count_total k n wk) = wk_db wk"
  by (simp add: count_total_def)

lemma admit_row_db: "wk_db (fst (admit_row cfg parse src hz row st)) = wk_db (fst st)"
  by (auto simp: admit_row_def Let_def split: prod.split option.split)

lemma window_row_db: "wk_db (fst (window_row classify x st)) = wk_db (fst st)"
  by (auto simp: window_row_def Let_def split: prod.split option.split)

lemma process_rows_db: "process_rows cfg parse classify src hz rows wk = (wk', n) \<Longrightarrow> wk_db wk' = wk_db wk"
proof -
  have a: "wk_db (fst (fold (admit_row cfg parse src hz) rows st)) = wk_db (fst st)" for st
    by (induction rows arbitrary: st) (simp_all add: admit_row_db)
  have b: "wk_db (fst (fold (window_row classify) xs st)) = wk_db (fst st)" for xs st
    by (induction xs arbitrary: st) (simp_all add: window_row_db)
  assume "process_rows cfg parse classify src hz rows wk = (wk', n)"
  then show ?thesis
    using a [of "(wk, [])"] b unfolding process_rows_def by (auto split: prod.splits) (metis fst_conv)
qed

lemma warm_db [simp]: "wk_db (warm cfg parse classify src c hz wk) = wk_db wk"
  by (auto simp: warm_def Let_def dest: process_rows_db split: prod.split)

lemma drain_loop_keeps:
  assumes "drain_loop read ident batch late step fuel c s = Some (s', stop, c')"
    and "\<And>rows s. f (step rows s) = f s" and "\<And>s. f (snd (late s)) = f s"
  shows "f s' = f s"
  using assms(1)
proof (induction fuel arbitrary: c s)
  case (Suc fuel)
  obtain b s2 where l: "late (step (read c) s) = (b, s2)" by fastforce
  have "f s2 = f s" using assms(2) assms(3) [of "step (read c) s"] l by simp
  with Suc l assms(2) show ?case by (auto simp: Let_def split: if_splits)
qed simp

lemma take_batch_db [simp]: "wk_db (fst (take_batch cfg ou hz src rows st)) = wk_db (fst st)"
  by (auto simp: take_batch_def set_cursor_pending_def dest: process_rows_db split: prod.split)

lemma past_deadline_db [simp]: "wk_db (fst (snd (past_deadline ou dl st))) = wk_db (fst st)"
  by (auto simp: past_deadline_def split: prod.split)

lemma note_gap_db [simp]: "wk_db (note_gap src l s wk) = wk_db wk"
  by (simp add: note_gap_def)

lemma warm_once_db [simp]: "wk_db (warm_once cfg ou hz src c wk) = wk_db wk"
  by (simp add: warm_once_def Let_def)

lemma ingest_source_db:
  assumes "ingest_source cfg ou kvs hz dl src (st, fresh, b, g) = Inr (st', r)"
  shows "wk_db (fst st') = wk_db (fst st)"
proof -
  obtain wk w where st: "st = (wk, w)" by (cases st)
  obtain c sl wk2 w2 n stop c' where d: "drain_loop (\<lambda>c. spool_read src c (nat (max 1 (tc_batch cfg)))
        (wk_db (warm_once cfg ou hz src c (note_gap src (snd (spool_gap src (wk_db wk))) sl wk)))) sp_id
        (nat (max 1 (tc_batch cfg))) (past_deadline ou dl) (take_batch cfg ou hz src)
        (Suc (length (db_spool (wk_db (warm_once cfg ou hz src c (note_gap src (snd (spool_gap src (wk_db wk))) sl wk))))))
        c (warm_once cfg ou hz src c (note_gap src (snd (spool_gap src (wk_db wk))) sl wk), w, fresh)
        = Some ((wk2, w2, n), stop, c')" and st': "fst st' = wk2"
    using assms unfolding ingest_source_def Let_def st by (force split: sum.splits option.splits prod.splits)
  have "wk_db (fst (wk2, w2, n)) = wk_db (fst (warm_once cfg ou hz src c
      (note_gap src (snd (spool_gap src (wk_db wk))) sl wk), w, fresh))"
    by (rule drain_loop_keeps [OF d, where f = "\<lambda>x. wk_db (fst x)"]) simp_all
  then show ?thesis by (simp add: st st')
qed

lemma ingest_sources_db:
  "ingest_sources cfg ou kvs hz dl ss (st, fresh, b, g) = Inr (st', r) \<Longrightarrow> wk_db (fst st') = wk_db (fst st)"
proof (induction ss arbitrary: st fresh b g)
  case (Cons s ss)
  then obtain st1 f1 b1 g1 where i: "ingest_source cfg ou kvs hz dl s (st, fresh, b, g) = Inr (st1, f1, b1, g1)"
    and "ingest_sources cfg ou kvs hz dl ss (st1, f1, b1, g1) = Inr (st', r)"
    by (auto split: sum.splits)
  with Cons.IH ingest_source_db [OF i] show ?case by simp
qed simp

lemma ingest_db: "ingest cfg ou now dl st = Inr (st', r) \<Longrightarrow> wk_db (fst st') = wk_db (fst st)"
  unfolding ingest_def Let_def expire_recent_def
  by (auto dest: ingest_sources_db split: sum.splits prod.splits)

lemma keep_pending_cursor: "cursor_row src (wk_db (fst (keep_pending cfg names now x acc))) = cursor_row src (wk_db (fst acc))"
  by (auto simp: keep_pending_def Let_def split: prod.split option.split)

lemma fold_keep_pending_cursor:
  "cursor_row src (wk_db (fst (fold (keep_pending cfg names now) xs acc))) = cursor_row src (wk_db (fst acc))"
  by (induction xs arbitrary: acc) (simp_all add: keep_pending_cursor)

lemma run_active_cursor:
  assumes "run_active cfg ou owner sinks now ti st = (Inl e, ti', st')"
  shows "cursor_row src (wk_db (fst st')) = cursor_row src (wk_db (fst st))"
proof -
  obtain m w0 where m: "ou_monotonic ou (snd st) = (m, w0)" by fastforce
  show ?thesis
  proof (cases "ingest cfg ou now (m + tc_tick_budget_s cfg) (fst st, w0)")
    case (Inl e')
    then show ?thesis using assms m by (auto simp: run_active_def)
  next
    case (Inr x)
    obtain wk w fresh b g where x: "x = ((wk, w), fresh, b, g)" by (cases x) auto
    have d: "wk_db wk = wk_db (fst st)" using ingest_db [OF Inr [unfolded x]] by simp
    obtain wk1 pending where k: "fold (keep_pending cfg sinks now) (kv_get_all ''triage_pending'' (wk_db wk)) (wk, []) = (wk1, pending)"
      by fastforce
    have c1: "cursor_row src (wk_db wk1) = cursor_row src (wk_db wk)"
      using fold_keep_pending_cursor [of src cfg sinks now _ "(wk, [])"] k by (metis fst_conv)
    obtain items ti1 where "handle_all cfg ou owner sinks now items ti1 (wk1, w) = (Inl e, ti', st')"
      using assms m Inr x k unfolding run_active_def Let_def by (auto split: prod.splits sum.splits)
    from handle_all_cursor [OF this, of src] c1 d show ?thesis by simp
  qed
qed

lemma after_send_aborted:
  "after_send ou owner c old rec act targets ready p now s ti st = (r, ti', st') \<Longrightarrow> ti_aborted ti' = ti_aborted ti"
  unfolding after_send_def Let_def by (auto split: prod.splits sum.splits if_splits)

lemma handle_aborted:
  assumes "handle cfg ou owner sinks c old orphan now ti st = (r, ti', st')"
  shows "ti_aborted ti' = ti_aborted ti"
proof (cases "\<exists>rec act owed. deliver cfg ou owner sinks c old rec act owed now ti st = (r, ti', st')")
  case True
  then obtain rec act owed where "deliver cfg ou owner sinks c old rec act owed now ti st = (r, ti', st')" by blast
  then show ?thesis by (cases rule: deliver_cases) (auto dest: after_send_aborted)
next
  case False
  with assms show ?thesis
    unfolding handle_def Let_def by (auto split: if_splits decision.splits prod.splits sum.splits option.splits)
qed

lemma handle_all_aborted:
  "handle_all cfg ou owner sinks now items ti st = (r, ti', st') \<Longrightarrow> ti_aborted ti' = ti_aborted ti"
proof (induction items arbitrary: ti st)
  case (Cons item items)
  obtain c old orphan where i: "item = (c, old, orphan)" by (cases item)
  obtain lr st1 where lead: "still_leader cfg ou owner st = (lr, st1)" by (metis surj_pair)
  obtain r1 ti1 st2 where h: "handle cfg ou owner sinks c old orphan now ti st1 = (r1, ti1, st2)" by (metis surj_pair)
  show ?case
  proof (cases "lr = Inr True")
    case False
    then show ?thesis using Cons.prems lead i by (auto split: sum.splits bool.splits)
  next
    case True
    then show ?thesis using Cons.prems lead i h handle_aborted [OF h] Cons.IH by (cases r1) auto
  qed
qed simp

lemma run_active_completed:
  assumes "run_active cfg ou owner sinks now ti st = (Inr u, ti', st')"
  shows "ti_aborted ti' = ti_aborted ti"
  using assms unfolding run_active_def Let_def
  by (auto dest: handle_all_aborted split: prod.splits sum.splits if_splits)

text \<open>
  C4: an aborted tick skips nothing. When the lease is lost in the middle of a tick, whatever it had
  read, delivered or parked by then, the persisted read position of every source is what it was before
  the tick, so the next leader reads the same rows again.
\<close>

theorem abort_keeps_cursors:
  assumes "run_once cfg ou owner sinks given st = (Inr ti, st')" and "ti_aborted ti"
  shows "cursor_row src (wk_db (fst st')) = cursor_row src (wk_db (fst st))"
proof -
  obtain now wk w where n: "now_of ou ((fst st)\<lparr>wk_explicit_now := given\<rparr>, snd st) = (now, (wk, w))"
    by (metis surj_pair)
  then have d0: "wk_db wk = wk_db (fst st)" by (auto simp: now_of_def split: option.splits prod.splits)
  obtain ok db where l: "lease_acquire triage_lease owner (tc_lease_ttl_s cfg) now (wk_db wk) = Inr (ok, db)"
    using assms(1) n by (auto simp: run_once_def split: sum.splits)
  note dl = lease_acquire_cursor [OF l, of src]
  have okT: "ok" using assms n l by (cases ok) (auto simp: run_once_def new_tick_def)
  let ?wk = "wk\<lparr>wk_db := db, wk_role := ''active'', wk_last_renew := now\<rparr>"
  obtain wk1 where ld: "load_state ?wk = Inr wk1" using assms(1) n l okT by (auto simp: run_once_def split: sum.splits)
  have d1: "wk_db wk1 = db" using ld by (auto simp: load_state_def split: if_splits sum.splits)
  obtain r ti0 wk2 w2 where ra: "run_active cfg ou owner sinks now (new_tick now) (wk1, w) = (r, ti0, (wk2, w2))"
    by (metis surj_pair)
  obtain e where e: "r = Inl e"
  proof (cases r)
    case (Inr u)
    then have "ti_aborted ti = ti_aborted ti0"
      using assms(1) n l okT ld ra by (auto simp: run_once_def finish_tick_def)
    with run_active_completed [OF ra [unfolded Inr]] assms(2) show ?thesis by (simp add: new_tick_def)
  qed
  have "cursor_row src (wk_db wk2) = cursor_row src (wk_db (fst st))"
    using run_active_cursor [OF ra [unfolded e], of src] d1 dl d0 by simp
  moreover have "wk_db (fst st') = wk_db wk2"
    using assms(1) n l okT ld ra e
    by (auto simp: run_once_def finish_tick_def reset_active_state_def split: if_splits)
  ultimately show ?thesis by simp
qed

text \<open>A parked incident read back from the database is the one that was parked.\<close>

lemma as_strs_json [simp]: "as_strs (strs_json xs) = Some xs"
  unfolding strs_json_def by (induction xs) auto

lemma cand_json_roundtrip [simp]: "cand_of_json (cand_json c) = Some c"
  unfolding cand_of_json_def cand_json_def json_field_def Let_def
  by (cases c; cases "cd_interface c") (auto simp del: as_strs.simps)

lemma pend_json_roundtrip [simp]: "pend_of_json (pend_json p) = Some p"
  unfolding pend_of_json_def pend_json_def json_field_def by (cases p) (simp del: as_strs.simps)

text \<open>The demo with a rival that takes the lease while the first delivery is under way.\<close>

definition rival_outside :: "unit outside" where
  "rival_outside = demo_outside\<lparr>ou_rival := (\<lambda>w. (Some (''B'', 400), w))\<rparr>"

definition demo_pending :: pend where
  "demo_pending = \<lparr>pd_cand = demo_cand, pd_action = ''open'', pd_sinks = [''dry-run'', ''jira''], pd_since = 60,
     pd_attempts = 1, pd_nowhere = True\<rparr>"

definition demo_db :: state_db where
  "demo_db = kv_set ''triage'' ''cursor:syslog'' (JInt 7) 60
     (kv_set ''triage_pending'' ''F'' (pend_json demo_pending) 60 empty_db)"

definition demo_leader :: worker where
  "demo_leader = (new_worker (kv_set ''lease'' triage_lease (lease_json ''A'' 160) 100 demo_db))
     \<lparr>wk_explicit_now := Some 100, wk_role := ''active'', wk_last_renew := 100, wk_state_loaded := True\<rparr>"

lemma demo_ingest:
  "ingest default_config rival_outside 100 10 (demo_leader, ()) = Inr ((demo_leader, ()), 0, False, 0)"
  by (simp add: ingest_def sources_of_def spool_sources_def meta_by_source_def default_config_def demo_leader_def
      new_worker_def demo_db_def kv_set_def expire_recent_def Let_def)

lemma demo_kept:
  "fold (keep_pending default_config [''jira'', ''dry-run''] 100)
     (kv_get_all ''triage_pending'' (wk_db demo_leader)) (demo_leader, []) = (demo_leader, [(''F'', demo_pending)])"
proof -
  have "kv_get_all ''triage_pending'' (wk_db demo_leader) = [(''F'', pend_json demo_pending)]"
    by (simp add: kv_get_all_def demo_leader_def new_worker_def demo_db_def kv_set_def)
  then show ?thesis
    by (simp add: keep_pending_def demo_pending_def default_config_def Let_def)
qed

lemma demo_handle_all:
  "fst (handle_all default_config rival_outside ''A'' [''jira'', ''dry-run''] 100 [(demo_cand, Some demo_pending, True)]
     ti (demo_leader, ())) = Inl Lease_Lost"
  by (simp add: handle_def deliver_def demo_cand_def rival_outside_def demo_outside_def default_config_def
      demo_leader_def new_worker_def demo_pending_def demo_db_def triage_get_def rate_ok_def sink_ready_def
      outgoing_def send_def still_leader_def now_of_def lease_valid_def kv_lookup_def rival_step_def
      sink_failed_def kv_set_def lease_json_def lease_fields_def Let_def)

lemma demo_run_active:
  "fst (run_active default_config rival_outside ''A'' [''jira'', ''dry-run''] 100 (new_tick 100) (demo_leader, ()))
     = Inl Lease_Lost"
proof -
  have m: "ou_monotonic rival_outside () = (0, ())" "0 + tc_tick_budget_s default_config = 10"
    by (simp_all add: rival_outside_def demo_outside_def default_config_def)
  have w: "work_items [] [(''F'', demo_pending)] = [(demo_cand, Some demo_pending, True)]"
    by (simp add: work_items_def demo_pending_def)
  let ?ti = "(new_tick 100)\<lparr>ti_new_events := 0, ti_backlog := False, ti_gap_rows := 0,
      ti_window_events := length (wk_window demo_leader)\<rparr>"
  obtain ti2 st2 where h: "handle_all default_config rival_outside ''A'' [''jira'', ''dry-run''] 100
      [(demo_cand, Some demo_pending, True)] ?ti (demo_leader, ()) = (Inl Lease_Lost, ti2, st2)"
    using demo_handle_all [of ?ti] by (metis prod.exhaust fst_conv)
  show ?thesis
    unfolding run_active_def snd_conv fst_conv m prod.case demo_ingest sum.case Let_def demo_kept
    by (simp add: w h del: handle_all.simps)
qed

lemma demo_abort:
  "\<exists>ti st'. run_once default_config rival_outside ''A'' [''jira'', ''dry-run''] (Some 100) (new_worker demo_db, ())
     = (Inr ti, st') \<and> ti_aborted ti"
proof -
  let ?w = "(new_worker demo_db)\<lparr>wk_explicit_now := Some 100\<rparr>"
  have n: "now_of rival_outside (?w, ()) = (100, (?w, ()))" by (simp add: now_of_def)
  have l: "lease_acquire triage_lease ''A'' (tc_lease_ttl_s default_config) 100 (wk_db ?w)
      = Inr (True, kv_set ''lease'' triage_lease (lease_json ''A'' 160) 100 demo_db)"
    by (simp add: lease_acquire_def kv_lookup_def demo_db_def kv_set_def default_config_def new_worker_def)
  have ld: "load_state (?w\<lparr>wk_db := kv_set ''lease'' triage_lease (lease_json ''A'' 160) 100 demo_db,
      wk_role := ''active'', wk_last_renew := 100\<rparr>) = Inr demo_leader"
    by (simp add: load_state_def new_worker_def kv_get_all_def demo_db_def kv_set_def demo_leader_def)
  obtain ti wk w where r: "run_active default_config rival_outside ''A'' [''jira'', ''dry-run''] 100 (new_tick 100)
      (demo_leader, ()) = (Inl Lease_Lost, ti, (wk, w))"
    using demo_run_active by (metis prod.exhaust fst_conv)
  show ?thesis
    unfolding run_once_def Let_def fst_conv snd_conv n prod.case l sum.case bool.case ld r
    by (simp add: finish_tick_def)
qed

theorem abort_keeps_cursors_witness:
  "\<exists>ti st'. run_once default_config rival_outside ''A'' [''jira'', ''dry-run''] (Some 100) (new_worker demo_db, ())
     = (Inr ti, st') \<and> cursor_row ''syslog'' (wk_db (fst st')) = Some (Some (JInt 7))"
proof -
  obtain ti st' where r: "run_once default_config rival_outside ''A'' [''jira'', ''dry-run''] (Some 100)
      (new_worker demo_db, ()) = (Inr ti, st')" "ti_aborted ti" using demo_abort by blast
  have "cursor_row ''syslog'' (wk_db (fst (new_worker demo_db, ()))) = Some (Some (JInt 7))"
    by (simp add: cursor_row_def demo_db_def new_worker_def)
  with abort_keeps_cursors [OF r, of "''syslog''"] r show ?thesis by auto
qed

end
