(* ===== verification/Ip_Address.thy ===== *)
theory Ip_Address
  imports Netlog_Prelude "HOL-Library.Word"
begin

unbundle bit_operations_syntax

text \<open>
  IP addresses as the program reads them: \<open>ipaddress.ip_address\<close> on IPv4 text, \<open>valid_ip\<close>
  (\<open>parsers/entities.py\<close>), \<open>short_host\<close> (\<open>hostnames.py\<close>) and \<open>_p2p_far_end\<close> (\<open>suppression.py\<close>).
  An IPv4 address is a 32-bit word. The IPv6 half of the standard library is the argument \<open>ip6\<close>: the
  canonical text of an IPv6 literal and the IPv4 address mapped into it, if any.
\<close>

type_synonym ip6 = "string \<Rightarrow> (string \<times> 32 word option) option"

section \<open>Dotted quads\<close>

text \<open>One octet: one to three ASCII digits, no leading zero, at most 255.\<close>

definition parse_octet :: "string \<Rightarrow> nat option" where
  "parse_octet s =
     (if s = [] \<or> length s > 3 \<or> \<not> list_all is_digit s \<or> (hd s = CHR ''0'' \<and> length s > 1) then None
      else let n = digits_value 0 s in if n > 255 then None else Some n)"

definition quad :: "nat \<Rightarrow> nat \<Rightarrow> nat \<Rightarrow> nat \<Rightarrow> 32 word" where
  "quad a b c d = of_nat (((a * 256 + b) * 256 + c) * 256 + d)"

definition parse_v4 :: "string \<Rightarrow> 32 word option" where
  "parse_v4 s =
     (case split_on (CHR ''.'') s of
        [a, b, c, d] \<Rightarrow>
          (case (parse_octet a, parse_octet b, parse_octet c, parse_octet d) of
             (Some a, Some b, Some c, Some d) \<Rightarrow> Some (quad a b c d)
           | _ \<Rightarrow> None)
      | _ \<Rightarrow> None)"

definition show_v4 :: "32 word \<Rightarrow> string" where
  "show_v4 w =
     (let n = unat w
      in join_with ''.'' [show_nat (n div 256 ^ 3), show_nat (n div 256 ^ 2 mod 256), show_nat (n div 256 mod 256),
                          show_nat (n mod 256)])"

definition strip_chars :: "string \<Rightarrow> string \<Rightarrow> string" where
  "strip_chars cs s = rev (dropWhile (\<lambda>c. c \<in> set cs) (rev (dropWhile (\<lambda>c. c \<in> set cs) s)))"

definition valid_ip :: "ip6 \<Rightarrow> string \<Rightarrow> string" where
  "valid_ip ip6 text =
     (if text = [] then []
      else let s = strip_chars ''[](),;'' (strip text)
           in case parse_v4 s of
                Some w \<Rightarrow> show_v4 w
              | None \<Rightarrow> (case ip6 s of
                           None \<Rightarrow> []
                         | Some (canon, None) \<Rightarrow> canon
                         | Some (_, Some w) \<Rightarrow> show_v4 w))"

definition is_ip_literal :: "ip6 \<Rightarrow> string \<Rightarrow> bool" where
  "is_ip_literal ip6 host = (let s = strip_chars ''[]'' (strip host) in parse_v4 s \<noteq> None \<or> ip6 s \<noteq> None)"

definition short_host :: "ip6 \<Rightarrow> bool \<Rightarrow> string \<Rightarrow> string" where
  "short_host ip6 fold_case hostname =
     (let host = strip hostname
      in if host = [] then []
         else let host = (if is_ip_literal ip6 host then host else hd (split_on (CHR ''.'') host))
              in if fold_case then lower host else host)"

text \<open>The other usable address of the /30, or the partner in the /31.\<close>

definition far_end :: "32 word \<Rightarrow> 32 word" where
  "far_end n = (if n AND 3 = 1 \<or> n AND 3 = 2 then n XOR 3 else n XOR 1)"

definition p2p_far_end :: "string \<Rightarrow> string" where
  "p2p_far_end ip = (case parse_v4 ip of None \<Rightarrow> [] | Some n \<Rightarrow> show_v4 (far_end n))"

text \<open>\<open>ip_network(f"{ip}/{plen}", strict=False)\<close> for the prefix lengths 30 and 31, as text.\<close>

definition network_text :: "nat \<Rightarrow> 32 word \<Rightarrow> string" where
  "network_text plen w = show_v4 (if plen = 31 then w AND NOT 1 else w AND NOT 3) @ ''/'' @ show_nat plen"

section \<open>Decimal text\<close>

lemma of_char_digit [simp]: "(n :: nat) < 10 \<Longrightarrow> (of_char (char_of (48 + n) :: char) :: nat) = 48 + n"
  by (simp add: of_char_of)

lemma show_nat_small: "n < 10 \<Longrightarrow> show_nat n = [char_of (48 + n)]"
  by (subst show_nat.simps) simp

lemma show_nat_step: "\<not> n < 10 \<Longrightarrow> show_nat n = show_nat (n div 10) @ [char_of (48 + n mod 10)]"
  by (subst show_nat.simps) simp

lemma digits_value_append:
  "digits_value a (xs @ [c]) = 10 * digits_value a xs + (of_char c - 48)"
  by (induction xs arbitrary: a) simp_all

lemma digits_value_show [simp]: "digits_value 0 (show_nat n) = n"
proof (induction n rule: less_induct)
  case (less n)
  show ?case
  proof (cases "n < 10")
    case False
    then have "digits_value 0 (show_nat (n div 10)) = n div 10" by (intro less) simp
    then show ?thesis unfolding show_nat_step [OF False] digits_value_append by simp
  qed (simp add: show_nat_small)
qed

lemma is_digit_char [simp]: "(n :: nat) < 10 \<Longrightarrow> is_digit (char_of (48 + n))"
  by (simp add: is_digit_def Let_def)

lemma show_nat_digits [simp]: "list_all is_digit (show_nat n)"
proof (induction n rule: less_induct)
  case (less n)
  show ?case
  proof (cases "n < 10")
    case False
    then have "list_all is_digit (show_nat (n div 10))" by (intro less) simp
    then show ?thesis unfolding show_nat_step [OF False] by simp
  qed (simp add: show_nat_small)
qed

lemma show_nat_not_Nil [simp]: "show_nat n \<noteq> []"
  by (subst show_nat.simps) simp

lemma show_nat_hd: "0 < n \<Longrightarrow> hd (show_nat n) \<noteq> CHR ''0''"
proof (induction n rule: less_induct)
  case (less n)
  show ?case
  proof (cases "n < 10")
    case True
    then have "(of_char (hd (show_nat n)) :: nat) \<noteq> of_char (CHR ''0'')" using less.prems by (simp add: show_nat_small)
    then show ?thesis by metis
  next
    case False
    then have "hd (show_nat (n div 10)) \<noteq> CHR ''0''" by (intro less) simp_all
    then show ?thesis unfolding show_nat_step [OF False] by simp
  qed
qed

lemma length_show_nat: "n < 10 ^ k \<Longrightarrow> 0 < k \<Longrightarrow> length (show_nat n) \<le> k"
proof (induction k arbitrary: n)
  case (Suc k)
  show ?case
  proof (cases "n < 10")
    case False
    with Suc.prems have "0 < k" by (cases k) auto
    moreover have "n div 10 < 10 ^ k" using Suc.prems(1) by (simp add: div_less_iff_less_mult mult.commute)
    ultimately have "length (show_nat (n div 10)) \<le> k" by (intro Suc.IH)
    then show ?thesis unfolding show_nat_step [OF False] by simp
  qed (simp add: show_nat_small)
qed simp

lemma parse_octet_show: "n \<le> 255 \<Longrightarrow> parse_octet (show_nat n) = Some n"
proof -
  assume n: "n \<le> 255"
  have "length (show_nat n) \<le> 3" using n by (intro length_show_nat) simp_all
  moreover have "n = 0 \<or> hd (show_nat n) \<noteq> CHR ''0''" using show_nat_hd by blast
  moreover have "length (show_nat 0) = 1" by (simp add: show_nat_small)
  ultimately show ?thesis using n by (auto simp: parse_octet_def Let_def not_less)
qed

lemma split_on_join:
  "\<forall>c\<in>set a. c \<noteq> x \<Longrightarrow> split_on x (a @ x # s) = a # split_on x s"
  by (induction a) auto

lemma split_on_single: "\<forall>c\<in>set a. c \<noteq> x \<Longrightarrow> split_on x a = [a]"
  by (induction a) auto

lemma show_nat_no_dot: "\<forall>c\<in>set (show_nat n). c \<noteq> CHR ''.''"
proof -
  have "\<not> is_digit (CHR ''.'')" by (simp add: is_digit_def)
  then show ?thesis using show_nat_digits by (metis list_all_iff)
qed

lemma word_quads:
  fixes w :: "32 word"
  shows "quad (unat w div 256 ^ 3) (unat w div 256 ^ 2 mod 256) (unat w div 256 mod 256) (unat w mod 256) = w"
proof -
  let ?n = "unat w"
  have "(((?n div 256 ^ 3) * 256 + ?n div 256 ^ 2 mod 256) * 256 + ?n div 256 mod 256) * 256 + ?n mod 256 = ?n"
  proof -
    have a: "?n div 256 ^ 3 = ?n div 256 div 256 div 256" "?n div 256 ^ 2 = ?n div 256 div 256"
      by (simp_all add: div_mult2_eq power2_eq_square power3_eq_cube)
    show ?thesis unfolding a by (simp only: div_mult_mod_eq)
  qed
  then show ?thesis unfolding quad_def by simp
qed

text \<open>
  IPv4 text round trip: the canonical text of every 32-bit address parses back to that address.
\<close>

theorem parse_show_v4: "parse_v4 (show_v4 w) = Some w"
proof -
  let ?n = "unat w"
  have n: "?n < 256 ^ 4" using unsigned_less [of w] by (simp add: word_size)
  have "?n div 256 ^ 3 < 256" by (rule less_mult_imp_div_less) (use n in simp)
  then have o3: "?n div 256 ^ 3 \<le> 255" by simp
  have o: "?n div 256 ^ 2 mod 256 \<le> 255" "?n div 256 mod 256 \<le> 255" "?n mod 256 \<le> 255"
    by (simp_all flip: less_Suc_eq_le)
  have "split_on (CHR ''.'') (show_v4 w) =
      [show_nat (?n div 256 ^ 3), show_nat (?n div 256 ^ 2 mod 256), show_nat (?n div 256 mod 256), show_nat (?n mod 256)]"
    unfolding show_v4_def Let_def join_with.simps append_Cons append_Nil
    by (simp only: split_on_join [OF show_nat_no_dot] split_on_single [OF show_nat_no_dot])
  then show ?thesis
    unfolding parse_v4_def by (simp add: parse_octet_show o o3 word_quads del: power_numeral)
qed

end
