(* ===== verification/Correlate.thy ===== *)
theory Correlate
  imports Causal_Time Ip_Address Regex
begin

text \<open>
  Cross-source and cross-vendor correlation (\<open>correlate.py\<close>): the per-device roll-up of several sources,
  the bounded event pool, and the clustering of failure events that share entities into incidents.

  The classifier of a batch of raw events is the argument \<open>classify\<close>; the stamp parser \<open>pts\<close>, the clock
  \<open>now\<close> and the IPv6 reader \<open>ip6\<close> are the arguments they are elsewhere. Python sets are sorted
  duplicate-free lists where the code sorts them, and duplicate-free lists where only membership counts.
  An instant is the number of seconds of its datetime. The union-find loop is followed with fuel, one more
  than the number of pool entries; \<open>Correlate_Laws\<close> proves that it is enough. The arrow of the summary
  is its UTF-8 encoding.
\<close>

definition sorted_set :: "'a::linorder list \<Rightarrow> 'a list" where
  "sorted_set xs = sort (remdups xs)"

definition push :: "'k \<Rightarrow> 'v \<Rightarrow> ('k \<times> 'v list) list \<Rightarrow> ('k \<times> 'v list) list" where
  "push k v d = AList.update k (dict_get d k [] @ [v]) d"

definition severity_rank :: "(string \<times> nat) list" where
  "severity_rank = [(''critical'', 0), (''high'', 1), (''medium'', 2), (''low'', 3), (''info'', 4)]"

definition is_lower_letter :: "char \<Rightarrow> bool" where
  "is_lower_letter c = (let n = (of_char c :: nat) in 97 \<le> n \<and> n \<le> 122)"

definition site_of :: "ip6 \<Rightarrow> string \<Rightarrow> string" where
  "site_of ip6 hostname =
     (let s = short_host ip6 True hostname; a = takeWhile is_lower_letter s;
          d = takeWhile is_digit (dropWhile is_lower_letter s)
      in if length a \<ge> 2 \<and> d \<noteq> [] then a @ d else [])"

section \<open>Devices across sources\<close>

record device_acc =
  da_source_ids :: "string list"
  da_per_source :: "(string \<times> nat) list"
  da_worst_rank :: nat
  da_total :: nat
  da_categories :: "string list"

record device_correlation =
  dc_hostname :: string
  dc_site :: string
  dc_sources :: "string list"
  dc_source_count :: nat
  dc_status :: string
  dc_worst_severity :: string
  dc_total_events :: nat
  dc_per_source_counts :: "(string \<times> nat) list"
  dc_categories :: "string list"

record source_correlation =
  sc_source_ids :: "string list"
  sc_device_count :: nat
  sc_confirmed_count :: nat
  sc_suspected_count :: nat
  sc_confirmed :: "device_correlation list"
  sc_suspected :: "device_correlation list"
  sc_devices :: "device_correlation list"

definition new_device_acc :: device_acc where
  "new_device_acc = \<lparr>da_source_ids = [], da_per_source = [], da_worst_rank = 999, da_total = 0, da_categories = []\<rparr>"

text \<open>The body of the loop over one classified event of one source.\<close>

definition acc_event :: "ip6 \<Rightarrow> nat \<Rightarrow> string \<Rightarrow> event \<Rightarrow> (string \<times> device_acc) list \<Rightarrow> (string \<times> device_acc) list" where
  "acc_event ip6 min_rank src e d =
     (let ev_rank = dict_get severity_rank (ev_severity e) 999; host = short_host ip6 True (ev_hostname e)
      in if ev_rank > min_rank \<or> host = [] then d
         else let acc = dict_get d host new_device_acc
              in AList.update host
                   (acc\<lparr>da_source_ids := List.insert src (da_source_ids acc),
                        da_per_source := bump (da_per_source acc) src,
                        da_worst_rank := (if ev_rank < da_worst_rank acc then ev_rank else da_worst_rank acc),
                        da_total := da_total acc + 1,
                        da_categories := List.insert (ev_category e) (da_categories acc)\<rparr>) d)"

definition acc_source ::
  "(log_event list \<Rightarrow> event list) \<Rightarrow> ip6 \<Rightarrow> nat \<Rightarrow> string \<times> log_event list \<Rightarrow> (string \<times> device_acc) list
     \<Rightarrow> (string \<times> device_acc) list" where
  "acc_source classify ip6 min_rank = (\<lambda>(src, raw) d. fold (acc_event ip6 min_rank src) (classify raw) d)"

definition device_of_acc :: "ip6 \<Rightarrow> string \<times> device_acc \<Rightarrow> device_correlation" where
  "device_of_acc ip6 = (\<lambda>(host, acc).
     (let sources = sort (da_source_ids acc)
      in \<lparr>dc_hostname = host, dc_site = site_of ip6 host, dc_sources = sources, dc_source_count = length sources,
          dc_status = (if length sources \<ge> 2 then ''confirmed'' else ''suspected''),
          dc_worst_severity = dict_get (map (\<lambda>(k, v). (v, k)) severity_rank) (da_worst_rank acc) ''info'',
          dc_total_events = da_total acc, dc_per_source_counts = da_per_source acc,
          dc_categories = sort (da_categories acc)\<rparr>))"

definition device_sort_key :: "device_correlation \<Rightarrow> nat \<times> int \<times> string" where
  "device_sort_key dc =
     (dict_get severity_rank (dc_worst_severity dc) 999, - int (dc_total_events dc), dc_hostname dc)"

definition correlate_sources ::
  "(log_event list \<Rightarrow> event list) \<Rightarrow> ip6 \<Rightarrow> (string \<times> log_event list) list \<Rightarrow> string \<Rightarrow> py_error + source_correlation" where
  "correlate_sources classify ip6 by_source min_severity =
     (case map_of severity_rank min_severity of
        None \<Rightarrow> Inl Value_Error
      | Some min_rank \<Rightarrow>
          (let accs = fold (acc_source classify ip6 min_rank) by_source [];
               devices = map (device_of_acc ip6) accs;
               confirmed = sort_key device_sort_key (filter (\<lambda>d. dc_status d = ''confirmed'') devices);
               suspected = sort_key device_sort_key (filter (\<lambda>d. dc_status d \<noteq> ''confirmed'') devices);
               everything = confirmed @ suspected
           in Inr \<lparr>sc_source_ids = sort (map fst by_source), sc_device_count = length everything,
                   sc_confirmed_count = length confirmed, sc_suspected_count = length suspected,
                   sc_confirmed = confirmed, sc_suspected = suspected, sc_devices = everything\<rparr>))"

text \<open>\<open>fetch\<close> is the source manager: the events of a source, or the text of a \<open>SourceError\<close>.\<close>

fun fetch_sources ::
  "(string \<Rightarrow> string + log_event list) \<Rightarrow> string list \<Rightarrow> (string \<times> log_event list) list \<times> (string \<times> string) list
     \<Rightarrow> (string \<times> log_event list) list \<times> (string \<times> string) list" where
  "fetch_sources fetch [] r = r"
| "fetch_sources fetch (sid # ids) (evs, skipped) =
     (case fetch sid of
        Inr e \<Rightarrow> fetch_sources fetch ids (AList.update sid e evs, skipped)
      | Inl msg \<Rightarrow> fetch_sources fetch ids (evs, AList.update sid msg skipped))"

definition correlate_from_manager ::
  "(log_event list \<Rightarrow> event list) \<Rightarrow> ip6 \<Rightarrow> (string \<Rightarrow> string + log_event list) \<Rightarrow> string list \<Rightarrow> string list option
     \<Rightarrow> string \<Rightarrow> py_error + source_correlation \<times> (string \<times> string) list" where
  "correlate_from_manager classify ip6 fetch registered source_ids min_severity =
     (let ids = (case source_ids of None \<Rightarrow> registered | Some xs \<Rightarrow> xs);
          (by_source, skipped) = fetch_sources fetch ids ([], [])
      in case correlate_sources classify ip6 by_source min_severity of
           Inl e \<Rightarrow> Inl e
         | Inr r \<Rightarrow> Inr (r, skipped))"

section \<open>Layers, autonomous systems and routing tables\<close>

definition layer_by_event_type :: "(string \<times> nat \<times> string) list" where
  "layer_by_event_type =
     [(''conserve_mode'', 0, ''platform''), (''session_table'', 0, ''platform''), (''ha_state'', 0, ''platform''),
      (''interface_link'', 1, ''physical''), (''lag_member'', 1, ''physical''), (''optical'', 1, ''physical''),
      (''sdwan_sla'', 2, ''transport''), (''ipsec_tunnel'', 2, ''transport''), (''ike_phase1'', 2, ''transport''),
      (''ike_phase2'', 2, ''transport''), (''bfd_session'', 2, ''transport''),
      (''control_connection'', 2, ''transport''),
      (''bgp_session'', 3, ''routing''), (''bgp_max_prefix'', 3, ''routing''), (''bgp_path_change'', 3, ''routing''),
      (''ospf_adjacency'', 3, ''routing''), (''omp_peer'', 3, ''routing''), (''evpn'', 4, ''overlay''),
      (''isis_adjacency'', 3, ''routing''), (''ldp_session'', 3, ''routing'')]"

definition same_instant_s :: rat where "same_instant_s = 1"

definition sev_priority :: "(string \<times> nat) list" where
  "sev_priority = [(''critical'', 0), (''high'', 1), (''medium'', 2)]"

definition ip_attrs :: "string list" where
  "ip_attrs = [''remip'', ''locip'', ''tunnelip'', ''local_ip'', ''system_ip'', ''local_tloc_ip'',
     ''remote_tloc_ip'', ''src_ip'', ''dst_ip'']"

definition p2p_event_types :: "string list" where
  "p2p_event_types = [''bgp_session'', ''bgp_max_prefix'', ''ospf_adjacency'']"

definition strong_evidence :: "string list" where
  "strong_evidence = [''shared_ip'', ''p2p_subnet'', ''same_interface'', ''same_tunnel'']"

definition asn_event_types :: "string list" where
  "asn_event_types = [''bgp_session'', ''bgp_max_prefix'', ''bgp_path_change'', ''omp_peer'']"

definition reserved_asns :: "int list" where
  "reserved_asns = [0, 23456, 65535, 4294967295]"

definition default_vrf_names :: "string list" where
  "default_vrf_names = [''default'', ''global'', ''main'', ''0'', ''root'', ''mgmt'', ''master'', ''inet.0'',
     ''management'', ''mgmt-vrf'', ''default-vrf'']"

definition anomaly_layers :: "string list" where
  "anomaly_layers = [''transport'', ''routing'']"

definition ibgp_re :: rx where
  "ibgp_re = Alt (seqs [Wordb, ilit ''Internal'', plus1 (Cls is_space), ilit ''AS'', Wordb])
                 (seqs [Wordb, ilit ''iBGP'', Wordb])"

definition remove_prefix :: "'a list \<Rightarrow> 'a list \<Rightarrow> 'a list" where
  "remove_prefix p s = (if starts_with p s then drop (length p) s else s)"

definition asn_number :: "string \<Rightarrow> int option" where
  "asn_number raw =
     (case partition_on (CHR ''.'') raw of
        (hi, True, lo) \<Rightarrow>
          (case (parse_int hi, parse_int lo) of (Some h, Some l) \<Rightarrow> Some (h * 65536 + l) | _ \<Rightarrow> None)
      | _ \<Rightarrow> parse_int raw)"

definition normalize_asn :: "string \<Rightarrow> string" where
  "normalize_asn value =
     (let raw = strip (remove_prefix ''as'' (lower (strip value)))
      in if raw = [] then []
         else case asn_number raw of
                None \<Rightarrow> []
              | Some num \<Rightarrow>
                  (if num \<in> set reserved_asns \<or> \<not> (0 < num \<and> num < 4294967296) then [] else show_int num))"

definition normalize_vrf :: "string \<Rightarrow> string" where
  "normalize_vrf value = lower (strip value)"

definition layer :: "event \<Rightarrow> (nat \<times> string) option" where
  "layer e = map_of layer_by_event_type (ev_event_type e)"

definition active_anomaly :: "event \<Rightarrow> bool" where
  "active_anomaly e =
     (case layer e of
        None \<Rightarrow> False
      | Some (_, name) \<Rightarrow>
          name \<in> set anomaly_layers \<and>
          (ev_state e = ''down'' \<or>
           (ev_state e = [] \<and> ev_event_type e \<in> {''bgp_max_prefix'', ''bgp_path_change''})))"

definition is_ibgp :: "event \<Rightarrow> bool" where
  "is_ibgp e = (rx_search ibgp_re (ev_message e) \<noteq> None)"

definition local_asns :: "event list \<Rightarrow> string list" where
  "local_asns events =
     [normalize_asn (ev_asn e). e \<leftarrow> events,
        ev_event_type e \<in> set asn_event_types \<and> is_ibgp e \<and> normalize_asn (ev_asn e) \<noteq> []]"

definition peer_asn :: "event \<Rightarrow> string list \<Rightarrow> string" where
  "peer_asn e locals =
     (if ev_event_type e \<notin> set asn_event_types \<or> is_ibgp e then []
      else let asn = normalize_asn (ev_asn e) in if asn \<in> set locals then [] else asn)"

section \<open>The bounded pool\<close>

definition first_nonempty :: "string list \<Rightarrow> string" where
  "first_nonempty xs = (case dropWhile (\<lambda>s. s = []) xs of [] \<Rightarrow> [] | s # _ \<Rightarrow> s)"

definition entity_of :: "event \<Rightarrow> string" where
  "entity_of e = first_nonempty [ev_peer_ip e, ev_tunnel_id e, ev_interface e]"

definition content_key :: "ip6 \<Rightarrow> event \<Rightarrow> string list" where
  "content_key ip6 e = [short_host ip6 True (ev_hostname e), ev_event_type e, lower (entity_of e),
     ev_description e, ev_timestamp e, ev_severity e]"

definition pool_key :: "ip6 \<Rightarrow> event \<Rightarrow> string list" where
  "pool_key ip6 e = [short_host ip6 True (ev_hostname e), ev_event_type e, lower (entity_of e), ev_state e]"

definition pool_warning :: "nat \<Rightarrow> nat \<Rightarrow> nat \<Rightarrow> string" where
  "pool_warning dropped collapsed limit =
     (if dropped = 0 \<and> collapsed = 0 then []
      else let bits = (if collapsed \<noteq> 0
                       then [''collapsed '' @ show_nat collapsed
                             @ '' repeated event(s) to their first and last occurrence''] else [])
                  @ (if dropped \<noteq> 0
                     then [''dropped '' @ show_nat dropped @ '' lower-severity / later event(s) over the ''
                           @ show_nat limit @ ''-event limit''] else [])
           in ''Correlation input was bounded: '' @ join_with '' and '' bits @ ''; incidents may be incomplete.'')"

text \<open>The indices of the first and of the last event of every key, ascending.\<close>

definition first_last :: "ip6 \<Rightarrow> event list \<Rightarrow> nat list" where
  "first_last ip6 events =
     (let step = (\<lambda>(i, e) (first, last).
            (let k = pool_key ip6 e
             in (if k \<in> set (map fst first) then first else first @ [(k, i)], AList.update k i last)));
          (first, last) = fold step (enumerate 0 events) ([], [])
      in sorted_set (map snd first @ map snd last))"

definition pool_rank :: "event list \<Rightarrow> nat \<Rightarrow> nat \<times> nat" where
  "pool_rank events i = (dict_get sev_priority (ev_severity (events ! i)) 3, i)"

text \<open>\<open>sorted(keep, key=...)[:room]\<close>, back in arrival order.\<close>

definition most_severe :: "event list \<Rightarrow> nat \<Rightarrow> nat list \<Rightarrow> nat list" where
  "most_severe events room keep = sort (take room (sort_key (pool_rank events) keep))"

definition bound_events :: "ip6 \<Rightarrow> event list \<Rightarrow> nat \<Rightarrow> event list \<times> nat \<times> nat" where
  "bound_events ip6 events max_events =
     (if length events \<le> max_events then (events, 0, 0)
      else let keep = first_last ip6 events;
               collapsed = length events - length keep;
               dropped = length keep - max_events;
               keep = (if dropped \<noteq> 0 then most_severe events max_events keep else keep)
           in (map ((!) events) keep, dropped, collapsed))"

record pool =
  pl_max_events :: nat
  pl_buf :: "event list"
  pl_collapsed :: nat
  pl_dropped :: nat

definition new_pool :: "nat \<Rightarrow> pool" where
  "new_pool max_events = \<lparr>pl_max_events = max_events, pl_buf = [], pl_collapsed = 0, pl_dropped = 0\<rparr>"

definition pool_compact :: "ip6 \<Rightarrow> pool \<Rightarrow> pool" where
  "pool_compact ip6 p =
     (let buf = pl_buf p; keep = first_last ip6 buf; room = pl_max_events p * 3 div 2;
          p = p\<lparr>pl_collapsed := pl_collapsed p + (length buf - length keep)\<rparr>
      in if length keep > room
         then p\<lparr>pl_dropped := pl_dropped p + (length keep - room),
                pl_buf := map ((!) buf) (most_severe buf room keep)\<rparr>
         else p\<lparr>pl_buf := map ((!) buf) keep\<rparr>)"

definition pool_add :: "ip6 \<Rightarrow> event \<Rightarrow> pool \<Rightarrow> pool" where
  "pool_add ip6 e p =
     (let p = p\<lparr>pl_buf := pl_buf p @ [e]\<rparr>
      in if length (pl_buf p) > 2 * pl_max_events p then pool_compact ip6 p else p)"

definition pool_events :: "ip6 \<Rightarrow> pool \<Rightarrow> event list \<times> pool" where
  "pool_events ip6 p =
     (let (kept, dropped, collapsed) = bound_events ip6 (pl_buf p) (pl_max_events p)
      in (kept, p\<lparr>pl_dropped := pl_dropped p + dropped, pl_collapsed := pl_collapsed p + collapsed,
                  pl_buf := kept\<rparr>))"

definition pool_report :: "pool \<Rightarrow> string" where
  "pool_report p = pool_warning (pl_dropped p) (pl_collapsed p) (pl_max_events p)"

end
