(* ===== verification/Incidents.thy ===== *)
theory Incidents
  imports Correlate
begin

text \<open>
  The second half of \<open>correlate.py\<close>: the keys an event can be joined on, the union-find clusters over the
  joins, and the incident built from a cluster. The joins of the pool (\<open>key_joins\<close>, \<open>host_joins\<close>) do not
  depend on the union-find state, so they are computed as lists and then applied in the code's order.
\<close>

section \<open>Join keys\<close>

definition join_keys :: "ip6 \<Rightarrow> event \<Rightarrow> string list \<Rightarrow> (string \<times> string) list" where
  "join_keys ip6 e locals =
     (let host = short_host ip6 True (ev_hostname e);
          ips = filter (\<lambda>x. x \<noteq> []) (valid_ip ip6 (ev_peer_ip e) # map (\<lambda>k. valid_ip ip6 (attr e k)) ip_attrs);
          p2p = filter (\<lambda>x. x \<noteq> [])
                  ((if ev_event_type e \<in> set p2p_event_types then [valid_ip ip6 (ev_peer_ip e)] else [])
                   @ [valid_ip ip6 (attr e ''tunnelip'')]);
          asn = peer_asn e locals; vrf = normalize_vrf (ev_vrf e)
      in map (\<lambda>ip. (''shared_ip'', ''ip:'' @ ip)) (sorted_set ips)
         @ concat (map (\<lambda>ip. case parse_v4 ip of
               None \<Rightarrow> []
             | Some w \<Rightarrow> [(''p2p_subnet'', ''p2p:'' @ network_text 30 w), (''p2p_subnet'', ''p2p:'' @ network_text 31 w)])
             (sorted_set p2p))
         @ (if ev_interface e \<noteq> [] then [(''same_interface'', ''if:'' @ host @ '':'' @ lower (ev_interface e))] else [])
         @ (if ev_tunnel_id e \<noteq> [] then [(''same_tunnel'', ''tun:'' @ host @ '':'' @ lower (ev_tunnel_id e))] else [])
         @ (if asn \<noteq> [] \<and> active_anomaly e then [(''shared_asn'', ''asn:'' @ asn)] else [])
         @ (if vrf \<noteq> [] \<and> vrf \<notin> set default_vrf_names then [(''same_vrf'', ''vrf:'' @ vrf)]
            else if vrf \<noteq> [] \<and> asn \<noteq> [] \<and> active_anomaly e then [(''same_vrf'', ''vrf:'' @ vrf @ ''|AS'' @ asn)]
            else []))"

section \<open>Union-find\<close>

text \<open>\<open>find\<close> with path halving.\<close>

fun uf_find :: "nat \<Rightarrow> nat list \<Rightarrow> nat \<Rightarrow> (nat list \<times> nat) option" where
  "uf_find 0 par i = None"
| "uf_find (Suc fuel) par i =
     (if par ! i = i then Some (par, i)
      else let par = par[i := par ! (par ! i)] in uf_find fuel par (par ! i))"

definition uf_union :: "nat \<Rightarrow> nat \<Rightarrow> nat list \<Rightarrow> nat list option" where
  "uf_union a b par =
     (case uf_find (Suc (length par)) par a of
        None \<Rightarrow> None
      | Some (par1, ra) \<Rightarrow>
          (case uf_find (Suc (length par)) par1 b of
             None \<Rightarrow> None
           | Some (par2, rb) \<Rightarrow> Some (if ra \<noteq> rb then par2[rb := ra] else par2)))"

type_synonym join = "nat \<times> nat \<times> string \<times> string"

record links =
  lk_parent :: "nat list"
  lk_eparent :: "nat list"
  lk_edges :: "(nat \<times> (string \<times> string) list) list"

definition new_links :: "nat \<Rightarrow> links" where
  "new_links n = \<lparr>lk_parent = [0..<n], lk_eparent = [0..<n], lk_edges = []\<rparr>"

definition temporal :: "join \<Rightarrow> bool" where
  "temporal = (\<lambda>(a, b, kind, key). kind = ''same_device_temporal'')"

definition link_join :: "join \<Rightarrow> links \<Rightarrow> links option" where
  "link_join j lk =
     (case j of (a, b, evidence) \<Rightarrow>
        case uf_union a b (lk_parent lk) of
          None \<Rightarrow> None
        | Some par \<Rightarrow>
            (case (if temporal j then Some (lk_eparent lk) else uf_union a b (lk_eparent lk)) of
               None \<Rightarrow> None
             | Some epar \<Rightarrow> Some \<lparr>lk_parent = par, lk_eparent = epar,
                  lk_edges = push b evidence (push a evidence (lk_edges lk))\<rparr>))"

fun link_joins :: "join list \<Rightarrow> links \<Rightarrow> links option" where
  "link_joins [] lk = Some lk"
| "link_joins (j # js) lk = (case link_join j lk of None \<Rightarrow> None | Some lk' \<Rightarrow> link_joins js lk')"

text \<open>\<open>clusters.setdefault(find(par, i), []).append(i)\<close> over a list of indices.\<close>

fun group_roots :: "nat list \<Rightarrow> nat list \<Rightarrow> (nat \<times> nat list) list \<Rightarrow> (nat list \<times> (nat \<times> nat list) list) option" where
  "group_roots par [] groups = Some (par, groups)"
| "group_roots par (i # is) groups =
     (case uf_find (Suc (length par)) par i of
        None \<Rightarrow> None
      | Some (par', r) \<Rightarrow> group_roots par' is (push r i groups))"

section \<open>Joins of a pool\<close>

record pool_view =
  pv_pool :: "event list"
  pv_times :: "rat option list"
  pv_layers :: "nat list"
  pv_content :: "string list list"
  pv_hosts :: "string list"

definition pool_view_of :: "ip6 \<Rightarrow> ts_parser \<Rightarrow> datetime \<Rightarrow> event list \<Rightarrow> pool_view" where
  "pool_view_of ip6 pts now pool =
     (let ref = reference_dt pts now (map ev_timestamp pool)
      in \<lparr>pv_pool = pool, pv_times = map (\<lambda>e. map_option dt_seconds (event_time pts now e (At ref))) pool,
          pv_layers = map (\<lambda>e. case layer e of None \<Rightarrow> 0 | Some (n, _) \<Rightarrow> n) pool,
          pv_content = map (content_key ip6) pool,
          pv_hosts = map (\<lambda>e. short_host ip6 True (ev_hostname e)) pool\<rparr>)"

definition min_datetime :: datetime where
  "min_datetime = \<lparr>dt_year = 1, dt_month = 1, dt_day = 1, dt_secs = 0\<rparr>"

definition when_or_min :: "rat option \<Rightarrow> rat" where
  "when_or_min t = (case t of None \<Rightarrow> dt_seconds min_datetime | Some s \<Rightarrow> s)"

definition root_sort_key :: "nat \<Rightarrow> rat option \<Rightarrow> 'a \<Rightarrow> nat \<times> bool \<times> rat \<times> 'a" where
  "root_sort_key lay t tiebreak = (lay, t = None, when_or_min t, tiebreak)"

definition order_key :: "pool_view \<Rightarrow> nat \<Rightarrow> bool \<times> rat \<times> nat \<times> string list" where
  "order_key pv i =
     (pv_times pv ! i = None, when_or_min (pv_times pv ! i), pv_layers pv ! i, pv_content pv ! i)"

definition order_of :: "pool_view \<Rightarrow> nat list \<Rightarrow> nat list" where
  "order_of pv idx = sort_key (order_key pv) idx"

definition gap_of :: "pool_view \<Rightarrow> nat \<Rightarrow> nat \<Rightarrow> rat option" where
  "gap_of pv a b =
     (case (pv_times pv ! a, pv_times pv ! b) of (Some ta, Some tb) \<Rightarrow> Some \<bar>tb - ta\<bar> | _ \<Rightarrow> None)"

definition close_by :: "pool_view \<Rightarrow> nat \<Rightarrow> nat \<Rightarrow> rat \<Rightarrow> bool" where
  "close_by pv a b limit =
     (case gap_of pv a b of
        None \<Rightarrow> pv_times pv ! a = None \<and> pv_times pv ! b = None
      | Some g \<Rightarrow> g \<le> limit)"

definition pairs_of :: "'a list \<Rightarrow> ('a \<times> 'a) list" where
  "pairs_of xs = zip xs (tl xs)"

definition add_keys :: "ip6 \<Rightarrow> string list \<Rightarrow> nat \<times> event
    \<Rightarrow> (string \<times> nat list) list \<times> (string \<times> string) list \<Rightarrow> (string \<times> nat list) list \<times> (string \<times> string) list" where
  "add_keys ip6 locals = (\<lambda>(i, e). fold (\<lambda>(evidence, key) (by_key, evidence_of).
     (push key i by_key, AList.update key evidence evidence_of)) (join_keys ip6 e locals))"

definition after_colon :: "string \<Rightarrow> string" where
  "after_colon key = snd (snd (partition_on (CHR '':'') key))"

definition key_joins :: "ip6 \<Rightarrow> pool_view \<Rightarrow> string list \<Rightarrow> rat \<Rightarrow> join list" where
  "key_joins ip6 pv locals window_s =
     (case fold (add_keys ip6 locals) (enumerate 0 (pv_pool pv)) ([], []) of
        (by_key, evidence_of) \<Rightarrow>
          concat (map (\<lambda>(key, members).
            map (\<lambda>(a, b). (a, b, dict_get evidence_of key [], after_colon key))
              (filter (\<lambda>(a, b). close_by pv a b window_s) (pairs_of (order_of pv members)))) by_key))"

definition host_limit :: "pool_view \<Rightarrow> rat \<Rightarrow> rat \<Rightarrow> nat \<Rightarrow> nat \<Rightarrow> rat" where
  "host_limit pv same_device_window_s hold_window_s a b =
     (if map_option snd (layer (pv_pool pv ! a)) = Some ''transport''
         \<and> map_option snd (layer (pv_pool pv ! b)) = Some ''routing'' then hold_window_s else same_device_window_s)"

definition may_follow :: "pool_view \<Rightarrow> nat \<Rightarrow> nat \<Rightarrow> bool" where
  "may_follow pv a b =
     (case (layer (pv_pool pv ! a), layer (pv_pool pv ! b)) of
        (Some (la, _), Some (lb, _)) \<Rightarrow>
          (case gap_of pv a b of None \<Rightarrow> False | Some g \<Rightarrow> g \<le> same_instant_s) \<or> la \<le> lb
      | _ \<Rightarrow> False)"

definition host_joins :: "pool_view \<Rightarrow> rat \<Rightarrow> rat \<Rightarrow> join list" where
  "host_joins pv same_device_window_s hold_window_s =
     concat (map (\<lambda>(host, members).
         map (\<lambda>(a, b). (a, b, ''same_device_temporal'', host))
           (filter (\<lambda>(a, b). may_follow pv a b
                      \<and> close_by pv a b (host_limit pv same_device_window_s hold_window_s a b))
              (pairs_of (order_of pv members))))
       (fold (\<lambda>(i, h). push h i) (enumerate 0 (pv_hosts pv)) []))"

section \<open>Incidents\<close>

record chain_step =
  cs_hostname :: string
  cs_vendor :: string
  cs_event_type :: string
  cs_layer :: string
  cs_description :: string
  cs_severity :: string
  cs_timestamp :: string
  cs_entity :: string

record incident =
  inc_root_cause :: chain_step
  inc_chain :: "chain_step list"
  inc_symptoms :: "chain_step list"
  inc_devices :: "string list"
  inc_vendors :: "string list"
  inc_device_count :: nat
  inc_event_count :: nat
  inc_evidence :: "(string \<times> string) list"
  inc_shared_asns :: "string list"
  inc_shared_vrfs :: "string list"
  inc_confidence :: string
  inc_summary :: string

definition chain_step_of :: "event \<Rightarrow> chain_step" where
  "chain_step_of e =
     \<lparr>cs_hostname = ev_hostname e, cs_vendor = ev_vendor e, cs_event_type = ev_event_type e,
      cs_layer = (case layer e of None \<Rightarrow> [] | Some (_, name) \<Rightarrow> name), cs_description = ev_description e,
      cs_severity = ev_severity e, cs_timestamp = ev_timestamp e,
      cs_entity = first_nonempty [ev_peer_ip e, ev_tunnel_id e, ev_interface e]\<rparr>"

definition step_sig :: "chain_step \<Rightarrow> string \<times> string \<times> string" where
  "step_sig s = (cs_hostname s, cs_event_type s, cs_entity s)"

fun chain_of :: "(string \<times> string \<times> string) list \<Rightarrow> chain_step list \<Rightarrow> chain_step list" where
  "chain_of seen [] = []"
| "chain_of seen (s # ss) =
     (if step_sig s \<in> set seen then chain_of seen ss else s # chain_of (step_sig s # seen) ss)"

definition bracketed :: "string list \<Rightarrow> string" where
  "bracketed layers = (if layers = [] then [] else '' ['' @ join_with '', '' layers @ '']'')"

definition arrow :: string where
  "arrow = map char_of [226 :: nat, 134, 146]"

definition siblings_root :: "pool_view \<Rightarrow> nat list \<Rightarrow> string list \<Rightarrow> string \<Rightarrow> chain_step" where
  "siblings_root pv ordered asns what =
     (let sevs = map (\<lambda>i. ev_severity (pv_pool pv ! i)) ordered;
          stamps = map (\<lambda>i. ev_timestamp (pv_pool pv ! i)) ordered
      in \<lparr>cs_hostname = what, cs_vendor = [], cs_event_type = (if asns \<noteq> [] then ''external_as'' else ''shared_vrf''),
          cs_layer = ''routing'', cs_description = ''Sessions lost to '' @ what,
          cs_severity = min_by (\<lambda>v. dict_get sev_priority v 3) (hd sevs) (tl sevs),
          cs_timestamp = first_nonempty stamps, cs_entity = what\<rparr>)"

definition incident_of ::
  "pool_view \<Rightarrow> nat list \<Rightarrow> nat \<Rightarrow> string list \<Rightarrow> string list \<Rightarrow> (string \<times> string) list \<Rightarrow> string \<Rightarrow> incident" where
  "incident_of pv ordered rt hosts vendors evidence confidence =
     (let chain = chain_of [] (map (\<lambda>i. chain_step_of (pv_pool pv ! i)) ordered);
          r0 = chain_step_of (pv_pool pv ! rt);
          below = filter (\<lambda>c. step_sig c \<noteq> step_sig r0) chain;
          effect_layers = sorted_set (filter (\<lambda>l. l \<noteq> []) (map cs_layer below));
          asns = sort_key (\<lambda>k. case parse_int k of None \<Rightarrow> 0 | Some n \<Rightarrow> n)
                   (remdups (map snd (filter (\<lambda>(t, k). t = ''shared_asn'') evidence)));
          vrfs = sorted_set (map (\<lambda>(t, k). fst (partition_on (CHR ''|'') k))
                   (filter (\<lambda>(t, k). t = ''same_vrf'') evidence));
          siblings = (asns \<noteq> [] \<or> vrfs \<noteq> []) \<and> fst ` set evidence \<subseteq> {''shared_asn'', ''same_vrf''}
                     \<and> length hosts \<ge> 2;
          what = (if asns \<noteq> [] then ''AS'' @ hd asns else ''VRF '' @ hd vrfs);
          r = (if siblings then siblings_root pv ordered asns what else r0);
          symptoms = (if siblings then chain else below);
          summary = (if siblings
             then show_nat (length hosts) @ '' devices lost sessions to '' @ what @ bracketed effect_layers
             else cs_description r @ '' on '' @ cs_hostname r @ '' (''
                  @ (if cs_vendor r = [] then ''unknown'' else cs_vendor r) @ '', '' @ cs_layer r @ '') '' @ arrow @ '' ''
                  @ show_nat (length symptoms) @ '' downstream event(s) across '' @ show_nat (length hosts)
                  @ '' device(s)'' @ bracketed effect_layers)
             @ (if asns \<noteq> [] then ''; shared peer AS '' @ join_with '', '' (map (\<lambda>a. ''AS'' @ a) asns) else [])
             @ (if vrfs \<noteq> [] then ''; VRF '' @ join_with '', '' vrfs else [])
      in \<lparr>inc_root_cause = r, inc_chain = take 15 chain, inc_symptoms = take 15 symptoms,
          inc_devices = sort hosts, inc_vendors = sort vendors, inc_device_count = length hosts,
          inc_event_count = length ordered, inc_evidence = take 20 evidence, inc_shared_asns = asns,
          inc_shared_vrfs = vrfs, inc_confidence = confidence, inc_summary = summary\<rparr>)"

definition root_of :: "pool_view \<Rightarrow> nat list \<Rightarrow> nat" where
  "root_of pv members =
     min_by (\<lambda>i. root_sort_key (pv_layers pv ! i) (pv_times pv ! i) (pv_content pv ! i)) (hd members) (tl members)"

definition came_first :: "pool_view \<Rightarrow> nat \<Rightarrow> nat list \<Rightarrow> bool" where
  "came_first pv rt members =
     list_all (\<lambda>i. case (pv_times pv ! rt, pv_times pv ! i) of (Some t, Some u) \<Rightarrow> t \<le> u | _ \<Rightarrow> True) members"

text \<open>Entity-joined parts that are held together by same-device timing only, and are not nested.\<close>

definition bridged_by_timing :: "pool_view \<Rightarrow> (nat \<times> nat list) list \<Rightarrow> bool" where
  "bridged_by_timing pv parts =
     (let chain_sets = sort_key length (map (\<lambda>(r, ms). remdups (map ((!) (pv_hosts pv)) ms)) parts)
      in list_ex (\<lambda>(a, b). \<not> set a \<subseteq> set b) (pairs_of chain_sets))"

definition evidence_for :: "(nat \<times> (string \<times> string) list) list \<Rightarrow> nat list \<Rightarrow> (string \<times> string) list" where
  "evidence_for edges members = sorted_set (concat (map (\<lambda>i. dict_get edges i []) members))"

definition spans_one :: "pool_view \<Rightarrow> nat list \<Rightarrow> bool" where
  "spans_one pv members =
     (length (remdups (map ((!) (pv_hosts pv)) members)) < 2
      \<and> length (remdups (filter (\<lambda>v. v \<noteq> []) (map (\<lambda>i. ev_vendor (pv_pool pv ! i)) members))) < 2
      \<and> length (remdups (map ((!) (pv_layers pv)) members)) < 2)"

definition confidence_of :: "(string \<times> string) list \<Rightarrow> bool \<Rightarrow> bool \<Rightarrow> string" where
  "confidence_of evidence root_first bridged =
     (if list_ex (\<lambda>(t, k). t \<in> set strong_evidence) evidence \<and> root_first \<and> \<not> bridged then ''high'' else ''medium'')"

fun build_incidents ::
  "pool_view \<Rightarrow> (nat \<times> (string \<times> string) list) list \<Rightarrow> nat list \<Rightarrow> nat list list \<Rightarrow> incident list option" where
  "build_incidents pv edges epar [] = Some []"
| "build_incidents pv edges epar (members # clusters) =
     (if length members < 2 \<or> spans_one pv members then build_incidents pv edges epar clusters
      else case group_roots epar members [] of
             None \<Rightarrow> None
           | Some (epar', parts) \<Rightarrow>
               (let evidence = evidence_for edges members; rt = root_of pv members;
                    confidence = confidence_of evidence (came_first pv rt members) (bridged_by_timing pv parts);
                    inc = incident_of pv (order_of pv members) rt (remdups (map ((!) (pv_hosts pv)) members))
                            (remdups (filter (\<lambda>v. v \<noteq> []) (map (\<lambda>i. ev_vendor (pv_pool pv ! i)) members)))
                            evidence confidence
                in map_option (\<lambda>incs. inc # incs) (build_incidents pv edges epar' clusters)))"

record correlation =
  co_incidents :: "incident list"
  co_events_considered :: nat
  co_dropped :: nat
  co_note :: "(nat \<times> string) option"

definition considered :: "event \<Rightarrow> bool" where
  "considered e \<longleftrightarrow> layer e \<noteq> None \<and> ev_state e \<noteq> ''up'' \<and> ev_severity e \<in> {''critical'', ''high'', ''medium''}"

definition clusters_of :: "links \<Rightarrow> nat \<Rightarrow> nat list list option" where
  "clusters_of lk n = map_option (\<lambda>(par, groups). map snd groups) (group_roots (lk_parent lk) [0..<n] [])"

definition pool_joins :: "ip6 \<Rightarrow> pool_view \<Rightarrow> string list \<Rightarrow> rat \<Rightarrow> rat \<Rightarrow> rat \<Rightarrow> join list" where
  "pool_joins ip6 pv locals window_s same_device_window_s hold_window_s =
     key_joins ip6 pv locals window_s @ host_joins pv same_device_window_s hold_window_s"

definition incident_sort_key :: "incident \<Rightarrow> int \<times> int \<times> string" where
  "incident_sort_key inc = (- int (inc_device_count inc), - int (inc_event_count inc), inc_summary inc)"

definition correlate_entities ::
  "ip6 \<Rightarrow> ts_parser \<Rightarrow> datetime \<Rightarrow> rat \<Rightarrow> rat \<Rightarrow> rat \<Rightarrow> nat \<Rightarrow> event list \<Rightarrow> correlation option" where
  "correlate_entities ip6 pts now window_s same_device_window_s hold_window_s max_events events =
     (let locals = local_asns events;
          (pool, dropped, collapsed) = bound_events ip6 (filter considered events) max_events;
          info = (if collapsed \<noteq> 0 \<or> dropped \<noteq> 0 then Some (collapsed, pool_warning dropped collapsed max_events) else None)
      in if pool = [] then Some \<lparr>co_incidents = [], co_events_considered = 0, co_dropped = dropped, co_note = info\<rparr>
         else let pv = pool_view_of ip6 pts now pool
              in case link_joins (pool_joins ip6 pv locals window_s same_device_window_s hold_window_s)
                        (new_links (length pool)) of
                   None \<Rightarrow> None
                 | Some lk \<Rightarrow>
                     (case clusters_of lk (length pool) of
                        None \<Rightarrow> None
                      | Some clusters \<Rightarrow>
                          map_option (\<lambda>incs. \<lparr>co_incidents = sort_key incident_sort_key incs,
                              co_events_considered = length pool, co_dropped = dropped, co_note = info\<rparr>)
                            (build_incidents pv (lk_edges lk) (lk_eparent lk) clusters)))"

end
