(* ===== verification/Correlate_Laws.thy ===== *)
theory Correlate_Laws
  imports Correlate
begin

text \<open>
  Laws of the correlation pool and of the cross-source roll-up: which events a bounded pool keeps, its
  memory bound and its accounting, and when a device counts as confirmed.
\<close>

section \<open>Sorted sets and pushes\<close>

lemma set_sorted_set [simp]: "set (sorted_set xs) = set xs"
  by (simp add: sorted_set_def)

lemma distinct_sorted_set [simp]: "distinct (sorted_set xs)"
  by (simp add: sorted_set_def)

lemma sorted_sorted_set [simp]: "sorted (sorted_set xs)"
  by (simp add: sorted_set_def)

lemma sorted_wrt_less_iff: "sorted_wrt (<) (xs :: 'a::linorder list) \<longleftrightarrow> sorted xs \<and> distinct xs"
  by (rule strict_sorted_iff)

section \<open>First and last occurrences\<close>

definition first_or_last :: "ip6 \<Rightarrow> event list \<Rightarrow> nat \<Rightarrow> bool" where
  "first_or_last ip6 es i \<longleftrightarrow> i < length es \<and>
     ((\<forall>j<i. pool_key ip6 (es ! j) \<noteq> pool_key ip6 (es ! i)) \<or>
      (\<forall>j<length es. i < j \<longrightarrow> pool_key ip6 (es ! j) \<noteq> pool_key ip6 (es ! i)))"

definition fl_step :: "ip6 \<Rightarrow> nat \<times> event \<Rightarrow> (string list \<times> nat) list \<times> (string list \<times> nat) list
    \<Rightarrow> (string list \<times> nat) list \<times> (string list \<times> nat) list" where
  "fl_step ip6 = (\<lambda>(i, e) (first, last).
            (let k = pool_key ip6 e
             in (if k \<in> set (map fst first) then first else first @ [(k, i)], AList.update k i last)))"

lemma set_update_distinct:
  "distinct (map fst d) \<Longrightarrow> set (AList.update k v d) = insert (k, v) {(a, b) \<in> set d. a \<noteq> k}"
  by (induction d) (auto simp: rev_image_eqI)

lemma fl_fold:
  assumes "fold (fl_step ip6) (enumerate 0 es) ([], []) = (f, l)" and "\<And>es i. key es i = pool_key ip6 (es ! i)"
  shows "set f = {(k, i). i < length es \<and> k = key es i \<and> (\<forall>j<i. key es j \<noteq> k)}"
    and "set l = {(k, i). i < length es \<and> k = key es i \<and> (\<forall>j<length es. i < j \<longrightarrow> key es j \<noteq> k)}"
    and "distinct (map fst l)"
  using assms(1)
proof (induction es arbitrary: f l rule: rev_induct)
  case Nil
  { case 1 then show ?case by simp next case 2 then show ?case by simp next case 3 then show ?case by simp }
next
  case (snoc e es)
  obtain f0 l0 where st: "fold (fl_step ip6) (enumerate 0 es) ([], []) = (f0, l0)" by (metis surj_pair)
  note IH = snoc.IH [OF st]
  let ?n = "length es"
  have key: "i < ?n \<Longrightarrow> key (es @ [e]) i = key es i" "key (es @ [e]) ?n = pool_key ip6 e" for i
    by (simp_all add: assms(2) nth_append)
  have *: "fold (fl_step ip6) (enumerate 0 (es @ [e])) ([], []) = fl_step ip6 (?n, e) (f0, l0)"
    by (simp add: enumerate_append_eq st)
  have f: "f = (if pool_key ip6 e \<in> fst ` set f0 then f0 else f0 @ [(pool_key ip6 e, ?n)])"
    and l: "l = AList.update (pool_key ip6 e) ?n l0" if "fold (fl_step ip6) (enumerate 0 (es @ [e])) ([], []) = (f, l)"
    for f l
  proof -
    have "fl_step ip6 (?n, e) (f0, l0) = (f, l)" by (rule trans [OF sym [OF *] that])
    then show "f = (if pool_key ip6 e \<in> fst ` set f0 then f0 else f0 @ [(pool_key ip6 e, ?n)])"
      and "l = AList.update (pool_key ip6 e) ?n l0" unfolding fl_step_def Let_def by simp_all
  qed
  have mem: "pool_key ip6 e \<in> fst ` set f0 \<longleftrightarrow> (\<exists>j<?n. key es j = pool_key ip6 e)"
  proof
    assume "\<exists>j<?n. key es j = pool_key ip6 e"
    then obtain j where j: "j < ?n \<and> key es j = pool_key ip6 e"
        and least: "\<forall>i<j. \<not> (i < ?n \<and> key es i = pool_key ip6 e)"
      using exists_least_iff [of "\<lambda>j. j < ?n \<and> key es j = pool_key ip6 e"] by blast
    then have "\<forall>i<j. key es i \<noteq> pool_key ip6 e" by (meson order.strict_trans)
    with j have "(pool_key ip6 e, j) \<in> set f0" by (simp add: IH(1))
    then show "pool_key ip6 e \<in> fst ` set f0" by (rule rev_image_eqI) simp
  qed (auto simp: IH(1))
  { case 1
    show ?case
    proof (cases "pool_key ip6 e \<in> fst ` set f0")
      case True
      with mem obtain j where j: "j < ?n" "key es j = pool_key ip6 e" by blast
      have "f = f0" using f [OF 1] True by simp
      moreover have "i < Suc ?n \<and> k = key (es @ [e]) i \<and> (\<forall>j<i. key (es @ [e]) j \<noteq> k) \<longleftrightarrow>
          i < ?n \<and> k = key es i \<and> (\<forall>j<i. key es j \<noteq> k)" for i k
        using j key by (cases "i = ?n") (auto simp: less_Suc_eq)
      ultimately show ?thesis using IH(1) by simp
    next
      case False
      then have no: "\<forall>j<?n. key es j \<noteq> pool_key ip6 e" using mem by blast
      have "set f = insert (pool_key ip6 e, ?n) (set f0)" using f [OF 1] False by simp
      moreover have "i < Suc ?n \<and> k = key (es @ [e]) i \<and> (\<forall>j<i. key (es @ [e]) j \<noteq> k) \<longleftrightarrow>
          (i = ?n \<and> k = pool_key ip6 e) \<or> (i < ?n \<and> k = key es i \<and> (\<forall>j<i. key es j \<noteq> k))" for i k
        using no key by (cases "i = ?n") (auto simp: less_Suc_eq)
      ultimately show ?thesis using IH(1) by auto
    qed
  next
    case 2
    have "set l = insert (pool_key ip6 e, ?n) {(a, b) \<in> set l0. a \<noteq> pool_key ip6 e}"
      using l [OF 2] IH(3) by (simp add: set_update_distinct)
    moreover have "i < Suc ?n \<and> k = key (es @ [e]) i \<and> (\<forall>j<Suc ?n. i < j \<longrightarrow> key (es @ [e]) j \<noteq> k) \<longleftrightarrow>
        (i = ?n \<and> k = pool_key ip6 e) \<or>
        ((i < ?n \<and> k = key es i \<and> (\<forall>j<?n. i < j \<longrightarrow> key es j \<noteq> k)) \<and> k \<noteq> pool_key ip6 e)" for i k
      using key by (cases "i = ?n") (auto simp: less_Suc_eq)
    ultimately show ?case using IH(2) by auto
  next
    case 3
    then show ?case using l [OF 3] IH(3) by (simp add: distinct_keys_update)
  }
qed

lemma first_last_alt:
  "first_last ip6 es = (case fold (fl_step ip6) (enumerate 0 es) ([], []) of
     (f, l) \<Rightarrow> sorted_set (map snd f @ map snd l))"
  by (simp only: first_last_def fl_step_def Let_def)

lemma set_first_last: "set (first_last ip6 es) = {i. first_or_last ip6 es i}"
proof -
  obtain f l where st: "fold (fl_step ip6) (enumerate 0 es) ([], []) = (f, l)" by (metis surj_pair)
  then have "first_last ip6 es = sorted_set (map snd f @ map snd l)"
    by (simp only: first_last_alt prod.case)
  moreover have "i \<in> snd ` set f \<longleftrightarrow>
      i < length es \<and> (\<forall>j<i. pool_key ip6 (es ! j) \<noteq> pool_key ip6 (es ! i))" for i
    unfolding fl_fold(1) [OF st refl] image_iff by auto
  moreover have "i \<in> snd ` set l \<longleftrightarrow>
      i < length es \<and> (\<forall>j<length es. i < j \<longrightarrow> pool_key ip6 (es ! j) \<noteq> pool_key ip6 (es ! i))" for i
    unfolding fl_fold(2) [OF st refl] image_iff by auto
  ultimately show ?thesis by (auto simp: first_or_last_def simp del: image_iff)
qed

lemma distinct_first_last [simp]: "distinct (first_last ip6 es)"
  and sorted_first_last [simp]: "sorted (first_last ip6 es)"
  by (simp_all add: first_last_alt split: prod.splits)

lemma length_first_last: "length (first_last ip6 es) \<le> length es"
proof -
  have "set (first_last ip6 es) \<subseteq> {..<length es}" by (auto simp: set_first_last first_or_last_def)
  then have "card (set (first_last ip6 es)) \<le> card {..<length es}" by (intro card_mono) simp_all
  then show ?thesis by (simp add: distinct_card)
qed

section \<open>What a bounded pool keeps\<close>

lemma set_most_severe: "set (most_severe es room keep) \<subseteq> set keep"
  using set_take_subset [of room "sort_key (pool_rank es) keep"] by (simp add: most_severe_def)

lemma length_most_severe: "length (most_severe es room keep) = min room (length keep)"
  by (simp add: most_severe_def)

lemma strict_most_severe: "distinct keep \<Longrightarrow> sorted_wrt (<) (most_severe es room keep)"
  by (simp add: sorted_wrt_less_iff most_severe_def distinct_take)

lemma most_severe_first:
  assumes "i \<in> set (most_severe es room keep)" and "j \<in> set keep" and "j \<notin> set (most_severe es room keep)"
  shows "pool_rank es i \<le> pool_rank es j"
proof -
  let ?s = "sort_key (pool_rank es) keep"
  have "sorted (map (pool_rank es) (take room ?s @ drop room ?s))" by (simp only: append_take_drop_id sorted_sort_key)
  then have "\<forall>x\<in>set (take room ?s). \<forall>y\<in>set (drop room ?s). pool_rank es x \<le> pool_rank es y"
    unfolding map_append sorted_append by auto
  moreover have "j \<in> set ?s" using assms(2) by simp
  then have "j \<in> set (take room ?s) \<union> set (drop room ?s)" by (metis append_take_drop_id set_append)
  then have "j \<in> set (drop room ?s)" using assms(3) unfolding most_severe_def set_sort by blast
  ultimately show ?thesis using assms(1) unfolding most_severe_def set_sort by blast
qed

text \<open>\<open>kept_at es keep kept\<close>: the events kept are those at the strictly increasing positions \<open>keep\<close>.\<close>

definition kept_at :: "event list \<Rightarrow> nat list \<Rightarrow> event list \<Rightarrow> bool" where
  "kept_at es keep kept \<longleftrightarrow> sorted_wrt (<) keep \<and> set keep \<subseteq> {..<length es} \<and> kept = map ((!) es) keep"

lemma first_last_bounds: "set (first_last ip6 es) \<subseteq> {..<length es}"
  by (auto simp: set_first_last first_or_last_def)

lemma kept_first_last: "kept_at es (first_last ip6 es) (map ((!) es) (first_last ip6 es))"
  using first_last_bounds [of ip6 es] by (simp add: kept_at_def sorted_wrt_less_iff)

lemma kept_most_severe:
  "kept_at es (most_severe es room (first_last ip6 es)) (map ((!) es) (most_severe es room (first_last ip6 es)))"
  using first_last_bounds [of ip6 es] set_most_severe [of es room "first_last ip6 es"]
  by (auto simp: kept_at_def strict_most_severe)

text \<open>
  What bounding keeps. The result has at most \<open>max_events\<close> events, in arrival order, and the counts
  account for every event left out. Over the limit, the kept events are first or last occurrences of their
  host, type, entity and state; when such an event is left out, the result is full and every event in it
  is at least as severe, or as severe and earlier.
\<close>

theorem bound_events_keeps:
  assumes "bound_events ip6 es m = (kept, dropped, collapsed)"
  shows "\<exists>keep. kept_at es keep kept \<and> length kept \<le> m \<and> length kept + dropped + collapsed = length es \<and>
     (length es > m \<longrightarrow> (\<forall>i\<in>set keep. first_or_last ip6 es i) \<and>
        (\<forall>j. first_or_last ip6 es j \<and> j \<notin> set keep \<longrightarrow>
           length kept = m \<and> (\<forall>i\<in>set keep. pool_rank es i \<le> pool_rank es j)))"
proof (cases "length es \<le> m")
  case True
  then have "kept_at es [0..<length es] kept \<and> length kept \<le> m \<and> length kept + dropped + collapsed = length es"
    using assms by (auto simp: bound_events_def kept_at_def map_nth)
  then show ?thesis using True by (intro exI [of _ "[0..<length es]"]) simp
next
  case False
  let ?fl = "first_last ip6 es"
  let ?keep = "if length ?fl - m \<noteq> 0 then most_severe es m ?fl else ?fl"
  have k: "kept = map ((!) es) ?keep" and d: "dropped = length ?fl - m" and c: "collapsed = length es - length ?fl"
    using assms False unfolding bound_events_def Let_def by auto
  have len: "length ?keep = min m (length ?fl)" by (simp add: length_most_severe)
  have at: "kept_at es ?keep kept" using kept_first_last kept_most_severe k by simp
  have sub: "set ?keep \<subseteq> {i. first_or_last ip6 es i}"
    using set_most_severe [of es m ?fl] by (simp add: set_first_last)
  have rest: "length kept = m \<and> (\<forall>i\<in>set ?keep. pool_rank es i \<le> pool_rank es j)"
    if j: "first_or_last ip6 es j" "j \<notin> set ?keep" for j
  proof -
    have j': "j \<in> set ?fl" using j(1) by (simp add: set_first_last)
    with j(2) have over: "length ?fl - m \<noteq> 0" by auto
    then have "length kept = m" using len k by simp
    moreover have "\<forall>i\<in>set ?keep. pool_rank es i \<le> pool_rank es j"
      using over j(2) j' by (auto intro: most_severe_first)
    ultimately show ?thesis by blast
  qed
  have "length kept \<le> m \<and> length kept + dropped + collapsed = length es"
    using len k d c length_first_last [of ip6 es] by simp
  with at sub rest show ?thesis by (intro exI [of _ ?keep]) blast
qed

theorem bound_events_keeps_witness:
  "\<exists>keep. kept_at [blank_event, blank_event, blank_event] keep [blank_event] \<and> length keep = 1"
proof -
  have "bound_events (\<lambda>_. None) [blank_event, blank_event, blank_event] 1 = ([blank_event], 1, 1)"
    by (simp add: bound_events_def first_last_def Let_def enumerate_eq_zip sorted_set_def most_severe_def pool_rank_def
        pool_key_def numeral_eq_Suc upt_rec dict_get_def)
  from bound_events_keeps [OF this] show ?thesis by (auto simp: kept_at_def)
qed

section \<open>The streaming pool\<close>

definition pool_run :: "ip6 \<Rightarrow> event list \<Rightarrow> pool \<Rightarrow> pool" where
  "pool_run ip6 es p = fold (pool_add ip6) es p"

lemma pool_compact_inv:
  "length (pl_buf (pool_compact ip6 p)) \<le> pl_max_events p * 3 div 2 \<and>
   length (pl_buf (pool_compact ip6 p)) + pl_dropped (pool_compact ip6 p) + pl_collapsed (pool_compact ip6 p)
     = length (pl_buf p) + pl_dropped p + pl_collapsed p \<and>
   set (pl_buf (pool_compact ip6 p)) \<subseteq> set (pl_buf p) \<and> pl_max_events (pool_compact ip6 p) = pl_max_events p"
proof -
  let ?fl = "first_last ip6 (pl_buf p)"
  let ?room = "pl_max_events p * 3 div 2"
  have le: "length ?fl \<le> length (pl_buf p)" by (rule length_first_last)
  have sub: "set (map ((!) (pl_buf p)) ?fl) \<subseteq> set (pl_buf p)"
    using first_last_bounds [of ip6 "pl_buf p"] by (auto intro: nth_mem)
  have sub': "set (map ((!) (pl_buf p)) (most_severe (pl_buf p) ?room ?fl)) \<subseteq> set (pl_buf p)"
    using first_last_bounds [of ip6 "pl_buf p"] set_most_severe [of "pl_buf p" ?room ?fl] by (auto intro: nth_mem)
  show ?thesis
  proof (cases "length ?fl > ?room")
    case True
    with le sub' show ?thesis by (simp add: pool_compact_def Let_def length_most_severe)
  next
    case False
    with le sub show ?thesis by (simp add: pool_compact_def Let_def)
  qed
qed

definition pool_inv :: "event list \<Rightarrow> pool \<Rightarrow> bool" where
  "pool_inv es p \<longleftrightarrow> length (pl_buf p) \<le> 2 * pl_max_events p \<and> set (pl_buf p) \<subseteq> set es \<and>
     length (pl_buf p) + pl_dropped p + pl_collapsed p = length es"

lemma pool_add_inv [netlog_inv]:
  assumes "pool_inv es p"
  shows "pool_inv (es @ [e]) (pool_add ip6 e p)" and "pl_max_events (pool_add ip6 e p) = pl_max_events p"
  using assms pool_compact_inv [of ip6 "p\<lparr>pl_buf := pl_buf p @ [e]\<rparr>"]
  by (auto simp: pool_inv_def pool_add_def Let_def)

lemma pool_run_inv: "pool_inv es (pool_run ip6 es (new_pool m)) \<and> pl_max_events (pool_run ip6 es (new_pool m)) = m"
  unfolding pool_run_def
  by (induction es rule: rev_induct) (auto simp: pool_inv_def [of "[]"] new_pool_def pool_add_inv)

text \<open>
  Bounded memory with nothing uncounted. After any stream of events the pool's buffer holds at most
  \<open>2 * max_events\<close> of them, and the final \<open>events()\<close> at most \<open>max_events\<close>; what it returns plus the two
  counters is the number of events added.
\<close>

theorem pool_bounded:
  "length (pl_buf (pool_run ip6 es (new_pool m))) \<le> 2 * m \<and>
   (case pool_events ip6 (pool_run ip6 es (new_pool m)) of
      (kept, p) \<Rightarrow> length kept \<le> m \<and> set kept \<subseteq> set es \<and>
                   length kept + pl_dropped p + pl_collapsed p = length es)"
proof -
  let ?p = "pool_run ip6 es (new_pool m)"
  have inv: "pool_inv es ?p" and m: "pl_max_events ?p = m" using pool_run_inv by blast+
  obtain kept d c where b: "bound_events ip6 (pl_buf ?p) m = (kept, d, c)" by (metis surj_pair)
  from bound_events_keeps [OF b] obtain keep where k: "kept_at (pl_buf ?p) keep kept" "length kept \<le> m"
      "length kept + d + c = length (pl_buf ?p)" by blast
  have "set kept \<subseteq> set (pl_buf ?p)" using k(1) by (auto simp: kept_at_def intro: nth_mem)
  with inv m k(2,3) b show ?thesis by (auto simp: pool_events_def pool_inv_def)
qed

section \<open>Confirmed devices\<close>

definition tagged :: "(log_event list \<Rightarrow> event list) \<Rightarrow> (string \<times> log_event list) list \<Rightarrow> (string \<times> event) list" where
  "tagged classify by_source = concat (map (\<lambda>(src, raw). map (Pair src) (classify raw)) by_source)"

definition hits :: "ip6 \<Rightarrow> nat \<Rightarrow> string \<Rightarrow> (string \<times> event) list \<Rightarrow> (string \<times> event) list" where
  "hits ip6 k h = filter (\<lambda>(src, e). dict_get severity_rank (ev_severity e) 999 \<le> k \<and> short_host ip6 True (ev_hostname e) = h)"

lemma fold_tagged:
  "fold (acc_source classify ip6 k) by_source d
     = fold (\<lambda>(src, e). acc_event ip6 k src e) (tagged classify by_source) d"
proof (induction by_source arbitrary: d)
  case (Cons p ps)
  obtain src raw where p: "p = (src, raw)" by (metis surj_pair)
  have "fold (\<lambda>(src, e). acc_event ip6 k src e) (map (Pair src) es) d = fold (acc_event ip6 k src) es d" for es
    by (simp add: fold_map comp_def)
  then show ?case using Cons by (simp add: p tagged_def acc_source_def)
qed (simp add: tagged_def)

definition acc_ok :: "string \<Rightarrow> (string \<times> event) list \<Rightarrow> device_acc option \<Rightarrow> bool" where
  "acc_ok h hs oa \<longleftrightarrow>
     (case oa of
        None \<Rightarrow> h = [] \<or> hs = []
      | Some a \<Rightarrow> h \<noteq> [] \<and> hs \<noteq> [] \<and> distinct (da_source_ids a) \<and>
          set (da_source_ids a) = fst ` set hs \<and> da_total a = length hs)"

definition accs_ok :: "ip6 \<Rightarrow> nat \<Rightarrow> (string \<times> event) list \<Rightarrow> (string \<times> device_acc) list \<Rightarrow> bool" where
  "accs_ok ip6 k ps d \<longleftrightarrow> distinct (map fst d) \<and> (\<forall>h. acc_ok h (hits ip6 k h ps) (map_of d h))"

lemma acc_ok_empty_host: "acc_ok [] hs oa \<Longrightarrow> acc_ok [] hs' oa"
  by (cases oa) (simp_all add: acc_ok_def)

lemma acc_ok_grow:
  assumes "acc_ok h hs (map_of d h)" and "h \<noteq> []"
  shows "acc_ok h (hs @ [(src, e)]) (Some (dict_get d h new_device_acc
     \<lparr>da_source_ids := List.insert src (da_source_ids (dict_get d h new_device_acc)), da_per_source := x,
      da_worst_rank := y, da_total := da_total (dict_get d h new_device_acc) + 1, da_categories := z\<rparr>))"
  using assms by (cases "map_of d h") (simp_all add: acc_ok_def dict_get_def new_device_acc_def)

lemma accs_ok_step:
  assumes "accs_ok ip6 k ps d"
  shows "accs_ok ip6 k (ps @ [(src, e)]) (acc_event ip6 k src e d)"
proof -
  let ?h = "short_host ip6 True (ev_hostname e)"
  have d: "distinct (map fst d)" and at: "acc_ok h (hits ip6 k h ps) (map_of d h)" for h
    using assms by (simp_all add: accs_ok_def)
  have hits: "hits ip6 k h (ps @ [(src, e)]) = hits ip6 k h ps @
      (if dict_get severity_rank (ev_severity e) 999 \<le> k \<and> ?h = h then [(src, e)] else [])" for h
    by (simp add: hits_def)
  show ?thesis
  proof (cases "dict_get severity_rank (ev_severity e) 999 \<le> k \<and> ?h \<noteq> []")
    case False
    then have same: "acc_event ip6 k src e d = d" by (auto simp: acc_event_def Let_def)
    have "acc_ok h (hits ip6 k h (ps @ [(src, e)])) (map_of d h)" for h
    proof (cases "h = []")
      case True
      then show ?thesis using at acc_ok_empty_host by blast
    next
      case h: False
      with False have "hits ip6 k h (ps @ [(src, e)]) = hits ip6 k h ps" unfolding hits by auto
      then show ?thesis using at by simp
    qed
    then show ?thesis unfolding accs_ok_def same using d by blast
  next
    case True
    then obtain x y z where a: "acc_event ip6 k src e d = AList.update ?h (dict_get d ?h new_device_acc
        \<lparr>da_source_ids := List.insert src (da_source_ids (dict_get d ?h new_device_acc)), da_per_source := x,
         da_worst_rank := y, da_total := da_total (dict_get d ?h new_device_acc) + 1, da_categories := z\<rparr>) d"
      by (simp add: acc_event_def Let_def)
    have "acc_ok h (hits ip6 k h (ps @ [(src, e)])) (map_of (acc_event ip6 k src e d) h)" for h
    proof (cases "h = ?h")
      case True
      with \<open>dict_get severity_rank (ev_severity e) 999 \<le> k \<and> ?h \<noteq> []\<close> show ?thesis
        using acc_ok_grow [OF at [of ?h]] unfolding a hits by simp
    next
      case False
      then show ?thesis using at [of h] unfolding a hits by simp
    qed
    then show ?thesis unfolding accs_ok_def using d by (simp add: a distinct_keys_update)
  qed
qed

lemma accs_ok_fold: "accs_ok ip6 k ps (fold (\<lambda>(src, e). acc_event ip6 k src e) ps [])"
proof (induction ps rule: rev_induct)
  case (snoc p ps)
  then show ?case using accs_ok_step [OF snoc] by (cases p) simp
qed (simp add: accs_ok_def acc_ok_def hits_def)

text \<open>
  When a device is confirmed. A host is among the confirmed devices exactly when events at or above the
  requested severity name it in at least two distinct sources, and among the suspected ones exactly when
  they name it in one; every listed device counts all its events.
\<close>

theorem confirmed_iff_two_sources:
  assumes "correlate_sources classify ip6 by_source min_severity = Inr r"
    and "map_of severity_rank min_severity = Some k"
  shows "(h \<in> dc_hostname ` set (sc_confirmed r) \<longleftrightarrow>
            h \<noteq> [] \<and> 2 \<le> card (fst ` set (hits ip6 k h (tagged classify by_source)))) \<and>
         (h \<in> dc_hostname ` set (sc_suspected r) \<longleftrightarrow>
            h \<noteq> [] \<and> card (fst ` set (hits ip6 k h (tagged classify by_source))) = 1) \<and>
         (\<forall>dc\<in>set (sc_devices r). dc_total_events dc = length (hits ip6 k (dc_hostname dc) (tagged classify by_source)))"
proof -
  let ?ps = "tagged classify by_source"
  define accs where "accs = fold (acc_source classify ip6 k) by_source []"
  have ok: "accs_ok ip6 k ?ps accs" unfolding accs_def fold_tagged by (rule accs_ok_fold)
  then have dist: "distinct (map fst accs)" by (simp add: accs_ok_def)
  have acc: "h \<noteq> [] \<and> length (da_source_ids a) = card (fst ` set (hits ip6 k h ?ps)) \<and>
      hits ip6 k h ?ps \<noteq> [] \<and> da_total a = length (hits ip6 k h ?ps)" if "(h, a) \<in> set accs" for h a
  proof -
    from that dist have "map_of accs h = Some a" by simp
    with ok have "acc_ok h (hits ip6 k h ?ps) (Some a)" unfolding accs_ok_def by metis
    then show ?thesis by (simp add: acc_ok_def flip: distinct_card)
  qed
  have none: "h = [] \<or> hits ip6 k h ?ps = []" if "h \<notin> fst ` set accs" for h
  proof -
    from that have "map_of accs h = None" by (simp add: map_of_eq_None_iff)
    with ok have "acc_ok h (hits ip6 k h ?ps) None" unfolding accs_ok_def by metis
    then show ?thesis by (simp add: acc_ok_def)
  qed
  have dev: "dc \<in> set (map (device_of_acc ip6) accs) \<Longrightarrow>
      \<exists>a. (dc_hostname dc, a) \<in> set accs \<and> dc_total_events dc = da_total a \<and>
          (dc_status dc = ''confirmed'' \<longleftrightarrow> 2 \<le> length (da_source_ids a))" for dc
    by (auto simp: device_of_acc_def Let_def)
  have conf: "set (sc_confirmed r) = {dc \<in> set (map (device_of_acc ip6) accs). dc_status dc = ''confirmed''}"
    and susp: "set (sc_suspected r) = {dc \<in> set (map (device_of_acc ip6) accs). dc_status dc \<noteq> ''confirmed''}"
    and all: "set (sc_devices r) \<subseteq> set (map (device_of_acc ip6) accs)"
    using assms by (auto simp: correlate_sources_def Let_def accs_def)
  have found: "(h, a) \<in> set accs \<Longrightarrow> \<exists>dc\<in>set (map (device_of_acc ip6) accs). dc_hostname dc = h \<and>
      (dc_status dc = ''confirmed'' \<longleftrightarrow> 2 \<le> length (da_source_ids a))" for h a
  proof (rule bexI [of _ "device_of_acc ip6 (h, a)"])
    show "dc_hostname (device_of_acc ip6 (h, a)) = h \<and>
        (dc_status (device_of_acc ip6 (h, a)) = ''confirmed'' \<longleftrightarrow> 2 \<le> length (da_source_ids a))"
      by (simp add: device_of_acc_def Let_def)
  qed simp
  have listed: "(h \<in> dc_hostname ` {dc \<in> set (map (device_of_acc ip6) accs). (dc_status dc = ''confirmed'') = b}) \<longleftrightarrow>
      (\<exists>a. (h, a) \<in> set accs \<and> (2 \<le> length (da_source_ids a)) = b)" for h b
  proof
    assume "h \<in> dc_hostname ` {dc \<in> set (map (device_of_acc ip6) accs). (dc_status dc = ''confirmed'') = b}"
    then obtain dc where "dc \<in> set (map (device_of_acc ip6) accs)" "(dc_status dc = ''confirmed'') = b" "h = dc_hostname dc"
      by blast
    with dev [of dc] show "\<exists>a. (h, a) \<in> set accs \<and> (2 \<le> length (da_source_ids a)) = b" by blast
  next
    assume "\<exists>a. (h, a) \<in> set accs \<and> (2 \<le> length (da_source_ids a)) = b"
    then obtain a where "(h, a) \<in> set accs" "(2 \<le> length (da_source_ids a)) = b" by blast
    with found [of h a] show "h \<in> dc_hostname ` {dc \<in> set (map (device_of_acc ip6) accs). (dc_status dc = ''confirmed'') = b}"
      by blast
  qed
  have count: "(\<exists>a. (h, a) \<in> set accs \<and> (2 \<le> length (da_source_ids a)) = b) \<longleftrightarrow>
      h \<noteq> [] \<and> hits ip6 k h ?ps \<noteq> [] \<and> (2 \<le> card (fst ` set (hits ip6 k h ?ps))) = b" for h b
  proof (cases "h \<in> fst ` set accs")
    case True
    then obtain a where "(h, a) \<in> set accs" by auto
    with acc show ?thesis by metis
  next
    case False
    then show ?thesis using none [of h] by (auto simp: image_iff)
  qed
  have pos: "hits ip6 k h ?ps \<noteq> [] \<longleftrightarrow> 0 < card (fst ` set (hits ip6 k h ?ps))"
    by (simp add: card_gt_0_iff)
  have "h \<in> dc_hostname ` set (sc_confirmed r) \<longleftrightarrow> h \<noteq> [] \<and> hits ip6 k h ?ps \<noteq> [] \<and> 2 \<le> card (fst ` set (hits ip6 k h ?ps))"
    using listed [of h True] count [of h True] unfolding conf by simp
  moreover have "h \<in> dc_hostname ` set (sc_suspected r) \<longleftrightarrow> h \<noteq> [] \<and> hits ip6 k h ?ps \<noteq> [] \<and> \<not> 2 \<le> card (fst ` set (hits ip6 k h ?ps))"
    using listed [of h False] count [of h False] unfolding susp by simp
  moreover have "\<forall>dc\<in>set (sc_devices r). dc_total_events dc = length (hits ip6 k (dc_hostname dc) ?ps)"
    using dev acc all by (metis subsetD)
  ultimately show ?thesis using pos by auto
qed

definition two_sources :: "(string \<times> log_event list) list" where
  "two_sources = [(''kibana'', []), (''librenms'', [])]"

definition demo_classify :: "log_event list \<Rightarrow> event list" where
  "demo_classify raw = [blank_event\<lparr>ev_hostname := ''fra4-fw-01.example'', ev_severity := ''high''\<rparr>]"

theorem confirmed_iff_two_sources_witness:
  "\<exists>r. correlate_sources demo_classify (\<lambda>_. None) two_sources ''medium'' = Inr r \<and>
       ''fra4-fw-01'' \<in> dc_hostname ` set (sc_confirmed r)"
proof -
  have k: "map_of severity_rank ''medium'' = Some 2" by (simp add: severity_rank_def)
  then obtain r where r: "correlate_sources demo_classify (\<lambda>_. None) two_sources ''medium'' = Inr r"
    by (simp add: correlate_sources_def Let_def)
  have "card (fst ` set (hits (\<lambda>_. None) 2 ''fra4-fw-01'' (tagged demo_classify two_sources))) = 2"
    by (simp add: hits_def tagged_def demo_classify_def two_sources_def severity_rank_def dict_get_def short_host_def Let_def
        is_ip_literal_def strip_chars_def strip_def is_space_def parse_v4_def parse_octet_def lower_def lower_char_def
        blank_event_def)
  with confirmed_iff_two_sources [OF r k, of "''fra4-fw-01''"] have "''fra4-fw-01'' \<in> dc_hostname ` set (sc_confirmed r)"
    by simp
  with r show ?thesis by blast
qed

end
