(* ===== verification/Incident_Laws.thy ===== *)
theory Incident_Laws
  imports Incidents Correlate_Laws
begin

text \<open>
  Laws of the clustering. The contract of a disjoint-set table is the locale \<open>disjoint_sets\<close>: a join makes
  two classes one and keeps the others. Its one consequence, that after any list of joins two elements have
  the same representative exactly when they are connected by the joins, is proved there, and the union-find
  lists of \<open>correlate_entities\<close> are interpreted as such a table. From it: the clusters are the connected
  components, the fuel is enough, and \<open>correlate_entities\<close> always returns.
\<close>

section \<open>The contract\<close>

definition linked :: "(nat \<times> nat) list \<Rightarrow> nat \<Rightarrow> nat \<Rightarrow> bool" where
  "linked js x y \<longleftrightarrow> (x, y) \<in> (set js \<union> (set js)\<inverse>)\<^sup>*"

lemma linked_refl [simp]: "linked js x x"
  by (simp add: linked_def)

lemma linked_trans: "linked js x y \<Longrightarrow> linked js y z \<Longrightarrow> linked js x z"
  unfolding linked_def by (rule rtrancl_trans)

lemma linked_snoc:
  "linked (js @ [(a, b)]) x y \<longleftrightarrow>
     linked js x y \<or> (linked js x a \<and> linked js b y) \<or> (linked js x b \<and> linked js a y)"
proof -
  have "set (js @ [(a, b)]) \<union> (set (js @ [(a, b)]))\<inverse> = insert (a, b) (insert (b, a) (set js \<union> (set js)\<inverse>))"
    by auto
  then have "linked (js @ [(a, b)]) x y \<longleftrightarrow>
      (linked js x y \<or> linked js x b \<and> linked js a y) \<or>
      (linked js x a \<or> linked js x b \<and> linked js a a) \<and> (linked js b y \<or> linked js b b \<and> linked js a y)"
    unfolding linked_def by (simp add: rtrancl_insert)
  then show ?thesis using linked_trans by auto
qed

locale disjoint_sets =
  fixes inv :: "'t \<Rightarrow> bool"
    and rep :: "'t \<Rightarrow> nat \<Rightarrow> nat"
    and size_of :: "'t \<Rightarrow> nat"
    and join :: "nat \<Rightarrow> nat \<Rightarrow> 't \<Rightarrow> 't option"
  assumes join_ok: "inv t \<Longrightarrow> a < size_of t \<Longrightarrow> b < size_of t \<Longrightarrow>
      \<exists>t'. join a b t = Some t' \<and> inv t' \<and> size_of t' = size_of t \<and>
           (\<forall>x < size_of t. rep t' x = (if rep t x = rep t b then rep t a else rep t x))"
begin

fun joins :: "(nat \<times> nat) list \<Rightarrow> 't \<Rightarrow> 't option" where
  "joins [] t = Some t"
| "joins ((a, b) # js) t = (case join a b t of None \<Rightarrow> None | Some t' \<Rightarrow> joins js t')"

lemma joins_append:
  "joins (js @ ks) t = (case joins js t of None \<Rightarrow> None | Some t' \<Rightarrow> joins ks t')"
  by (induction js t rule: joins.induct) (auto split: option.splits)

lemma joins_connect:
  assumes "inv t" and "\<forall>(a, b)\<in>set js. a < size_of t \<and> b < size_of t"
    and "\<And>x. x < size_of t \<Longrightarrow> rep t x = x"
  shows "\<exists>t'. joins js t = Some t' \<and> inv t' \<and> size_of t' = size_of t \<and>
     (\<forall>x < size_of t. \<forall>y < size_of t. rep t' x = rep t' y \<longleftrightarrow> linked js x y)"
  using assms(2)
proof (induction js rule: rev_induct)
  case Nil
  then show ?case using assms(1,3) by (simp add: linked_def)
next
  case (snoc j js)
  obtain a b where j: "j = (a, b)" by (metis surj_pair)
  obtain t1 where t1: "joins js t = Some t1" "inv t1" "size_of t1 = size_of t"
      and cls: "\<And>x y. x < size_of t \<Longrightarrow> y < size_of t \<Longrightarrow> rep t1 x = rep t1 y \<longleftrightarrow> linked js x y"
    using snoc by auto
  have ab: "a < size_of t" "b < size_of t" using snoc.prems j by auto
  obtain t2 where t2: "join a b t1 = Some t2" "inv t2" "size_of t2 = size_of t"
      and rep: "\<And>x. x < size_of t \<Longrightarrow> rep t2 x = (if rep t1 x = rep t1 b then rep t1 a else rep t1 x)"
    using join_ok [OF t1(2)] ab t1(3) by metis
  have grow: "linked (js @ [j]) x y \<longleftrightarrow>
      linked js x y \<or> (linked js x a \<and> linked js b y) \<or> (linked js x b \<and> linked js a y)" for x y
    unfolding j by (rule linked_snoc)
  have "rep t2 x = rep t2 y \<longleftrightarrow> linked (js @ [j]) x y" if "x < size_of t" "y < size_of t" for x y
  proof -
    have "rep t2 x = rep t2 y \<longleftrightarrow> rep t1 x = rep t1 y \<or> (rep t1 x = rep t1 a \<and> rep t1 b = rep t1 y) \<or>
        (rep t1 x = rep t1 b \<and> rep t1 a = rep t1 y)"
      unfolding rep [OF that(1)] rep [OF that(2)] by auto
    then show ?thesis unfolding grow cls [OF that] cls [OF that(1) ab(1)] cls [OF that(1) ab(2)]
        cls [OF ab(1) that(2)] cls [OF ab(2) that(2)] .
  qed
  then show ?case using t1 t2 j by (auto simp: joins_append)
qed

end

section \<open>Union-find with path halving\<close>

text \<open>\<open>rep\<close> names each entry's root, and \<open>d\<close> falls along every parent link that is not a root.\<close>

definition uf_ok :: "nat list \<Rightarrow> (nat \<Rightarrow> nat) \<Rightarrow> (nat \<Rightarrow> nat) \<Rightarrow> bool" where
  "uf_ok par rep d \<longleftrightarrow> (\<forall>i<length par. par ! i < length par \<and> rep i < length par \<and> rep (par ! i) = rep i \<and>
     par ! rep i = rep i \<and> (par ! i = i \<longrightarrow> rep i = i) \<and> (par ! i \<noteq> i \<longrightarrow> d (par ! i) < d i))"

lemma uf_okD:
  assumes "uf_ok par rep d" and "i < length par"
  shows "par ! i < length par" "rep i < length par" "rep (par ! i) = rep i" "par ! rep i = rep i"
    "par ! i = i \<Longrightarrow> rep i = i" "par ! i \<noteq> i \<Longrightarrow> d (par ! i) < d i"
  using assms by (auto simp: uf_ok_def)

lemma uf_halve:
  assumes ok: "uf_ok par rep d" and i: "i < length par" and no: "par ! i \<noteq> i"
  shows "uf_ok (par[i := par ! (par ! i)]) rep d" and "d (par ! (par ! i)) < d i" and "par ! (par ! i) < length par"
    and "rep (par ! (par ! i)) = rep i"
proof -
  let ?p = "par ! i"
  note p = uf_okD [OF ok i] and g = uf_okD [OF ok uf_okD(1) [OF ok i]]
  show less: "d (par ! ?p) < d i" using p(6) [OF no] g(6) by (cases "par ! ?p = ?p") auto
  show gl: "par ! ?p < length par" and gr: "rep (par ! ?p) = rep i" using g(1,3) p(3) by auto
  have ri: "rep i \<noteq> i" using p(4) no by auto
  show "uf_ok (par[i := par ! ?p]) rep d"
    unfolding uf_ok_def
  proof (intro allI impI)
    fix k assume "k < length (par[i := par ! ?p])"
    then have k: "k < length par" by simp
    note kk = uf_okD [OF ok k]
    have "rep k \<noteq> i" using ri kk(4) no by auto
    then show "par[i := par ! ?p] ! k < length (par[i := par ! ?p]) \<and> rep k < length (par[i := par ! ?p]) \<and>
        rep (par[i := par ! ?p] ! k) = rep k \<and> par[i := par ! ?p] ! rep k = rep k \<and>
        (par[i := par ! ?p] ! k = k \<longrightarrow> rep k = k) \<and>
        (par[i := par ! ?p] ! k \<noteq> k \<longrightarrow> d (par[i := par ! ?p] ! k) < d k)"
      using kk gl gr less i by (cases "k = i") (auto simp: nth_list_update)
  qed
qed

lemma uf_find_ok:
  assumes "uf_ok par rep d" and "i < length par" and "card {j. j < length par \<and> d j < d i} < fuel"
  shows "\<exists>par'. uf_find fuel par i = Some (par', rep i) \<and> uf_ok par' rep d \<and> length par' = length par"
  using assms
proof (induction fuel arbitrary: par i)
  case (Suc fuel)
  show ?case
  proof (cases "par ! i = i")
    case True
    then show ?thesis using Suc.prems uf_okD(5) [OF Suc.prems(1,2)] by simp
  next
    case False
    let ?g = "par ! (par ! i)" and ?par = "par[i := par ! (par ! i)]"
    note h = uf_halve [OF Suc.prems(1,2) False]
    have "{j. j < length par \<and> d j < d ?g} \<subset> {j. j < length par \<and> d j < d i}"
      using h(2,3) by force
    then have "card {j. j < length par \<and> d j < d ?g} < card {j. j < length par \<and> d j < d i}"
      by (intro psubset_card_mono) simp_all
    then have less: "card {j. j < length ?par \<and> d j < d ?g} < fuel" using Suc.prems(3) by simp
    have "?g < length ?par" using h(3) by simp
    from Suc.IH [OF h(1) this less] obtain par' where
      "uf_find fuel ?par ?g = Some (par', rep ?g)" "uf_ok par' rep d" "length par' = length ?par" by blast
    then show ?thesis using False h(4) Suc.prems(2) by (simp add: Let_def)
  qed
qed simp

lemma uf_find_total:
  assumes "uf_ok par rep d" and "i < length par"
  shows "\<exists>par'. uf_find (Suc (length par)) par i = Some (par', rep i) \<and> uf_ok par' rep d \<and> length par' = length par"
proof -
  have "card {j. j < length par \<and> d j < d i} \<le> card {..<length par}" by (intro card_mono) auto
  then show ?thesis by (intro uf_find_ok assms) simp
qed

lemma uf_link:
  assumes ok: "uf_ok par rep d" and ra: "ra < length par" "rep ra = ra" and rb: "rb < length par" "rep rb = rb"
    and "ra \<noteq> rb"
  shows "uf_ok (par[rb := ra]) (\<lambda>x. if rep x = rb then ra else rep x) (\<lambda>x. d x + (if rep x = rb then Suc (d ra) else 0))"
    (is "uf_ok ?par ?rep ?d")
  unfolding uf_ok_def
proof (intro allI impI)
  fix k assume "k < length ?par"
  then have k: "k < length par" by simp
  note kk = uf_okD [OF ok k]
  have pa: "par ! ra = ra" "par ! rb = rb" using uf_okD(4) [OF ok] ra rb by metis+
  show "?par ! k < length ?par \<and> ?rep k < length ?par \<and> ?rep (?par ! k) = ?rep k \<and> ?par ! ?rep k = ?rep k \<and>
      (?par ! k = k \<longrightarrow> ?rep k = k) \<and> (?par ! k \<noteq> k \<longrightarrow> ?d (?par ! k) < ?d k)"
  proof (cases "k = rb")
    case True
    then show ?thesis using ra rb \<open>ra \<noteq> rb\<close> pa by (simp add: nth_list_update)
  next
    case False
    then show ?thesis using kk ra(1) \<open>ra \<noteq> rb\<close> pa by (auto simp: nth_list_update)
  qed
qed

definition uf_inv :: "nat list \<Rightarrow> bool" where
  "uf_inv par \<longleftrightarrow> (\<exists>rep d. uf_ok par rep d)"

definition uf_root :: "nat list \<Rightarrow> nat \<Rightarrow> nat" where
  "uf_root par i = (case uf_find (Suc (length par)) par i of None \<Rightarrow> i | Some (par', r) \<Rightarrow> r)"

lemma uf_root_eq: "uf_ok par rep d \<Longrightarrow> i < length par \<Longrightarrow> uf_root par i = rep i"
  using uf_find_total [of par rep d i] by (auto simp: uf_root_def)

lemma uf_union_ok:
  assumes "uf_inv par" and "a < length par" and "b < length par"
  shows "\<exists>par'. uf_union a b par = Some par' \<and> uf_inv par' \<and> length par' = length par \<and>
     (\<forall>x<length par. uf_root par' x = (if uf_root par x = uf_root par b then uf_root par a else uf_root par x))"
proof -
  obtain rep d where ok: "uf_ok par rep d" using assms(1) by (auto simp: uf_inv_def)
  obtain p1 where p1: "uf_find (Suc (length par)) par a = Some (p1, rep a)" "uf_ok p1 rep d" "length p1 = length par"
    using uf_find_total [OF ok assms(2)] by blast
  have "b < length p1" using assms(3) p1(3) by simp
  from uf_find_total [OF p1(2) this] obtain p2 where
    p2: "uf_find (Suc (length par)) p1 b = Some (p2, rep b)" "uf_ok p2 rep d" "length p2 = length par"
    using p1(3) by auto
  have idem: "rep (rep x) = rep x" if "x < length par" for x
    using uf_okD [OF ok that] uf_okD [OF ok, of "rep x"] by auto
  have root: "uf_root par x = rep x" if "x < length par" for x by (rule uf_root_eq [OF ok that])
  show ?thesis
  proof (cases "rep a = rep b")
    case True
    have "uf_root p2 x = rep x" if "x < length par" for x using uf_root_eq [OF p2(2)] p2(3) that by simp
    moreover have "uf_union a b par = Some p2" using p1 p2 True by (simp add: uf_union_def)
    moreover have "uf_inv p2" using p2(2) by (auto simp: uf_inv_def)
    ultimately show ?thesis using p2(3) root assms(2,3) True by auto
  next
    case False
    have l: "uf_ok (p2[rep b := rep a]) (\<lambda>x. if rep x = rep b then rep a else rep x)
        (\<lambda>x. d x + (if rep x = rep b then Suc (d (rep a)) else 0))"
      using uf_link [OF p2(2), of "rep a" "rep b"] False idem uf_okD(2) [OF ok] assms(2,3) p2(3) by simp
    have "uf_root (p2[rep b := rep a]) x = (if rep x = rep b then rep a else rep x)" if "x < length par" for x
      using uf_root_eq [OF l, of x] p2(3) that by simp
    moreover have "uf_union a b par = Some (p2[rep b := rep a])" using p1 p2 False by (simp add: uf_union_def)
    moreover have "uf_inv (p2[rep b := rep a])" using l by (auto simp: uf_inv_def)
    ultimately show ?thesis using p2(3) root assms(2,3) by auto
  qed
qed

interpretation uf: disjoint_sets uf_inv uf_root length uf_union
  by unfold_locales (rule uf_union_ok)

section \<open>Clusters\<close>

lemma uf_inv_start: "uf_inv [0..<n]"
proof -
  have "uf_ok [0..<n] id id" by (simp add: uf_ok_def)
  then show ?thesis unfolding uf_inv_def by blast
qed

lemma uf_root_start: "x < n \<Longrightarrow> uf_root [0..<n] x = x"
  by (simp add: uf_root_def)

definition ends_of :: "join list \<Rightarrow> (nat \<times> nat) list" where
  "ends_of js = map (\<lambda>(a, b, _). (a, b)) js"

definition joins_within :: "nat \<Rightarrow> join list \<Rightarrow> bool" where
  "joins_within n js \<longleftrightarrow> (\<forall>(a, b, _)\<in>set js. a < n \<and> b < n)"

lemma link_joins_split:
  assumes "uf.joins (ends_of js) (lk_parent lk) = Some par"
    and "uf.joins (ends_of (filter (\<lambda>j. \<not> temporal j) js)) (lk_eparent lk) = Some epar"
  shows "\<exists>edges. link_joins js lk = Some \<lparr>lk_parent = par, lk_eparent = epar, lk_edges = edges\<rparr>"
  using assms
proof (induction js arbitrary: lk)
  case Nil
  then show ?case by (cases lk) (auto simp: ends_of_def)
next
  case (Cons j js)
  obtain a b ev where j: "j = (a, b, ev)" by (metis surj_pair)
  obtain p1 where p1: "uf_union a b (lk_parent lk) = Some p1" "uf.joins (ends_of js) p1 = Some par"
    using Cons.prems(1) by (auto simp: ends_of_def j split: option.splits)
  show ?case
  proof (cases "temporal j")
    case True
    let ?lk = "\<lparr>lk_parent = p1, lk_eparent = lk_eparent lk, lk_edges = push b ev (push a ev (lk_edges lk))\<rparr>"
    have "link_join j lk = Some ?lk" using p1(1) True by (simp add: link_join_def j)
    moreover have "\<exists>edges. link_joins js ?lk = Some \<lparr>lk_parent = par, lk_eparent = epar, lk_edges = edges\<rparr>"
      using Cons.prems(2) True p1(2) by (intro Cons.IH) simp_all
    ultimately show ?thesis by simp
  next
    case False
    then obtain e1 where e1: "uf_union a b (lk_eparent lk) = Some e1"
        "uf.joins (ends_of (filter (\<lambda>j. \<not> temporal j) js)) e1 = Some epar"
      using Cons.prems(2) by (auto simp: ends_of_def j split: option.splits)
    let ?lk = "\<lparr>lk_parent = p1, lk_eparent = e1, lk_edges = push b ev (push a ev (lk_edges lk))\<rparr>"
    have "link_join j lk = Some ?lk" using p1(1) e1(1) False by (simp add: link_join_def j)
    moreover have "\<exists>edges. link_joins js ?lk = Some \<lparr>lk_parent = par, lk_eparent = epar, lk_edges = edges\<rparr>"
      using e1(2) p1(2) by (intro Cons.IH) simp_all
    ultimately show ?thesis by simp
  qed
qed

lemma link_joins_ok:
  assumes "joins_within n js"
  shows "\<exists>par epar edges. link_joins js (new_links n) = Some \<lparr>lk_parent = par, lk_eparent = epar, lk_edges = edges\<rparr> \<and>
     uf_inv par \<and> length par = n \<and> uf_inv epar \<and> length epar = n \<and>
     (\<forall>x<n. \<forall>y<n. uf_root par x = uf_root par y \<longleftrightarrow> linked (ends_of js) x y)"
proof -
  have w: "\<forall>(a, b)\<in>set (ends_of js). a < length [0..<n] \<and> b < length [0..<n]"
    and w': "\<forall>(a, b)\<in>set (ends_of (filter (\<lambda>j. \<not> temporal j) js)). a < length [0..<n] \<and> b < length [0..<n]"
    using assms by (auto simp: joins_within_def ends_of_def)
  obtain par where par: "uf.joins (ends_of js) [0..<n] = Some par" "uf_inv par" "length par = n"
      "\<forall>x<n. \<forall>y<n. uf_root par x = uf_root par y \<longleftrightarrow> linked (ends_of js) x y"
    using uf.joins_connect [OF uf_inv_start w] uf_root_start by auto
  obtain epar where epar: "uf.joins (ends_of (filter (\<lambda>j. \<not> temporal j) js)) [0..<n] = Some epar" "uf_inv epar"
      "length epar = n"
    using uf.joins_connect [OF uf_inv_start w'] uf_root_start by auto
  from link_joins_split [of js "new_links n" par epar] par(1) epar(1) obtain edges where
    "link_joins js (new_links n) = Some \<lparr>lk_parent = par, lk_eparent = epar, lk_edges = edges\<rparr>"
    by (auto simp: new_links_def)
  with par epar show ?thesis by blast
qed

text \<open>Grouping by a key: every key's members, in order, under the keys in order of first appearance.\<close>

lemma map_of_push [simp]: "map_of (push k v d) k' = (if k' = k then Some (dict_get d k [] @ [v]) else map_of d k')"
  by (simp add: push_def)

lemma distinct_push: "distinct (map fst d) \<Longrightarrow> distinct (map fst (push k v d))"
  by (simp add: push_def distinct_keys_update)

lemma fold_push:
  "distinct (map fst (fold (\<lambda>i. push (f i) (g i)) xs [])) \<and>
   map_of (fold (\<lambda>i. push (f i) (g i)) xs []) k
     = (if k \<in> f ` set xs then Some (map g (filter (\<lambda>i. f i = k) xs)) else None)"
proof (induction xs arbitrary: k rule: rev_induct)
  case (snoc x xs)
  have none: "k \<notin> f ` set xs \<Longrightarrow> filter (\<lambda>i. f i = k) xs = []" for k by (auto simp: filter_empty_conv)
  show ?case using snoc [of k] snoc [of "f x"] none
    by (auto simp: dict_get_def distinct_push)
qed simp

lemma set_fold_push:
  "set (fold (\<lambda>i. push (f i) (g i)) xs []) = (\<lambda>k. (k, map g (filter (\<lambda>i. f i = k) xs))) ` f ` set xs"
proof -
  let ?d = "fold (\<lambda>i. push (f i) (g i)) xs []"
  have "(k, ms) \<in> set ?d \<longleftrightarrow> k \<in> f ` set xs \<and> ms = map g (filter (\<lambda>i. f i = k) xs)" for k ms
    using fold_push [of f g xs k] by (metis map_of_eq_Some_iff option.inject option.simps(3))
  then show ?thesis by auto
qed

lemma group_roots_ok:
  assumes "uf_ok par rep d" and "\<forall>i\<in>set is. i < length par"
  shows "\<exists>par'. group_roots par is groups = Some (par', fold (\<lambda>i. push (rep i) i) is groups) \<and>
     uf_ok par' rep d \<and> length par' = length par"
  using assms
proof (induction "is" arbitrary: par groups)
  case (Cons i "is")
  then obtain p1 where p1: "uf_find (Suc (length par)) par i = Some (p1, rep i)" "uf_ok p1 rep d" "length p1 = length par"
    using uf_find_total [of par rep d i] by auto
  from Cons.IH [OF p1(2), of "push (rep i) i groups"] Cons.prems(2) p1(3) obtain par' where
    "group_roots p1 is (push (rep i) i groups) = Some (par', fold (\<lambda>i. push (rep i) i) is (push (rep i) i groups))"
    "uf_ok par' rep d" "length par' = length p1" by auto
  with p1 show ?case by simp
qed simp

lemma clusters_ok:
  assumes "uf_inv par" and "length par = n" and "lk_parent lk = par"
  shows "\<exists>clusters. clusters_of lk n = Some clusters \<and>
     set clusters = (\<lambda>r. filter (\<lambda>i. uf_root par i = r) [0..<n]) ` uf_root par ` {..<n} \<and> distinct clusters"
proof -
  obtain rep d where ok: "uf_ok par rep d" using assms(1) by (auto simp: uf_inv_def)
  have root: "x < n \<Longrightarrow> uf_root par x = rep x" for x using uf_root_eq [OF ok] assms(2) by simp
  let ?g = "fold (\<lambda>i. push (rep i) i) [0..<n] []"
  obtain par' where g: "group_roots par [0..<n] [] = Some (par', ?g)"
    using group_roots_ok [OF ok, of "[0..<n]" "[]"] assms(2) by auto
  have s: "set ?g = (\<lambda>k. (k, filter (\<lambda>i. rep i = k) [0..<n])) ` rep ` {..<n}"
    using set_fold_push [of rep id "[0..<n]"] by (simp add: atLeast0LessThan id_def)
  have "distinct (map fst ?g)" using fold_push [of rep id "[0..<n]"] by (simp add: id_def)
  moreover have "inj_on snd (set ?g)"
    unfolding s
  proof (rule inj_onI)
    fix p q assume "p \<in> (\<lambda>k. (k, filter (\<lambda>i. rep i = k) [0..<n])) ` rep ` {..<n}"
      and "q \<in> (\<lambda>k. (k, filter (\<lambda>i. rep i = k) [0..<n])) ` rep ` {..<n}" and e: "snd p = snd q"
    then obtain x k where p: "x < n" "p = (rep x, filter (\<lambda>i. rep i = rep x) [0..<n])" "q = (k, filter (\<lambda>i. rep i = k) [0..<n])"
      by blast
    have same: "filter (\<lambda>i. rep i = k) [0..<n] = filter (\<lambda>i. rep i = rep x) [0..<n]" using e p by simp
    have "x \<in> set (filter (\<lambda>i. rep i = k) [0..<n])" unfolding same using p(1) by simp
    then have "rep x = k" by simp
    then show "p = q" using p by simp
  qed
  ultimately have "distinct (map snd ?g)" by (simp add: distinct_map)
  moreover have "set (map snd ?g) = (\<lambda>r. filter (\<lambda>i. uf_root par i = r) [0..<n]) ` uf_root par ` {..<n}"
  proof -
    have "uf_root par ` {..<n} = rep ` {..<n}" by (rule image_cong) (simp_all add: root)
    moreover have "filter (\<lambda>i. uf_root par i = r) [0..<n] = filter (\<lambda>i. rep i = r) [0..<n]" for r
      by (rule filter_cong) (simp_all add: root)
    ultimately show ?thesis unfolding set_map s by (simp add: image_image)
  qed
  ultimately show ?thesis using g assms(3) by (simp add: clusters_of_def)
qed

text \<open>
  C6: clusters are connected components. Applying any list of joins to a pool of \<open>n\<close> events, in any order,
  the union-find loops return, the clusters partition the pool, and two events are in the same cluster
  exactly when a chain of joins connects them.
\<close>

theorem clusters_are_components:
  assumes "joins_within n js"
  shows "\<exists>lk clusters. link_joins js (new_links n) = Some lk \<and> clusters_of lk n = Some clusters \<and>
     distinct clusters \<and> \<Union> (set ` set clusters) = {..<n} \<and>
     (\<forall>c\<in>set clusters. sorted_wrt (<) c \<and> (\<forall>x\<in>set c. \<forall>y<n. y \<in> set c \<longleftrightarrow> linked (ends_of js) x y))"
proof -
  obtain par epar edges where lk: "link_joins js (new_links n) = Some \<lparr>lk_parent = par, lk_eparent = epar, lk_edges = edges\<rparr>"
      and par: "uf_inv par" "length par = n"
      and cls: "\<forall>x<n. \<forall>y<n. uf_root par x = uf_root par y \<longleftrightarrow> linked (ends_of js) x y"
    using link_joins_ok [OF assms] by blast
  let ?lk = "\<lparr>lk_parent = par, lk_eparent = epar, lk_edges = edges\<rparr>"
  obtain cs where cs: "clusters_of ?lk n = Some cs" "distinct cs"
      and s: "set cs = (\<lambda>r. filter (\<lambda>i. uf_root par i = r) [0..<n]) ` uf_root par ` {..<n}"
    using clusters_ok [OF par, of ?lk] by auto
  have "\<Union> (set ` set cs) = {..<n}" unfolding s by auto
  moreover have "sorted_wrt (<) c \<and> (\<forall>x\<in>set c. \<forall>y<n. y \<in> set c \<longleftrightarrow> linked (ends_of js) x y)" if c: "c \<in> set cs" for c
  proof -
    obtain r where r: "c = filter (\<lambda>i. uf_root par i = r) [0..<n]" using c unfolding s by blast
    have "y \<in> set c \<longleftrightarrow> linked (ends_of js) x y" if "x \<in> set c" "y < n" for x y
    proof -
      have x: "x < n" "uf_root par x = r" using that(1) by (simp_all add: r)
      have "y \<in> set c \<longleftrightarrow> uf_root par y = uf_root par x" using that(2) x by (simp add: r)
      then show ?thesis using cls x(1) that(2) by metis
    qed
    then show ?thesis unfolding r by (simp add: sorted_wrt_filter)
  qed
  ultimately show ?thesis using lk cs by blast
qed

theorem clusters_are_components_witness:
  "\<exists>lk clusters. link_joins [(0, 1, ''shared_ip'', ''10.0.0.1''), (2, 1, ''same_vrf'', ''red'')] (new_links 4) = Some lk \<and>
     clusters_of lk 4 = Some clusters \<and> \<Union> (set ` set clusters) = {..<4}"
proof -
  have "joins_within 4 [(0, 1, ''shared_ip'', ''10.0.0.1''), (2, 1, ''same_vrf'', ''red'')]"
    by (simp add: joins_within_def)
  from clusters_are_components [OF this] show ?thesis by (elim exE conjE) (intro exI conjI, assumption+)
qed

section \<open>Every join names pool entries\<close>

definition groups_within :: "nat \<Rightarrow> ('k \<times> nat list) list \<Rightarrow> bool" where
  "groups_within n d \<longleftrightarrow> (\<forall>(k, ms)\<in>set d. set ms \<subseteq> {..<n})"

lemma groups_within_push: "groups_within n d \<Longrightarrow> i < n \<Longrightarrow> groups_within n (push k i d)"
proof -
  assume d: "groups_within n d" and i: "i < n"
  have "set (dict_get d k []) \<subseteq> {..<n}"
  proof (cases "map_of d k")
    case (Some ms)
    then have "(k, ms) \<in> set d" by (rule map_of_SomeD)
    with d Some show ?thesis by (auto simp: dict_get_def groups_within_def)
  qed (simp add: dict_get_def)
  moreover have "set (AList.update k v d) \<subseteq> insert (k, v) (set d)" for v
    by (induction d) auto
  ultimately show ?thesis using d i unfolding groups_within_def push_def by fastforce
qed

lemma add_keys_within:
  assumes "groups_within n (fst d)" and "i < n"
  shows "groups_within n (fst (add_keys ip6 locals (i, e) d))"
proof -
  have "groups_within n (fst (fold (\<lambda>(evidence, key) (by_key, evidence_of).
      (push key i by_key, AList.update key evidence evidence_of)) ks d))" for ks
    using assms(1)
  proof (induction ks arbitrary: d)
    case (Cons k ks)
    obtain b e where "d = (b, e)" by (metis surj_pair)
    with Cons assms(2) show ?case by (cases k) (simp add: groups_within_push)
  qed simp
  then show ?thesis by (simp add: add_keys_def)
qed

lemma fold_add_keys_within:
  "groups_within n (fst d) \<Longrightarrow> \<forall>(i, e)\<in>set ies. i < n \<Longrightarrow> groups_within n (fst (fold (add_keys ip6 locals) ies d))"
proof (induction ies arbitrary: d)
  case (Cons p ies)
  obtain i e where p: "p = (i, e)" by (metis surj_pair)
  have "groups_within n (fst (add_keys ip6 locals (i, e) d))" using Cons.prems p by (intro add_keys_within) auto
  with Cons p show ?case by simp
qed simp

lemma fold_push_within:
  "groups_within n d \<Longrightarrow> \<forall>(i, h)\<in>set ihs. i < n \<Longrightarrow> groups_within n (fold (\<lambda>(i, h). push h i) ihs d)"
  by (induction ihs arbitrary: d) (auto simp: groups_within_push)

lemma pairs_of_within: "(a, b) \<in> set (pairs_of (order_of pv ms)) \<Longrightarrow> a \<in> set ms \<and> b \<in> set ms"
proof -
  assume "(a, b) \<in> set (pairs_of (order_of pv ms))"
  then have "a \<in> set (order_of pv ms)" "b \<in> set (tl (order_of pv ms))"
    unfolding pairs_of_def by (blast dest: set_zip_leftD set_zip_rightD)+
  moreover have "set (tl xs) \<subseteq> set xs" for xs :: "nat list" by (cases xs) auto
  moreover have "set (order_of pv ms) = set ms" by (simp add: order_of_def)
  ultimately show ?thesis by blast
qed

lemma enumerate_within: "\<forall>(i, e)\<in>set (enumerate 0 xs). i < length xs"
  by (auto simp: in_set_enumerate_eq)

lemma pool_joins_within:
  assumes "length (pv_hosts pv) = length (pv_pool pv)"
  shows "joins_within (length (pv_pool pv)) (pool_joins ip6 pv locals w sd hw)"
proof -
  let ?n = "length (pv_pool pv)"
  have k: "groups_within ?n (fst (fold (add_keys ip6 locals) (enumerate 0 (pv_pool pv)) ([], [])))"
    by (rule fold_add_keys_within) (use enumerate_within [of "pv_pool pv"] in \<open>auto simp: groups_within_def\<close>)
  have h: "groups_within ?n (fold (\<lambda>(i, h). push h i) (enumerate 0 (pv_hosts pv)) [])"
    by (rule fold_push_within) (use enumerate_within [of "pv_hosts pv"] assms in \<open>auto simp: groups_within_def\<close>)
  obtain bk ev where st: "fold (add_keys ip6 locals) (enumerate 0 (pv_pool pv)) ([], []) = (bk, ev)"
    by (metis surj_pair)
  have "joins_within ?n (key_joins ip6 pv locals w)"
    using k unfolding joins_within_def key_joins_def groups_within_def st fst_conv prod.case
    by (fastforce dest!: pairs_of_within)
  moreover have "joins_within ?n (host_joins pv sd hw)"
    using h unfolding joins_within_def host_joins_def groups_within_def
    by (fastforce dest!: pairs_of_within)
  ultimately show ?thesis by (auto simp: joins_within_def pool_joins_def)
qed

section \<open>Incidents\<close>

definition cluster_incident :: "pool_view \<Rightarrow> (nat \<times> (string \<times> string) list) list \<Rightarrow> bool \<Rightarrow> nat list \<Rightarrow> incident" where
  "cluster_incident pv edges bridged ms =
     incident_of pv (order_of pv ms) (root_of pv ms) (remdups (map ((!) (pv_hosts pv)) ms))
       (remdups (filter (\<lambda>v. v \<noteq> []) (map (\<lambda>i. ev_vendor (pv_pool pv ! i)) ms))) (evidence_for edges ms)
       (confidence_of (evidence_for edges ms) (came_first pv (root_of pv ms) ms) bridged)"

lemma build_incidents_ok:
  assumes "uf_inv epar" and "\<forall>c\<in>set cs. set c \<subseteq> {..<length epar}"
  shows "\<exists>incs. build_incidents pv edges epar cs = Some incs \<and>
     (\<forall>inc\<in>set incs. \<exists>ms\<in>set cs. \<exists>bridged. 2 \<le> length ms \<and> \<not> spans_one pv ms \<and>
        inc = cluster_incident pv edges bridged ms)"
  using assms
proof (induction cs arbitrary: epar)
  case (Cons c cs)
  show ?case
  proof (cases "length c < 2 \<or> spans_one pv c")
    case True
    obtain incs where "build_incidents pv edges epar cs = Some incs" "\<forall>inc\<in>set incs. \<exists>ms\<in>set cs. \<exists>bridged.
        2 \<le> length ms \<and> \<not> spans_one pv ms \<and> inc = cluster_incident pv edges bridged ms"
      using Cons.IH [OF Cons.prems(1)] Cons.prems(2) by auto
    with True show ?thesis by (intro exI [of _ incs]) auto
  next
    case False
    obtain rep d where ok: "uf_ok epar rep d" using Cons.prems(1) by (auto simp: uf_inv_def)
    obtain epar' parts where g: "group_roots epar c [] = Some (epar', parts)" "uf_ok epar' rep d" "length epar' = length epar"
      using group_roots_ok [OF ok, of c "[]"] Cons.prems(2) by auto
    have "uf_inv epar'" using g(2) by (auto simp: uf_inv_def)
    from Cons.IH [OF this] Cons.prems(2) g(3) obtain incs where
      incs: "build_incidents pv edges epar' cs = Some incs" "\<forall>inc\<in>set incs. \<exists>ms\<in>set cs. \<exists>bridged.
        2 \<le> length ms \<and> \<not> spans_one pv ms \<and> inc = cluster_incident pv edges bridged ms" by auto
    have "build_incidents pv edges epar (c # cs)
        = Some (cluster_incident pv edges (bridged_by_timing pv parts) c # incs)"
      using False g(1) incs(1) by (simp add: cluster_incident_def Let_def)
    with incs(2) False show ?thesis by (intro exI [of _ "cluster_incident pv edges (bridged_by_timing pv parts) c # incs"]) force
  qed
qed simp

definition pool_of :: "ip6 \<Rightarrow> nat \<Rightarrow> event list \<Rightarrow> event list" where
  "pool_of ip6 max_events events = fst (bound_events ip6 (filter considered events) max_events)"

definition joins_of :: "ip6 \<Rightarrow> ts_parser \<Rightarrow> datetime \<Rightarrow> rat \<Rightarrow> rat \<Rightarrow> rat \<Rightarrow> nat \<Rightarrow> event list \<Rightarrow> (nat \<times> nat) list" where
  "joins_of ip6 pts now w sd hw m events =
     ends_of (pool_joins ip6 (pool_view_of ip6 pts now (pool_of ip6 m events)) (local_asns events) w sd hw)"

lemma correlate_ok:
  "\<exists>c. correlate_entities ip6 pts now w sd hw m events = Some c \<and>
     (\<forall>inc\<in>set (co_incidents c). \<exists>ms edges bridged. distinct ms \<and> set ms \<subseteq> {..<length (pool_of ip6 m events)} \<and>
        (\<forall>x\<in>set ms. \<forall>y<length (pool_of ip6 m events). y \<in> set ms \<longleftrightarrow> linked (joins_of ip6 pts now w sd hw m events) x y) \<and>
        2 \<le> length ms \<and> \<not> spans_one (pool_view_of ip6 pts now (pool_of ip6 m events)) ms \<and>
        inc = cluster_incident (pool_view_of ip6 pts now (pool_of ip6 m events)) edges bridged ms)"
proof -
  obtain pool d k where b: "bound_events ip6 (filter considered events) m = (pool, d, k)" by (metis surj_pair)
  have pool: "pool_of ip6 m events = pool" by (simp add: pool_of_def b)
  show ?thesis
  proof (cases "pool = []")
    case True
    then show ?thesis by (simp add: correlate_entities_def b)
  next
    case False
    let ?pv = "pool_view_of ip6 pts now pool" and ?n = "length pool"
    let ?js = "pool_joins ip6 ?pv (local_asns events) w sd hw"
    have n: "length (pv_pool ?pv) = ?n" "length (pv_hosts ?pv) = ?n" by (simp_all add: pool_view_of_def Let_def)
    then have within: "joins_within ?n ?js" using pool_joins_within [of ?pv] by simp
    from clusters_are_components [OF this] obtain lk cs where
      lk: "link_joins ?js (new_links ?n) = Some lk" "clusters_of lk ?n = Some cs" and u: "\<Union> (set ` set cs) = {..<?n}"
      and cs: "\<forall>c\<in>set cs. sorted_wrt (<) c \<and> (\<forall>x\<in>set c. \<forall>y<?n. y \<in> set c \<longleftrightarrow> linked (ends_of ?js) x y)"
      by (elim exE conjE)
    have sub: "\<forall>c\<in>set cs. set c \<subseteq> {..<?n}" using u by blast
    have "uf_inv (lk_eparent lk) \<and> length (lk_eparent lk) = ?n" using link_joins_ok [OF within] lk(1) by auto
    then obtain incs where incs: "build_incidents ?pv (lk_edges lk) (lk_eparent lk) cs = Some incs"
        "\<forall>inc\<in>set incs. \<exists>ms\<in>set cs. \<exists>bridged. 2 \<le> length ms \<and> \<not> spans_one ?pv ms \<and>
           inc = cluster_incident ?pv (lk_edges lk) bridged ms"
      using build_incidents_ok [of "lk_eparent lk" cs ?pv "lk_edges lk"] sub by auto
    obtain c where c: "correlate_entities ip6 pts now w sd hw m events = Some c" "set (co_incidents c) = set incs"
      using False lk incs(1) by (simp add: correlate_entities_def b Let_def)
    have "\<exists>ms edges bridged. distinct ms \<and> set ms \<subseteq> {..<?n} \<and>
        (\<forall>x\<in>set ms. \<forall>y<?n. y \<in> set ms \<longleftrightarrow> linked (joins_of ip6 pts now w sd hw m events) x y) \<and>
        2 \<le> length ms \<and> \<not> spans_one ?pv ms \<and> inc = cluster_incident ?pv edges bridged ms"
      if inc: "inc \<in> set (co_incidents c)" for inc
    proof -
      from inc c(2) incs(2) obtain ms bridged where ms: "ms \<in> set cs" "2 \<le> length ms" "\<not> spans_one ?pv ms"
          "inc = cluster_incident ?pv (lk_edges lk) bridged ms" by blast
      then have "distinct ms" using cs unfolding sorted_wrt_less_iff by blast
      moreover have "\<forall>x\<in>set ms. \<forall>y<?n. y \<in> set ms \<longleftrightarrow> linked (joins_of ip6 pts now w sd hw m events) x y"
        using cs ms(1) unfolding joins_of_def pool by blast
      ultimately show ?thesis using ms sub by blast
    qed
    then show ?thesis unfolding pool using c(1) by blast
  qed
qed

text \<open>
  Correlation returns for every input: the fuel of the union-find loops is enough whatever the events.
\<close>

theorem correlate_entities_returns: "\<exists>c. correlate_entities ip6 pts now w sd hw m events = Some c"
  using correlate_ok by blast

lemma incident_of_fields:
  "inc_event_count (incident_of pv ordered rt hosts vendors ev conf) = length ordered"
  "inc_devices (incident_of pv ordered rt hosts vendors ev conf) = sort hosts"
  "inc_confidence (incident_of pv ordered rt hosts vendors ev conf) = conf"
  "inc_device_count (incident_of pv ordered rt hosts vendors ev conf) = length hosts"
  by (simp_all add: incident_of_def Let_def)

lemma root_of_least:
  assumes "i \<in> set ms"
  shows "root_sort_key (pv_layers pv ! root_of pv ms) (pv_times pv ! root_of pv ms) (pv_content pv ! root_of pv ms)
       \<le> root_sort_key (pv_layers pv ! i) (pv_times pv ! i) (pv_content pv ! i)"
  and "root_of pv ms \<in> set ms"
proof -
  have ms: "insert (hd ms) (set (tl ms)) = set ms" using assms by (cases ms) auto
  show "root_of pv ms \<in> set ms"
    using min_by_in [of "\<lambda>i. root_sort_key (pv_layers pv ! i) (pv_times pv ! i) (pv_content pv ! i)" "hd ms" "tl ms"]
    unfolding root_of_def ms .
  show "root_sort_key (pv_layers pv ! root_of pv ms) (pv_times pv ! root_of pv ms) (pv_content pv ! root_of pv ms)
       \<le> root_sort_key (pv_layers pv ! i) (pv_times pv ! i) (pv_content pv ! i)"
    unfolding root_of_def by (rule min_by_le) (use assms ms in simp)
qed

text \<open>
  What an incident is. Its events are exactly one connected component of the joins between the pool's
  events; they span at least two devices, vendors or layers; its counts and device list are theirs. Its
  root lies in the lowest layer of the component and is, within that layer, no later than any timed event;
  and high confidence is given only when no timed event of the component precedes the root.
\<close>

theorem incident_is_component:
  assumes "correlate_entities ip6 pts now w sd hw m events = Some c" and "inc \<in> set (co_incidents c)"
  defines "pv \<equiv> pool_view_of ip6 pts now (pool_of ip6 m events)"
  shows "\<exists>ms. distinct ms \<and> 2 \<le> length ms \<and> set ms \<subseteq> {..<length (pool_of ip6 m events)} \<and>
     (\<forall>x\<in>set ms. \<forall>y<length (pool_of ip6 m events). y \<in> set ms \<longleftrightarrow> linked (joins_of ip6 pts now w sd hw m events) x y) \<and>
     \<not> spans_one pv ms \<and> inc_event_count inc = length ms \<and> set (inc_devices inc) = (!) (pv_hosts pv) ` set ms \<and>
     inc_device_count inc = card (set (inc_devices inc)) \<and>
     (\<exists>rt\<in>set ms. (\<forall>i\<in>set ms. pv_layers pv ! rt \<le> pv_layers pv ! i \<and>
          (inc_confidence inc = ''high'' \<or> pv_layers pv ! i = pv_layers pv ! rt \<longrightarrow>
             (case (pv_times pv ! rt, pv_times pv ! i) of (Some t, Some u) \<Rightarrow> t \<le> u | _ \<Rightarrow> True))))"
proof -
  from correlate_ok [of ip6 pts now w sd hw m events] assms(1,2) obtain ms edges bridged where
    ms: "distinct ms" "set ms \<subseteq> {..<length (pool_of ip6 m events)}" "2 \<le> length ms" "\<not> spans_one pv ms"
      "\<forall>x\<in>set ms. \<forall>y<length (pool_of ip6 m events). y \<in> set ms \<longleftrightarrow> linked (joins_of ip6 pts now w sd hw m events) x y"
    and inc: "inc = cluster_incident pv edges bridged ms" unfolding pv_def by auto
  have count: "inc_event_count inc = length ms" "set (inc_devices inc) = (!) (pv_hosts pv) ` set ms"
    "inc_device_count inc = card (set (inc_devices inc))"
    by (simp_all add: inc cluster_incident_def incident_of_fields order_of_def length_remdups_card_conv)
  let ?r = "root_of pv ms"
  have r: "?r \<in> set ms" using root_of_least(2) [of "hd ms" ms] ms(3) by (cases ms) auto
  have "pv_layers pv ! ?r \<le> pv_layers pv ! i \<and>
      (inc_confidence inc = ''high'' \<or> pv_layers pv ! i = pv_layers pv ! ?r \<longrightarrow>
         (case (pv_times pv ! ?r, pv_times pv ! i) of (Some t, Some u) \<Rightarrow> t \<le> u | _ \<Rightarrow> True))" if i: "i \<in> set ms" for i
  proof -
    have key: "root_sort_key (pv_layers pv ! ?r) (pv_times pv ! ?r) (pv_content pv ! ?r)
       \<le> root_sort_key (pv_layers pv ! i) (pv_times pv ! i) (pv_content pv ! i)" by (rule root_of_least(1) [OF i])
    then have layer: "pv_layers pv ! ?r \<le> pv_layers pv ! i" by (auto simp: root_sort_key_def less_eq_prod_def)
    have "case (pv_times pv ! ?r, pv_times pv ! i) of (Some t, Some u) \<Rightarrow> t \<le> u | _ \<Rightarrow> True"
      if "pv_layers pv ! i = pv_layers pv ! ?r"
      using key that by (auto simp: root_sort_key_def less_eq_prod_def when_or_min_def split: option.splits)
    moreover have "case (pv_times pv ! ?r, pv_times pv ! i) of (Some t, Some u) \<Rightarrow> t \<le> u | _ \<Rightarrow> True"
      if "inc_confidence inc = ''high''"
    proof -
      have "came_first pv ?r ms" using that
        by (simp add: inc cluster_incident_def incident_of_fields confidence_of_def split: if_splits)
      then show ?thesis using i by (simp add: came_first_def list_all_iff)
    qed
    ultimately show ?thesis using layer by blast
  qed
  with r ms count show ?thesis by (intro exI [of _ ms]) blast
qed

definition vrf_events :: "event list" where
  "vrf_events = map (\<lambda>h. blank_event\<lparr>ev_hostname := h, ev_event_type := ''bgp_session'', ev_state := ''down'',
     ev_severity := ''high'', ev_vrf := ''red''\<rparr>) [''a'', ''b'']"

lemma vrf_incident:
  "map_option (\<lambda>c. map inc_devices (co_incidents c))
     (correlate_entities (\<lambda>_. None) (\<lambda>_. None) min_datetime 300 60 240 2000 vrf_events) = Some [[''a'', ''b'']]"
  by code_simp

theorem incident_is_component_witness:
  "\<exists>c inc (ms :: nat list). correlate_entities (\<lambda>_. None) (\<lambda>_. None) min_datetime 300 60 240 2000 vrf_events = Some c \<and>
     inc \<in> set (co_incidents c) \<and> inc_devices inc = [''a'', ''b''] \<and> distinct ms \<and> inc_event_count inc = length ms"
proof -
  obtain c where c: "correlate_entities (\<lambda>_. None) (\<lambda>_. None) min_datetime 300 60 240 2000 vrf_events = Some c"
      "map inc_devices (co_incidents c) = [[''a'', ''b'']]"
    using vrf_incident by (auto simp: map_option_case split: option.splits)
  have "[''a'', ''b''] \<in> set (map inc_devices (co_incidents c))" unfolding c(2) by simp
  then obtain inc where inc: "inc \<in> set (co_incidents c)" "inc_devices inc = [''a'', ''b'']" by auto
  have "\<exists>ms :: nat list. distinct ms \<and> inc_event_count inc = length ms"
    by (rule ex_forward [OF incident_is_component [OF c(1) inc(1)]]) (elim conjE, rule conjI, assumption, assumption)
  with c(1) inc show ?thesis by blast
qed

end
