(* ===== verification/Suppression.thy ===== *)
theory Suppression
  imports Incidents Entity_State Rbac
begin

text \<open>
  Topology-aware alert suppression (\<open>suppression.py\<close>): the dependency map, the ownership of addresses, the
  candidate roots in their order, the indexed search for the children of a root, and the groups.

  An event of the pool is named by its position (the code uses \<open>id(e)\<close> of pool entries), so \<open>order[id(e)]\<close>
  is the position itself. Python dictionaries of lists are association lists built in the code's order; sets
  whose iteration order cannot matter are duplicate-free lists. \<open>bisect\<close> is given by its documented result on
  a sorted list. The SHA-1 hex digest is the argument \<open>sha1\<close>, and \<open>read_file\<close> returns the JSON of the
  dependency map, or nothing where opening or parsing it fails.
\<close>

section \<open>The dependency map\<close>

record dependency_map =
  tp_ips :: "(string \<times> string) list"
  tp_children :: "(string \<times> string list) list"
  tp_ha_peer :: "(string \<times> string) list"
  tp_roles :: "(string \<times> string) list"

definition empty_topology :: dependency_map where
  "empty_topology = \<lparr>tp_ips = [], tp_children = [], tp_ha_peer = [], tp_roles = []\<rparr>"

definition owner_of :: "dependency_map \<Rightarrow> string \<Rightarrow> string" where
  "owner_of t ip = dict_get (tp_ips t) ip []"

text \<open>Iterating over a JSON value.\<close>

fun py_iter :: "json \<Rightarrow> py_error + json list" where
  "py_iter (JList xs) = Inr xs"
| "py_iter (JStr s) = Inr (map (\<lambda>c. JStr [c]) s)"
| "py_iter (JObj kvs) = Inr (map (\<lambda>(k, v). JStr k) kvs)"
| "py_iter _ = Inl Type_Error"

definition spec_ips :: "(string \<times> json) list \<Rightarrow> py_error + json list" where
  "spec_ips spec =
     (let ips = json_field spec ''ips''; mgmt = json_field spec ''mgmt_ip''
      in if truthy ips then py_iter ips else if truthy mgmt then Inr [mgmt] else Inr [])"

definition add_child :: "string \<Rightarrow> string \<Rightarrow> (string \<times> string list) list \<Rightarrow> (string \<times> string list) list" where
  "add_child h c d = AList.update h (List.insert c (dict_get d h [])) d"

definition add_spec ::
  "(json \<Rightarrow> string) \<Rightarrow> ip6 \<Rightarrow> json \<times> json \<Rightarrow> dependency_map \<Rightarrow> py_error + dependency_map" where
  "add_spec repr ip6 = (\<lambda>(host, spec) t.
     (case spec of
        JObj kvs \<Rightarrow>
          (if \<not> truthy host then Inr t
           else let h = short_host ip6 True (py_str repr host); kids = json_field kvs ''children'';
                    peer = json_field kvs ''ha_peer''; role = json_field kvs ''role''
                in case spec_ips kvs of
                     Inl e \<Rightarrow> Inl e
                   | Inr ips \<Rightarrow>
                       (case (if truthy kids then py_iter kids else Inr []) of
                          Inl e \<Rightarrow> Inl e
                        | Inr cs \<Rightarrow>
                            (let addr = map (\<lambda>j. valid_ip ip6 (py_str repr j)) ips;
                                 t1 = t\<lparr>tp_ips := fold (\<lambda>a d. if a \<noteq> [] then AList.update a h d else d) addr (tp_ips t),
                                        tp_children := fold (\<lambda>c. add_child h (short_host ip6 True (py_str repr c))) cs
                                                         (tp_children t)\<rparr>;
                                 p = short_host ip6 True (py_str repr peer);
                                 t2 = (if truthy peer
                                       then t1\<lparr>tp_ha_peer := AList.update p h (AList.update h p (tp_ha_peer t1))\<rparr> else t1)
                             in Inr (if truthy role then t2\<lparr>tp_roles := AList.update h (py_str repr role) (tp_roles t2)\<rparr>
                                     else t2))))
      | _ \<Rightarrow> Inr t))"

fun add_specs ::
  "(json \<Rightarrow> string) \<Rightarrow> ip6 \<Rightarrow> (json \<times> json) list \<Rightarrow> dependency_map \<Rightarrow> py_error + dependency_map" where
  "add_specs repr ip6 [] t = Inr t"
| "add_specs repr ip6 (x # xs) t =
     (case add_spec repr ip6 x t of Inl e \<Rightarrow> Inl e | Inr t' \<Rightarrow> add_specs repr ip6 xs t')"

definition device_items :: "json \<Rightarrow> py_error + (json \<times> json) list" where
  "device_items devices =
     (case devices of
        JObj kvs \<Rightarrow> Inr (map (\<lambda>(k, v). (JStr k, v)) kvs)
      | _ \<Rightarrow> map_sum id (\<lambda>ds. [(if truthy (json_field kvs ''hostname'') then json_field kvs ''hostname''
                                  else json_field kvs ''name'', JObj kvs). JObj kvs \<leftarrow> ds]) (py_iter devices))"

definition add_blob ::
  "(json \<Rightarrow> string) \<Rightarrow> ip6 \<Rightarrow> json \<Rightarrow> dependency_map \<Rightarrow> py_error + dependency_map" where
  "add_blob repr ip6 blob t =
     (case json_get blob ''devices'' of
        Inl e \<Rightarrow> Inl e
      | Inr devs \<Rightarrow>
          (let d = (case devs of None \<Rightarrow> JNull | Some j \<Rightarrow> j)
           in case device_items (if truthy d then d else JObj []) of
                Inl e \<Rightarrow> Inl e
              | Inr items \<Rightarrow> add_specs repr ip6 items t))"

definition load_topology ::
  "(json \<Rightarrow> string) \<Rightarrow> ip6 \<Rightarrow> (string \<Rightarrow> json option) \<Rightarrow> (string \<Rightarrow> string) \<Rightarrow> json option \<Rightarrow> string option
     \<Rightarrow> py_error + dependency_map" where
  "load_topology repr ip6 read_file env manifest path =
     (let p = (case path of Some s \<Rightarrow> (if s \<noteq> [] then s else strip (env ''AI_LOG_ANALYZER_DEPENDENCIES''))
               | None \<Rightarrow> strip (env ''AI_LOG_ANALYZER_DEPENDENCIES''));
          from_file = (if p = [] then Inr empty_topology
                       else case read_file p of None \<Rightarrow> Inr empty_topology
                            | Some blob \<Rightarrow> add_blob repr ip6 blob empty_topology)
      in case from_file of
           Inl e \<Rightarrow> Inl e
         | Inr t \<Rightarrow> (case manifest of
                       None \<Rightarrow> Inr t
                     | Some m \<Rightarrow> if truthy m then add_blob repr ip6 m t else Inr t))"

section \<open>Ownership of addresses\<close>

definition own_ip_attrs :: "string list" where
  "own_ip_attrs = [''sender_ip'', ''locip'', ''local_ip'', ''system_ip'', ''local_tloc_ip'']"

definition routing_types :: "string list" where
  "routing_types = [''bgp_session'', ''bgp_max_prefix'', ''ospf_adjacency'', ''omp_peer'']"

definition transport_types :: "string list" where
  "transport_types = [''sdwan_sla'', ''ipsec_tunnel'', ''ike_phase1'', ''ike_phase2'', ''bfd_session'',
     ''control_connection'', ''interface_link'', ''lag_member'']"

definition platform_types :: "string list" where
  "platform_types = [''ha_state'', ''conserve_mode'', ''session_table'']"

definition kind_priority :: "(string \<times> nat) list" where
  "kind_priority = [(''platform'', 0), (''device_unreachable'', 1), (''transport'', 2)]"

definition clock_skew_s :: rat where "clock_skew_s = 30"

definition type_layer :: "string \<Rightarrow> nat" where
  "type_layer ty = (case map_of layer_by_event_type ty of None \<Rightarrow> 0 | Some (n, _) \<Rightarrow> n)"

definition physical_layer :: nat where "physical_layer = type_layer ''interface_link''"
definition routing_layer :: nat where "routing_layer = type_layer ''bgp_session''"

definition set_default :: "'k \<Rightarrow> 'v \<Rightarrow> ('k \<times> 'v) list \<Rightarrow> ('k \<times> 'v) list" where
  "set_default k v d = (if k \<in> fst ` set d then d else d @ [(k, v)])"

definition learn_event :: "ip6 \<Rightarrow> event \<Rightarrow> (string \<times> string \<times> string) list \<Rightarrow> (string \<times> string \<times> string) list" where
  "learn_event ip6 e owned =
     (let host = short_host ip6 True (ev_hostname e);
          owned = fold (\<lambda>key d. let ip = valid_ip ip6 (attr e key) in if ip \<noteq> [] then set_default ip (host, key) d else d)
                    own_ip_attrs owned;
          far = p2p_far_end (ev_peer_ip e)
      in if ev_event_type e \<in> set routing_types \<and> ev_peer_ip e \<noteq> [] \<and> far \<noteq> []
         then set_default far (host, ''p2p_inferred'') owned else owned)"

definition learn_ownership :: "ip6 \<Rightarrow> event list \<Rightarrow> dependency_map \<Rightarrow> (string \<times> string \<times> string) list" where
  "learn_ownership ip6 events t =
     fold (learn_event ip6) events (map (\<lambda>(ip, host). (ip, host, ''dependency_map'')) (tp_ips t))"

section \<open>Texts\<close>

definition pad :: "nat \<Rightarrow> string \<Rightarrow> string" where
  "pad n s = replicate (n - length s) (CHR ''0'') @ s"

text \<open>\<open>str(t0)\<close>.\<close>

definition show_datetime :: "datetime option \<Rightarrow> string" where
  "show_datetime t =
     (case t of
        None \<Rightarrow> ''None''
      | Some d \<Rightarrow>
          (let s = nat \<lfloor>dt_secs d\<rfloor>; us = nat \<lfloor>(dt_secs d - of_nat s) * 1000000\<rfloor>
           in pad 4 (show_int (dt_year d)) @ ''-'' @ pad 2 (show_int (dt_month d)) @ ''-'' @ pad 2 (show_int (dt_day d))
              @ '' '' @ pad 2 (show_nat (s div 3600)) @ '':'' @ pad 2 (show_nat (s div 60 mod 60)) @ '':''
              @ pad 2 (show_nat (s mod 60)) @ (if us = 0 then [] else ''.'' @ pad 6 (show_nat us))))"

definition root_id :: "(string \<Rightarrow> string) \<Rightarrow> string \<Rightarrow> string \<Rightarrow> string \<Rightarrow> string" where
  "root_id sha1 kind host stamp = ''ROOT-'' @ upper (take 8 (sha1 (kind @ ''|'' @ host @ ''|'' @ stamp)))"

definition brief :: "event \<Rightarrow> (string \<times> string) list" where
  "brief e = [(''hostname'', ev_hostname e), (''vendor'', ev_vendor e), (''event_type'', ev_event_type e),
     (''description'', ev_description e), (''severity'', ev_severity e), (''timestamp'', ev_timestamp e),
     (''entity'', first_nonempty [ev_peer_ip e, ev_tunnel_id e, ev_interface e])]"

definition em_dash :: string where
  "em_dash = map char_of [226 :: nat, 128, 148]"

end
