(* ===== verification/Alert_Groups.thy ===== *)
theory Alert_Groups
  imports Suppression
begin

text \<open>
  \<open>suppress_alerts\<close> (\<open>suppression.py\<close>): the candidate roots, the claiming loop and its result. The inner
  functions of the code close over the pool, its times, hosts and layers; they are the record \<open>supp_view\<close>.
\<close>

record supp_config =
  su_window_s :: rat
  su_hold_window_s :: rat
  su_same_device_window_s :: rat
  su_min_children :: nat

record supp_view =
  sv_pool :: "event list"
  sv_times :: "datetime option list"
  sv_secs :: "rat option list"
  sv_hosts :: "string list"
  sv_layers :: "nat list"

definition seconds_of :: "datetime \<Rightarrow> rat" where
  "seconds_of d = dt_seconds d - dt_seconds min_datetime"

definition supp_view_of :: "ip6 \<Rightarrow> ts_parser \<Rightarrow> datetime \<Rightarrow> event list \<Rightarrow> supp_view" where
  "supp_view_of ip6 pts now pool =
     (let ref = reference_dt pts now (map ev_timestamp pool);
          times = map (\<lambda>e. event_time pts now e (At ref)) pool
      in \<lparr>sv_pool = pool, sv_times = times, sv_secs = map (map_option seconds_of) times,
          sv_hosts = map (\<lambda>e. short_host ip6 True (ev_hostname e)) pool,
          sv_layers = map (\<lambda>e. type_layer (ev_event_type e)) pool\<rparr>)"

definition entries :: "supp_view \<Rightarrow> nat list" where
  "entries sv = [0..<length (sv_pool sv)]"

definition delta :: "supp_view \<Rightarrow> nat \<Rightarrow> datetime option \<Rightarrow> rat option" where
  "delta sv i t0 =
     (case (sv_secs sv ! i, t0) of (Some a, Some t) \<Rightarrow> Some (a - seconds_of t) | _ \<Rightarrow> None)"

definition in_range :: "supp_view \<Rightarrow> nat \<Rightarrow> datetime option \<Rightarrow> rat \<Rightarrow> rat \<Rightarrow> bool" where
  "in_range sv i t0 after before = (case delta sv i t0 of None \<Rightarrow> True | Some d \<Rightarrow> - before \<le> d \<and> d \<le> after)"

section \<open>The indexes\<close>

definition by_host :: "supp_view \<Rightarrow> (string \<times> nat list) list" where
  "by_host sv = fold (\<lambda>i. push (sv_hosts sv ! i) i) (entries sv) []"

definition secs_or_zero :: "supp_view \<Rightarrow> nat \<Rightarrow> rat" where
  "secs_or_zero sv i = (case sv_secs sv ! i of None \<Rightarrow> 0 | Some s \<Rightarrow> s)"

definition layer_events :: "supp_view \<Rightarrow> string \<Rightarrow> nat \<Rightarrow> nat list" where
  "layer_events sv h lyr = filter (\<lambda>i. sv_layers sv ! i = lyr) (dict_get (by_host sv) h [])"

definition host_timed :: "supp_view \<Rightarrow> string \<Rightarrow> nat \<Rightarrow> nat list" where
  "host_timed sv h lyr =
     sort_key (\<lambda>i. (secs_or_zero sv i, i)) (filter (\<lambda>i. sv_secs sv ! i \<noteq> None) (layer_events sv h lyr))"

definition host_untimed :: "supp_view \<Rightarrow> string \<Rightarrow> nat \<Rightarrow> nat list" where
  "host_untimed sv h lyr = filter (\<lambda>i. sv_secs sv ! i = None) (layer_events sv h lyr)"

definition host_layers :: "supp_view \<Rightarrow> string \<Rightarrow> nat list" where
  "host_layers sv h = sorted_set (map ((!) (sv_layers sv)) (dict_get (by_host sv) h []))"

definition bisect_left :: "rat list \<Rightarrow> rat \<Rightarrow> nat" where
  "bisect_left xs x = length (takeWhile (\<lambda>y. y < x) xs)"

definition bisect_right :: "rat list \<Rightarrow> rat \<Rightarrow> nat" where
  "bisect_right xs x = length (takeWhile (\<lambda>y. y \<le> x) xs)"

definition layer_window :: "supp_view \<Rightarrow> string \<Rightarrow> datetime option \<Rightarrow> rat \<Rightarrow> rat \<Rightarrow> nat \<Rightarrow> nat list" where
  "layer_window sv h t0 before after lyr =
     (let timed = host_timed sv h lyr; stamps = map (secs_or_zero sv) timed
      in (case t0 of
            None \<Rightarrow> timed
          | Some t \<Rightarrow> drop (bisect_left stamps (seconds_of t - before))
                       (take (bisect_right stamps (seconds_of t + after)) timed))
         @ host_untimed sv h lyr)"

definition host_window :: "supp_view \<Rightarrow> string \<Rightarrow> datetime option \<Rightarrow> rat \<Rightarrow> rat \<Rightarrow> nat \<Rightarrow> nat list" where
  "host_window sv h t0 before after min_layer =
     concat (map (layer_window sv h t0 before after) (filter (\<lambda>lyr. \<not> lyr < min_layer) (host_layers sv h)))"

definition peer_name :: "ip6 \<Rightarrow> event \<Rightarrow> string" where
  "peer_name ip6 e = (let v = valid_ip ip6 (ev_peer_ip e) in if v \<noteq> [] then v else ev_peer_ip e)"

definition by_peer :: "ip6 \<Rightarrow> supp_view \<Rightarrow> (string \<times> nat list) list" where
  "by_peer ip6 sv =
     fold (\<lambda>i. push (peer_name ip6 (sv_pool sv ! i)) i) (filter (\<lambda>i. ev_peer_ip (sv_pool sv ! i) \<noteq> []) (entries sv)) []"

definition strong_keys :: "ip6 \<Rightarrow> supp_view \<Rightarrow> nat \<Rightarrow> string list" where
  "strong_keys ip6 sv i = map snd (filter (\<lambda>(kind, k). kind \<in> set strong_evidence) (join_keys ip6 (sv_pool sv ! i) []))"

definition by_entity :: "ip6 \<Rightarrow> supp_view \<Rightarrow> (string \<times> nat list) list" where
  "by_entity ip6 sv = fold (\<lambda>(k, i). push k i) [(k, i). i \<leftarrow> entries sv, k \<leftarrow> strong_keys ip6 sv i] []"

section \<open>HA pairs\<close>

text \<open>One pass over the timed events of a vendor: the nearest event of another host seen so far.\<close>

fun ha_pass ::
  "supp_view \<Rightarrow> nat option \<Rightarrow> nat option \<Rightarrow> nat list \<Rightarrow> (nat \<times> string) list \<Rightarrow> (nat \<times> string) list" where
  "ha_pass sv prev other [] peer = peer"
| "ha_pass sv prev other (e # es) peer =
     (let h = sv_hosts sv ! e;
          same_prev = (case prev of None \<Rightarrow> False | Some l \<Rightarrow> sv_hosts sv ! l = h);
          cand = (case prev of Some l \<Rightarrow> (if sv_hosts sv ! l \<noteq> h then prev else other) | None \<Rightarrow> other);
          peer = (case cand of
                    None \<Rightarrow> peer
                  | Some c \<Rightarrow> if \<bar>secs_or_zero sv e - secs_or_zero sv c\<bar> \<le> 60
                              then set_default e (sv_hosts sv ! c) peer else peer)
      in ha_pass sv (Some e) (if same_prev then other else prev) es peer)"

definition ha_untimed :: "supp_view \<Rightarrow> nat list \<Rightarrow> nat \<Rightarrow> (nat \<times> string) list \<Rightarrow> (nat \<times> string) list" where
  "ha_untimed sv evs e peer =
     (if e \<in> fst ` set peer then peer
      else let all_hosts = dedup (map ((!) (sv_hosts sv)) evs);
               untimed_hosts = dedup (map ((!) (sv_hosts sv)) (filter (\<lambda>i. sv_secs sv ! i = None) evs));
               other = first_nonempty (take 1 (filter (\<lambda>x. x \<noteq> sv_hosts sv ! e)
                         (if sv_secs sv ! e = None then all_hosts else untimed_hosts)))
           in if other \<noteq> [] then peer @ [(e, other)] else peer)"

definition ha_vendor :: "supp_view \<Rightarrow> nat list \<Rightarrow> (nat \<times> string) list \<Rightarrow> (nat \<times> string) list" where
  "ha_vendor sv evs peer =
     (let timed = sort_key (secs_or_zero sv) (filter (\<lambda>i. sv_secs sv ! i \<noteq> None) evs)
      in fold (ha_untimed sv evs) evs (ha_pass sv None None (rev timed) (ha_pass sv None None timed peer)))"

definition infer_ha_peers :: "supp_view \<Rightarrow> nat list \<Rightarrow> (nat \<times> string) list" where
  "infer_ha_peers sv ha_events =
     fold (\<lambda>(vendor, evs). ha_vendor sv evs) (fold (\<lambda>i. push (ev_vendor (sv_pool sv ! i)) i) ha_events []) []"

section \<open>Candidate roots\<close>

record candidate =
  ca_kind :: string
  ca_event :: "nat option"
  ca_hosts :: "string list"
  ca_t0 :: "datetime option"
  ca_label :: string
  ca_reporters :: "string list"
  ca_inferred :: bool

definition event_type_of :: "supp_view \<Rightarrow> nat \<Rightarrow> string" where
  "event_type_of sv i = ev_event_type (sv_pool sv ! i)"

definition platform_candidates :: "dependency_map \<Rightarrow> supp_view \<Rightarrow> candidate list" where
  "platform_candidates topo sv =
     (let ha_peer = infer_ha_peers sv (filter (\<lambda>i. event_type_of sv i = ''ha_state'') (entries sv))
      in map (\<lambda>i. let h = sv_hosts sv ! i; declared = dict_get (tp_ha_peer topo) h [];
                      peer = (if event_type_of sv i = ''ha_state''
                              then (if declared \<noteq> [] then declared else dict_get ha_peer i []) else [])
                  in \<lparr>ca_kind = ''platform'', ca_event = Some i, ca_hosts = remdups (h # (if peer \<noteq> [] then [peer] else [])),
                      ca_t0 = sv_times sv ! i, ca_label = ev_description (sv_pool sv ! i), ca_reporters = [],
                      ca_inferred = False\<rparr>)
           (filter (\<lambda>i. event_type_of sv i \<in> set platform_types) (entries sv)))"

definition earliest :: "supp_view \<Rightarrow> nat list \<Rightarrow> nat" where
  "earliest sv evs =
     min_by (\<lambda>i. (sv_times sv ! i = None, when_or_min (map_option dt_seconds (sv_times sv ! i)))) (hd evs) (tl evs)"

definition session_owner :: "ip6 \<Rightarrow> (string \<times> string \<times> string) list \<Rightarrow> supp_view \<Rightarrow> nat \<Rightarrow> string" where
  "session_owner ip6 owned sv i = fst (dict_get owned (peer_name ip6 (sv_pool sv ! i)) ([], []))"

definition lost_to :: "ip6 \<Rightarrow> (string \<times> string \<times> string) list \<Rightarrow> supp_view \<Rightarrow> (string \<times> nat list) list" where
  "lost_to ip6 owned sv =
     fold (\<lambda>i. push (session_owner ip6 owned sv i) i)
       (filter (\<lambda>i. event_type_of sv i \<in> set (routing_types @ transport_types) \<and> ev_peer_ip (sv_pool sv ! i) \<noteq> []
                 \<and> session_owner ip6 owned sv i \<noteq> [] \<and> session_owner ip6 owned sv i \<noteq> sv_hosts sv ! i) (entries sv)) []"

definition unreachable_candidates ::
  "supp_config \<Rightarrow> dependency_map \<Rightarrow> supp_view \<Rightarrow> (string \<times> nat list) list \<Rightarrow> candidate list" where
  "unreachable_candidates cfg topo sv lost =
     concat (map (\<lambda>(owner, evs).
       (let reporters = remdups (map ((!) (sv_hosts sv)) evs); own = dict_get (by_host sv) owner []
        in if length reporters \<ge> su_min_children cfg \<or> owner \<in> fst ` set (tp_children topo)
           then [\<lparr>ca_kind = ''device_unreachable'', ca_event = (case own of [] \<Rightarrow> None | i # _ \<Rightarrow> Some i),
                  ca_hosts = [owner], ca_t0 = sv_times sv ! earliest sv evs,
                  ca_label = owner @ '' unreachable '' @ em_dash @ '' '' @ show_nat (length reporters)
                               @ '' dependent device(s) lost sessions'',
                  ca_reporters = sort reporters, ca_inferred = (own = [])\<rparr>]
           else [])) lost)"

definition parent_candidates :: "dependency_map \<Rightarrow> supp_view \<Rightarrow> (string \<times> nat list) list \<Rightarrow> candidate list" where
  "parent_candidates topo sv lost =
     concat (map (\<lambda>(parent, kids).
       (let own = dict_get (by_host sv) parent []
        in if own \<noteq> [] \<and> parent \<notin> fst ` set lost
           then [\<lparr>ca_kind = ''device_unreachable'', ca_event = Some (earliest sv own), ca_hosts = [parent],
                  ca_t0 = sv_times sv ! earliest sv own,
                  ca_label = parent @ '' failure (upstream of '' @ show_nat (length kids) @ '' device(s))'',
                  ca_reporters = [], ca_inferred = False\<rparr>]
           else [])) (tp_children topo))"

definition transport_candidates :: "supp_view \<Rightarrow> candidate list" where
  "transport_candidates sv =
     map (\<lambda>i. \<lparr>ca_kind = ''transport'', ca_event = Some i, ca_hosts = [sv_hosts sv ! i], ca_t0 = sv_times sv ! i,
               ca_label = ev_description (sv_pool sv ! i), ca_reporters = [], ca_inferred = False\<rparr>)
       (filter (\<lambda>i. event_type_of sv i \<in> set transport_types) (entries sv))"

definition cand_key :: "ip6 \<Rightarrow> supp_view \<Rightarrow> candidate \<Rightarrow> nat \<times> nat \<times> bool \<times> rat \<times> string list" where
  "cand_key ip6 sv c =
     (dict_get kind_priority (ca_kind c) 0,
      root_sort_key
        (case ca_event c of Some i \<Rightarrow> (if ca_kind c = ''transport'' then sv_layers sv ! i else 0) | None \<Rightarrow> 0)
        (map_option dt_seconds (ca_t0 c))
        (case ca_event c of Some i \<Rightarrow> content_key ip6 (sv_pool sv ! i) | None \<Rightarrow> [ca_label c]))"

definition candidates ::
  "supp_config \<Rightarrow> ip6 \<Rightarrow> dependency_map \<Rightarrow> (string \<times> string \<times> string) list \<Rightarrow> supp_view \<Rightarrow> candidate list" where
  "candidates cfg ip6 topo owned sv =
     (let lost = lost_to ip6 owned sv
      in sort_key (cand_key ip6 sv)
           (platform_candidates topo sv @ unreachable_candidates cfg topo sv lost
            @ parent_candidates topo sv lost @ transport_candidates sv))"

section \<open>The children of a root\<close>

definition root_layer :: "supp_view \<Rightarrow> candidate \<Rightarrow> nat" where
  "root_layer sv c = (case ca_event c of None \<Rightarrow> 0 | Some i \<Rightarrow> sv_layers sv ! i)"

definition root_host :: "supp_view \<Rightarrow> candidate \<Rightarrow> string" where
  "root_host sv c = (case ca_event c of None \<Rightarrow> [] | Some i \<Rightarrow> sv_hosts sv ! i)"

definition narrow :: "candidate \<Rightarrow> bool" where
  "narrow c \<longleftrightarrow> ca_kind c = ''transport''"

definition root_keys :: "ip6 \<Rightarrow> supp_view \<Rightarrow> candidate \<Rightarrow> string list" where
  "root_keys ip6 sv c = (case ca_event c of Some i \<Rightarrow> (if narrow c then strong_keys ip6 sv i else []) | None \<Rightarrow> [])"

definition dependents :: "dependency_map \<Rightarrow> candidate \<Rightarrow> string list" where
  "dependents topo c = remdups (concat (map (\<lambda>h. dict_get (tp_children topo) h []) (ca_hosts c)))"

definition owned_ips :: "(string \<times> string \<times> string) list \<Rightarrow> candidate \<Rightarrow> string list" where
  "owned_ips owned c = map fst (filter (\<lambda>(ip, h, how). h \<in> set (ca_hosts c)) owned)"

definition before_of :: "supp_view \<Rightarrow> candidate \<Rightarrow> string \<Rightarrow> rat" where
  "before_of sv c h = (if h = root_host sv c then 0 else clock_skew_s)"

text \<open>The indexed candidate set: same and dependent hosts, shared entities, sessions to owned addresses.\<close>

definition maybe_children ::
  "supp_config \<Rightarrow> ip6 \<Rightarrow> dependency_map \<Rightarrow> (string \<times> string \<times> string) list \<Rightarrow> supp_view \<Rightarrow> candidate \<Rightarrow> nat list" where
  "maybe_children cfg ip6 topo owned sv c =
     concat (map (\<lambda>h. let own = h \<in> set (ca_hosts c)
                      in host_window sv h (ca_t0 c) (before_of sv c h)
                           (if own \<and> narrow c
                            then (if root_layer sv c \<noteq> physical_layer then su_hold_window_s cfg else su_same_device_window_s cfg)
                            else max (su_window_s cfg) (su_hold_window_s cfg))
                           (if own \<and> narrow c then root_layer sv c + 1 else if own then root_layer sv c else 0))
               (remdups (ca_hosts c @ dependents topo c)))
     @ concat (map (\<lambda>k. filter (\<lambda>i. sv_hosts sv ! i \<in> set (ca_hosts c)) (dict_get (by_entity ip6 sv) k []))
               (root_keys ip6 sv c))
     @ concat (map (\<lambda>ip. dict_get (by_peer ip6 sv) ip []) (owned_ips owned c))"

text \<open>The decision \<open>ok\<close> for one event of the candidate set.\<close>

definition explains :: "supp_config \<Rightarrow> ip6 \<Rightarrow> supp_view \<Rightarrow> candidate \<Rightarrow> nat \<Rightarrow> bool" where
  "explains cfg ip6 sv c i =
     (let h = sv_hosts sv ! i; higher = sv_layers sv ! i > root_layer sv c
      in if h \<in> set (ca_hosts c)
         then (if sv_layers sv ! i < root_layer sv c then False
               else if \<not> narrow c then in_range sv i (ca_t0 c) (su_hold_window_s cfg) (before_of sv c h)
               else if set (root_keys ip6 sv c) \<inter> set (strong_keys ip6 sv i) \<noteq> {}
               then (higher \<or> root_layer sv c \<noteq> physical_layer)
                    \<and> in_range sv i (ca_t0 c) (su_hold_window_s cfg) (before_of sv c h)
               else if higher
               then in_range sv i (ca_t0 c)
                      (if root_layer sv c \<noteq> physical_layer \<and> sv_layers sv ! i = routing_layer
                       then su_hold_window_s cfg else su_same_device_window_s cfg) (before_of sv c h)
               else False)
         else in_range sv i (ca_t0 c) (su_window_s cfg) clock_skew_s)"

record alert_group =
  gr_id :: string
  gr_kind :: string
  gr_root :: "(string \<times> string) list"
  gr_root_hosts :: "string list"
  gr_label :: string
  gr_inferred :: bool
  gr_children :: "(string \<times> string) list list"
  gr_child_devices :: "string list"
  gr_suppressed_count :: nat
  gr_summary :: string

record claims =
  cl_claimed :: "(nat \<times> string) list"
  cl_roots :: "nat list"
  cl_groups :: "alert_group list"

definition no_claims :: claims where
  "no_claims = \<lparr>cl_claimed = [], cl_roots = [], cl_groups = []\<rparr>"

definition is_claimed :: "claims \<Rightarrow> nat \<Rightarrow> bool" where
  "is_claimed cl i \<longleftrightarrow> i \<in> fst ` set (cl_claimed cl)"

definition children_of ::
  "supp_config \<Rightarrow> ip6 \<Rightarrow> dependency_map \<Rightarrow> (string \<times> string \<times> string) list \<Rightarrow> supp_view \<Rightarrow> claims \<Rightarrow> candidate \<Rightarrow> nat list" where
  "children_of cfg ip6 topo owned sv cl c =
     sort (filter (explains cfg ip6 sv c)
       (filter (\<lambda>i. ca_event c \<noteq> Some i \<and> \<not> is_claimed cl i) (dedup (maybe_children cfg ip6 topo owned sv c))))"

definition make_group :: "(string \<Rightarrow> string) \<Rightarrow> supp_view \<Rightarrow> candidate \<Rightarrow> nat list \<Rightarrow> alert_group" where
  "make_group sha1 sv c children =
     (let hosts = ca_hosts c;
          child_hosts = sorted_set (filter (\<lambda>h. h \<notin> set hosts) (map ((!) (sv_hosts sv)) children))
      in \<lparr>gr_id = root_id sha1 (ca_kind c) (join_with '','' (sort hosts)) (show_datetime (ca_t0 c)), gr_kind = ca_kind c,
          gr_root = (case ca_event c of
                       Some i \<Rightarrow> brief (sv_pool sv ! i)
                     | None \<Rightarrow> [(''hostname'', hd hosts), (''event_type'', ''device_unreachable'')]),
          gr_root_hosts = sort hosts, gr_label = ca_label c, gr_inferred = ca_inferred c,
          gr_children = map (\<lambda>i. brief (sv_pool sv ! i)) (take 50 children), gr_child_devices = child_hosts,
          gr_suppressed_count = length children,
          gr_summary = ca_label c @ '' on '' @ join_with '', '' (sort hosts) @ '': '' @ show_nat (length children)
             @ '' dependent alert(s)''
             @ (if child_hosts \<noteq> [] then '' across '' @ show_nat (length child_hosts) @ '' other device(s)'' else [])\<rparr>)"

text \<open>One round of the claiming loop.\<close>

definition claim_step ::
  "(string \<Rightarrow> string) \<Rightarrow> supp_config \<Rightarrow> ip6 \<Rightarrow> dependency_map \<Rightarrow> (string \<times> string \<times> string) list \<Rightarrow> supp_view
     \<Rightarrow> candidate \<Rightarrow> claims \<Rightarrow> claims" where
  "claim_step sha1 cfg ip6 topo owned sv c cl =
     (if (case ca_event c of None \<Rightarrow> False | Some i \<Rightarrow> is_claimed cl i) then cl
      else let children = children_of cfg ip6 topo owned sv cl c
           in if children = [] then cl
              else let g = make_group sha1 sv c children;
                       with_children = fold (\<lambda>i. AList.update i (gr_id g)) children (cl_claimed cl)
                   in case ca_event c of
                        None \<Rightarrow> cl\<lparr>cl_claimed := with_children, cl_groups := cl_groups cl @ [g]\<rparr>
                      | Some i \<Rightarrow> cl\<lparr>cl_claimed := AList.update i (gr_id g) with_children,
                                    cl_roots := cl_roots cl @ [i], cl_groups := cl_groups cl @ [g]\<rparr>)"

record suppression =
  sr_groups :: "alert_group list"
  sr_suppressed_entities :: "(entity_key \<times> string) list"
  sr_suppressed_events :: nat
  sr_roots :: nat

definition entity_roots :: "supp_view \<Rightarrow> claims \<Rightarrow> (entity_key \<times> string) list" where
  "entity_roots sv cl =
     (let root_ents = map (\<lambda>i. entity_key (sv_pool sv ! i)) (filter (\<lambda>i. i \<in> set (cl_roots cl)) (entries sv))
      in fold (\<lambda>i d. case entity_key (sv_pool sv ! i) of
             None \<Rightarrow> d
           | Some key \<Rightarrow>
               (if is_claimed cl i \<and> i \<notin> set (cl_roots cl) \<and> Some key \<notin> set root_ents
                then set_default key (dict_get (cl_claimed cl) i []) d else d)) (entries sv) [])"

definition suppressible :: "event \<Rightarrow> bool" where
  "suppressible e \<longleftrightarrow> map_of layer_by_event_type (ev_event_type e) \<noteq> None \<and> ev_state e \<noteq> ''up''
     \<and> ev_severity e \<in> {''critical'', ''high'', ''medium''}"

definition suppress_claims ::
  "(string \<Rightarrow> string) \<Rightarrow> supp_config \<Rightarrow> ip6 \<Rightarrow> dependency_map \<Rightarrow> supp_view \<Rightarrow> claims" where
  "suppress_claims sha1 cfg ip6 topo sv =
     (let owned = learn_ownership ip6 (sv_pool sv) topo
      in fold (claim_step sha1 cfg ip6 topo owned sv) (candidates cfg ip6 topo owned sv) no_claims)"

definition suppress_alerts ::
  "(string \<Rightarrow> string) \<Rightarrow> supp_config \<Rightarrow> ip6 \<Rightarrow> ts_parser \<Rightarrow> datetime \<Rightarrow> dependency_map \<Rightarrow> event list \<Rightarrow> suppression" where
  "suppress_alerts sha1 cfg ip6 pts now topo events =
     (let pool = filter suppressible events
      in if pool = [] then \<lparr>sr_groups = [], sr_suppressed_entities = [], sr_suppressed_events = 0, sr_roots = 0\<rparr>
         else let sv = supp_view_of ip6 pts now pool; cl = suppress_claims sha1 cfg ip6 topo sv
              in \<lparr>sr_groups = cl_groups cl, sr_suppressed_entities = sort_key id (entity_roots sv cl),
                  sr_suppressed_events = sum_list (map gr_suppressed_count (cl_groups cl)),
                  sr_roots = length (cl_groups cl)\<rparr>)"

definition suppressed_entity_map :: "suppression \<Rightarrow> (entity_key \<times> string) list" where
  "suppressed_entity_map r = fold (\<lambda>(k, rid). AList.update k rid) (sr_suppressed_entities r) []"

end
