(* ===== verification/Alert_Laws.thy ===== *)
theory Alert_Laws
  imports Alert_Groups Incident_Laws
begin

text \<open>
  Laws of the suppression: the indexed search for the children of a root finds what a scan of the whole pool
  would, every event is claimed at most once, the counters are exact, and no entity of a root is suppressed.
\<close>

definition view_ok :: "supp_view \<Rightarrow> bool" where
  "view_ok sv \<longleftrightarrow> length (sv_hosts sv) = length (sv_pool sv) \<and> length (sv_secs sv) = length (sv_pool sv)
     \<and> length (sv_layers sv) = length (sv_pool sv)"

lemma view_ok_of [simp]: "view_ok (supp_view_of ip6 pts now pool)" "sv_pool (supp_view_of ip6 pts now pool) = pool"
  by (simp_all add: view_ok_def supp_view_of_def Let_def)

section \<open>The indexes are complete\<close>

lemma idx_takeWhile_less:
  assumes "sorted (map f xs)" and "j < length xs"
  shows "j < length (takeWhile (\<lambda>x. f x < lo) xs) \<longleftrightarrow> f (xs ! j) < (lo :: 'a::linorder)"
  using assms
proof (induction xs arbitrary: j)
  case (Cons x xs)
  show ?case
  proof (cases j)
    case 0
    then show ?thesis by simp
  next
    case (Suc k)
    with Cons.prems have "f x \<le> f (xs ! k)" by simp
    with Suc Cons show ?thesis by (auto dest: le_less_trans order_trans)
  qed
qed simp

lemma idx_takeWhile_le:
  assumes "sorted (map f xs)" and "j < length xs"
  shows "j < length (takeWhile (\<lambda>x. f x \<le> hi) xs) \<longleftrightarrow> f (xs ! j) \<le> (hi :: 'a::linorder)"
  using assms
proof (induction xs arbitrary: j)
  case (Cons x xs)
  show ?case
  proof (cases j)
    case 0
    then show ?thesis by simp
  next
    case (Suc k)
    with Cons.prems have "f x \<le> f (xs ! k)" by simp
    with Suc Cons show ?thesis by (auto dest: le_less_trans order_trans)
  qed
qed simp

lemma length_takeWhile_map: "length (takeWhile P (map f xs)) = length (takeWhile (\<lambda>x. P (f x)) xs)"
  by (induction xs) auto

lemma set_slice: "set (drop m (take k xs)) = {xs ! j | j. m \<le> j \<and> j < k \<and> j < length xs}"
proof -
  have "set (drop m (take k xs)) = {drop m (take k xs) ! j | j. j < length (drop m (take k xs))}"
    by (auto simp: in_set_conv_nth)
  also have "\<dots> = {xs ! j | j. m \<le> j \<and> j < k \<and> j < length xs}"
  proof (intro equalityI subsetI)
    fix x assume "x \<in> {xs ! j | j. m \<le> j \<and> j < k \<and> j < length xs}"
    then obtain j where "x = xs ! j" "m \<le> j" "j < k" "j < length xs" by blast
    then show "x \<in> {drop m (take k xs) ! j | j. j < length (drop m (take k xs))}"
      by (intro CollectI exI [of _ "j - m"]) auto
  next
    fix x assume "x \<in> {drop m (take k xs) ! j | j. j < length (drop m (take k xs))}"
    then obtain j where "x = drop m (take k xs) ! j" "j < min (length xs) k - m" by auto
    moreover from this(2) have "m < min (length xs) k" by linarith
    then have "m \<le> length (take k xs)" by simp
    moreover from \<open>j < min (length xs) k - m\<close> have "m + j < min (length xs) k" by linarith
    ultimately show "x \<in> {xs ! j | j. m \<le> j \<and> j < k \<and> j < length xs}"
      by (intro CollectI exI [of _ "m + j"]) (simp add: nth_drop)
  qed
  finally show ?thesis .
qed

lemma bisect_slice:
  assumes "sorted (map f xs)"
  shows "set (drop (bisect_left (map f xs) lo) (take (bisect_right (map f xs) hi) xs))
       = {x \<in> set xs. lo \<le> f x \<and> f x \<le> hi}"
proof -
  have "j < length xs \<Longrightarrow> (bisect_left (map f xs) lo \<le> j \<and> j < bisect_right (map f xs) hi) = (lo \<le> f (xs ! j) \<and> f (xs ! j) \<le> hi)"
    for j
    unfolding bisect_left_def bisect_right_def length_takeWhile_map
    using idx_takeWhile_less [OF assms, of j lo] idx_takeWhile_le [OF assms, of j hi] by (auto simp: not_less [symmetric])
  then show ?thesis unfolding set_slice by (force simp: in_set_conv_nth)
qed

lemma dict_get_fold_push: "dict_get (fold (\<lambda>i. push (f i) i) xs []) k [] = filter (\<lambda>i. f i = k) xs"
  using fold_push [of f id xs k] by (cases "k \<in> f ` set xs") (auto simp: dict_get_def filter_empty_conv empty_filter_conv)

lemma by_host_lookup: "dict_get (by_host sv) h [] = filter (\<lambda>i. sv_hosts sv ! i = h) (entries sv)"
  unfolding by_host_def by (rule dict_get_fold_push)

lemma by_peer_lookup:
  "set (dict_get (by_peer ip6 sv) ip []) = {i. i < length (sv_pool sv) \<and> ev_peer_ip (sv_pool sv ! i) \<noteq> [] \<and>
     peer_name ip6 (sv_pool sv ! i) = ip}"
  unfolding by_peer_def dict_get_fold_push by (auto simp: entries_def)

lemma fold_push_pairs: "dict_get (fold (\<lambda>(k, i). push k i) ps d) k [] = dict_get d k [] @ map snd (filter (\<lambda>(k', i). k' = k) ps)"
proof (induction ps arbitrary: d)
  case (Cons p ps)
  then show ?case by (cases p) (simp add: push_def)
qed simp

lemma by_entity_lookup:
  "set (dict_get (by_entity ip6 sv) k []) = {i. i < length (sv_pool sv) \<and> k \<in> set (strong_keys ip6 sv i)}"
  unfolding by_entity_def fold_push_pairs by (auto simp: entries_def image_iff)

lemma set_layer_events: "set (layer_events sv h lyr) = {i. i < length (sv_pool sv) \<and> sv_hosts sv ! i = h \<and> sv_layers sv ! i = lyr}"
  by (auto simp: layer_events_def by_host_lookup entries_def)

lemma set_layer_window:
  "set (layer_window sv h t0 before after lyr) =
     {i. i < length (sv_pool sv) \<and> sv_hosts sv ! i = h \<and> sv_layers sv ! i = lyr \<and> in_range sv i t0 after before}"
proof -
  have timed: "set (host_timed sv h lyr) = {i \<in> set (layer_events sv h lyr). sv_secs sv ! i \<noteq> None}"
    by (auto simp: host_timed_def)
  have un: "set (host_untimed sv h lyr) = {i \<in> set (layer_events sv h lyr). sv_secs sv ! i = None}"
    by (auto simp: host_untimed_def)
  have "sorted (map (\<lambda>i. (secs_or_zero sv i, i)) (host_timed sv h lyr))" by (simp add: host_timed_def)
  then have sorted: "sorted (map (secs_or_zero sv) (host_timed sv h lyr))"
    unfolding sorted_map by (rule sorted_wrt_mono_rel [rotated]) (auto simp: less_eq_prod_def)
  show ?thesis
  proof (cases t0)
    case None
    then show ?thesis
      by (auto simp: layer_window_def timed un set_layer_events in_range_def delta_def split: option.splits)
  next
    case (Some t)
    have "set (drop (bisect_left (map (secs_or_zero sv) (host_timed sv h lyr)) (seconds_of t - before))
                (take (bisect_right (map (secs_or_zero sv) (host_timed sv h lyr)) (seconds_of t + after)) (host_timed sv h lyr)))
        = {i \<in> set (host_timed sv h lyr). seconds_of t - before \<le> secs_or_zero sv i \<and> secs_or_zero sv i \<le> seconds_of t + after}"
      by (rule bisect_slice [OF sorted])
    with Some show ?thesis
      by (auto simp: layer_window_def Let_def timed un set_layer_events in_range_def delta_def secs_or_zero_def split: option.splits)
  qed
qed

lemma set_host_window:
  "set (host_window sv h t0 before after m) =
     {i. i < length (sv_pool sv) \<and> sv_hosts sv ! i = h \<and> m \<le> sv_layers sv ! i \<and> in_range sv i t0 after before}"
  by (auto simp: host_window_def set_layer_window host_layers_def by_host_lookup entries_def)

section \<open>The children of a root\<close>

text \<open>What the search looks for, as a condition on one event of the pool.\<close>

definition is_child ::
  "supp_config \<Rightarrow> ip6 \<Rightarrow> dependency_map \<Rightarrow> (string \<times> string \<times> string) list \<Rightarrow> supp_view \<Rightarrow> claims \<Rightarrow> candidate \<Rightarrow> nat \<Rightarrow> bool" where
  "is_child cfg ip6 topo owned sv cl c i \<longleftrightarrow>
     ca_event c \<noteq> Some i \<and> \<not> is_claimed cl i \<and> explains cfg ip6 sv c i \<and>
     (sv_hosts sv ! i \<in> set (ca_hosts c) \<or> sv_hosts sv ! i \<in> set (dependents topo c) \<or>
      (ev_peer_ip (sv_pool sv ! i) \<noteq> [] \<and> peer_name ip6 (sv_pool sv ! i) \<in> set (owned_ips owned c)))"

definition cand_ok :: "dependency_map \<Rightarrow> supp_view \<Rightarrow> candidate \<Rightarrow> bool" where
  "cand_ok topo sv c \<longleftrightarrow>
     (case ca_event c of None \<Rightarrow> [] \<notin> set (dependents topo c) | Some i \<Rightarrow> i < length (sv_pool sv) \<and> sv_hosts sv ! i \<in> set (ca_hosts c))"

definition cfg_ok :: "supp_config \<Rightarrow> bool" where
  "cfg_ok cfg \<longleftrightarrow> 0 \<le> su_same_device_window_s cfg \<and> su_same_device_window_s cfg \<le> su_hold_window_s cfg \<and> 0 \<le> su_window_s cfg"

lemma in_range_mono: "in_range sv i t0 after before \<Longrightarrow> after \<le> after' \<Longrightarrow> in_range sv i t0 after' before"
  by (auto simp: in_range_def split: option.splits)

lemma maybe_children_within: "i \<in> set (maybe_children cfg ip6 topo owned sv c) \<Longrightarrow> i < length (sv_pool sv)"
  unfolding maybe_children_def Let_def set_append set_concat set_map
  by (auto simp: set_host_window by_entity_lookup by_peer_lookup)

lemma maybe_children_near:
  assumes "i \<in> set (maybe_children cfg ip6 topo owned sv c)"
  shows "sv_hosts sv ! i \<in> set (ca_hosts c) \<or> sv_hosts sv ! i \<in> set (dependents topo c) \<or>
      (ev_peer_ip (sv_pool sv ! i) \<noteq> [] \<and> peer_name ip6 (sv_pool sv ! i) \<in> set (owned_ips owned c))"
  using assms unfolding maybe_children_def Let_def set_append set_concat set_map
  by (auto simp: set_host_window by_entity_lookup by_peer_lookup)

lemma own_host_found:
  assumes "cfg_ok cfg" and "i < length (sv_pool sv)" and "sv_hosts sv ! i \<in> set (ca_hosts c)"
    and "explains cfg ip6 sv c i"
  shows "i \<in> set (maybe_children cfg ip6 topo owned sv c)"
proof -
  let ?h = "sv_hosts sv ! i" and ?r = "root_layer sv c"
  have host: "i \<in> set (maybe_children cfg ip6 topo owned sv c)"
    if "in_range sv i (ca_t0 c) (if narrow c then (if ?r \<noteq> physical_layer then su_hold_window_s cfg else su_same_device_window_s cfg)
          else max (su_window_s cfg) (su_hold_window_s cfg)) (before_of sv c ?h)"
      and "(if narrow c then ?r + 1 else ?r) \<le> sv_layers sv ! i"
    using that assms(2,3) unfolding maybe_children_def Let_def set_append set_concat set_map
    by (intro UnI1 UN_I [of ?h]) (auto simp: set_host_window split: if_splits)
  show ?thesis
  proof (cases "narrow c")
    case False
    then have "?r \<le> sv_layers sv ! i" "in_range sv i (ca_t0 c) (su_hold_window_s cfg) (before_of sv c ?h)"
      using assms(3,4) by (auto simp: explains_def Let_def split: if_splits)
    then show ?thesis using False by (intro host) (auto elim: in_range_mono)
  next
    case narrow: True
    show ?thesis
    proof (cases "set (root_keys ip6 sv c) \<inter> set (strong_keys ip6 sv i) \<noteq> {}")
      case True
      then obtain k where "k \<in> set (root_keys ip6 sv c)" "k \<in> set (strong_keys ip6 sv i)" by blast
      then show ?thesis using assms(2,3) unfolding maybe_children_def Let_def set_append set_concat set_map
        by - (rule UnI2, rule UnI1, auto simp: by_entity_lookup)
    next
      case False
      then have high: "?r < sv_layers sv ! i" and r: "in_range sv i (ca_t0 c)
          (if ?r \<noteq> physical_layer \<and> sv_layers sv ! i = routing_layer then su_hold_window_s cfg
           else su_same_device_window_s cfg) (before_of sv c ?h)"
        using assms(3,4) narrow by (auto simp: explains_def Let_def split: if_splits)
      have "in_range sv i (ca_t0 c) (if ?r \<noteq> physical_layer then su_hold_window_s cfg else su_same_device_window_s cfg)
          (before_of sv c ?h)"
        by (rule in_range_mono [OF r]) (use assms(1) in \<open>auto simp: cfg_ok_def\<close>)
      then show ?thesis using high narrow by (intro host) simp_all
    qed
  qed
qed

lemma far_host_found:
  assumes "cand_ok topo sv c" and "i < length (sv_pool sv)" and "sv_hosts sv ! i \<notin> set (ca_hosts c)"
    and "explains cfg ip6 sv c i"
    and "sv_hosts sv ! i \<in> set (dependents topo c) \<or>
      (ev_peer_ip (sv_pool sv ! i) \<noteq> [] \<and> peer_name ip6 (sv_pool sv ! i) \<in> set (owned_ips owned c))"
  shows "i \<in> set (maybe_children cfg ip6 topo owned sv c)"
  using assms(5)
proof
  assume dep: "sv_hosts sv ! i \<in> set (dependents topo c)"
  have r: "in_range sv i (ca_t0 c) (su_window_s cfg) clock_skew_s"
    using assms(3,4) by (simp add: explains_def Let_def)
  have skew: "before_of sv c (sv_hosts sv ! i) = clock_skew_s"
    using assms(1,3) dep by (auto simp: before_of_def root_host_def cand_ok_def split: option.splits)
  show ?thesis using dep assms(2,3) r skew unfolding maybe_children_def Let_def set_append set_concat set_map
    by (intro UnI1 UN_I [of "sv_hosts sv ! i"]) (auto simp: set_host_window elim: in_range_mono)
next
  assume "ev_peer_ip (sv_pool sv ! i) \<noteq> [] \<and> peer_name ip6 (sv_pool sv ! i) \<in> set (owned_ips owned c)"
  then show ?thesis using assms(2) unfolding maybe_children_def Let_def set_append set_concat set_map
    by (intro UnI2 UN_I [of "peer_name ip6 (sv_pool sv ! i)"]) (simp_all add: by_peer_lookup)
qed

text \<open>
  C8: the indexes lose nothing. For every root, the search through the per-host time windows, the shared
  entities and the peer addresses returns exactly the events a scan of the whole pool would accept, in
  pool order: the unclaimed ones, other than the root, that the root explains and that sit on one of its
  hosts, on a dependent host, or at the far end of a session to an address it owns.
\<close>

theorem children_complete:
  assumes "cfg_ok cfg" and "cand_ok topo sv c"
  shows "children_of cfg ip6 topo owned sv cl c = filter (is_child cfg ip6 topo owned sv cl c) (entries sv)"
proof -
  have "i \<in> set (maybe_children cfg ip6 topo owned sv c) \<longleftrightarrow> i < length (sv_pool sv) \<and>
      (sv_hosts sv ! i \<in> set (ca_hosts c) \<or> sv_hosts sv ! i \<in> set (dependents topo c) \<or>
       (ev_peer_ip (sv_pool sv ! i) \<noteq> [] \<and> peer_name ip6 (sv_pool sv ! i) \<in> set (owned_ips owned c)))"
    if "explains cfg ip6 sv c i" for i
    using that maybe_children_within maybe_children_near own_host_found [OF assms(1)] far_host_found [OF assms(2)] by meson
  then have "set (children_of cfg ip6 topo owned sv cl c) = set (filter (is_child cfg ip6 topo owned sv cl c) (entries sv))"
    by (auto simp: children_of_def is_child_def entries_def)
  moreover have "distinct (children_of cfg ip6 topo owned sv cl c)" "sorted (children_of cfg ip6 topo owned sv cl c)"
    by (simp_all add: children_of_def)
  moreover have "distinct (filter (is_child cfg ip6 topo owned sv cl c) (entries sv))"
    "sorted (filter (is_child cfg ip6 topo owned sv cl c) (entries sv))"
    using sorted_filter [of "\<lambda>x. x" "entries sv"] by (simp_all add: entries_def)
  ultimately show ?thesis by (intro sorted_distinct_set_unique)
qed

section \<open>Claims\<close>

definition claims_ok :: "nat \<Rightarrow> claims \<Rightarrow> bool" where
  "claims_ok n cl \<longleftrightarrow> (\<forall>i. is_claimed cl i \<longrightarrow> i < n) \<and> distinct (cl_roots cl) \<and> (\<forall>i\<in>set (cl_roots cl). is_claimed cl i) \<and>
     sum_list (map gr_suppressed_count (cl_groups cl)) = card {i. is_claimed cl i \<and> i \<notin> set (cl_roots cl)}"

lemma update_keys: "fst ` set (AList.update k v d) = insert k (fst ` set d)"
  using keys_update [of k v d] by simp

lemma claimed_fold: "fst ` set (fold (\<lambda>i. AList.update i v) is d) = fst ` set d \<union> set is"
  by (induction "is" arbitrary: d) (auto simp: update_keys)

lemma claim_step_ok:
  assumes ok: "claims_ok (length (sv_pool sv)) cl" and c: "case ca_event c of None \<Rightarrow> True | Some i \<Rightarrow> i < length (sv_pool sv)"
  shows "claims_ok (length (sv_pool sv)) (claim_step sha1 cfg ip6 topo owned sv c cl)"
proof (cases "(case ca_event c of None \<Rightarrow> False | Some i \<Rightarrow> is_claimed cl i) \<or> children_of cfg ip6 topo owned sv cl c = []")
  case True
  then have "claim_step sha1 cfg ip6 topo owned sv c cl = cl" by (auto simp: claim_step_def Let_def)
  with ok show ?thesis by simp
next
  case False
  let ?ch = "children_of cfg ip6 topo owned sv cl c" and ?cl = "claim_step sha1 cfg ip6 topo owned sv c cl"
  let ?n = "length (sv_pool sv)" and ?old = "{i. is_claimed cl i \<and> i \<notin> set (cl_roots cl)}"
  have ch: "distinct ?ch" "\<And>i. i \<in> set ?ch \<Longrightarrow> i < ?n \<and> \<not> is_claimed cl i \<and> ca_event c \<noteq> Some i"
    using maybe_children_within by (auto simp: children_of_def)
  have roots: "\<And>i. i \<in> set (cl_roots cl) \<Longrightarrow> is_claimed cl i" using ok by (simp add: claims_ok_def)
  have fin: "finite ?old" by (rule finite_subset [of _ "{..<?n}"]) (use ok in \<open>auto simp: claims_ok_def\<close>)
  have "?old \<inter> set ?ch = {}" using ch(2) by auto
  then have card: "card (?old \<union> set ?ch) = card ?old + length ?ch"
    using fin ch(1) by (simp add: card_Un_disjoint distinct_card)
  have claimed: "is_claimed ?cl i \<longleftrightarrow> is_claimed cl i \<or> i \<in> set ?ch \<or> ca_event c = Some i" for i
    using False by (auto simp: claim_step_def Let_def is_claimed_def claimed_fold update_keys split: option.splits)
  have rts: "cl_roots ?cl = cl_roots cl @ (case ca_event c of None \<Rightarrow> [] | Some i \<Rightarrow> [i])"
    and cnt: "map gr_suppressed_count (cl_groups ?cl) = map gr_suppressed_count (cl_groups cl) @ [length ?ch]"
    using False by (auto simp: claim_step_def Let_def make_group_def split: option.splits)
  have "{i. is_claimed ?cl i \<and> i \<notin> set (cl_roots ?cl)} = ?old \<union> set ?ch"
    using False ch(2) roots by (auto simp: claimed rts split: option.splits)
  then have "sum_list (map gr_suppressed_count (cl_groups ?cl)) = card {i. is_claimed ?cl i \<and> i \<notin> set (cl_roots ?cl)}"
    using card ok by (simp add: cnt claims_ok_def)
  moreover have "distinct (cl_roots ?cl)"
    using False ok roots by (auto simp: rts claims_ok_def split: option.splits)
  moreover have "\<forall>i. is_claimed ?cl i \<longrightarrow> i < ?n" using c ch(2) ok by (auto simp: claimed claims_ok_def split: option.splits)
  moreover have "\<forall>i\<in>set (cl_roots ?cl). is_claimed ?cl i" using roots by (auto simp: claimed rts split: option.splits)
  ultimately show ?thesis by (simp add: claims_ok_def)
qed

definition event_ok :: "supp_view \<Rightarrow> candidate \<Rightarrow> bool" where
  "event_ok sv c \<longleftrightarrow> (case ca_event c of None \<Rightarrow> True | Some i \<Rightarrow> i < length (sv_pool sv) \<and> sv_hosts sv ! i \<in> set (ca_hosts c))"

lemma earliest_in: "evs \<noteq> [] \<Longrightarrow> earliest sv evs \<in> set evs"
  using min_by_in [of "\<lambda>i. (sv_times sv ! i = None, when_or_min (map_option dt_seconds (sv_times sv ! i)))" "hd evs" "tl evs"]
  by (cases evs) (auto simp: earliest_def)

lemma own_events: "i \<in> set (dict_get (by_host sv) h []) \<longleftrightarrow> i < length (sv_pool sv) \<and> sv_hosts sv ! i = h"
  by (auto simp: by_host_lookup entries_def)

lemma unreachable_ok:
  assumes "c \<in> set (unreachable_candidates cfg topo sv lost)"
  shows "event_ok sv c"
proof -
  obtain owner where h: "ca_hosts c = [owner]"
      and e: "ca_event c = (case dict_get (by_host sv) owner [] of [] \<Rightarrow> None | i # _ \<Rightarrow> Some i)"
    using assms unfolding unreachable_candidates_def Let_def by (auto split: if_splits)
  show ?thesis
  proof (cases "dict_get (by_host sv) owner []")
    case (Cons i "is")
    then have "i \<in> set (dict_get (by_host sv) owner [])" by simp
    then show ?thesis unfolding own_events using h e Cons by (simp add: event_ok_def)
  qed (simp add: event_ok_def e)
qed

lemma parent_ok:
  assumes "c \<in> set (parent_candidates topo sv lost)"
  shows "event_ok sv c"
proof -
  obtain p where p: "ca_hosts c = [p]" "dict_get (by_host sv) p [] \<noteq> []"
      "ca_event c = Some (earliest sv (dict_get (by_host sv) p []))"
    using assms unfolding parent_candidates_def Let_def by (auto split: if_splits)
  from earliest_in [OF p(2)] show ?thesis unfolding own_events using p by (simp add: event_ok_def)
qed

lemma candidates_ok: "c \<in> set (candidates cfg ip6 topo owned sv) \<Longrightarrow> event_ok sv c"
  using unreachable_ok parent_ok
  by (auto simp: candidates_def Let_def platform_candidates_def transport_candidates_def event_ok_def [of sv "\<lparr>ca_kind = _, ca_event = Some _, ca_hosts = _, ca_t0 = _, ca_label = _, ca_reporters = _, ca_inferred = _\<rparr>"] entries_def)

lemma claims_fold:
  assumes "\<forall>c\<in>set cs. event_ok sv c" and "claims_ok (length (sv_pool sv)) cl"
  shows "claims_ok (length (sv_pool sv)) (fold (claim_step sha1 cfg ip6 topo owned sv) cs cl)"
  using assms
proof (induction cs arbitrary: cl)
  case (Cons c cs)
  then have "claims_ok (length (sv_pool sv)) (claim_step sha1 cfg ip6 topo owned sv c cl)"
    by (intro claim_step_ok) (auto simp: event_ok_def split: option.splits)
  with Cons show ?case by simp
qed simp

lemma suppress_claims_ok: "claims_ok (length (sv_pool sv)) (suppress_claims sha1 cfg ip6 topo sv)"
proof -
  have "claims_ok (length (sv_pool sv)) no_claims" by (simp add: claims_ok_def no_claims_def is_claimed_def)
  then show ?thesis unfolding suppress_claims_def Let_def using candidates_ok by (intro claims_fold) auto
qed

text \<open>
  Nothing is counted twice. The reported number of suppressed events is exactly the number of pool
  events claimed as somebody's child; roots are not among them, each root event heads one group, and roots
  and suppressed events together are no more than the pool.
\<close>

theorem suppressed_once:
  "let pool = filter suppressible events;
       cl = suppress_claims sha1 cfg ip6 topo (supp_view_of ip6 pts now pool);
       r = suppress_alerts sha1 cfg ip6 pts now topo events
   in sr_suppressed_events r = card {i. is_claimed cl i \<and> i \<notin> set (cl_roots cl)} \<and> distinct (cl_roots cl) \<and>
      sr_suppressed_events r + length (cl_roots cl) \<le> length pool"
proof -
  define pool where "pool = filter suppressible events"
  define cl where "cl = suppress_claims sha1 cfg ip6 topo (supp_view_of ip6 pts now pool)"
  define r where "r = suppress_alerts sha1 cfg ip6 pts now topo events"
  have ok: "claims_ok (length pool) cl"
    using suppress_claims_ok [of "supp_view_of ip6 pts now pool"] by (simp add: cl_def)
  let ?c = "{i. is_claimed cl i \<and> i \<notin> set (cl_roots cl)}"
  have sum: "sr_suppressed_events r = sum_list (map gr_suppressed_count (cl_groups cl))"
  proof (cases "pool = []")
    case True
    then have "?c = {}" using ok by (auto simp: claims_ok_def)
    then have "card ?c = 0" by (simp only: card.empty)
    then have "sum_list (map gr_suppressed_count (cl_groups cl)) = 0" using ok unfolding claims_ok_def by presburger
    with True show ?thesis by (simp add: r_def suppress_alerts_def pool_def)
  next
    case False
    then show ?thesis by (simp add: r_def cl_def suppress_alerts_def pool_def Let_def)
  qed
  have sub: "?c \<union> set (cl_roots cl) \<subseteq> {..<length pool}" using ok by (auto simp: claims_ok_def)
  have "finite ?c" by (rule finite_subset [OF _ finite_lessThan]) (use sub in blast)
  then have "card ?c + card (set (cl_roots cl)) = card (?c \<union> set (cl_roots cl))"
    by (intro card_Un_disjoint [symmetric]) auto
  also have "\<dots> \<le> length pool" using card_mono [OF finite_lessThan sub] by simp
  finally have "sr_suppressed_events r = card ?c \<and> distinct (cl_roots cl) \<and>
      sr_suppressed_events r + length (cl_roots cl) \<le> length pool"
    using ok sum by (simp add: claims_ok_def distinct_card)
  then show ?thesis unfolding Let_def pool_def cl_def r_def .
qed

section \<open>Suppressed entities\<close>

definition ids_ok :: "claims \<Rightarrow> bool" where
  "ids_ok cl \<longleftrightarrow> (\<forall>(i, v)\<in>set (cl_claimed cl). v \<in> gr_id ` set (cl_groups cl))"

lemma update_elem: "p \<in> set (AList.update k v d) \<Longrightarrow> p = (k, v) \<or> p \<in> set d"
  by (induction d) (auto split: if_splits)

lemma fold_update_elem: "p \<in> set (fold (\<lambda>i. AList.update i v) is d) \<Longrightarrow> snd p = v \<or> p \<in> set d"
proof (induction "is" arbitrary: d)
  case (Cons i "is")
  from Cons.IH [of "AList.update i v d"] Cons.prems show ?case by (auto dest: update_elem)
qed simp

lemma claim_step_ids: "ids_ok cl \<Longrightarrow> ids_ok (claim_step sha1 cfg ip6 topo owned sv c cl)"
  unfolding claim_step_def Let_def ids_ok_def
  by (auto split: option.splits dest!: update_elem fold_update_elem)

lemma claims_ids: "ids_ok (suppress_claims sha1 cfg ip6 topo sv)"
proof -
  have "ids_ok cl \<Longrightarrow> ids_ok (fold (claim_step sha1 cfg ip6 topo owned sv) cs cl)" for owned cs cl
    by (induction cs arbitrary: cl) (auto intro: claim_step_ids)
  then show ?thesis unfolding suppress_claims_def Let_def by (simp add: ids_ok_def no_claims_def)
qed

definition blames :: "supp_view \<Rightarrow> claims \<Rightarrow> nat \<Rightarrow> entity_key \<Rightarrow> bool" where
  "blames sv cl i key \<longleftrightarrow> entity_key (sv_pool sv ! i) = Some key \<and> is_claimed cl i \<and> i \<notin> set (cl_roots cl) \<and>
     Some key \<notin> set (map (\<lambda>i. entity_key (sv_pool sv ! i)) (filter (\<lambda>i. i \<in> set (cl_roots cl)) (entries sv)))"

definition blame_step :: "supp_view \<Rightarrow> claims \<Rightarrow> nat \<Rightarrow> (entity_key \<times> string) list \<Rightarrow> (entity_key \<times> string) list" where
  "blame_step sv cl i d = (case entity_key (sv_pool sv ! i) of
             None \<Rightarrow> d
           | Some key \<Rightarrow>
               (if is_claimed cl i \<and> i \<notin> set (cl_roots cl) \<and>
                   Some key \<notin> set (map (\<lambda>i. entity_key (sv_pool sv ! i)) (filter (\<lambda>i. i \<in> set (cl_roots cl)) (entries sv)))
                then set_default key (dict_get (cl_claimed cl) i []) d else d))"

lemma blame_step_sound:
  "(key, rid) \<in> set (blame_step sv cl i d) \<Longrightarrow> (key, rid) \<in> set d \<or> blames sv cl i key \<and> rid = dict_get (cl_claimed cl) i []"
  by (auto simp: blame_step_def blames_def set_default_def split: option.splits if_splits)

lemma blame_fold_sound:
  "(key, rid) \<in> set (fold (blame_step sv cl) xs d) \<Longrightarrow> (key, rid) \<in> set d \<or>
     (\<exists>i\<in>set xs. blames sv cl i key \<and> rid = dict_get (cl_claimed cl) i [])"
proof (induction xs arbitrary: d)
  case (Cons i xs)
  from Cons.IH [of "blame_step sv cl i d"] Cons.prems show ?case by (auto dest: blame_step_sound)
qed simp

lemma entity_roots_sound:
  assumes "(key, rid) \<in> set (entity_roots sv cl)"
  shows "\<exists>i\<in>set (entries sv). blames sv cl i key \<and> rid = dict_get (cl_claimed cl) i []"
proof -
  have "entity_roots sv cl = fold (blame_step sv cl) (entries sv) []"
    unfolding entity_roots_def Let_def blame_step_def by (rule refl)
  with assms show ?thesis using blame_fold_sound [of key rid sv cl "entries sv" "[]"] by simp
qed

text \<open>
  A suppressed entity is explained, and a root is never hidden. Every entity reported as suppressed
  belongs to an event claimed by one of the reported groups, whose id it carries, and no root event of any
  group has that entity.
\<close>

theorem suppressed_entity_explained:
  assumes "(key, rid) \<in> set (sr_suppressed_entities (suppress_alerts sha1 cfg ip6 pts now topo events))"
  shows "(\<exists>e\<in>set events. suppressible e \<and> entity_key e = Some key) \<and>
     rid \<in> gr_id ` set (sr_groups (suppress_alerts sha1 cfg ip6 pts now topo events)) \<and>
     (\<forall>i\<in>set (cl_roots (suppress_claims sha1 cfg ip6 topo (supp_view_of ip6 pts now (filter suppressible events)))).
        entity_key (filter suppressible events ! i) \<noteq> Some key)"
proof -
  define pool where "pool = filter suppressible events"
  define sv where "sv = supp_view_of ip6 pts now pool"
  define cl where "cl = suppress_claims sha1 cfg ip6 topo sv"
  have pool: "pool \<noteq> []" using assms by (auto simp: suppress_alerts_def pool_def)
  have r: "sr_suppressed_entities (suppress_alerts sha1 cfg ip6 pts now topo events) = sort_key id (entity_roots sv cl)"
    "sr_groups (suppress_alerts sha1 cfg ip6 pts now topo events) = cl_groups cl"
    using pool by (simp_all add: suppress_alerts_def pool_def sv_def cl_def Let_def)
  have sv: "sv_pool sv = pool" by (simp add: sv_def)
  from assms r(1) have "(key, rid) \<in> set (entity_roots sv cl)" by simp
  from entity_roots_sound [OF this] obtain i where i: "i \<in> set (entries sv)" "blames sv cl i key"
      "rid = dict_get (cl_claimed cl) i []" by blast
  have lt: "i < length pool" using i(1) by (simp add: entries_def sv)
  have "pool ! i \<in> set pool" using lt by simp
  then have "\<exists>e\<in>set events. suppressible e \<and> entity_key e = Some key"
    using i(2) by (auto simp: blames_def sv pool_def)
  moreover have "rid \<in> gr_id ` set (cl_groups cl)"
  proof -
    obtain v where v: "map_of (cl_claimed cl) i = Some v"
      using i(2) by (auto simp: blames_def is_claimed_def dest: weak_map_of_SomeI)
    then have "(i, v) \<in> set (cl_claimed cl)" by (rule map_of_SomeD)
    moreover have "rid = v" using i(3) v by (simp add: dict_get_def)
    ultimately show ?thesis using claims_ids [of sha1 cfg ip6 topo sv] by (auto simp: ids_ok_def cl_def)
  qed
  moreover have "entity_key (pool ! j) \<noteq> Some key" if j: "j \<in> set (cl_roots cl)" for j
  proof -
    have "claims_ok (length pool) cl" using suppress_claims_ok [of sv] by (simp add: cl_def sv)
    then have "j < length pool" using j by (auto simp: claims_ok_def)
    then have "j \<in> set (entries sv)" by (simp add: entries_def sv)
    then show ?thesis using i(2) j unfolding blames_def sv by force
  qed
  ultimately show ?thesis unfolding r(2) pool_def [symmetric] sv_def [symmetric] cl_def [symmetric] by blast
qed

section \<open>A link failure under a BGP session\<close>

definition storm :: "event list" where
  "storm = [blank_event\<lparr>ev_hostname := ''a'', ev_event_type := ''interface_link'', ev_state := ''down'',
              ev_severity := ''high'', ev_interface := ''wan1'', ev_description := ''link down''\<rparr>,
            blank_event\<lparr>ev_hostname := ''a'', ev_event_type := ''bgp_session'', ev_state := ''down'',
              ev_severity := ''high'', ev_peer_ip := ''x''\<rparr>]"

definition storm_cfg :: supp_config where
  "storm_cfg = \<lparr>su_window_s = 300, su_hold_window_s = 240, su_same_device_window_s = 60, su_min_children = 2\<rparr>"

definition storm_view :: supp_view where
  "storm_view = supp_view_of (\<lambda>_. None) (\<lambda>_. None) min_datetime storm"

definition link_root :: candidate where
  "link_root = \<lparr>ca_kind = ''transport'', ca_event = Some 0, ca_hosts = [''a''], ca_t0 = None, ca_label = ''link down'',
     ca_reporters = [], ca_inferred = False\<rparr>"

lemma storm_children: "children_of storm_cfg (\<lambda>_. None) empty_topology [] storm_view no_claims link_root = [1]"
  by code_simp

theorem children_complete_witness:
  "filter (is_child storm_cfg (\<lambda>_. None) empty_topology [] storm_view no_claims link_root) (entries storm_view) = [1]"
proof -
  have cfg: "cfg_ok storm_cfg" by (simp add: cfg_ok_def storm_cfg_def)
  have "sv_hosts storm_view ! 0 = ''a''" by code_simp
  then have cand: "cand_ok empty_topology storm_view link_root"
    by (simp add: cand_ok_def link_root_def storm_view_def storm_def)
  show ?thesis using children_complete [OF cfg cand, of "\<lambda>_. None" "[]" no_claims] storm_children by simp
qed

lemma storm_suppressed:
  "sr_suppressed_entities (suppress_alerts (\<lambda>s. s) storm_cfg (\<lambda>_. None) (\<lambda>_. None) min_datetime empty_topology storm)
     = [((''a'', ''bgp'', ''default|x''), ''ROOT-TRANSPOR'')]"
  by code_simp

theorem suppressed_entity_explained_witness:
  "''ROOT-TRANSPOR'' \<in> gr_id ` set (sr_groups (suppress_alerts (\<lambda>s. s) storm_cfg (\<lambda>_. None) (\<lambda>_. None) min_datetime
     empty_topology storm))"
  by (rule suppressed_entity_explained [THEN conjunct2, THEN conjunct1, of "(''a'', ''bgp'', ''default|x'')"])
     (simp add: storm_suppressed)

end
