(* ===== verification/Sre.thy ===== *)
theory Sre
  imports Regex
begin

text \<open>
  Python's parsed regular expressions, as far as the literal gate of \<open>classifier.py\<close> looks into them: the
  nodes of \<open>re._parser\<close>'s tree, their meaning under \<open>IGNORECASE\<close> as patterns of \<open>Regex\<close>,
  \<open>_guaranteed_literals\<close>, and \<open>_bound_gaps\<close>. A character set is its membership test, case folding
  included. A Python set of literals is a duplicate-free list.
\<close>

datatype sre =
    Literal char
  | Not_Literal char
  | Any_Char
  | In_Set "char \<Rightarrow> bool"
  | At_Begin | At_End | At_Boundary
  | Assert_Not_Ahead "sre list"
  | Assert_Not_Behind "char \<Rightarrow> bool"
  | Subpattern "sre list"
  | Branch "sre list list"
  | Max_Repeat nat "nat option" "sre list"
  | Min_Repeat nat "nat option" "sre list"

section \<open>Meaning\<close>

fun copies :: "nat \<Rightarrow> rx \<Rightarrow> rx" where
  "copies 0 a = Eps"
| "copies (Suc n) a = Seq a (copies n a)"

fun upto_lazy :: "nat \<Rightarrow> rx \<Rightarrow> rx" where
  "upto_lazy 0 a = Eps"
| "upto_lazy (Suc n) a = Alt Eps (Seq a (upto_lazy n a))"

fun rx_of :: "sre \<Rightarrow> rx" and rx_seq :: "sre list \<Rightarrow> rx" and rx_alts :: "sre list list \<Rightarrow> rx" where
  "rx_of (Literal c) = Cls (\<lambda>d. lower_char d = lower_char c)"
| "rx_of (Not_Literal c) = Cls (\<lambda>d. lower_char d \<noteq> lower_char c)"
| "rx_of Any_Char = Cls (\<lambda>d. d \<noteq> char_of (10 :: nat))"
| "rx_of (In_Set f) = Cls f"
| "rx_of At_Begin = Bos"
| "rx_of At_End = Eol"
| "rx_of At_Boundary = Wordb"
| "rx_of (Assert_Not_Ahead xs) = Not_Ahead (rx_seq xs)"
| "rx_of (Assert_Not_Behind f) = Not_Behind f"
| "rx_of (Subpattern xs) = rx_seq xs"
| "rx_of (Branch bs) = rx_alts bs"
| "rx_of (Max_Repeat m n xs) =
     Seq (copies m (rx_seq xs)) (case n of None \<Rightarrow> Star (rx_seq xs) | Some k \<Rightarrow> upto_reps (k - m) (rx_seq xs))"
| "rx_of (Min_Repeat m n xs) =
     Seq (copies m (rx_seq xs)) (case n of None \<Rightarrow> Lazy (rx_seq xs) | Some k \<Rightarrow> upto_lazy (k - m) (rx_seq xs))"
| "rx_seq [] = Eps"
| "rx_seq (x # xs) = Seq (rx_of x) (rx_seq xs)"
| "rx_alts [] = Cls (\<lambda>_. False)"
| "rx_alts (a # as) = Alt (rx_seq a) (rx_alts as)"

section \<open>Guaranteed literals\<close>

text \<open>The loop's variables \<open>best\<close>, \<open>runs\<close> and \<open>run\<close>.\<close>

type_synonym lit_state = "string list option \<times> string list \<times> string"

definition flush_run :: "lit_state \<Rightarrow> lit_state" where
  "flush_run = (\<lambda>(best, runs, run). (best, if run = [] then runs else runs @ [run], []))"

definition prefer_lits :: "string list option \<Rightarrow> string list option \<Rightarrow> string list option" where
  "prefer_lits cur new =
     (case new of
        None \<Rightarrow> cur
      | Some ls \<Rightarrow>
          (if ls = [] then cur
           else case cur of None \<Rightarrow> Some ls | Some c \<Rightarrow> if length ls < length c then Some ls else cur))"

definition longest :: "string list \<Rightarrow> string" where
  "longest xs = max_by length (hd xs) (tl xs)"

definition choose_lits :: "lit_state \<Rightarrow> string list option" where
  "choose_lits = (\<lambda>(best, runs, run).
     (let solid = filter (\<lambda>r. length r \<ge> 3) runs
      in if solid \<noteq> [] then Some [longest solid]
         else if (case best of None \<Rightarrow> False | Some b \<Rightarrow> b \<noteq> [] \<and> list_all (\<lambda>l. length l \<ge> 3) b) then best
         else if runs \<noteq> [] then Some [longest runs]
         else best))"

fun scan_ops :: "sre list \<Rightarrow> lit_state \<Rightarrow> lit_state" and branch_lits :: "sre list list \<Rightarrow> string list \<Rightarrow> string list"
where
  "scan_ops [] st = flush_run st"
| "scan_ops (Literal c # ops) st = (case st of (best, runs, run) \<Rightarrow> scan_ops ops (best, runs, run @ [lower_char c]))"
| "scan_ops (Subpattern sub # ops) st =
     (case flush_run st of (best, runs, run) \<Rightarrow>
        scan_ops ops (prefer_lits best (choose_lits (scan_ops sub (None, [], []))), runs, run))"
| "scan_ops (Branch bs # ops) st =
     (case flush_run st of (best, runs, run) \<Rightarrow> scan_ops ops (prefer_lits best (Some (branch_lits bs [])), runs, run))"
| "scan_ops (Max_Repeat m n sub # ops) st =
     (case flush_run st of (best, runs, run) \<Rightarrow>
        scan_ops ops (if m \<ge> 1 then prefer_lits best (choose_lits (scan_ops sub (None, [], []))) else best, runs, run))"
| "scan_ops (Min_Repeat m n sub # ops) st =
     (case flush_run st of (best, runs, run) \<Rightarrow>
        scan_ops ops (if m \<ge> 1 then prefer_lits best (choose_lits (scan_ops sub (None, [], []))) else best, runs, run))"
| "scan_ops (other # ops) st = scan_ops ops (flush_run st)"
| "branch_lits [] acc = acc"
| "branch_lits (alt # bs) acc =
     (case choose_lits (scan_ops alt (None, [], [])) of
        None \<Rightarrow> []
      | Some ls \<Rightarrow> if ls = [] then [] else branch_lits bs (List.union ls acc))"

definition guaranteed_literals :: "sre list \<Rightarrow> string list option" where
  "guaranteed_literals parsed = choose_lits (scan_ops parsed (None, [], []))"

section \<open>Bounded gaps\<close>

fun bound_gaps_loop :: "nat \<Rightarrow> bool \<Rightarrow> string \<Rightarrow> string" where
  "bound_gaps_loop limit in_class [] = []"
| "bound_gaps_loop limit in_class (ch # rest) =
     (if ch = char_of (92 :: nat) then ch # take 1 rest @ bound_gaps_loop limit in_class (drop 1 rest)
      else if in_class then ch # bound_gaps_loop limit (ch \<noteq> CHR '']'') rest
      else if ch = CHR ''['' then ch # bound_gaps_loop limit True rest
      else if ch = CHR ''.'' \<and> take 1 rest = ''*'' then ''.{0,'' @ show_nat limit @ ''}'' @ bound_gaps_loop limit in_class (drop 1 rest)
      else ch # bound_gaps_loop limit in_class rest)"

definition gap_chars :: nat where "gap_chars = 300"

definition bound_gaps :: "string \<Rightarrow> string" where
  "bound_gaps pattern = bound_gaps_loop gap_chars False pattern"

text \<open>What that does to the parse tree: every unbounded repeat of any character gets the limit.\<close>

fun bound_node :: "nat \<Rightarrow> sre \<Rightarrow> sre" where
  "bound_node k (Assert_Not_Ahead xs) = Assert_Not_Ahead (map (bound_node k) xs)"
| "bound_node k (Subpattern xs) = Subpattern (map (bound_node k) xs)"
| "bound_node k (Branch bs) = Branch (map (map (bound_node k)) bs)"
| "bound_node k (Max_Repeat m n xs) =
     (if xs = [Any_Char] \<and> m = 0 \<and> n = None then Max_Repeat 0 (Some k) xs else Max_Repeat m n (map (bound_node k) xs))"
| "bound_node k (Min_Repeat m n xs) =
     (if xs = [Any_Char] \<and> m = 0 \<and> n = None then Min_Repeat 0 (Some k) xs else Min_Repeat m n (map (bound_node k) xs))"
| "bound_node k x = x"

end
