(* ===== verification/Classifier.thy ===== *)
theory Classifier
  imports Sre Events Ip_Address Correlate Rbac
begin

text \<open>
  The classifier (\<open>classifier.py\<close>): the literal gate in front of the knowledge base, the user's custom
  rules, the verdict of a parsed state, and the classification and ordering of a batch.

  Arguments: the rule table of the knowledge base (data), \<open>parse\<close> (the standard library's regular-expression
  parser, nothing where it raises), \<open>compile_custom\<close> (the third-party \<open>regex\<close> package: the error text, or the
  search with its timeout, a timeout being a non-match), the vendor parsers' \<open>ensure_structured\<close>, and
  \<open>normalize_ts\<close>. The cache of candidate lists is state that is passed along.
\<close>

section \<open>The rule table\<close>

record kb_rule =
  kb_pattern :: string
  kb_sev :: string
  kb_cat :: string
  kb_desc :: string

definition max_match_chars :: nat where "max_match_chars = 4096"
definition head_chars :: nat where "head_chars = 3072"

definition bound_for_kb :: "string \<Rightarrow> string" where
  "bound_for_kb text =
     (if length text \<le> max_match_chars then text
      else take head_chars text @ '' '' @ take_last (max_match_chars - head_chars - 1) text)"

type_synonym re_parser = "string \<Rightarrow> sre list option"

definition compiled_search :: "re_parser \<Rightarrow> kb_rule \<Rightarrow> string \<Rightarrow> bool" where
  "compiled_search parse r text =
     (case parse (bound_gaps (kb_pattern r)) of None \<Rightarrow> False | Some ops \<Rightarrow> rx_search (rx_seq ops) text \<noteq> None)"

section \<open>The literal gate\<close>

record gate =
  ga_kw :: "string list"
  ga_literal_patterns :: "(string \<times> nat list) list"
  ga_unguarded :: "nat list"

definition gate_lits :: "re_parser \<Rightarrow> kb_rule \<Rightarrow> string list" where
  "gate_lits parse r =
     (case parse (kb_pattern r) of
        None \<Rightarrow> []
      | Some ops \<Rightarrow>
          (case guaranteed_literals ops of
             None \<Rightarrow> []
           | Some ls \<Rightarrow> if list_all (\<lambda>l. length l \<ge> 3) ls then ls else []))"

definition gate_rule :: "re_parser \<Rightarrow> nat \<times> kb_rule \<Rightarrow> gate \<Rightarrow> gate" where
  "gate_rule parse = (\<lambda>(i, r) g.
     (let ls = gate_lits parse r
      in if ls \<noteq> []
         then g\<lparr>ga_kw := List.union ls (ga_kw g), ga_literal_patterns := fold (\<lambda>l. push l i) ls (ga_literal_patterns g)\<rparr>
         else g\<lparr>ga_unguarded := ga_unguarded g @ [i]\<rparr>))"

definition build_gate :: "re_parser \<Rightarrow> kb_rule list \<Rightarrow> gate" where
  "build_gate parse rules =
     fold (gate_rule parse) (enumerate 0 rules) \<lparr>ga_kw = [], ga_literal_patterns = [], ga_unguarded = []\<rparr>"

definition gate_literals :: "gate \<Rightarrow> string list" where
  "gate_literals g = sort (map fst (ga_literal_patterns g))"

definition gate_keywords :: "gate \<Rightarrow> string list" where
  "gate_keywords g = sort (filter (\<lambda>k. \<not> list_ex (\<lambda>other. other \<noteq> k \<and> is_infix other k) (ga_kw g)) (ga_kw g))"

text \<open>The alternation tries the longest keyword first.\<close>

definition gate_re :: "gate \<Rightarrow> string \<Rightarrow> string option" where
  "gate_re g s = List.find (\<lambda>k. starts_with k s) (rev (sort_key length (rev (gate_keywords g))))"

definition literals_with :: "gate \<Rightarrow> string \<Rightarrow> string list" where
  "literals_with g k = filter (is_infix k) (gate_literals g)"

fun keyword_hits :: "gate \<Rightarrow> string \<Rightarrow> string list" where
  "keyword_hits g [] = []"
| "keyword_hits g (c # cs) =
     (case gate_re g (c # cs) of Some k \<Rightarrow> k # keyword_hits g cs | None \<Rightarrow> keyword_hits g cs)"

definition present_literals :: "gate \<Rightarrow> string \<Rightarrow> string list" where
  "present_literals g text =
     (let found = keyword_hits g text
      in if found = [] then []
         else sorted_set (filter (\<lambda>lit. is_infix lit text) (concat (map (literals_with g) found))))"

type_synonym candidate_cache = "(string list \<times> nat list) list"

definition candidate_cache_max :: nat where "candidate_cache_max = 4096"

definition candidate_ids :: "gate \<Rightarrow> string list \<Rightarrow> nat list" where
  "candidate_ids g present =
     sorted_set (ga_unguarded g @ concat (map (\<lambda>k. dict_get (ga_literal_patterns g) k []) present))"

definition gated_candidates :: "gate \<Rightarrow> string \<Rightarrow> candidate_cache \<Rightarrow> nat list \<times> candidate_cache" where
  "gated_candidates g text cache =
     (if gate_keywords g = [] then (ga_unguarded g, cache)
      else let present = present_literals g text
           in if present = [] then (ga_unguarded g, cache)
              else case map_of cache present of
                     Some ids \<Rightarrow> (ids, cache)
                   | None \<Rightarrow>
                       (let ids = candidate_ids g present
                        in (ids, AList.update present ids (if length cache \<ge> candidate_cache_max then [] else cache))))"

section \<open>Custom rules\<close>

record custom_rule =
  cr_pattern :: string
  cr_search :: "string \<Rightarrow> bool"
  cr_sev :: string
  cr_cat :: string
  cr_desc :: string

definition max_custom_rules :: nat where "max_custom_rules = 100"
definition max_custom_pattern_length :: nat where "max_custom_pattern_length = 512"

definition str_or :: "(json \<Rightarrow> string) \<Rightarrow> (string \<times> json) list \<Rightarrow> string \<Rightarrow> string \<Rightarrow> string \<Rightarrow> string" where
  "str_or repr d k missing fallback =
     (let s = (case map_of d k of None \<Rightarrow> missing | Some j \<Rightarrow> py_str repr j) in if s = [] then fallback else s)"

definition custom_rule_of ::
  "(json \<Rightarrow> string) \<Rightarrow> (string \<Rightarrow> string + (string \<Rightarrow> bool)) \<Rightarrow> nat \<Rightarrow> json \<Rightarrow> nat \<Rightarrow> string + custom_rule" where
  "custom_rule_of repr compile_custom registered rule i =
     (let err = (\<lambda>msg. Inl (''rule '' @ show_nat i @ '': '' @ msg))
      in if registered \<ge> max_custom_rules then err (''custom rule limit ('' @ show_nat max_custom_rules @ '') reached'')
         else case rule of
           JObj d \<Rightarrow>
             (let severity = lower (str_or repr d ''severity'' [] [])
              in if map_of sev_order severity = None then err (''invalid severity '' @ repr (JStr severity))
                 else case (case map_of d ''pattern'' of None \<Rightarrow> JStr [] | Some j \<Rightarrow> j) of
                   JStr p \<Rightarrow>
                     (if p = [] then err ''pattern must be a non-empty string''
                      else if length p > max_custom_pattern_length
                      then err (''pattern exceeds '' @ show_nat max_custom_pattern_length @ '' characters'')
                      else case compile_custom p of
                             Inl msg \<Rightarrow> err (''bad regex: '' @ msg)
                           | Inr srch \<Rightarrow> Inr \<lparr>cr_pattern = p, cr_search = srch, cr_sev = severity,
                               cr_cat = str_or repr d ''category'' ''custom'' ''custom'',
                               cr_desc = str_or repr d ''description'' [] ''Custom rule match''\<rparr>)
                 | _ \<Rightarrow> err ''pattern must be a non-empty string'')
         | _ \<Rightarrow> err ''not an object'')"

fun add_custom_rules ::
  "(json \<Rightarrow> string) \<Rightarrow> (string \<Rightarrow> string + (string \<Rightarrow> bool)) \<Rightarrow> nat \<Rightarrow> json list \<Rightarrow> custom_rule list
     \<Rightarrow> (nat \<times> string list) \<times> custom_rule list" where
  "add_custom_rules repr compile_custom i [] registered = ((0, []), registered)"
| "add_custom_rules repr compile_custom i (rule # rules) registered =
     (case custom_rule_of repr compile_custom (length registered) rule i of
        Inl e \<Rightarrow>
          (case add_custom_rules repr compile_custom (Suc i) rules registered of
             ((added, errors), reg) \<Rightarrow> ((added, e # errors), reg))
      | Inr r \<Rightarrow>
          (case add_custom_rules repr compile_custom (Suc i) rules (registered @ [r]) of
             ((added, errors), reg) \<Rightarrow> ((Suc added, errors), reg)))"

text \<open>\<open>load_custom_rules_file\<close>: the file is missing, unreadable (with the error text), or JSON.\<close>

datatype rules_file = File_Missing | File_Unreadable string | File_Json json

definition load_custom_rules_file ::
  "(json \<Rightarrow> string) \<Rightarrow> (string \<Rightarrow> string + (string \<Rightarrow> bool)) \<Rightarrow> string \<Rightarrow> rules_file \<Rightarrow> custom_rule list
     \<Rightarrow> (nat \<times> string list) \<times> custom_rule list" where
  "load_custom_rules_file repr compile_custom path f registered =
     (case f of
        File_Missing \<Rightarrow> ((0, [''custom rules file not found: '' @ path]), registered)
      | File_Unreadable msg \<Rightarrow> ((0, [''custom rules file unreadable: '' @ msg]), registered)
      | File_Json (JList rules) \<Rightarrow> add_custom_rules repr compile_custom 0 rules registered
      | File_Json _ \<Rightarrow> ((0, [''custom rules file must contain a JSON list'']), registered))"

definition custom_rules :: "custom_rule list \<Rightarrow> json list" where
  "custom_rules registered =
     map (\<lambda>r. JObj [(''pattern'', JStr (cr_pattern r)), (''severity'', JStr (cr_sev r)), (''category'', JStr (cr_cat r)),
                    (''description'', JStr (cr_desc r))]) registered"

section \<open>ANSI escapes\<close>

definition char_between :: "nat \<Rightarrow> nat \<Rightarrow> char \<Rightarrow> bool" where
  "char_between a b c = (let n = (of_char c :: nat) in a \<le> n \<and> n \<le> b)"

definition ansi_escape_re :: rx where
  "ansi_escape_re = Seq (lit_char (char_of (27 :: nat)))
     (Alt (Cls (\<lambda>c. char_between 64 90 c \<or> char_between 92 95 c))
          (seqs [lit_char (CHR ''[''), Star (Cls (char_between 48 63)), Star (Cls (char_between 32 47)),
                 Cls (char_between 64 126)]))"

definition strip_ansi :: "string \<Rightarrow> string" where
  "strip_ansi text = (if char_of (27 :: nat) \<notin> set text then text else rx_sub ansi_escape_re (\<lambda>m g. []) text)"

section \<open>Actions and states\<close>

definition em_dash_text :: string where
  "em_dash_text = map char_of [226 :: nat, 128, 148]"

definition default_actions :: "((string \<times> string) \<times> string) list" where
  "default_actions =
     [((''critical'', ''system''), ''Escalate immediately '' @ em_dash_text @ '' possible OS/hardware failure''),
      ((''critical'', ''hardware''), ''Check chassis hardware '' @ em_dash_text @ '' FPC/PSU/Fan replacement may be needed''),
      ((''critical'', ''compliance''), ''Renew license urgently '' @ em_dash_text @ '' feature may stop working''),
      ((''high'', ''routing''), ''Check BGP/OSPF neighbors '' @ em_dash_text @ '' verify reachability and peering config''),
      ((''high'', ''interface''), ''Investigate physical link '' @ em_dash_text @ '' check fiber/SFP/patch panel''),
      ((''high'', ''lag''), ''Check LAG member links '' @ em_dash_text @ '' verify LACP config and cabling''),
      ((''high'', ''vpn''), ''Investigate VPN tunnel '' @ em_dash_text @ '' check IKE Phase 1/2''),
      ((''high'', ''security''), ''Investigate auth failure '' @ em_dash_text @ '' check logs for brute force''),
      ((''high'', ''redundancy''), ''Verify redundancy state '' @ em_dash_text @ '' check VRRP priority and uplink''),
      ((''medium'', ''performance''), ''Monitor traffic '' @ em_dash_text @ '' check for congestion or rate limiting''),
      ((''medium'', ''interface''), ''Verify link stability '' @ em_dash_text @ '' check SFP Rx/Tx power''),
      ((''medium'', ''security''), ''Review ACL/firewall hits '' @ em_dash_text @ '' check for policy violation''),
      ((''medium'', ''ntp''), ''Verify NTP reachability '' @ em_dash_text @ '' time skew may affect logs''),
      ((''critical'', ''redundancy''), ''Isolate the HA pair '' @ em_dash_text @ '' confirm which node owns traffic before any failback''),
      ((''high'', ''sdwan''), ''Check SD-WAN overlay '' @ em_dash_text @ '' BFD/OMP/control connections and transport SLA''),
      ((''high'', ''firewall''), ''Check firewall session/memory headroom '' @ em_dash_text @ '' risk of new-session drops''),
      ((''medium'', ''sdwan''), ''Monitor SD-WAN path quality '' @ em_dash_text @ '' confirm SLA recovery''),
      ((''high'', ''system''), ''Check device resources and process health '' @ em_dash_text @ '' look at CPU/memory consumers and recent restarts''),
      ((''medium'', ''system''), ''Check which process is holding the CPU '' @ em_dash_text @ '' compare against the usual baseline''),
      ((''high'', ''stp''), ''Find the port that received the unexpected BPDU '' @ em_dash_text @ '' fix the neighbor or edge-port config''),
      ((''high'', ''aaa''), ''Verify AAA server reachability '' @ em_dash_text @ '' confirm local/fallback login still works''),
      ((''high'', ''hardware''), ''Inspect hardware '' @ em_dash_text @ '' check optics Rx power, line card and chassis alarms''),
      ((''low'', ''auth''), ''Informational '' @ em_dash_text @ '' log user access for audit''),
      ((''low'', ''config''), ''Informational '' @ em_dash_text @ '' track config changes in change log'')]"

definition action_for :: "string \<Rightarrow> string \<Rightarrow> string" where
  "action_for sev cat = dict_get default_actions (sev, cat) ''Review and investigate as needed''"

definition state_verdicts :: "((string \<times> string) \<times> string \<times> string \<times> string) list" where
  "state_verdicts =
     [((''bgp_session'', ''down''), ''high'', ''routing'', ''BGP peer down / connect failure''),
      ((''bgp_session'', ''up''), ''medium'', ''routing'', ''BGP peer established''),
      ((''interface_link'', ''down''), ''high'', ''interface'', ''Interface link down''),
      ((''interface_link'', ''up''), ''medium'', ''interface'', ''Interface link up''),
      ((''ipsec_tunnel'', ''down''), ''high'', ''vpn'', ''VPN/IPsec tunnel failure''),
      ((''ipsec_tunnel'', ''up''), ''medium'', ''vpn'', ''VPN/IPsec tunnel up''),
      ((''lag_member'', ''down''), ''high'', ''lag'', ''LACP/LAG member down''),
      ((''lag_member'', ''up''), ''medium'', ''lag'', ''LAG member joining bundle''),
      ((''isis_adjacency'', ''down''), ''high'', ''routing'', ''IS-IS adjacency down''),
      ((''isis_adjacency'', ''up''), ''low'', ''routing'', ''IS-IS adjacency up''),
      ((''ldp_session'', ''down''), ''high'', ''routing'', ''LDP neighbor/session down''),
      ((''ldp_session'', ''up''), ''low'', ''routing'', ''LDP neighbor/session up'')]"

definition generic_activity :: "string list" where
  "generic_activity = [''Routing daemon activity'',
     ''Chassis daemon activity'',
     ''Forwarding daemon activity'',
     ''SNMP daemon/trap activity'',
     ''Alarm set/clear event'',
     ''Process lifecycle event'',
     ''inetd service activity'',
     ''EOS agent/process activity'',
     ''LLDP neighbor change'']"

definition bgp_down_descriptions :: "string list" where
  "bgp_down_descriptions = [''BGP peer down / connect failure'',
     ''BGP peer idle / notification'',
     ''BGP notification / adjacency down (FRR/IOS)'']"

definition admin_down_re :: rx where
  "admin_down_re = alts [lit ''administratively'', seqs [lit ''admin'', any_of ''- '', lit ''down''],
     seqs [Wordb, lit ''shut'', opt (lit ''down''), Wordb]]"

definition state_verdict ::
  "string \<Rightarrow> string \<Rightarrow> string \<Rightarrow> string \<Rightarrow> string \<Rightarrow> (string \<times> string \<times> string) option" where
  "state_verdict event_type state sev desc text =
     (case map_of state_verdicts (event_type, state) of
        None \<Rightarrow> None
      | Some target \<Rightarrow>
          (if event_type = ''interface_link'' \<and> state = ''down'' \<and> rx_search admin_down_re text \<noteq> None then None
           else if desc = [] \<or> (sev = ''low'' \<and> desc \<in> set generic_activity) then Some target
           else if event_type = ''bgp_session'' \<and> state = ''down'' \<and> desc = ''BGP peer established'' then Some target
           else if event_type = ''bgp_session'' \<and> state = ''up'' \<and> desc \<in> set bgp_down_descriptions then Some target
           else None))"

section \<open>Classification\<close>

record classifier =
  cf_parse :: re_parser
  cf_rules :: "kb_rule list"
  cf_authoritative :: "string list"
  cf_custom :: "custom_rule list"
  cf_structure :: "log_event \<Rightarrow> log_event"
  cf_ip6 :: ip6

text \<open>A verdict: severity, category, description, confidence and whether the rule is authoritative.\<close>

type_synonym verdict = "string \<times> string \<times> string \<times> rat \<times> bool"

definition is_ascii :: "string \<Rightarrow> bool" where
  "is_ascii s = list_all (\<lambda>c. (of_char c :: nat) < 128) s"

definition custom_verdict :: "classifier \<Rightarrow> string \<Rightarrow> verdict" where
  "custom_verdict cf combined =
     (case List.find (\<lambda>r. cr_search r combined) (cf_custom cf) of
        None \<Rightarrow> (''info'', ''other'', [], 9/10, False)
      | Some r \<Rightarrow> (cr_sev r, cr_cat r, cr_desc r, 1, False))"

definition kb_candidates :: "classifier \<Rightarrow> string \<Rightarrow> candidate_cache \<Rightarrow> nat list \<times> candidate_cache" where
  "kb_candidates cf kb_text cache =
     (if \<not> is_ascii kb_text then ([0..<length (cf_rules cf)], cache)
      else gated_candidates (build_gate (cf_parse cf) (cf_rules cf)) kb_text cache)"

definition kb_verdict :: "classifier \<Rightarrow> string \<Rightarrow> verdict \<Rightarrow> candidate_cache \<Rightarrow> verdict \<times> candidate_cache" where
  "kb_verdict cf kb_text v cache =
     (case v of (sev, cat, desc, conf, auth) \<Rightarrow>
        if desc \<noteq> [] then (v, cache)
        else case kb_candidates cf kb_text cache of
               (ids, cache') \<Rightarrow>
                 ((case List.find (\<lambda>i. compiled_search (cf_parse cf) (cf_rules cf ! i) kb_text) ids of
                     None \<Rightarrow> v
                   | Some i \<Rightarrow> (let r = cf_rules cf ! i
                               in (kb_sev r, kb_cat r, kb_desc r, conf, kb_pattern r \<in> set (cf_authoritative cf)))), cache'))"

definition state_step :: "log_event \<Rightarrow> string \<Rightarrow> verdict \<Rightarrow> verdict" where
  "state_step e kb_text v =
     (case v of (sev, cat, desc, conf, auth) \<Rightarrow>
        if conf \<noteq> 1 \<and> \<not> auth \<and> le_state e \<in> {''up'', ''down''}
        then (case state_verdict (le_event_type e) (le_state e) sev desc kb_text of
                Some (s, c, d) \<Rightarrow> (s, c, d, 7/10, auth)
              | None \<Rightarrow> v)
        else v)"

definition snippet_step :: "log_event \<Rightarrow> string \<Rightarrow> verdict \<Rightarrow> verdict" where
  "snippet_step e clean v =
     (case v of (sev, cat, desc, conf, auth) \<Rightarrow>
        if desc \<noteq> [] then v
        else (sev, cat, first_nonempty [strip (take 120 clean), le_appname e, ''General log message''], 3/10, auth))"

definition raw_severity_step :: "log_event \<Rightarrow> verdict \<Rightarrow> verdict" where
  "raw_severity_step e v =
     (case v of (sev, cat, desc, conf, auth) \<Rightarrow>
        if lower (le_severity_raw e) \<in> {''crit'', ''emerg'', ''alert''} \<and> sev = ''info''
        then (''high'', cat, desc, 6/10, auth) else v)"

definition classified :: "classifier \<Rightarrow> log_event \<Rightarrow> string \<Rightarrow> verdict \<Rightarrow> event" where
  "classified cf e clean v =
     (case v of (sev, cat, desc, conf, auth) \<Rightarrow>
        \<lparr>ev_timestamp = le_timestamp e, ev_hostname = short_host (cf_ip6 cf) False (le_hostname e),
         ev_appname = le_appname e, ev_severity = sev, ev_severity_raw = le_severity_raw e, ev_category = cat,
         ev_description = desc, ev_action = action_for sev cat, ev_message = take 500 clean,
         ev_sample_message = take 200 clean, ev_confidence = conf, ev_vendor = le_vendor e,
         ev_event_type = le_event_type e, ev_interface = le_interface e, ev_peer_ip = le_peer_ip e, ev_asn = le_asn e,
         ev_vrf = le_vrf e, ev_vni = le_vni e, ev_tunnel_id = le_tunnel_id e, ev_vendor_action = le_action e,
         ev_state = le_state e, ev_normalized_utc_ts = le_normalized_utc_ts e, ev_attrs = le_attrs e\<rparr>)"

text \<open>One round of \<open>iter_classify\<close>.\<close>

definition classify_one :: "classifier \<Rightarrow> log_event \<Rightarrow> candidate_cache \<Rightarrow> event \<times> candidate_cache" where
  "classify_one cf raw cache =
     (let e = cf_structure cf raw;
          clean = strip_ansi (le_message e);
          combined = lower (le_appname e @ '' '' @ clean);
          kb_text = bound_for_kb combined;
          (v, cache') = kb_verdict cf kb_text (custom_verdict cf combined) cache
      in (classified cf e clean (raw_severity_step e (snippet_step e clean (state_step e kb_text v))), cache'))"

fun iter_classify :: "classifier \<Rightarrow> log_event list \<Rightarrow> candidate_cache \<Rightarrow> event list \<times> candidate_cache" where
  "iter_classify cf [] cache = ([], cache)"
| "iter_classify cf (e # es) cache =
     (case classify_one cf e cache of (ce, cache1) \<Rightarrow>
        case iter_classify cf es cache1 of (ces, cache2) \<Rightarrow> (ce # ces, cache2))"

definition time_sort_key :: "(string \<Rightarrow> string) \<Rightarrow> event \<Rightarrow> string \<times> string" where
  "time_sort_key normalize_ts e =
     (let norm = (if ev_normalized_utc_ts e \<noteq> [] then ev_normalized_utc_ts e else normalize_ts (ev_timestamp e))
      in (norm, if norm \<noteq> [] then [] else ev_timestamp e))"

definition zero_counts :: "(string \<times> nat) list" where
  "zero_counts = [(''critical'', 0), (''high'', 0), (''medium'', 0), (''low'', 0), (''info'', 0)]"

definition classify_events ::
  "classifier \<Rightarrow> (string \<Rightarrow> string) \<Rightarrow> log_event list \<Rightarrow> candidate_cache
     \<Rightarrow> (event list \<times> (string \<times> nat) list \<times> (string \<times> nat) list) \<times> candidate_cache" where
  "classify_events cf normalize_ts events cache =
     (case iter_classify cf events cache of (ces, cache') \<Rightarrow>
        ((sort_key (\<lambda>e. dict_get sev_order (ev_severity e) 5) (rev (sort_key (time_sort_key normalize_ts) (rev ces))),
          fold (\<lambda>e d. bump d (ev_severity e)) ces zero_counts, fold (\<lambda>e d. bump d (ev_category e)) ces []), cache'))"

end
