(* ===== verification/Sre_Laws.thy ===== *)
theory Sre_Laws
  imports Sre
begin

text \<open>
  Soundness of the literal gate: in a lower-case text, every match of a pattern contains one of its
  guaranteed literals, and bounding the gaps of a pattern does not change its literals.
\<close>

definition inside :: "string \<Rightarrow> string \<Rightarrow> bool" where
  "inside p s \<longleftrightarrow> (\<exists>a b. s = a @ p @ b)"

lemma is_infix_iff: "is_infix p s \<longleftrightarrow> inside p s"
proof (induction s)
  case Nil
  then show ?case by (auto simp: inside_def)
next
  case (Cons c cs)
  show ?case
  proof
    assume "is_infix p (c # cs)"
    then consider "starts_with p (c # cs)" | "is_infix p cs" by auto
    then show "inside p (c # cs)"
    proof cases
      case 1
      then show ?thesis unfolding inside_def starts_with_iff by (metis append_Nil)
    next
      case 2
      then obtain a b where "cs = a @ p @ b" using Cons by (auto simp: inside_def)
      then show ?thesis unfolding inside_def by (intro exI [of _ "c # a"] exI [of _ b]) simp
    qed
  next
    assume "inside p (c # cs)"
    then obtain a b where ab: "c # cs = a @ p @ b" by (auto simp: inside_def)
    show "is_infix p (c # cs)"
    proof (cases a)
      case Nil
      with ab have "starts_with p (c # cs)" unfolding starts_with_iff by auto
      then show ?thesis by simp
    next
      case (Cons d a')
      with ab have "inside p cs" by (auto simp: inside_def)
      with \<open>is_infix p cs = inside p cs\<close> show ?thesis by simp
    qed
  qed
qed

lemma inside_append: "inside p u \<Longrightarrow> inside p (u @ w)" and inside_prepend: "inside p w \<Longrightarrow> inside p (u @ w)"
  unfolding inside_def by (metis append.assoc)+

lemma inside_refl [simp]: "inside p p"
  unfolding inside_def by (metis append_Nil append_Nil2)

lemma inside_suffix: "inside p (u @ p)"
  by (rule inside_prepend) simp

lemma max_by_in: "max_by f b xs \<in> insert b (set xs)"
proof (induction xs arbitrary: b)
  case (Cons x xs)
  show ?case using Cons.IH [of "if f x > f b then x else b"] by (auto split: if_splits)
qed simp

lemma longest_in: "xs \<noteq> [] \<Longrightarrow> longest xs \<in> set xs"
  using max_by_in [of length "hd xs" "tl xs"] by (cases xs) (auto simp: longest_def)

section \<open>Runs of the matcher\<close>

definition runs_to :: "rx \<Rightarrow> string \<Rightarrow> string \<Rightarrow> caps \<Rightarrow> string \<Rightarrow> string \<Rightarrow> caps \<Rightarrow> bool" where
  "runs_to a l r g l' r' g' \<longleftrightarrow> (l', r', g') \<in> set (rx_run a (l, r, g))"

lemma runs_Seq:
  assumes "runs_to (Seq a b) l r g l' r' g'"
  obtains l1 r1 g1 where "runs_to a l r g l1 r1 g1" "runs_to b l1 r1 g1 l' r' g'"
  using assms unfolding runs_to_def by (auto split: if_splits)

lemma runs_split:
  assumes "runs_to a l r g l' r' g'"
  obtains w where "r = w @ r'" "l' = rev w @ l"
  using rx_run_splits assms unfolding runs_to_def by blast

text \<open>Some run of \<open>a\<close> consumes exactly \<open>w\<close> in front of a lower-case text.\<close>

definition lower_text :: "string \<Rightarrow> bool" where
  "lower_text s \<longleftrightarrow> lower s = s"

lemma lower_text_append [simp]: "lower_text (a @ b) \<longleftrightarrow> lower_text a \<and> lower_text b"
proof -
  have "length (lower a) = length a" by (simp add: lower_def)
  then show ?thesis by (auto simp: lower_text_def lower_def)
qed

lemma lower_text_Cons: "lower_text (c # s) \<longleftrightarrow> lower_char c = c \<and> lower_text s"
  by (simp add: lower_text_def lower_def)

definition consumes :: "rx \<Rightarrow> string \<Rightarrow> bool" where
  "consumes a w \<longleftrightarrow> lower_text w \<and> (\<exists>l r g l' g'. runs_to a l (w @ r) g l' r g')"

lemma consumes_Seq:
  assumes "consumes (Seq a b) w"
  obtains u v where "w = u @ v" "consumes a u" "consumes b v"
proof -
  obtain l r g l' g' where w: "lower_text w" "runs_to (Seq a b) l (w @ r) g l' r g'" using assms by (auto simp: consumes_def)
  from w(2) obtain l1 r1 g1 where q: "runs_to a l (w @ r) g l1 r1 g1" "runs_to b l1 r1 g1 l' r g'" by (rule runs_Seq)
  obtain u where u: "w @ r = u @ r1" using q(1) by (rule runs_split)
  obtain v where v: "r1 = v @ r" using q(2) by (rule runs_split)
  have wv: "w = u @ v" using u v by simp
  have "runs_to a l (u @ (v @ r)) g l1 (v @ r) g1" "runs_to b l1 (v @ r) g1 l' r g'"
    using q v wv by simp_all
  moreover have "lower_text u" "lower_text v" using w(1) wv by simp_all
  ultimately have "consumes a u" "consumes b v" unfolding consumes_def by blast+
  with wv show ?thesis by (rule that)
qed

lemma consumes_Eps: "consumes Eps w \<Longrightarrow> w = []"
  by (auto simp: consumes_def runs_to_def)

lemma consumes_Cls: "consumes (Cls f) w \<Longrightarrow> \<exists>c. w = [c] \<and> f c \<and> lower_char c = c"
  unfolding consumes_def runs_to_def by (auto simp: lower_text_Cons split: list.splits if_splits)

lemma consumes_Alt: "consumes (Alt a b) w \<Longrightarrow> consumes a w \<or> consumes b w"
  unfolding consumes_def runs_to_def by auto

lemma consumes_copies:
  assumes "consumes (Seq (copies (Suc m) a) b) w"
  obtains u v where "w = u @ v" "consumes a u"
proof -
  from assms obtain u v where uv: "w = u @ v" "consumes (copies (Suc m) a) u" by (rule consumes_Seq)
  then have "consumes (Seq a (copies m a)) u" by simp
  then obtain u1 u2 where "u = u1 @ u2" "consumes a u1" by (rule consumes_Seq)
  with uv(1) show ?thesis by (intro that [of u1 "u2 @ v"]) simp_all
qed

section \<open>Soundness of the literals\<close>

text \<open>The loop's variables describe the text \<open>u\<close> consumed so far.\<close>

definition lits_in :: "string list option \<Rightarrow> string \<Rightarrow> bool" where
  "lits_in ls u \<longleftrightarrow> (case ls of None \<Rightarrow> True | Some b \<Rightarrow> \<exists>l\<in>set b. inside l u)"

definition state_ok :: "lit_state \<Rightarrow> string \<Rightarrow> bool" where
  "state_ok st u \<longleftrightarrow> (case st of (best, runs, run) \<Rightarrow>
     lits_in best u \<and> (\<forall>r\<in>set runs. inside r u) \<and> (\<exists>p. u = p @ run))"

lemma state_ok_start [simp]: "state_ok (None, [], []) []"
  by (simp add: state_ok_def lits_in_def)

lemma lits_in_append: "lits_in ls u \<Longrightarrow> lits_in ls (u @ w)"
  by (auto simp: lits_in_def intro: inside_append split: option.splits)

lemma lits_in_prepend: "lits_in ls w \<Longrightarrow> lits_in ls (u @ w)"
  by (auto simp: lits_in_def intro: inside_prepend split: option.splits)

lemma flush_ok: "state_ok st u \<Longrightarrow> state_ok (flush_run st) u \<and> snd (snd (flush_run st)) = []"
  by (cases st) (auto simp: flush_run_def state_ok_def intro: inside_suffix)

lemma prefer_ok: "lits_in cur u \<Longrightarrow> (new \<noteq> Some [] \<Longrightarrow> lits_in new u) \<Longrightarrow> lits_in (prefer_lits cur new) u"
  by (cases new; cases cur) (auto simp: prefer_lits_def lits_in_def)

text \<open>Consuming more text after a flush, with more literals known of the new piece.\<close>

lemma advance_ok:
  assumes "flush_run st = (best, runs, run)" and "state_ok st u" and "new \<noteq> Some [] \<Longrightarrow> lits_in new w"
  shows "state_ok (prefer_lits best new, runs, run) (u @ w)" and "state_ok (best, runs, run) (u @ w)"
proof -
  have f: "state_ok (best, runs, run) u" "run = []" using flush_ok [OF assms(2)] unfolding assms(1) snd_conv by blast+
  show "state_ok (best, runs, run) (u @ w)"
    using f by (auto simp: state_ok_def intro: lits_in_append inside_append)
  moreover have "lits_in (prefer_lits best new) (u @ w)"
  proof (rule prefer_ok)
    show "lits_in best (u @ w)" using f(1) by (auto simp: state_ok_def intro: lits_in_append)
    show "lits_in new (u @ w)" if "new \<noteq> Some []" using assms(3) that by (auto intro: lits_in_prepend)
  qed
  ultimately show "state_ok (prefer_lits best new, runs, run) (u @ w)" by (simp add: state_ok_def)
qed

lemma choose_ok:
  assumes "state_ok st u"
  shows "lits_in (choose_lits st) u"
proof -
  obtain best runs run where st: "st = (best, runs, run)" by (metis surj_pair)
  let ?solid = "filter (\<lambda>r. length r \<ge> 3) runs"
  have best: "lits_in best u" and runs: "\<forall>r\<in>set runs. inside r u" using assms by (auto simp: state_ok_def st)
  have "?solid \<noteq> [] \<Longrightarrow> inside (longest ?solid) u" using longest_in [of ?solid] runs by auto
  moreover have "runs \<noteq> [] \<Longrightarrow> inside (longest runs) u" using longest_in [of runs] runs by auto
  ultimately show ?thesis using best unfolding st choose_lits_def prod.case Let_def by (auto simp: lits_in_def)
qed

definition matches_some :: "sre list list \<Rightarrow> string \<Rightarrow> bool" where
  "matches_some bs w \<longleftrightarrow> (\<exists>a\<in>set bs. consumes (rx_seq a) w)"

lemma consumes_alts: "consumes (rx_alts bs) w \<Longrightarrow> matches_some bs w"
proof (induction bs)
  case Nil
  then show ?case using consumes_Cls [of "\<lambda>_. False" w] by auto
next
  case (Cons a bs)
  then show ?case using consumes_Alt [of "rx_seq a" "rx_alts bs" w] by (auto simp: matches_some_def)
qed

definition sound :: "sre list \<Rightarrow> bool" where
  "sound ops \<longleftrightarrow> (\<forall>w. consumes (rx_seq ops) w \<longrightarrow> lits_in (guaranteed_literals ops) w)"

lemma scan_other:
  assumes "state_ok st u" and "consumes (rx_seq (x # ops)) w"
    and "\<And>u v. state_ok (flush_run st) u \<Longrightarrow> consumes (rx_seq ops) v \<Longrightarrow> state_ok (scan_ops ops (flush_run st)) (u @ v)"
  shows "state_ok (scan_ops ops (flush_run st)) (u @ w)"
proof -
  obtain v v' where w: "w = v @ v'" "consumes (rx_of x) v" "consumes (rx_seq ops) v'"
    using assms(2) by (auto elim: consumes_Seq)
  obtain best runs run where f: "flush_run st = (best, runs, run)" by (metis surj_pair)
  have "state_ok (flush_run st) (u @ v)" unfolding f by (rule advance_ok(2) [OF f assms(1), of None]) (simp add: lits_in_def)
  from assms(3) [OF this w(3)] w(1) show ?thesis by simp
qed

lemma scan_sub:
  assumes "state_ok st u" and "consumes (Seq a (rx_seq ops)) w" and "flush_run st = (best, runs, run)"
    and "\<And>v. consumes a v \<Longrightarrow> new \<noteq> Some [] \<Longrightarrow> lits_in new v"
    and "\<And>u v. state_ok (prefer_lits best new, runs, run) u \<Longrightarrow> consumes (rx_seq ops) v \<Longrightarrow>
           state_ok (scan_ops ops (prefer_lits best new, runs, run)) (u @ v)"
  shows "state_ok (scan_ops ops (prefer_lits best new, runs, run)) (u @ w)"
proof -
  obtain v v' where w: "w = v @ v'" "consumes a v" "consumes (rx_seq ops) v'"
    using assms(2) by (auto elim: consumes_Seq)
  have "state_ok (prefer_lits best new, runs, run) (u @ v)"
    by (rule advance_ok(1) [OF assms(3,1)]) (rule assms(4) [OF w(2)])
  from assms(5) [OF this w(3)] w(1) show ?thesis by simp
qed

lemma prefer_none [simp]: "prefer_lits best None = best"
  by (simp add: prefer_lits_def)

lemma repeat_lits:
  assumes "consumes (Seq (copies m a) b) v" and "m \<ge> 1" and "\<And>u. consumes a u \<Longrightarrow> lits_in ls u"
  shows "lits_in ls v"
proof -
  from assms(2) obtain k where m: "m = Suc k" by (cases m) auto
  from assms(1) obtain u u' where "v = u @ u'" "consumes a u" unfolding m by (rule consumes_copies)
  then show ?thesis using assms(3) by (auto intro: lits_in_append)
qed

lemma scan_sound:
  "state_ok st u \<Longrightarrow> consumes (rx_seq ops) w \<Longrightarrow> state_ok (scan_ops ops st) (u @ w)"
  "\<forall>l\<in>set acc. True \<Longrightarrow> branch_lits bs acc \<noteq> [] \<Longrightarrow>
     set acc \<subseteq> set (branch_lits bs acc) \<and> (\<forall>w. matches_some bs w \<longrightarrow> (\<exists>l\<in>set (branch_lits bs acc). inside l w))"
proof (induction ops st and bs acc arbitrary: u w rule: scan_ops_branch_lits.induct)
  case (1 st)
  then show ?case using flush_ok [of st u] consumes_Eps [of w] by simp
next
  case (2 c ops st)
  obtain best runs run where st: "st = (best, runs, run)" by (metis surj_pair)
  obtain v v' where w: "w = v @ v'" "consumes (rx_of (Literal c)) v" "consumes (rx_seq ops) v'"
    using 2(3) by (auto elim: consumes_Seq)
  from consumes_Cls w(2) have v: "v = [lower_char c]" by (auto dest!: consumes_Cls)
  have "state_ok (best, runs, run @ [lower_char c]) (u @ v)"
    using 2(2) by (auto simp: state_ok_def st v intro: lits_in_append inside_append)
  from 2(1) [OF st [symmetric] refl this w(3)] show ?case by (simp add: st w(1))
next
  case (3 sub ops st)
  obtain best runs run where f: "flush_run st = (best, runs, run)" by (metis surj_pair)
  let ?new = "choose_lits (scan_ops sub (None, [], []))"
  have "lits_in ?new v" if "consumes (rx_seq sub) v" for v
    using 3(1) [OF f [symmetric] refl state_ok_start that] by (intro choose_ok) simp
  then have "state_ok (scan_ops ops (prefer_lits best ?new, runs, run)) (u @ w)"
    using 3(4) by (intro scan_sub [OF 3(3) _ f]) (auto intro: 3(2) [OF f [symmetric] refl])
  then show ?case by (simp add: f)
next
  case (4 bs ops st)
  obtain best runs run where f: "flush_run st = (best, runs, run)" by (metis surj_pair)
  let ?new = "Some (branch_lits bs [])"
  have "lits_in ?new v" if "consumes (rx_alts bs) v" "?new \<noteq> Some []" for v
    using 4(1) [OF f [symmetric] refl] that consumes_alts [OF that(1)] by (auto simp: lits_in_def)
  then have "state_ok (scan_ops ops (prefer_lits best ?new, runs, run)) (u @ w)"
    using 4(4) by (intro scan_sub [OF 4(3) _ f]) (auto intro: 4(2) [OF f [symmetric] refl])
  then show ?case by (simp add: f)
next
  case (5 m n sub ops st)
  obtain best runs run where f: "flush_run st = (best, runs, run)" by (metis surj_pair)
  let ?new = "if m \<ge> 1 then choose_lits (scan_ops sub (None, [], [])) else None"
  have "lits_in ?new v" if v: "consumes (rx_of (Max_Repeat m n sub)) v" for v
  proof (cases "m \<ge> 1")
    case True
    have "lits_in (choose_lits (scan_ops sub (None, [], []))) u" if "consumes (rx_seq sub) u" for u
      using 5(1) [OF f [symmetric] refl True state_ok_start that] by (intro choose_ok) simp
    with v True show ?thesis by (auto intro: repeat_lits)
  qed (simp add: lits_in_def)
  moreover have "state_ok (scan_ops ops (prefer_lits best ?new, runs, run)) (u @ v)"
    if "state_ok (prefer_lits best ?new, runs, run) u" "consumes (rx_seq ops) v" for u v
    using 5(2) [OF f [symmetric] refl] that by (cases "1 \<le> m") simp_all
  ultimately have "state_ok (scan_ops ops (prefer_lits best ?new, runs, run)) (u @ w)"
    using 5(4) unfolding rx_seq.simps by (intro scan_sub [OF 5(3) _ f]) blast+
  then show ?case by (simp add: f split: if_splits)
next
  case (6 m n sub ops st)
  obtain best runs run where f: "flush_run st = (best, runs, run)" by (metis surj_pair)
  let ?new = "if m \<ge> 1 then choose_lits (scan_ops sub (None, [], [])) else None"
  have "lits_in ?new v" if v: "consumes (rx_of (Min_Repeat m n sub)) v" for v
  proof (cases "m \<ge> 1")
    case True
    have "lits_in (choose_lits (scan_ops sub (None, [], []))) u" if "consumes (rx_seq sub) u" for u
      using 6(1) [OF f [symmetric] refl True state_ok_start that] by (intro choose_ok) simp
    with v True show ?thesis by (auto intro: repeat_lits)
  qed (simp add: lits_in_def)
  moreover have "state_ok (scan_ops ops (prefer_lits best ?new, runs, run)) (u @ v)"
    if "state_ok (prefer_lits best ?new, runs, run) u" "consumes (rx_seq ops) v" for u v
    using 6(2) [OF f [symmetric] refl] that by (cases "1 \<le> m") simp_all
  ultimately have "state_ok (scan_ops ops (prefer_lits best ?new, runs, run)) (u @ w)"
    using 6(4) unfolding rx_seq.simps by (intro scan_sub [OF 6(3) _ f]) blast+
  then show ?case by (simp add: f split: if_splits)
next
  case (8 acc)
  then show ?case by (simp add: matches_some_def)
next
  case (9 alt bs acc)
  then obtain ls where ls: "choose_lits (scan_ops alt (None, [], [])) = Some ls" "ls \<noteq> []"
      "branch_lits (alt # bs) acc = branch_lits bs (List.union ls acc)"
    by (auto split: option.splits if_splits)
  have IH: "set (List.union ls acc) \<subseteq> set (branch_lits bs (List.union ls acc)) \<and>
      (\<forall>w. matches_some bs w \<longrightarrow> (\<exists>l\<in>set (branch_lits bs (List.union ls acc)). inside l w))"
    using 9(2) [OF ls(1,2)] 9(4) unfolding ls(3) by simp
  have "\<exists>l\<in>set ls. inside l w" if "consumes (rx_seq alt) w" for w
    using choose_ok [of "scan_ops alt (None, [], [])" w] 9(1) [OF state_ok_start that] ls(1) by (simp add: lits_in_def)
  then show ?case using IH unfolding ls(3) by (fastforce simp: matches_some_def)
qed (unfold scan_ops.simps, (rule scan_other, assumption, assumption, blast)+)

lemma guaranteed_sound: "consumes (rx_seq ops) w \<Longrightarrow> lits_in (guaranteed_literals ops) w"
  using choose_ok [OF scan_sound(1) [OF state_ok_start, of ops w]] by (simp add: guaranteed_literals_def)

lemma search_from_consumes:
  assumes "rx_search_from a l s = Some g" and "lower_text s"
  shows "\<exists>w. inside w s \<and> consumes a w"
  using assms
proof (induction a l s rule: rx_search_from.induct)
  case (1 a l)
  then obtain l' r' g' where q: "runs_to a l [] [] l' r' g'"
    by (auto simp: rx_first_def runs_to_def split: list.splits)
  then obtain w where w: "[] = w @ r'" by (rule runs_split)
  with q have "runs_to a l ([] @ []) [] l' [] g'" by simp
  moreover have "lower_text []" by (simp add: lower_text_def lower_def)
  ultimately have "consumes a []" unfolding consumes_def by blast
  then show ?case by (intro exI [of _ "[]"]) (simp add: inside_def)
next
  case (2 a l c cs)
  show ?case
  proof (cases "rx_first a (l, c # cs, [])")
    case None
    with 2 obtain w where "inside w cs" "consumes a w" by (auto simp: lower_text_Cons)
    then show ?thesis using inside_prepend [of w cs "[c]"] by auto
  next
    case (Some q)
    then obtain l' r' g' where q: "runs_to a l (c # cs) [] l' r' g'"
      by (cases q) (auto simp: rx_first_def runs_to_def split: list.splits)
    then obtain w where w: "c # cs = w @ r'" by (rule runs_split)
    have "lower_text w" using 2(3) unfolding w by simp
    then have "consumes a w" using q unfolding w consumes_def by blast
    moreover have "inside w (c # cs)" unfolding w by (intro inside_append inside_refl)
    ultimately show ?thesis by blast
  qed
qed

lemma search_has_literal:
  assumes "rx_search (rx_seq ops) s \<noteq> None" and "lower_text s" and "guaranteed_literals ops = Some ls"
  shows "\<exists>l\<in>set ls. inside l s"
proof -
  obtain w where w: "inside w s" "consumes (rx_seq ops) w"
    using assms(1,2) search_from_consumes unfolding rx_search_def by blast
  have "\<exists>l\<in>set ls. inside l w" using guaranteed_sound [OF w(2)] assms(3) by (simp add: lits_in_def)
  then show ?thesis using w(1) by (metis append.assoc inside_def)
qed

section \<open>Bounding the gaps\<close>

lemma scan_bound:
  "scan_ops (map (bound_node k) ops) st = scan_ops ops st"
  "branch_lits (map (map (bound_node k)) bs) acc = branch_lits bs acc"
  by (induction ops st and bs acc rule: scan_ops_branch_lits.induct)
     (auto split: prod.splits option.splits)

lemma literals_bound: "guaranteed_literals (map (bound_node k) ops) = guaranteed_literals ops"
  by (simp add: guaranteed_literals_def scan_bound)

end
