(* ===== verification/Classifier_Laws.thy ===== *)
theory Classifier_Laws
  imports Classifier Sre_Laws Incident_Laws "HOL-Library.Multiset"
begin

text \<open>
  Laws of the classifier: the literal gate and its cache never change a verdict, and a batch is classified
  completely, counted exactly and ordered by severity.
\<close>

section \<open>The gate's tables\<close>

lemma push_keys: "fst ` set (push k v d) = insert k (fst ` set d)"
  using keys_update [of k "dict_get d k [] @ [v]" d] by (simp add: push_def)

lemma dict_get_push: "dict_get (push k v d) k' [] = dict_get d k' [] @ (if k' = k then [v] else [])"
  by (simp add: push_def)

lemma fold_push_lits:
  "fst ` set (fold (\<lambda>l. push l i) ls d) = fst ` set d \<union> set ls"
  "set (dict_get (fold (\<lambda>l. push l i) ls d) l []) = set (dict_get d l []) \<union> (if l \<in> set ls then {i} else {})"
  by (induction ls arbitrary: d) (auto simp: push_keys dict_get_push)

lemma build_gate_ok:
  defines "lits \<equiv> \<lambda>parse rules i. set (gate_lits parse (rules ! i))"
  shows "set (ga_kw (build_gate parse rules)) = (\<Union>i<length rules. lits parse rules i) \<and>
    fst ` set (ga_literal_patterns (build_gate parse rules)) = (\<Union>i<length rules. lits parse rules i) \<and>
    (\<forall>l. set (dict_get (ga_literal_patterns (build_gate parse rules)) l []) = {i. i < length rules \<and> l \<in> lits parse rules i}) \<and>
    ga_unguarded (build_gate parse rules) = filter (\<lambda>i. gate_lits parse (rules ! i) = []) [0..<length rules]"
proof (induction rules rule: rev_induct)
  case Nil
  then show ?case by (simp add: build_gate_def)
next
  case (snoc r rules)
  let ?g = "build_gate parse rules" and ?n = "length rules"
  have b: "build_gate parse (rules @ [r]) = gate_rule parse (?n, r) ?g"
    by (simp add: build_gate_def enumerate_append_eq)
  have L: "lits parse (rules @ [r]) i = (if i < ?n then lits parse rules i else set (gate_lits parse r))" if "i < Suc ?n" for i
    using that by (auto simp: lits_def nth_append less_Suc_eq)
  have U: "(\<Union>i<Suc ?n. lits parse (rules @ [r]) i) = (\<Union>i<?n. lits parse rules i) \<union> set (gate_lits parse r)"
    using L by (auto simp: lessThan_Suc)
  have S: "{i. i < Suc ?n \<and> l \<in> lits parse (rules @ [r]) i} =
      {i. i < ?n \<and> l \<in> lits parse rules i} \<union> (if l \<in> set (gate_lits parse r) then {?n} else {})" for l
    using L by (auto simp: less_Suc_eq)
  have F: "filter (\<lambda>i. gate_lits parse ((rules @ [r]) ! i) = []) [0..<?n] = filter (\<lambda>i. gate_lits parse (rules ! i) = []) [0..<?n]"
    by (rule filter_cong) (simp_all add: nth_append)
  show ?case
  proof (cases "gate_lits parse r = []")
    case True
    then show ?thesis using snoc unfolding b length_append_singleton U S by (simp add: gate_rule_def F)
  next
    case False
    then show ?thesis using snoc unfolding b length_append_singleton U S
      by (simp add: gate_rule_def Let_def F fold_push_lits Un_commute)
  qed
qed

lemmas gate_kw = build_gate_ok [THEN conjunct1]
  and gate_keys = build_gate_ok [THEN conjunct2, THEN conjunct1]
  and gate_lookup = build_gate_ok [THEN conjunct2, THEN conjunct2, THEN conjunct1, rule_format]
  and gate_unguarded = build_gate_ok [THEN conjunct2, THEN conjunct2, THEN conjunct2]

lemma gate_lits_long: "l \<in> set (gate_lits parse r) \<Longrightarrow> length l \<ge> 3"
  by (auto simp: gate_lits_def list_all_iff split: option.splits if_splits)

lemma kw_not_Nil: "l \<in> set (ga_kw (build_gate parse rules)) \<Longrightarrow> l \<noteq> []"
  using gate_lits_long unfolding gate_kw by fastforce

section \<open>The keyword scan is exact\<close>

lemma inside_trans: "inside a b \<Longrightarrow> inside b c \<Longrightarrow> inside a c"
  unfolding inside_def by (metis append.assoc)

lemma inside_shorter: "inside a b \<Longrightarrow> a \<noteq> b \<Longrightarrow> length a < length b"
  unfolding inside_def by auto

lemma set_gate_keywords:
  "k \<in> set (gate_keywords g) \<longleftrightarrow> k \<in> set (ga_kw g) \<and> (\<forall>other\<in>set (ga_kw g). inside other k \<longrightarrow> other = k)"
  by (auto simp: gate_keywords_def list_ex_iff is_infix_iff)

lemma keyword_in_literal:
  "l \<in> set (ga_kw g) \<Longrightarrow> \<exists>k\<in>set (gate_keywords g). inside k l"
proof (induction l rule: measure_induct_rule [of length])
  case (less l)
  show ?case
  proof (cases "l \<in> set (gate_keywords g)")
    case True
    then show ?thesis by (intro bexI [of _ l]) simp_all
  next
    case False
    then obtain other where o: "other \<in> set (ga_kw g)" "inside other l" "other \<noteq> l"
      using less.prems by (auto simp: set_gate_keywords)
    from less.IH [OF inside_shorter [OF o(2,3)] o(1)] show ?thesis using inside_trans [OF _ o(2)] by blast
  qed
qed

lemma find_mem: "List.find P xs = Some x \<Longrightarrow> x \<in> set xs \<and> P x"
  by (induction xs) (auto split: if_splits)

lemma find_ex: "x \<in> set xs \<Longrightarrow> P x \<Longrightarrow> \<exists>y. List.find P xs = Some y"
  by (induction xs) auto

lemma gate_re_exact:
  assumes "k \<in> set (gate_keywords g)"
  shows "gate_re g (k @ b) = Some k"
proof -
  obtain k' where k': "gate_re g (k @ b) = Some k'"
    using find_ex [of k "rev (sort_key length (rev (gate_keywords g)))" "\<lambda>k'. starts_with k' (k @ b)"] assms
    by (auto simp: gate_re_def starts_with_iff)
  then have m: "k' \<in> set (gate_keywords g)" "starts_with k' (k @ b)"
    using find_mem [of "\<lambda>k. starts_with k (k @ b)"] unfolding gate_re_def by (auto dest!: find_mem)
  then obtain c where c: "k @ b = k' @ c" by (auto simp: starts_with_iff)
  then have "inside k' k \<or> inside k k'"
    unfolding inside_def append_eq_append_conv2 by (metis append_Nil)
  with m(1) assms show ?thesis using k' unfolding set_gate_keywords by auto
qed

lemma keyword_hits_ex: "gate_re g s = Some k \<Longrightarrow> s \<noteq> [] \<Longrightarrow> k \<in> set (keyword_hits g (a @ s))"
  by (induction a) (cases s; auto split: option.splits)+

lemma keyword_hits_none: "(\<And>s. gate_re g s = None) \<Longrightarrow> keyword_hits g s = []"
  by (induction s) simp_all

lemma present_complete:
  assumes "l \<in> fst ` set (ga_literal_patterns (build_gate parse rules))" and "is_infix l text"
  shows "l \<in> set (present_literals (build_gate parse rules) text)"
proof -
  let ?g = "build_gate parse rules"
  have l: "l \<in> set (ga_kw ?g)" using assms(1) unfolding gate_keys gate_kw .
  obtain k where k: "k \<in> set (gate_keywords ?g)" "inside k l" using keyword_in_literal [OF l] by blast
  have "inside k text" using inside_trans [OF k(2)] assms(2) by (simp add: is_infix_iff)
  then obtain a b where t: "text = a @ k @ b" by (auto simp: inside_def)
  have "k \<noteq> []" using k(1) kw_not_Nil by (auto simp: set_gate_keywords)
  then have hit: "k \<in> set (keyword_hits ?g text)"
    unfolding t using gate_re_exact [OF k(1)] by (intro keyword_hits_ex) simp_all
  have "l \<in> set (literals_with ?g k)"
    using assms(1) k(2) by (auto simp: literals_with_def gate_literals_def is_infix_iff)
  then show ?thesis using hit assms(2) by (auto simp: present_literals_def Let_def)
qed

section \<open>Candidates\<close>

definition parser_bounds :: "re_parser \<Rightarrow> kb_rule list \<Rightarrow> bool" where
  "parser_bounds parse rules \<longleftrightarrow> (\<forall>r\<in>set rules. \<forall>ops. parse (kb_pattern r) = Some ops \<longrightarrow>
     parse (bound_gaps (kb_pattern r)) = Some (map (bound_node gap_chars) ops))"

definition cache_exact :: "gate \<Rightarrow> candidate_cache \<Rightarrow> bool" where
  "cache_exact g cache \<longleftrightarrow> (\<forall>(present, ids)\<in>set cache. ids = candidate_ids g present)"

lemma match_has_literal:
  assumes "parser_bounds parse rules" and "r \<in> set rules" and "compiled_search parse r text" and "lower_text text"
    and "gate_lits parse r \<noteq> []"
  shows "\<exists>l\<in>set (gate_lits parse r). is_infix l text"
proof -
  obtain ops ls where o: "parse (kb_pattern r) = Some ops" "guaranteed_literals ops = Some ls" "gate_lits parse r = ls"
    using assms(5) by (auto simp: gate_lits_def split: option.splits if_splits)
  then have "parse (bound_gaps (kb_pattern r)) = Some (map (bound_node gap_chars) ops)"
    using assms(1,2) by (auto simp: parser_bounds_def)
  then have "rx_search (rx_seq (map (bound_node gap_chars) ops)) text \<noteq> None"
    using assms(3) by (simp add: compiled_search_def)
  from search_has_literal [OF this assms(4)] o show ?thesis by (simp add: literals_bound is_infix_iff)
qed

lemma gate_lookup_within: "set (dict_get (ga_literal_patterns (build_gate parse rules)) l []) \<subseteq> {..<length rules}"
  unfolding gate_lookup by auto

lemma candidate_ids_within: "set (candidate_ids (build_gate parse rules) present) \<subseteq> {..<length rules}"
  using gate_lookup_within by (fastforce simp: candidate_ids_def gate_unguarded)

lemma find_filter_hd: "List.find P xs = (case filter P xs of [] \<Rightarrow> None | x # _ \<Rightarrow> Some x)"
  by (induction xs) auto

lemma find_sorted_subset:
  assumes "sorted ids" and "distinct ids" and "set ids \<subseteq> {..<n}" and "\<And>i. i < n \<Longrightarrow> P i \<Longrightarrow> i \<in> set ids"
  shows "List.find P ids = List.find P [0..<n]"
proof -
  have "filter P ids = filter P [0..<n]"
  proof (rule sorted_distinct_set_unique)
    show "sorted (filter P ids)" using sorted_filter [of "\<lambda>x. x" ids P] assms(1) by simp
    show "sorted (filter P [0..<n])" using sorted_filter [of "\<lambda>x. x" "[0..<n]" P] by simp
  qed (use assms in auto)
  then show ?thesis by (simp add: find_filter_hd)
qed

lemma gated_candidates_ok:
  assumes "parser_bounds parse rules" and "lower_text text" and "cache_exact (build_gate parse rules) cache"
    and "gated_candidates (build_gate parse rules) text cache = (ids, cache')"
  shows "List.find (\<lambda>i. compiled_search parse (rules ! i) text) ids
       = List.find (\<lambda>i. compiled_search parse (rules ! i) text) [0..<length rules]"
    and "cache_exact (build_gate parse rules) cache'"
proof -
  let ?g = "build_gate parse rules" and ?n = "length rules"
  let ?present = "present_literals ?g text"
  have lit: "\<exists>l\<in>set ?present. i \<in> set (dict_get (ga_literal_patterns ?g) l [])"
    if i: "i < ?n" "compiled_search parse (rules ! i) text" "gate_lits parse (rules ! i) \<noteq> []" for i
  proof -
    from match_has_literal [OF assms(1) _ i(2) assms(2) i(3)] i(1) obtain l where
      l: "l \<in> set (gate_lits parse (rules ! i))" "is_infix l text" by auto
    have "l \<in> fst ` set (ga_literal_patterns ?g)" unfolding gate_keys using l(1) i(1) by auto
    from present_complete [OF this l(2)] show ?thesis using l(1) i(1) by (intro bexI [of _ l]) (simp_all add: gate_lookup)
  qed
  have un: "sorted (ga_unguarded ?g)" "distinct (ga_unguarded ?g)" "set (ga_unguarded ?g) \<subseteq> {..<?n}"
    using sorted_filter [of "\<lambda>x. x" "[0..<?n]"] by (auto simp: gate_unguarded)
  have ids: "ids = (if ?present = [] then ga_unguarded ?g else candidate_ids ?g ?present)"
    and cache: "cache_exact ?g cache'"
  proof -
    have none: "?present = []" if "gate_keywords ?g = []"
    proof -
      have "gate_re ?g s = None" for s using that by (simp add: gate_re_def)
      then have "keyword_hits ?g text = []" by (rule keyword_hits_none)
      then show ?thesis by (simp add: present_literals_def)
    qed
    have old: "ids' = candidate_ids ?g ?present" if "map_of cache ?present = Some ids'" for ids'
      using assms(3) map_of_SomeD [OF that] by (auto simp: cache_exact_def)
    have upd: "cache_exact ?g (AList.update p (candidate_ids ?g p) c)" if "cache_exact ?g c" for p c
      using that by (induction c) (auto simp: cache_exact_def split: if_splits)
    have nil: "cache_exact ?g []" by (simp add: cache_exact_def)
    show "ids = (if ?present = [] then ga_unguarded ?g else candidate_ids ?g ?present)"
      using assms(4) none old by (auto simp: gated_candidates_def Let_def split: if_splits option.splits)
    show "cache_exact ?g cache'"
      using assms(3,4) upd [OF nil] upd [OF assms(3)] by (auto simp: gated_candidates_def Let_def split: if_splits option.splits)
  qed
  show "cache_exact ?g cache'" by (rule cache)
  show "List.find (\<lambda>i. compiled_search parse (rules ! i) text) ids
      = List.find (\<lambda>i. compiled_search parse (rules ! i) text) [0..<?n]"
  proof (rule find_sorted_subset)
    show "sorted ids" "distinct ids" "set ids \<subseteq> {..<?n}"
      using un candidate_ids_within by (auto simp: ids candidate_ids_def)
    show "i \<in> set ids" if "i < ?n" "compiled_search parse (rules ! i) text" for i
      using that lit [OF that] by (cases "gate_lits parse (rules ! i) = []")
        (auto simp: ids candidate_ids_def gate_unguarded)
  qed
qed

section \<open>Verdicts\<close>

text \<open>Classification by a scan of the whole table, with no gate and no cache.\<close>

definition full_verdict :: "classifier \<Rightarrow> string \<Rightarrow> verdict \<Rightarrow> verdict" where
  "full_verdict cf kb_text v =
     (case v of (sev, cat, desc, conf, auth) \<Rightarrow>
        if desc \<noteq> [] then v
        else case List.find (\<lambda>i. compiled_search (cf_parse cf) (cf_rules cf ! i) kb_text) [0..<length (cf_rules cf)] of
               None \<Rightarrow> v
             | Some i \<Rightarrow> (let r = cf_rules cf ! i
                         in (kb_sev r, kb_cat r, kb_desc r, conf, kb_pattern r \<in> set (cf_authoritative cf))))"

definition classify_full :: "classifier \<Rightarrow> log_event \<Rightarrow> event" where
  "classify_full cf raw =
     (let e = cf_structure cf raw;
          clean = strip_ansi (le_message e);
          combined = lower (le_appname e @ '' '' @ clean);
          kb_text = bound_for_kb combined;
          v = full_verdict cf kb_text (custom_verdict cf combined)
      in classified cf e clean (raw_severity_step e (snippet_step e clean (state_step e kb_text v))))"

lemma lower_char_idem [simp]: "lower_char (lower_char c) = lower_char c"
proof (cases "65 \<le> (of_char c :: nat) \<and> (of_char c :: nat) \<le> 90")
  case True
  then have "(of_char (char_of ((of_char c :: nat) + 32)) :: nat) = of_char c + 32" by (simp add: of_char_of)
  with True show ?thesis by (simp add: lower_char_def)
qed (auto simp: lower_char_def)

lemma lower_text_iff: "lower_text s \<longleftrightarrow> (\<forall>c\<in>set s. lower_char c = c)"
  by (induction s) (auto simp: lower_text_def lower_def)

lemma lower_text_lower [simp]: "lower_text (lower s)"
  by (simp add: lower_text_def lower_def)

lemma lower_text_bound:
  assumes "lower_text s"
  shows "lower_text (bound_for_kb s)"
proof -
  have "lower_char (CHR '' '') = CHR '' ''" by (simp add: lower_char_def)
  then show ?thesis using assms set_take_subset [of head_chars s] set_take_last [of _ s]
    unfolding bound_for_kb_def lower_text_iff by (auto dest: subsetD)
qed

lemma kb_verdict_full:
  assumes "parser_bounds (cf_parse cf) (cf_rules cf)" and "lower_text t"
    and "cache_exact (build_gate (cf_parse cf) (cf_rules cf)) cache" and "kb_verdict cf t v cache = (v', cache')"
  shows "v' = full_verdict cf t v" and "cache_exact (build_gate (cf_parse cf) (cf_rules cf)) cache'"
proof -
  obtain sev cat desc conf auth where v: "v = (sev, cat, desc, conf, auth)" by (metis surj_pair)
  obtain ids c' where ids: "kb_candidates cf t cache = (ids, c')" by (metis surj_pair)
  have "List.find (\<lambda>i. compiled_search (cf_parse cf) (cf_rules cf ! i) t) ids
      = List.find (\<lambda>i. compiled_search (cf_parse cf) (cf_rules cf ! i) t) [0..<length (cf_rules cf)]
      \<and> cache_exact (build_gate (cf_parse cf) (cf_rules cf)) c'"
  proof (cases "is_ascii t")
    case True
    then have "gated_candidates (build_gate (cf_parse cf) (cf_rules cf)) t cache = (ids, c')"
      using ids by (simp add: kb_candidates_def)
    from gated_candidates_ok [OF assms(1-3) this] show ?thesis by blast
  next
    case False
    then show ?thesis using ids assms(3) by (simp add: kb_candidates_def)
  qed
  then show "v' = full_verdict cf t v" "cache_exact (build_gate (cf_parse cf) (cf_rules cf)) cache'"
    using assms(3,4) ids by (auto simp: kb_verdict_def full_verdict_def v split: if_splits)
qed

lemma classify_one_full:
  assumes "parser_bounds (cf_parse cf) (cf_rules cf)" and "cache_exact (build_gate (cf_parse cf) (cf_rules cf)) cache"
    and "classify_one cf raw cache = (e, cache')"
  shows "e = classify_full cf raw" and "cache_exact (build_gate (cf_parse cf) (cf_rules cf)) cache'"
proof -
  let ?e = "cf_structure cf raw"
  let ?combined = "lower (le_appname ?e @ '' '' @ strip_ansi (le_message ?e))"
  obtain v' c' where v: "kb_verdict cf (bound_for_kb ?combined) (custom_verdict cf ?combined) cache = (v', c')"
    by (metis surj_pair)
  have low: "lower_text (bound_for_kb ?combined)" by (intro lower_text_bound) simp
  from kb_verdict_full [OF assms(1) low assms(2) v] v assms(3)
  show "e = classify_full cf raw" "cache_exact (build_gate (cf_parse cf) (cf_rules cf)) cache'"
    by (auto simp: classify_one_def classify_full_def Let_def)
qed

text \<open>
  C7: the fast path changes nothing. Provided the regular-expression parser reads \<open>.{0,n}\<close> as the bounded
  form of \<open>.*\<close>, classifying a stream through the literal gate, its keyword scan and its candidate cache
  gives every event exactly the verdict of a scan of the whole rule table.
\<close>

theorem gate_changes_nothing:
  assumes "parser_bounds (cf_parse cf) (cf_rules cf)" and "cache_exact (build_gate (cf_parse cf) (cf_rules cf)) cache"
  shows "fst (iter_classify cf events cache) = map (classify_full cf) events"
  using assms(2)
proof (induction events arbitrary: cache)
  case (Cons raw events)
  obtain e c1 where c1: "classify_one cf raw cache = (e, c1)" by (metis surj_pair)
  from classify_one_full [OF assms(1) Cons.prems c1] Cons.IH [of c1] show ?case
    by (cases "iter_classify cf events c1") (simp add: c1)
qed simp

definition demo_classifier :: classifier where
  "demo_classifier =
     \<lparr>cf_parse = (\<lambda>p. if p = ''bgp.*down''
                      then Some (map Literal ''bgp'' @ [Max_Repeat 0 None [Any_Char]] @ map Literal ''down'')
                      else if p = ''bgp.{0,300}down''
                      then Some (map Literal ''bgp'' @ [Max_Repeat 0 (Some 300) [Any_Char]] @ map Literal ''down'')
                      else None),
      cf_rules = [\<lparr>kb_pattern = ''bgp.*down'', kb_sev = ''high'', kb_cat = ''routing'', kb_desc = ''BGP down''\<rparr>],
      cf_authoritative = [], cf_custom = [], cf_structure = (\<lambda>e. e), cf_ip6 = (\<lambda>_. None)\<rparr>"

theorem gate_changes_nothing_witness:
  "(\<forall>events. fst (iter_classify demo_classifier events []) = map (classify_full demo_classifier) events) \<and>
   build_gate (cf_parse demo_classifier) (cf_rules demo_classifier)
     = \<lparr>ga_kw = [''down''], ga_literal_patterns = [(''down'', [0])], ga_unguarded = []\<rparr>"
proof
  have "bound_gaps ''bgp.*down'' = ''bgp.{0,300}down''" by code_simp
  then have "parser_bounds (cf_parse demo_classifier) (cf_rules demo_classifier)"
    by (simp add: parser_bounds_def demo_classifier_def gap_chars_def)
  then show "\<forall>events. fst (iter_classify demo_classifier events []) = map (classify_full demo_classifier) events"
    by (intro allI gate_changes_nothing) (simp_all add: cache_exact_def)
  show "build_gate (cf_parse demo_classifier) (cf_rules demo_classifier)
     = \<lparr>ga_kw = [''down''], ga_literal_patterns = [(''down'', [0])], ga_unguarded = []\<rparr>"
    by code_simp
qed

section \<open>A batch\<close>

lemma sorted_wrt_lex:
  assumes "sorted (map f xs)" and "\<And>k. sorted_wrt T (filter (\<lambda>x. f x = k) xs)"
  shows "sorted_wrt (\<lambda>a b. f a < f b \<or> (f a = (f b :: 'k::linorder) \<and> T a b)) xs"
  using assms
proof (induction xs)
  case (Cons x xs)
  have "sorted_wrt T (filter (\<lambda>y. f y = k) xs)" for k
    using Cons.prems(2) [of k] by (cases "f x = k") auto
  moreover have "f x < f y \<or> (f x = f y \<and> T x y)" if "y \<in> set xs" for y
    using Cons.prems(1) Cons.prems(2) [of "f x"] that by (cases "f x = f y") auto
  ultimately show ?case using Cons by simp
qed simp

lemma fold_bump_counts:
  "dict_get (fold (\<lambda>e d. bump d (f e)) es d) k 0 = dict_get d k 0 + length (filter (\<lambda>e. f e = k) es)"
  by (induction es arbitrary: d) auto

lemma length_iter_classify: "length (fst (iter_classify cf events c)) = length events"
proof (induction events arbitrary: c)
  case (Cons e events)
  obtain ce c1 where "classify_one cf e c = (ce, c1)" by (metis surj_pair)
  with Cons [of c1] show ?case by (cases "iter_classify cf events c1") simp
qed simp

text \<open>
  A batch is complete, counted and ordered. The result lists every classified event once, ordered by
  severity and, within a severity, newest first; the counters of severities and categories are the
  numbers of events that have them.
\<close>

theorem classify_events_ordered:
  assumes "classify_events cf normalize_ts events cache = ((es, sevs, cats), cache')"
  shows "mset es = mset (fst (iter_classify cf events cache)) \<and> length es = length events \<and>
     sorted_wrt (\<lambda>a b. dict_get sev_order (ev_severity a) 5 < dict_get sev_order (ev_severity b) 5 \<or>
        (dict_get sev_order (ev_severity a) 5 = dict_get sev_order (ev_severity b) 5 \<and>
         time_sort_key normalize_ts b \<le> time_sort_key normalize_ts a)) es \<and>
     (\<forall>s. dict_get sevs s 0 = length (filter (\<lambda>e. ev_severity e = s) es)) \<and>
     (\<forall>c. dict_get cats c 0 = length (filter (\<lambda>e. ev_category e = c) es))"
proof -
  let ?ces = "fst (iter_classify cf events cache)"
  let ?ys = "rev (sort_key (time_sort_key normalize_ts) (rev ?ces))"
  have es: "es = sort_key (\<lambda>e. dict_get sev_order (ev_severity e) 5) ?ys"
    and sevs: "sevs = fold (\<lambda>e d. bump d (ev_severity e)) ?ces zero_counts"
    and cats: "cats = fold (\<lambda>e d. bump d (ev_category e)) ?ces []"
    using assms by (auto simp: classify_events_def split: prod.splits)
  have perm: "mset es = mset ?ces" by (simp add: es)
  have len: "length (fst (iter_classify cf events c)) = length events" for c by (rule length_iter_classify)
  have filt: "length (filter P es) = length (filter P ?ces)" for P
    using perm by (metis mset_filter size_mset)
  have "sorted (map (time_sort_key normalize_ts) (rev ?ys))" by simp
  then have desc: "sorted_wrt (\<lambda>a b. time_sort_key normalize_ts b \<le> time_sort_key normalize_ts a) ?ys"
    by (simp add: sorted_map sorted_wrt_rev)
  have "sorted_wrt (\<lambda>a b. time_sort_key normalize_ts b \<le> time_sort_key normalize_ts a)
      (filter (\<lambda>e. dict_get sev_order (ev_severity e) 5 = k) es)" for k
    unfolding es sort_key_stable by (intro sorted_wrt_filter desc)
  then have "sorted_wrt (\<lambda>a b. dict_get sev_order (ev_severity a) 5 < dict_get sev_order (ev_severity b) 5 \<or>
        (dict_get sev_order (ev_severity a) 5 = dict_get sev_order (ev_severity b) 5 \<and>
         time_sort_key normalize_ts b \<le> time_sort_key normalize_ts a)) es"
    by (intro sorted_wrt_lex) (simp add: es)
  moreover have "dict_get zero_counts s 0 = 0" for s by (simp add: zero_counts_def dict_get_def)
  ultimately show ?thesis using perm len filt by (simp add: sevs cats fold_bump_counts mset_eq_length [OF perm])
qed

theorem classify_events_ordered_witness:
  "\<exists>es sevs cats c. classify_events demo_classifier (\<lambda>s. s) [] [] = ((es, sevs, cats), c) \<and> length es = 0"
proof -
  obtain es sevs cats c where r: "classify_events demo_classifier (\<lambda>s. s) [] [] = ((es, sevs, cats), c)" by (metis surj_pair)
  from classify_events_ordered [OF this] have "length es = 0" by simp
  with r show ?thesis by blast
qed

end
