(* ===== verification/Ingest.thy ===== *)
theory Ingest
  imports Regex
begin

text \<open>
  Ingestion of raw log bytes (\<open>ingest.py\<close>): decoding with replacement, cleaning and truncating a line,
  rejecting impossible time stamps, and reading a file under size caps. Text is represented by its UTF-8
  bytes, so \<open>encode\<close> is the identity and a decoder maps any bytes to valid UTF-8. Only ASCII white space
  counts as blank.
\<close>

definition byte :: "char \<Rightarrow> nat" where "byte c = of_char c"

abbreviation LF :: char where "LF \<equiv> CHR 10"
abbreviation CR :: char where "CR \<equiv> CHR 13"

section \<open>Decoding\<close>

text \<open>
  The decoder of the standard library: after a lead byte, how many continuation bytes follow and the range
  of the first one. An ill-formed sequence is replaced up to the byte that makes it ill-formed.
\<close>

definition utf8_lead :: "nat \<Rightarrow> (nat \<times> nat \<times> nat) option" where
  "utf8_lead n =
     (if 194 \<le> n \<and> n \<le> 223 then Some (1, 128, 191)
      else if n = 224 then Some (2, 160, 191)
      else if n = 237 then Some (2, 128, 159)
      else if 225 \<le> n \<and> n \<le> 239 then Some (2, 128, 191)
      else if n = 240 then Some (3, 144, 191)
      else if 241 \<le> n \<and> n \<le> 243 then Some (3, 128, 191)
      else if n = 244 then Some (3, 128, 143)
      else None)"

fun utf8_tail :: "nat \<Rightarrow> nat \<Rightarrow> nat \<Rightarrow> string \<Rightarrow> nat" where
  "utf8_tail (Suc k) lo hi (c # cs) = (if lo \<le> byte c \<and> byte c \<le> hi then Suc (utf8_tail k 128 191 cs) else 0)"
| "utf8_tail _ lo hi _ = 0"

function utf8_decode :: "string \<Rightarrow> string \<Rightarrow> string" where
  "utf8_decode bad [] = []"
| "utf8_decode bad (c # cs) =
     (if byte c < 128 then c # utf8_decode bad cs
      else case utf8_lead (byte c) of
             None \<Rightarrow> bad @ utf8_decode bad cs
           | Some (k, lo, hi) \<Rightarrow>
               (let m = utf8_tail k lo hi cs
                in (if m = k then c # take k cs else bad) @ utf8_decode bad (drop m cs)))"
  by pat_completeness auto
termination by (relation "measure (\<lambda>(_, s). length s)") auto

definition replacement_char :: string where
  "replacement_char = [CHR 0xEF, CHR 0xBF, CHR 0xBD]"

definition decode_bytes :: "string \<Rightarrow> string" where
  "decode_bytes raw = utf8_decode replacement_char raw"

section \<open>Lines\<close>

definition default_max_line_bytes_const :: nat where "default_max_line_bytes_const = 65536"
definition default_max_file_bytes_const :: nat where "default_max_file_bytes_const = 0"

definition int_env :: "(string \<Rightarrow> string) \<Rightarrow> string \<Rightarrow> nat \<Rightarrow> nat" where
  "int_env env name d =
     (let raw = strip (env name)
      in if raw = [] then d else case parse_int raw of Some n \<Rightarrow> nat (max 0 n) | None \<Rightarrow> d)"

definition default_max_line_bytes :: "(string \<Rightarrow> string) \<Rightarrow> nat" where
  "default_max_line_bytes env = int_env env ''AI_LOG_ANALYZER_MAX_LINE_BYTES'' default_max_line_bytes_const"

definition default_max_file_bytes :: "(string \<Rightarrow> string) \<Rightarrow> nat" where
  "default_max_file_bytes env = int_env env ''AI_LOG_ANALYZER_MAX_FILE_BYTES'' default_max_file_bytes_const"

definition control_re :: "char \<Rightarrow> bool" where
  "control_re c = (let n = byte c in n \<le> 8 \<or> n = 11 \<or> n = 12 \<or> (14 \<le> n \<and> n \<le> 31) \<or> n = 127)"

definition bom :: string where "bom = [CHR 0xEF, CHR 0xBB, CHR 0xBF]"

function lstrip_bom :: "string \<Rightarrow> string" where
  "lstrip_bom s = (if starts_with bom s then lstrip_bom (drop 3 s) else s)"
  by pat_completeness auto
termination
proof (relation "measure length", goal_cases)
  case (2 s)
  then show ?case by (cases s) (auto simp: bom_def)
qed simp

declare lstrip_bom.simps [simp del]

definition sanitize_raw_line :: "nat \<Rightarrow> string \<Rightarrow> string" where
  "sanitize_raw_line limit line =
     (if line = [] then []
      else let cleaned = filter (\<lambda>c. \<not> control_re c) (filter (\<lambda>c. c \<noteq> CR) (lstrip_bom line))
           in if limit > 0 \<and> length cleaned > limit then utf8_decode [] (take limit cleaned) else cleaned)"

section \<open>Time stamps\<close>

abbreviation rx_digit :: rx where "rx_digit \<equiv> Cls is_digit"
abbreviation rx_space :: rx where "rx_space \<equiv> Cls is_space"

definition char_in :: "char \<Rightarrow> char \<Rightarrow> char \<Rightarrow> bool" where
  "char_in lo hi c \<longleftrightarrow> byte lo \<le> byte c \<and> byte c \<le> byte hi"

definition hms_rx :: "rx \<Rightarrow> rx" where
  "hms_rx hh = seqs [Grp 3 hh, lit '':'', Grp 4 (seqs [rx_digit, rx_digit]), lit '':'', Grp 5 (seqs [rx_digit, rx_digit])]"

definition fraction_rx :: rx where "fraction_rx = opt (seqs [lit ''.'', plus1 rx_digit])"

definition bsd_ts_re :: rx where
  "bsd_ts_re = seqs [Cls (char_in CHR ''A'' CHR ''Z''), Cls (char_in CHR ''a'' CHR ''z''), Cls (char_in CHR ''a'' CHR ''z''),
     plus1 rx_space, Grp 2 (seqs [rx_digit, opt rx_digit]), plus1 rx_space, hms_rx (seqs [rx_digit, rx_digit]),
     fraction_rx, Eol]"

definition iso_ts_re :: rx where
  "iso_ts_re = seqs [rx_digit, rx_digit, rx_digit, rx_digit, lit ''-'', Grp 1 (seqs [rx_digit, rx_digit]), lit ''-'',
     Grp 2 (seqs [rx_digit, rx_digit]), Cls (\<lambda>c. c = CHR ''T'' \<or> c = CHR '' ''), hms_rx (seqs [rx_digit, rx_digit])]"

definition hms_ts_re :: rx where
  "hms_ts_re = seqs [hms_rx (seqs [rx_digit, opt rx_digit]), fraction_rx, Eol]"

definition group_nat :: "caps \<Rightarrow> nat \<Rightarrow> nat" where
  "group_nat g n = digits_value 0 (dict_get g n [])"

definition in_range :: "caps \<Rightarrow> bool \<Rightarrow> bool" where
  "in_range g day \<longleftrightarrow>
     (day \<longrightarrow> 1 \<le> group_nat g 2 \<and> group_nat g 2 \<le> 31) \<and>
     group_nat g 3 \<le> 23 \<and> group_nat g 4 \<le> 59 \<and> group_nat g 5 \<le> 60"

definition clean_timestamp :: "string \<Rightarrow> string" where
  "clean_timestamp ts =
     (if ts = [] then []
      else let t = strip ts
           in case rx_match bsd_ts_re t of
                Some g \<Rightarrow> if in_range g True then t else []
              | None \<Rightarrow>
                  (case rx_match iso_ts_re t of
                     Some g \<Rightarrow>
                       if \<not> (1 \<le> group_nat g 1 \<and> group_nat g 1 \<le> 12) then []
                       else if in_range g True then t else []
                   | None \<Rightarrow>
                       (case rx_match hms_ts_re t of
                          Some g \<Rightarrow> if in_range g False then t else []
                        | None \<Rightarrow> t)))"

section \<open>Streams of lines\<close>

datatype raw_line = Raw_Bytes string | Raw_Text string

definition rstrip_of :: "string \<Rightarrow> string \<Rightarrow> string" where
  "rstrip_of cs s = rev (dropWhile (\<lambda>c. c \<in> set cs) (rev s))"

definition cleaned_line :: "nat \<Rightarrow> string \<Rightarrow> string list" where
  "cleaned_line limit txt =
     (let cleaned = sanitize_raw_line limit (rstrip_of [LF] txt) in if strip cleaned \<noteq> [] then [cleaned] else [])"

definition iter_sanitized_lines :: "nat \<Rightarrow> raw_line list \<Rightarrow> string list" where
  "iter_sanitized_lines limit lines =
     concat (map (\<lambda>raw. cleaned_line limit (case raw of Raw_Bytes b \<Rightarrow> decode_bytes b | Raw_Text t \<Rightarrow> t)) lines)"

text \<open>Iterating a binary file yields its lines with their line feed, the last one perhaps without.\<close>

fun file_lines :: "string \<Rightarrow> string \<Rightarrow> string list" where
  "file_lines acc [] = (if acc = [] then [] else [rev acc])"
| "file_lines acc (c # cs) = (if c = LF then rev (c # acc) # file_lines [] cs else file_lines (c # acc) cs)"

fun read_lines :: "nat \<Rightarrow> nat \<Rightarrow> nat \<Rightarrow> string list \<Rightarrow> string list" where
  "read_lines limit file_limit seen [] = []"
| "read_lines limit file_limit seen (raw # lines) =
     (if file_limit > 0 \<and> seen \<ge> file_limit then []
      else cleaned_line limit (decode_bytes raw) @ read_lines limit file_limit (seen + length raw) lines)"

definition iter_file_lines :: "nat \<Rightarrow> nat \<Rightarrow> string \<Rightarrow> string list" where
  "iter_file_lines limit file_limit content = read_lines limit file_limit 0 (file_lines [] content)"

end
