(* ===== verification/Syslog_Frames.thy ===== *)
theory Syslog_Frames
  imports Ingest
begin

text \<open>
  Message framing on a syslog TCP or TLS connection (\<open>sources/syslog.py\<close>): octet counting and line feeds
  on one byte stream, up to the end of the connection. The stream reader of the standard library is modelled
  by the bytes still to come; \<open>got s\<close> is how many of them had arrived when a read looked, which decides how
  much of an oversized line is dropped at a time. Time-outs and resets are not modelled.
\<close>

section \<open>The stream reader\<close>

datatype until = Found string string | Overrun nat | Incomplete string

definition find_lf :: "string \<Rightarrow> nat" where
  "find_lf s = length (takeWhile (\<lambda>c. c \<noteq> LF) s)"

text \<open>
  \<open>readuntil(b"\n")\<close>: the separator beyond the limit, or more bytes than the limit without one, is an
  overrun that says how many bytes are certainly not part of a line within the limit.
\<close>

definition overrun :: "nat \<Rightarrow> nat \<Rightarrow> nat \<Rightarrow> until" where
  "overrun limit most arrived = Overrun (max (Suc limit) (min most arrived))"

definition read_until :: "(string \<Rightarrow> nat) \<Rightarrow> nat \<Rightarrow> string \<Rightarrow> until" where
  "read_until got limit s =
     (let i = find_lf s
      in if i < length s
         then (if i \<le> limit then Found (take (Suc i) s) (drop (Suc i) s) else overrun limit i (got s))
         else if limit < length s then overrun limit (length s) (got s) else Incomplete s)"

section \<open>One frame\<close>

text \<open>\<open>Eof\<close> is the answer \<open>None\<close>, \<open>Cut\<close> an \<open>IncompleteReadError\<close> that reaches the caller.\<close>

datatype frame = Frame string | Eof | Cut

record frame_stats =
  fs_dropped_oversize :: nat
  fs_truncated_frames :: nat

definition no_stats :: frame_stats where
  "no_stats = \<lparr>fs_dropped_oversize = 0, fs_truncated_frames = 0\<rparr>"

definition dropped_oversize :: "frame_stats \<Rightarrow> frame_stats" where
  "dropped_oversize st = st\<lparr>fs_dropped_oversize := fs_dropped_oversize st + 1\<rparr>"

definition truncated_frame :: "frame_stats \<Rightarrow> frame_stats" where
  "truncated_frame st = st\<lparr>fs_truncated_frames := fs_truncated_frames st + 1\<rparr>"

definition max_len_digits :: nat where "max_len_digits = 10"

definition byte_space :: "char \<Rightarrow> bool" where
  "byte_space c = (let n = byte c in (9 \<le> n \<and> n \<le> 13) \<or> n = 32)"

text \<open>Discarding to the end of an oversized line.\<close>

function discard_line :: "(string \<Rightarrow> nat) \<Rightarrow> nat \<Rightarrow> string \<Rightarrow> frame \<times> string" where
  "discard_line got limit s =
     (case read_until got limit s of
        Found _ rest \<Rightarrow> (Frame [], rest)
      | Incomplete _ \<Rightarrow> (Cut, [])
      | Overrun n \<Rightarrow> discard_line got limit (drop n s))"
  by pat_completeness auto
termination
  by (relation "measure (\<lambda>(_, _, s). length s)")
     (auto simp: read_until_def overrun_def Let_def split: if_splits)

declare discard_line.simps [simp del]

definition read_lf_tail ::
  "(string \<Rightarrow> nat) \<Rightarrow> nat \<Rightarrow> string \<Rightarrow> string \<Rightarrow> frame_stats \<Rightarrow> frame \<times> frame_stats \<times> string" where
  "read_lf_tail got max_frame prefix s st =
     (let limit = max_frame + 64
      in case read_until got limit s of
           Found rest s' \<Rightarrow> (Frame (prefix @ rest), st, s')
         | Incomplete rest \<Rightarrow>
             (if rest = [] \<and> prefix \<noteq> [] \<and> list_all byte_space prefix then (Eof, st, [])
              else (Frame (prefix @ rest), st, []))
         | Overrun n \<Rightarrow> (case discard_line got limit (drop n s) of (f, s') \<Rightarrow> (f, dropped_oversize st, s')))"

text \<open>
  At most two bytes after the length, stopping at a line feed: \<open>Inl\<close> is the frame that ends there.
\<close>

fun read_head :: "nat \<Rightarrow> string \<Rightarrow> string \<Rightarrow> string \<Rightarrow> frame \<times> string + string \<times> string" where
  "read_head 0 prefix head s = Inr (head, s)"
| "read_head (Suc n) prefix head [] =
     Inl (if list_all byte_space head then Eof else Frame (prefix @ head), [])"
| "read_head (Suc n) prefix head (c # s) =
     (if c = LF then Inl (Frame (prefix @ head), s) else read_head n prefix (head @ [c]) s)"

definition after_length ::
  "(string \<Rightarrow> nat) \<Rightarrow> nat \<Rightarrow> string \<Rightarrow> string \<Rightarrow> frame_stats \<Rightarrow> frame \<times> frame_stats \<times> string" where
  "after_length got max_frame digits s st =
     (let len = digits_value 0 digits; prefix = digits @ '' ''
      in case read_head 2 prefix [] s of
           Inl (f, s') \<Rightarrow> (f, st, s')
         | Inr (head, s') \<Rightarrow>
             (if len \<ge> 3 \<and> head ! 0 = CHR ''<'' \<and> is_digit (head ! 1)
              then (if len > max_frame
                    then (if length s' < len - 2 then (Eof, dropped_oversize st, [])
                          else (Frame [], dropped_oversize st, drop (len - 2) s'))
                    else if length s' < len - 2 then (Frame (head @ s'), truncated_frame st, [])
                    else (Frame (head @ take (len - 2) s'), st, drop (len - 2) s'))
              else read_lf_tail got max_frame (prefix @ head) s' st))"

fun read_frame ::
  "(string \<Rightarrow> nat) \<Rightarrow> nat \<Rightarrow> string \<Rightarrow> string \<Rightarrow> frame_stats \<Rightarrow> frame \<times> frame_stats \<times> string" where
  "read_frame got max_frame digits [] st = (Eof, st, [])"
| "read_frame got max_frame digits (c # s) st =
     (if is_digit c \<and> length digits < max_len_digits \<and> \<not> (digits = [] \<and> c = CHR ''0'')
      then read_frame got max_frame (digits @ [c]) s st
      else if c = CHR '' '' \<and> digits \<noteq> [] then after_length got max_frame digits s st
      else if c = LF \<or> c = CHR 0x00 then (Frame digits, st, s)
      else read_lf_tail got max_frame (digits @ [c]) s st)"

section \<open>A connection\<close>

lemma read_until_rest:
  "read_until got limit s = Found l r \<Longrightarrow> length r < length s"
  by (auto simp: read_until_def overrun_def Let_def split: if_splits)

lemma discard_line_rest: "length (snd (discard_line got limit s)) \<le> length s"
proof (induction got limit s rule: discard_line.induct)
  case (1 got limit s)
  show ?case
  proof (cases "read_until got limit s")
    case (Found l r)
    then show ?thesis using read_until_rest [OF Found] by (simp add: discard_line.simps)
  next
    case (Overrun n)
    then show ?thesis using 1 [OF Overrun] by (simp add: discard_line.simps)
  next
    case (Incomplete l)
    then show ?thesis by (simp add: discard_line.simps)
  qed
qed

lemma read_lf_tail_rest: "length (snd (snd (read_lf_tail got mf prefix s st))) \<le> length s"
proof (cases "read_until got (mf + 64) s")
  case (Found l r)
  then show ?thesis using read_until_rest [OF Found] by (simp add: read_lf_tail_def)
next
  case (Overrun n)
  then show ?thesis using discard_line_rest [of got "mf + 64" "drop n s"]
    by (cases "discard_line got (mf + 64) (drop n s)") (simp add: read_lf_tail_def)
next
  case (Incomplete l)
  then show ?thesis by (simp add: read_lf_tail_def)
qed

lemma read_head_rest:
  "read_head n prefix head s = Inl (f, s') \<Longrightarrow> length s' \<le> length s"
  "read_head n prefix head s = Inr (h, s') \<Longrightarrow> length s' \<le> length s"
  by (induction n prefix head s rule: read_head.induct) (auto split: if_splits intro: le_SucI)

lemma after_length_rest: "length (snd (snd (after_length got mf digits s st))) \<le> length s"
proof (cases "read_head 2 (digits @ '' '') [] s")
  case (Inl fs)
  then show ?thesis using read_head_rest(1) [of 2 _ "[]" s] by (cases fs) (simp add: after_length_def)
next
  case (Inr hs)
  obtain head s' where hs: "hs = (head, s')" by (cases hs)
  then show ?thesis
    using read_head_rest(2) [OF Inr [unfolded hs]] read_lf_tail_rest [of got mf "digits @ '' '' @ head" s' st] Inr
    by (auto simp: after_length_def Let_def intro: le_trans)
qed

lemma read_frame_rest: "s \<noteq> [] \<Longrightarrow> length (snd (snd (read_frame got mf digits s st))) < length s"
proof (induction got mf digits s st rule: read_frame.induct)
  case (2 got mf digits c s st)
  then show ?case
    using after_length_rest [of got mf digits s st] read_lf_tail_rest [of got mf "digits @ [c]" s st]
    by (cases "s = []") (auto simp: less_Suc_eq_le intro: le_trans)
qed simp

lemma read_frame_shorter: "read_frame got mf digits s st = (Frame f, st', s') \<Longrightarrow> length s' < length s"
  using read_frame_rest [of s got mf digits st] by (cases s) auto

text \<open>The loop of \<open>_handle_conn\<close>: the frames handed to \<open>_ingest\<close>, and the connection's counters.\<close>

function conn_frames ::
  "(string \<Rightarrow> nat) \<Rightarrow> nat \<Rightarrow> string \<Rightarrow> frame_stats \<Rightarrow> string list \<times> frame_stats" where
  "conn_frames got max_frame s st =
     (case read_frame got max_frame [] s st of
        (Eof, st', _) \<Rightarrow> ([], st')
      | (Cut, st', _) \<Rightarrow> ([], truncated_frame st')
      | (Frame f, st', s') \<Rightarrow>
          (case conn_frames got max_frame s' st' of (fs, st'') \<Rightarrow> (if f = [] then fs else f # fs, st'')))"
  by pat_completeness auto
termination
  by (relation "measure (\<lambda>(_, _, s, _). length s)") (auto dest!: sym [THEN read_frame_shorter])

declare conn_frames.simps [simp del]

end
