(* ===== verification/Syslog_Listener.thy ===== *)
theory Syslog_Listener
  imports Syslog_Frames Ip_Address State_Store Events
begin

text \<open>
  The syslog listener behind the sockets (\<open>sources/syslog.py\<close>): the sender allow-list, connection limits,
  the path of a line from the receive loop through the pending batch and the bounded queue to the spool
  writer and the database, and the two ways of reading it back. Each operation is one critical section of
  the code; \<open>listener_step\<close> interleaves the receive loop, the writer thread and \<open>close()\<close>.
\<close>

section \<open>Allow-list\<close>

datatype net = Net4 "32 word" nat | Net6 "string \<Rightarrow> bool"

text \<open>The IPv6 half of \<open>ip_network\<close>: the membership test of a network literal.\<close>

type_synonym net6 = "string \<Rightarrow> (string \<Rightarrow> bool) option"

definition prefix_mask :: "nat \<Rightarrow> 32 word" where
  "prefix_mask p = push_bit (32 - p) (- 1)"

definition prefix_of_mask :: "32 word \<Rightarrow> nat option" where
  "prefix_of_mask w =
     (case List.find (\<lambda>p. prefix_mask p = w) [0..<33] of
        Some p \<Rightarrow> Some p
      | None \<Rightarrow> List.find (\<lambda>p. prefix_mask p = NOT w) [0..<33])"

definition parse_prefix :: "string \<Rightarrow> nat option" where
  "parse_prefix s =
     (if s \<noteq> [] \<and> list_all is_digit s
      then (if digits_value 0 s \<le> 32 then Some (digits_value 0 s) else None)
      else case parse_v4 s of None \<Rightarrow> None | Some w \<Rightarrow> prefix_of_mask w)"

definition ip_network :: "net6 \<Rightarrow> string \<Rightarrow> net option" where
  "ip_network net6 item =
     (let v4 = (case split_on (CHR ''/'') item of
                  [a] \<Rightarrow> map_option (\<lambda>w. Net4 w 32) (parse_v4 a)
                | [a, p] \<Rightarrow> (case (parse_v4 a, parse_prefix p) of
                                (Some w, Some n) \<Rightarrow> Some (Net4 (w AND prefix_mask n) n) | _ \<Rightarrow> None)
                | _ \<Rightarrow> None)
      in case v4 of Some n \<Rightarrow> Some n | None \<Rightarrow> map_option Net6 (net6 item))"

definition replace_char :: "char \<Rightarrow> char \<Rightarrow> string \<Rightarrow> string" where
  "replace_char a b s = map (\<lambda>c. if c = a then b else c) s"

fun parse_items :: "net6 \<Rightarrow> string list \<Rightarrow> py_error + net list" where
  "parse_items net6 [] = Inr []"
| "parse_items net6 (item # items) =
     (if strip item = [] then parse_items net6 items
      else case ip_network net6 (strip item) of
             None \<Rightarrow> Inl Source_Error
           | Some n \<Rightarrow> map_sum id ((#) n) (parse_items net6 items))"

definition parse_allow :: "net6 \<Rightarrow> string \<Rightarrow> py_error + net list" where
  "parse_allow net6 raw = parse_items net6 (split_on (CHR '','') (replace_char (CHR '';'') (CHR '','') raw))"

definition norm_ip :: "ip6 \<Rightarrow> string \<Rightarrow> string" where
  "norm_ip ip6 addr =
     (case parse_v4 addr of
        Some w \<Rightarrow> show_v4 w
      | None \<Rightarrow> (case ip6 addr of None \<Rightarrow> addr | Some (canon, None) \<Rightarrow> canon | Some (_, Some w) \<Rightarrow> show_v4 w))"

fun in_net :: "ip6 \<Rightarrow> string \<Rightarrow> net \<Rightarrow> bool" where
  "in_net ip6 sender (Net4 w p) = (case parse_v4 sender of Some a \<Rightarrow> a AND prefix_mask p = w | None \<Rightarrow> False)"
| "in_net ip6 sender (Net6 member) =
     (parse_v4 sender = None \<and> (case ip6 sender of Some (canon, _) \<Rightarrow> member canon | None \<Rightarrow> False))"

definition allowed :: "ip6 \<Rightarrow> net list \<Rightarrow> string \<Rightarrow> bool" where
  "allowed ip6 nets sender =
     (nets = [] \<or> ((parse_v4 sender \<noteq> None \<or> ip6 sender \<noteq> None) \<and> list_ex (in_net ip6 sender) nets))"

section \<open>State\<close>

type_synonym row = "instant \<times> string \<times> string"

record listener_cfg =
  lc_name :: string
  lc_capacity :: nat
  lc_max_frame :: nat
  lc_max_connections :: int
  lc_max_per_ip :: int
  lc_queue_max :: int
  lc_allow :: "net list"
  lc_spool :: bool
  lc_max_line :: nat

text \<open>The writer thread: waiting for work, writing a batch it took (when told to stop or not), or ended.\<close>

datatype writer = Waiting | Writing bool "row list" | Ended

record listener =
  ls_buffer :: "(string \<times> string) list"
  ls_total :: nat
  ls_pending :: "row list"
  ls_wq :: "row list list"
  ls_wq_rows :: int
  ls_enq_rows :: int
  ls_done_rows :: int
  ls_writer :: writer
  ls_writer_stop :: bool
  ls_active :: int
  ls_by_ip :: "(string \<times> int) list"
  ls_received :: nat
  ls_rejected_sender :: nat
  ls_rejected_conn_limit :: nat
  ls_rejected_ip_limit :: nat
  ls_connections :: nat
  ls_queue_overflow :: nat
  ls_lines_lost :: nat
  ls_spooled :: nat
  ls_spool_errors :: nat

definition new_listener :: listener where
  "new_listener =
     \<lparr>ls_buffer = [], ls_total = 0, ls_pending = [], ls_wq = [], ls_wq_rows = 0, ls_enq_rows = 0, ls_done_rows = 0,
      ls_writer = Waiting, ls_writer_stop = False, ls_active = 0, ls_by_ip = [], ls_received = 0,
      ls_rejected_sender = 0, ls_rejected_conn_limit = 0, ls_rejected_ip_limit = 0, ls_connections = 0,
      ls_queue_overflow = 0, ls_lines_lost = 0, ls_spooled = 0, ls_spool_errors = 0\<rparr>"

definition flush_batch :: nat where "flush_batch = 512"
definition write_batch :: nat where "write_batch = 5000"

section \<open>Connections\<close>

definition conn_open :: "listener_cfg \<Rightarrow> ip6 \<Rightarrow> string \<Rightarrow> listener \<Rightarrow> bool \<times> listener" where
  "conn_open cfg ip6 sender li =
     (if \<not> allowed ip6 (lc_allow cfg) sender
      then (False, li\<lparr>ls_rejected_sender := ls_rejected_sender li + 1\<rparr>)
      else if ls_active li \<ge> lc_max_connections cfg
      then (False, li\<lparr>ls_rejected_conn_limit := ls_rejected_conn_limit li + 1\<rparr>)
      else if lc_max_per_ip cfg > 0 \<and> dict_get (ls_by_ip li) sender 0 \<ge> lc_max_per_ip cfg
      then (False, li\<lparr>ls_rejected_ip_limit := ls_rejected_ip_limit li + 1\<rparr>)
      else (True, li\<lparr>ls_active := ls_active li + 1,
                     ls_by_ip := AList.update sender (dict_get (ls_by_ip li) sender 0 + 1) (ls_by_ip li),
                     ls_connections := ls_connections li + 1\<rparr>))"

definition conn_close :: "string \<Rightarrow> listener \<Rightarrow> listener" where
  "conn_close sender li =
     (let n = dict_get (ls_by_ip li) sender 0 - 1
      in li\<lparr>ls_active := ls_active li - 1,
            ls_by_ip := (if n \<le> 0 then AList.delete sender (ls_by_ip li) else AList.update sender n (ls_by_ip li))\<rparr>)"

section \<open>Ingest\<close>

definition ingest_line :: "listener_cfg \<Rightarrow> string \<Rightarrow> string" where
  "ingest_line cfg raw =
     (let txt = rstrip_of [CR, LF, CHR 0x00] (decode_bytes raw);
          folded = (if LF \<in> set txt then join_with '' '' (map (strip_chars [CR]) (split_on LF txt)) else txt)
      in sanitize_raw_line (lc_max_line cfg) folded)"

text \<open>Handing the pending lines to the writer's queue; what does not fit is dropped, newest first, and counted.\<close>

definition flush :: "listener_cfg \<Rightarrow> listener \<Rightarrow> listener" where
  "flush cfg li =
     (if \<not> lc_spool cfg then li
      else let rows = ls_pending li; li = li\<lparr>ls_pending := []\<rparr>
           in if rows = [] then li
              else let room = nat (max 0 (lc_queue_max cfg - ls_wq_rows li));
                       over = length rows - room;
                       li = (if length rows > room
                             then li\<lparr>ls_queue_overflow := ls_queue_overflow li + over,
                                     ls_lines_lost := ls_lines_lost li + over,
                                     ls_enq_rows := ls_enq_rows li + int over,
                                     ls_done_rows := ls_done_rows li + int over\<rparr>
                             else li);
                       rows = (if length rows > room then take room rows else rows)
                   in if rows = [] then li
                      else li\<lparr>ls_wq := ls_wq li @ [rows], ls_wq_rows := ls_wq_rows li + int (length rows),
                              ls_enq_rows := ls_enq_rows li + int (length rows)\<rparr>)"

definition ingest :: "listener_cfg \<Rightarrow> instant \<Rightarrow> string \<Rightarrow> string \<Rightarrow> listener \<Rightarrow> listener" where
  "ingest cfg now raw sender li =
     (let line = ingest_line cfg raw
      in if strip line = [] then li
         else let li = li\<lparr>ls_buffer := take_last (lc_capacity cfg) (ls_buffer li @ [(line, sender)]),
                          ls_total := ls_total li + 1, ls_received := ls_received li + 1\<rparr>
              in if lc_spool cfg
                 then (let li = li\<lparr>ls_pending := ls_pending li @ [(now, sender, line)]\<rparr>
                       in if length (ls_pending li) \<ge> flush_batch then flush cfg li else li)
                 else li)"

text \<open>The row a received message adds to the spool path, if any.\<close>

definition ingest_rows :: "listener_cfg \<Rightarrow> instant \<Rightarrow> string \<Rightarrow> string \<Rightarrow> row list" where
  "ingest_rows cfg now raw sender =
     (if strip (ingest_line cfg raw) = [] \<or> \<not> lc_spool cfg then [] else [(now, sender, ingest_line cfg raw)])"

text \<open>A datagram may carry several lines.\<close>

definition datagram_parts :: "string \<Rightarrow> string list" where
  "datagram_parts data = filter (\<lambda>part. \<not> list_all byte_space part) (split_on LF data)"

definition datagram :: "listener_cfg \<Rightarrow> ip6 \<Rightarrow> instant \<Rightarrow> string \<Rightarrow> string \<Rightarrow> listener \<Rightarrow> listener" where
  "datagram cfg ip6 now data addr li =
     (let sender = norm_ip ip6 addr
      in if \<not> allowed ip6 (lc_allow cfg) sender then li\<lparr>ls_rejected_sender := ls_rejected_sender li + 1\<rparr>
         else fold (\<lambda>part. ingest cfg now part sender) (datagram_parts data) li)"

definition datagram_rows :: "listener_cfg \<Rightarrow> ip6 \<Rightarrow> instant \<Rightarrow> string \<Rightarrow> string \<Rightarrow> row list" where
  "datagram_rows cfg ip6 now data addr =
     (if allowed ip6 (lc_allow cfg) (norm_ip ip6 addr)
      then concat (map (\<lambda>part. ingest_rows cfg now part (norm_ip ip6 addr)) (datagram_parts data)) else [])"

section \<open>The spool writer\<close>

fun grab :: "nat \<Rightarrow> row list \<Rightarrow> row list list \<Rightarrow> row list \<times> row list list" where
  "grab n batch [] = (batch, [])"
| "grab n batch (part # parts) = (if length batch < n then grab n (batch @ part) parts else (batch, part # parts))"

text \<open>The writer takes a batch, or ends when there is none and it was told to stop.\<close>

definition writer_take :: "listener \<Rightarrow> listener" where
  "writer_take li =
     (case grab write_batch [] (ls_wq li) of
        (batch, rest) \<Rightarrow>
          (if batch = [] then li\<lparr>ls_wq := rest, ls_writer := (if ls_writer_stop li then Ended else Waiting)\<rparr>
           else li\<lparr>ls_wq := rest, ls_writer := Writing (ls_writer_stop li) batch\<rparr>))"

definition writer_wrote :: "row list \<Rightarrow> listener \<Rightarrow> listener" where
  "writer_wrote batch li =
     li\<lparr>ls_wq_rows := ls_wq_rows li - int (length batch), ls_done_rows := ls_done_rows li + int (length batch),
        ls_spooled := ls_spooled li + length batch, ls_writer := Waiting\<rparr>"

definition abandon :: "nat \<Rightarrow> listener \<Rightarrow> listener" where
  "abandon lost li =
     li\<lparr>ls_wq := [], ls_wq_rows := 0, ls_done_rows := ls_done_rows li + int lost,
        ls_lines_lost := ls_lines_lost li + lost\<rparr>"

definition writer_failed :: "bool \<Rightarrow> row list \<Rightarrow> listener \<Rightarrow> listener" where
  "writer_failed stopping batch li =
     (let li = li\<lparr>ls_spool_errors := ls_spool_errors li + 1, ls_wq := batch # ls_wq li\<rparr>
      in if stopping then (abandon (length (concat (ls_wq li))) li)\<lparr>ls_writer := Ended\<rparr>
         else li\<lparr>ls_writer := Waiting\<rparr>)"

text \<open>\<open>close()\<close>: tell the writer to stop; after the join, count what is still queued.\<close>

definition writer_stop :: "listener_cfg \<Rightarrow> listener \<Rightarrow> listener" where
  "writer_stop cfg li = (flush cfg li)\<lparr>ls_writer_stop := True\<rparr>"

definition close_abandon :: "listener \<Rightarrow> listener" where
  "close_abandon li =
     (let lost = length (concat (ls_wq li)) in if lost > 0 then abandon lost li else li)"

section \<open>Interleavings\<close>

text \<open>
  The listener with the database it writes to, and two histories: the rows that entered the spool path and
  the rows written, in order; and the senders of the open connections.
\<close>

record world =
  wd_listener :: listener
  wd_db :: "prune_counter \<times> state_db"
  wd_received :: "row list"
  wd_written :: "row list"
  wd_open :: "string list"

text \<open>A failed write is rolled back.\<close>

inductive listener_step :: "listener_cfg \<Rightarrow> ip6 \<Rightarrow> world \<Rightarrow> world \<Rightarrow> bool" for cfg ip6 where
  datagram: "listener_step cfg ip6 w (w\<lparr>wd_listener := datagram cfg ip6 now data addr (wd_listener w),
      wd_received := wd_received w @ datagram_rows cfg ip6 now data addr\<rparr>)"
| opened: "conn_open cfg ip6 sender (wd_listener w) = (True, li) \<Longrightarrow>
    listener_step cfg ip6 w (w\<lparr>wd_listener := li, wd_open := sender # wd_open w\<rparr>)"
| refused: "conn_open cfg ip6 sender (wd_listener w) = (False, li) \<Longrightarrow>
    listener_step cfg ip6 w (w\<lparr>wd_listener := li\<rparr>)"
| frame: "sender \<in> set (wd_open w) \<Longrightarrow>
    listener_step cfg ip6 w (w\<lparr>wd_listener := ingest cfg now f sender (wd_listener w),
      wd_received := wd_received w @ ingest_rows cfg now f sender\<rparr>)"
| closed: "sender \<in> set (wd_open w) \<Longrightarrow>
    listener_step cfg ip6 w (w\<lparr>wd_listener := conn_close sender (wd_listener w), wd_open := remove1 sender (wd_open w)\<rparr>)"
| flushed: "listener_step cfg ip6 w (w\<lparr>wd_listener := flush cfg (wd_listener w)\<rparr>)"
| took: "ls_writer (wd_listener w) = Waiting \<Longrightarrow>
    listener_step cfg ip6 w (w\<lparr>wd_listener := writer_take (wd_listener w)\<rparr>)"
| wrote: "ls_writer (wd_listener w) = Writing stopping batch \<Longrightarrow>
    spool_append (lc_name cfg) batch (int (lc_capacity cfg)) (wd_db w) = (db, k) \<Longrightarrow>
    listener_step cfg ip6 w (w\<lparr>wd_listener := writer_wrote batch (wd_listener w), wd_db := db,
      wd_written := wd_written w @ batch\<rparr>)"
| failed: "ls_writer (wd_listener w) = Writing stopping batch \<Longrightarrow>
    listener_step cfg ip6 w (w\<lparr>wd_listener := writer_failed stopping batch (wd_listener w)\<rparr>)"
| stopped: "listener_step cfg ip6 w (w\<lparr>wd_listener := writer_stop cfg (wd_listener w)\<rparr>)"
| abandoned: "ls_writer_stop (wd_listener w) \<Longrightarrow>
    listener_step cfg ip6 w (w\<lparr>wd_listener := close_abandon (wd_listener w)\<rparr>)"

section \<open>Reading\<close>

text \<open>\<open>_events\<close>: the parser of a line and the attribute set on its event are arguments of the registry.\<close>

definition events_of ::
  "(string \<Rightarrow> string \<Rightarrow> log_event option) \<Rightarrow> (string \<times> string) list \<Rightarrow> string \<Rightarrow> log_event list" where
  "events_of parse items host_filter =
     List.map_filter (\<lambda>(line, sender).
       case parse line (if sender \<noteq> [] then sender else ''syslog'') of
         None \<Rightarrow> None
       | Some ev \<Rightarrow>
           (let ev = (if sender \<noteq> [] then ev\<lparr>le_attrs := AList.update ''sender_ip'' sender (le_attrs ev)\<rparr> else ev)
            in if host_filter \<noteq> [] \<and> le_hostname ev \<noteq> [] \<and> \<not> is_infix host_filter (le_hostname ev) then None
               else Some ev)) items"

definition memory_new :: "nat \<Rightarrow> nat \<Rightarrow> listener \<Rightarrow> (string \<times> string) list \<times> nat" where
  "memory_new cursor limit li =
     (let n = min (ls_total li - cursor) (length (ls_buffer li));
          items = (if n > 0 then take_last n (ls_buffer li) else [])
      in (if limit > 0 \<and> length items > limit then take_last limit items else items, ls_total li))"

definition spool_new :: "listener_cfg \<Rightarrow> int \<Rightarrow> nat \<Rightarrow> state_db \<Rightarrow> (string \<times> string) list \<times> int" where
  "spool_new cfg cursor limit db =
     (let rows = spool_after (lc_name cfg) cursor (if limit > 0 then limit else lc_capacity cfg) db
      in (map (\<lambda>r. (sp_line r, sp_sender r)) rows, if rows = [] then max cursor 0 else sp_id (last rows)))"

definition fetch_items :: "listener_cfg \<Rightarrow> nat \<Rightarrow> listener \<Rightarrow> state_db \<Rightarrow> (string \<times> string) list" where
  "fetch_items cfg limit li db =
     (let limit = (if limit > 0 then limit else lc_capacity cfg)
      in if lc_spool cfg then map (\<lambda>r. (sp_line r, sp_sender r)) (spool_tail (lc_name cfg) limit db)
         else take_last limit (ls_buffer li))"

end
