(* ===== verification/Syslog_Frame_Laws.thy ===== *)
theory Syslog_Frame_Laws
  imports Syslog_Frames Ip_Address "HOL-Library.Sublist"
begin

text \<open>
  Laws of ingestion and of the framing: what a cleaned line can contain, that the frames of a connection do
  not depend on how its bytes arrive, and that messages framed either way come out again, an oversized one
  taking nothing else with it.
\<close>

section \<open>Cleaned lines\<close>

lemma utf8_tail_le: "utf8_tail k lo hi s \<le> length s"
  by (induction k lo hi s rule: utf8_tail.induct) auto

lemma subseq_ignored: "subseq (utf8_decode [] s) s"
proof (induction "[] :: string" s rule: utf8_decode.induct)
  case (2 c cs)
  show ?case
  proof (cases "byte c < 128")
    case False
    show ?thesis
    proof (cases "utf8_lead (byte c)")
      case None
      then show ?thesis using 2 False by (auto intro: list_emb_Cons)
    next
      case (Some t)
      obtain k lo hi where t: "t = (k, lo, hi)" by (cases t)
      let ?m = "utf8_tail k lo hi cs"
      have ih: "subseq (utf8_decode [] (drop ?m cs)) (drop ?m cs)" using 2 False Some t by simp
      have "subseq (take ?m cs @ utf8_decode [] (drop ?m cs)) (take ?m cs @ drop ?m cs)"
        by (intro list_emb_append_mono subseq_order.refl ih)
      then have a: "subseq (take ?m cs @ utf8_decode [] (drop ?m cs)) cs" by simp
      have "subseq (utf8_decode [] (drop ?m cs)) cs"
        using ih list_emb_append2 [OF ih, of "take ?m cs"] by simp
      then show ?thesis using a False Some t by (auto simp: Let_def intro: list_emb_Cons)
    qed
  qed (use 2 in auto)
qed simp

text \<open>
  A line that enters the program is clean: no control character and no carriage return is left in
  it, and under a positive limit it has at most that many bytes, whatever the input.
\<close>

theorem sanitized_line_bounded:
  assumes "0 < limit"
  shows "length (sanitize_raw_line limit line) \<le> limit \<and>
    list_all (\<lambda>c. \<not> control_re c \<and> c \<noteq> CR) (sanitize_raw_line limit line)"
proof -
  define cleaned where "cleaned = filter (\<lambda>c. \<not> control_re c) (filter (\<lambda>c. c \<noteq> CR) (lstrip_bom line))"
  have clean: "list_all (\<lambda>c. \<not> control_re c \<and> c \<noteq> CR) cleaned" by (auto simp: cleaned_def list_all_iff)
  have sub: "subseq (utf8_decode [] (take limit cleaned)) (take limit cleaned)" by (rule subseq_ignored)
  have "c \<in> set cleaned" if "c \<in> set (utf8_decode [] (take limit cleaned))" for c
    using that by (rule list_emb_set [OF sub]) (auto dest: in_set_takeD)
  moreover have "length (utf8_decode [] (take limit cleaned)) \<le> limit"
    using list_emb_length [OF sub] by simp
  moreover have "sanitize_raw_line limit line =
      (if line = [] then [] else if limit < length cleaned then utf8_decode [] (take limit cleaned) else cleaned)"
    unfolding sanitize_raw_line_def cleaned_def Let_def using assms by (simp only: simp_thms)
  ultimately show ?thesis using clean by (auto simp: list_all_iff)
qed

theorem sanitized_line_bounded_witness:
  "sanitize_raw_line 4 [CHR 0x07, CHR ''o'', CHR ''k'', CHR 0x0D, CHR 0xC3, CHR 0xA9, CHR 0xC3, CHR 0xA9] =
     [CHR ''o'', CHR ''k'', CHR 0xC3, CHR 0xA9] \<and>
   length (sanitize_raw_line 4 (replicate 9 (CHR ''x''))) \<le> 4"
proof
  show "sanitize_raw_line 4 [CHR 0x07, CHR ''o'', CHR ''k'', CHR 0x0D, CHR 0xC3, CHR 0xA9, CHR 0xC3, CHR 0xA9] =
     [CHR ''o'', CHR ''k'', CHR 0xC3, CHR 0xA9]" by code_simp
  show "length (sanitize_raw_line 4 (replicate 9 (CHR ''x''))) \<le> 4"
    using sanitized_line_bounded [of 4 "replicate 9 (CHR ''x'')"] by simp
qed

text \<open>Byte order marks are stripped before control characters, so one behind a control character stays.\<close>

lemma bom_survives: "starts_with bom (sanitize_raw_line 0 (CHR 0x01 # bom @ ''x''))"
  by code_simp

section \<open>Lines of a stream\<close>

lemma find_lf_append [simp]: "LF \<notin> set l \<Longrightarrow> find_lf (l @ s) = length l + find_lf s"
  by (induction l) (auto simp: find_lf_def)

lemma find_lf_Cons [simp]: "find_lf (LF # s) = 0" "find_lf [] = 0"
  by (simp_all add: find_lf_def)

lemma find_lf_le: "find_lf s \<le> length s"
  by (simp add: find_lf_def length_takeWhile_le)

lemma find_lf_less: "find_lf s < length s \<longleftrightarrow> LF \<in> set s"
  by (induction s) (auto simp: find_lf_def)

lemma find_lf_drop: "n \<le> find_lf s \<Longrightarrow> find_lf (drop n s) = find_lf s - n"
proof (induction n arbitrary: s)
  case (Suc n)
  then show ?case by (cases s) (auto simp: find_lf_def split: if_splits)
qed simp

lemma overrun_bounds:
  "read_until got limit s = Overrun n \<Longrightarrow> limit < n \<and> n \<le> find_lf s"
  using find_lf_le [of s] by (auto simp: read_until_def overrun_def Let_def split: if_splits)

text \<open>Discarding ends behind the next line feed, however the overruns chop the line.\<close>

lemma discard_line_eq:
  "discard_line got limit s = (if LF \<in> set s then (Frame [], drop (Suc (find_lf s)) s) else (Cut, []))"
proof (induction got limit s rule: discard_line.induct)
  case (1 got limit s)
  show ?case
  proof (cases "read_until got limit s")
    case (Overrun n)
    note b = overrun_bounds [OF Overrun]
    have "LF \<in> set (drop n s) \<longleftrightarrow> LF \<in> set s"
      using b find_lf_drop [of n s] find_lf_less [of s] find_lf_less [of "drop n s"] find_lf_le [of s] by auto
    moreover have "drop (Suc (find_lf (drop n s))) (drop n s) = drop (Suc (find_lf s)) s"
      using b by (simp add: find_lf_drop)
    ultimately show ?thesis using 1 [OF Overrun] Overrun by (simp add: discard_line.simps [of got limit s] del: drop_drop)
  qed (auto simp: discard_line.simps [of got limit s] read_until_def overrun_def Let_def find_lf_less split: if_splits)
qed

lemma read_lf_tail_eq:
  "read_lf_tail got mf pre s st =
     (let i = find_lf s
      in if LF \<in> set s
         then (if i \<le> mf + 64 then (Frame (pre @ take (Suc i) s), st, drop (Suc i) s)
               else (Frame [], dropped_oversize st, drop (Suc i) s))
         else if length s \<le> mf + 64
         then (if s = [] \<and> pre \<noteq> [] \<and> list_all byte_space pre then (Eof, st, []) else (Frame (pre @ s), st, []))
         else (Cut, dropped_oversize st, []))"
proof (cases "read_until got (mf + 64) s")
  case (Overrun n)
  note b = overrun_bounds [OF Overrun]
  have "LF \<in> set (drop n s) \<longleftrightarrow> LF \<in> set s"
    using b find_lf_drop [of n s] find_lf_less [of s] find_lf_less [of "drop n s"] find_lf_le [of s] by auto
  moreover have "drop (Suc (find_lf (drop n s))) (drop n s) = drop (Suc (find_lf s)) s"
    using b by (simp add: find_lf_drop)
  moreover have "\<not> find_lf s \<le> mf + 64" "\<not> length s \<le> mf + 64" using b find_lf_le [of s] by auto
  ultimately show ?thesis using Overrun by (simp add: read_lf_tail_def discard_line_eq Let_def del: drop_drop)
qed (auto simp: read_lf_tail_def read_until_def overrun_def Let_def find_lf_less split: if_splits)

section \<open>Arrival\<close>

lemma read_lf_tail_arrival: "read_lf_tail got mf pre s st = read_lf_tail got' mf pre s st"
  unfolding read_lf_tail_eq ..

lemma after_length_arrival: "after_length got mf digits s st = after_length got' mf digits s st"
  unfolding after_length_def read_lf_tail_arrival [of got _ _ _ _ got'] ..

lemma read_frame_arrival: "read_frame got mf digits s st = read_frame got' mf digits s st"
proof (induction got mf digits s st rule: read_frame.induct)
  case (2 got mf digits c s st)
  then show ?case
    by (simp only: read_frame.simps after_length_arrival [of got _ _ _ _ got'] read_lf_tail_arrival [of got _ _ _ _ got']
        split: if_split) blast
qed simp

text \<open>
  The frames of a connection, and its counters, depend on the bytes sent only: however the network cuts
  the stream into pieces, the same messages are read and the same ones are dropped.
\<close>

theorem frames_any_arrival: "conn_frames got mf s st = conn_frames got' mf s st"
proof (induction got mf s st rule: conn_frames.induct)
  case (1 got mf s st)
  obtain f st1 s1 where r: "read_frame got mf [] s st = (f, st1, s1)" by (cases "read_frame got mf [] s st")
  have r': "read_frame got' mf [] s st = (f, st1, s1)" using r read_frame_arrival [of got mf "[]" s st got'] by simp
  show ?case
    using 1 [of f "(st1, s1)"] r
    by (cases f) (simp_all add: conn_frames.simps [of got mf s st] conn_frames.simps [of got' mf s st] r r')
qed

section \<open>Messages\<close>

text \<open>
  What a sender puts on the wire: a message with its length in front, or a line. A line must not itself look
  like a counted message; \<open>mf\<close> is the listener's \<open>max_frame\<close>. Between \<open>mf + 64\<close> and \<open>mf + 78\<close> bytes it
  depends on the first characters of a line whether it is still read.
\<close>

datatype message = Counted string | Plain string

fun wire :: "message \<Rightarrow> string" where
  "wire (Counted m) = show_nat (length m) @ '' '' @ m"
| "wire (Plain l) = l @ [LF]"

definition starts_pri :: "string \<Rightarrow> bool" where
  "starts_pri m \<longleftrightarrow> (case m of a # b # _ \<Rightarrow> a = CHR ''<'' \<and> is_digit b | _ \<Rightarrow> False)"

definition looks_counted :: "string \<Rightarrow> bool" where
  "looks_counted l \<longleftrightarrow>
     (let d = takeWhile is_digit l; r = dropWhile is_digit l
      in d \<noteq> [] \<and> length d \<le> max_len_digits \<and> digits_value 0 d \<ge> 3 \<and>
         (case r of [] \<Rightarrow> False | c # m \<Rightarrow> c = CHR '' '' \<and> starts_pri m))"

fun message_ok :: "nat \<Rightarrow> message \<Rightarrow> bool" where
  "message_ok mf (Counted m) \<longleftrightarrow> starts_pri m \<and> 3 \<le> length m \<and> length (show_nat (length m)) \<le> max_len_digits"
| "message_ok mf (Plain l) \<longleftrightarrow>
     LF \<notin> set l \<and> CHR 0x00 \<notin> set l \<and> \<not> looks_counted l \<and> (length l \<le> mf + 64 \<or> mf + 78 < length l)"

fun too_long :: "nat \<Rightarrow> message \<Rightarrow> bool" where
  "too_long mf (Counted m) \<longleftrightarrow> mf < length m"
| "too_long mf (Plain l) \<longleftrightarrow> mf + 64 < length l"

fun body :: "message \<Rightarrow> string" where
  "body (Counted m) = m"
| "body (Plain l) = l"

definition delivered :: "nat \<Rightarrow> message list \<Rightarrow> string list" where
  "delivered mf ms = filter (\<lambda>b. b \<noteq> []) (map body (filter (\<lambda>m. \<not> too_long mf m) ms))"

definition acc_ok :: "string \<Rightarrow> bool" where
  "acc_ok acc \<longleftrightarrow> list_all is_digit acc \<and> length acc \<le> max_len_digits \<and> (acc \<noteq> [] \<longrightarrow> hd acc \<noteq> CHR ''0'')"

lemma read_digits:
  "list_all is_digit ds \<Longrightarrow> acc_ok (acc @ ds) \<Longrightarrow>
     read_frame got mf acc (ds @ s) st = read_frame got mf (acc @ ds) s st"
proof (induction ds arbitrary: acc)
  case (Cons c ds)
  then have "length acc < max_len_digits" "\<not> (acc = [] \<and> c = CHR ''0'')" by (auto simp: acc_ok_def)
  then show ?case using Cons by simp
qed simp

lemma space_no_digit [simp]: "\<not> is_digit (CHR '' '')" "\<not> is_digit (CHR ''<'')" "\<not> is_digit LF" "\<not> is_digit (CHR 0x00)"
  by (simp_all add: is_digit_def)

lemma read_counted:
  assumes "message_ok mf (Counted m)"
  shows "read_frame got mf [] (wire (Counted m) @ s) st =
     (if mf < length m then (Frame [], dropped_oversize st, s) else (Frame m, st, s))"
proof -
  let ?d = "show_nat (length m)"
  obtain b m' where m: "m = CHR ''<'' # b # m'" and b: "is_digit b"
    using assms by (auto simp: starts_pri_def split: list.splits)
  have "acc_ok ([] @ ?d)"
    using assms show_nat_hd [of "length m"] by (simp add: acc_ok_def m)
  then have "read_frame got mf [] (wire (Counted m) @ s) st = read_frame got mf ?d (CHR '' '' # m @ s) st"
    using read_digits [of ?d "[]" got mf "CHR '' '' # m @ s" st] by simp
  also have "\<dots> = after_length got mf ?d (m @ s) st" by simp
  also have "\<dots> = (if mf < length m then (Frame [], dropped_oversize st, s) else (Frame m, st, s))"
    using assms b by (auto simp: after_length_def Let_def m numeral_2_eq_2)
  finally show ?thesis .
qed

text \<open>One line, after some digits of it were read.\<close>

definition line_read :: "nat \<Rightarrow> string \<Rightarrow> frame_stats \<Rightarrow> string \<Rightarrow> frame \<times> frame_stats \<times> string \<Rightarrow> bool" where
  "line_read mf l st s res \<longleftrightarrow>
     length l \<le> mf + 78 \<and> (res = (Frame l, st, s) \<or> (l \<noteq> [] \<and> res = (Frame (l @ [LF]), st, s)))
     \<or> mf + 64 < length l \<and> res = (Frame [], dropped_oversize st, s)"

lemma tail_line:
  assumes "LF \<notin> set r" and "pre \<noteq> []" and "length pre \<le> 14"
  shows "line_read mf (pre @ r) st s (read_lf_tail got mf pre (r @ LF # s) st)"
  using assms by (auto simp: read_lf_tail_eq line_read_def Let_def)

lemma after_length_line:
  assumes "LF \<notin> set r" and "\<not> looks_counted (acc @ CHR '' '' # r)" and "acc_ok acc" and "acc \<noteq> []"
  shows "line_read mf (acc @ CHR '' '' # r) st s (after_length got mf acc (r @ LF # s) st)"
proof -
  have len: "length acc \<le> 10" and dig: "list_all is_digit acc" using assms(3) by (simp_all add: acc_ok_def max_len_digits_def)
  consider "r = []" | a where "r = [a]" | a b r' where "r = a # b # r'" by (metis neq_Nil_conv)
  then show ?thesis
  proof cases
    case 3
    have "takeWhile is_digit (acc @ CHR '' '' # r) = acc" "dropWhile is_digit (acc @ CHR '' '' # r) = CHR '' '' # r"
      using dig by (auto simp: takeWhile_append dropWhile_append list_all_iff)
    then have "\<not> (digits_value 0 acc \<ge> 3 \<and> a = CHR ''<'' \<and> is_digit b)"
      using assms(2) len 3 assms(4) by (auto simp: looks_counted_def starts_pri_def max_len_digits_def Let_def)
    then have "after_length got mf acc (r @ LF # s) st = read_lf_tail got mf (acc @ '' '' @ [a, b]) (r' @ LF # s) st"
      using assms(1) 3 by (auto simp: after_length_def Let_def numeral_2_eq_2)
    then show ?thesis using tail_line [of r' "acc @ '' '' @ [a, b]" mf st s got] assms(1) len 3 by simp
  qed (use assms len in \<open>auto simp: after_length_def Let_def numeral_2_eq_2 line_read_def\<close>)
qed

lemma read_plain:
  assumes "LF \<notin> set r" and "CHR 0x00 \<notin> set r" and "\<not> looks_counted (acc @ r)" and "acc_ok acc"
  shows "line_read mf (acc @ r) st s (read_frame got mf acc (r @ LF # s) st)"
  using assms
proof (induction r arbitrary: acc)
  case Nil
  then show ?case by (auto simp: line_read_def acc_ok_def max_len_digits_def)
next
  case (Cons c r)
  show ?case
  proof (cases "is_digit c \<and> length acc < max_len_digits \<and> \<not> (acc = [] \<and> c = CHR ''0'')")
    case True
    then have "acc_ok (acc @ [c])" using Cons.prems(4) by (auto simp: acc_ok_def hd_append)
    then show ?thesis using Cons.IH [of "acc @ [c]"] Cons.prems True by simp
  next
    case no: False
    show ?thesis
    proof (cases "c = CHR '' '' \<and> acc \<noteq> []")
      case True
      then show ?thesis using after_length_line [of r acc mf st s got] Cons.prems by simp
    next
      case False
      then have "read_frame got mf acc ((c # r) @ LF # s) st = read_lf_tail got mf (acc @ [c]) (r @ LF # s) st"
        using no Cons.prems(1,2) by auto
      moreover have "length (acc @ [c]) \<le> 14" using Cons.prems(4) by (simp add: acc_ok_def max_len_digits_def)
      ultimately show ?thesis using tail_line [of r "acc @ [c]" mf st s got] Cons.prems(1) by simp
    qed
  qed
qed

section \<open>A whole connection\<close>

definition trimmed :: "string list \<Rightarrow> string list" where
  "trimmed = map (rstrip_of [LF])"

lemma rstrip_LF [simp]: "rstrip_of [LF] (l @ [LF]) = rstrip_of [LF] l"
  by (simp add: rstrip_of_def)

text \<open>What reading one message does to the rest of the connection.\<close>

lemma read_message:
  assumes "message_ok mf m"
  shows "\<exists>f. read_frame got mf [] (wire m @ s) st = (Frame f, if too_long mf m then dropped_oversize st else st, s) \<and>
     trimmed (if f = [] then [] else [f]) = trimmed (delivered mf [m])"
proof (cases m)
  case (Counted c)
  then show ?thesis
    using read_counted [of mf c got s st] assms by (auto simp: delivered_def trimmed_def)
next
  case (Plain l)
  then have "line_read mf l st s (read_frame got mf [] (wire m @ s) st)"
    using read_plain [of l "[]" mf st s got] assms by (simp add: acc_ok_def)
  moreover have "length l \<le> mf + 64 \<or> mf + 78 < length l" using assms Plain by simp
  ultimately consider "length l \<le> mf + 64" "read_frame got mf [] (wire m @ s) st = (Frame l, st, s)"
    | "length l \<le> mf + 64" "l \<noteq> []" "read_frame got mf [] (wire m @ s) st = (Frame (l @ [LF]), st, s)"
    | "mf + 64 < length l" "read_frame got mf [] (wire m @ s) st = (Frame [], dropped_oversize st, s)"
    by (auto simp: line_read_def)
  then show ?thesis
  proof cases
    case 1
    then show ?thesis by (simp add: Plain delivered_def trimmed_def)
  next
    case 2
    then show ?thesis by (simp add: Plain delivered_def trimmed_def)
  next
    case 3
    then show ?thesis by (simp add: Plain delivered_def trimmed_def)
  qed
qed

lemma delivered_Cons: "delivered mf (m # ms) = delivered mf [m] @ delivered mf ms"
  by (simp add: delivered_def)

lemma conn_frames_messages:
  assumes "list_all (message_ok mf) ms"
  shows "trimmed (fst (conn_frames got mf (concat (map wire ms)) st)) = trimmed (delivered mf ms) \<and>
    snd (conn_frames got mf (concat (map wire ms)) st)
      = st\<lparr>fs_dropped_oversize := fs_dropped_oversize st + length (filter (too_long mf) ms)\<rparr>"
  using assms
proof (induction ms arbitrary: st)
  case Nil
  then show ?case by (simp add: conn_frames.simps delivered_def)
next
  case (Cons m ms)
  define st' where "st' = (if too_long mf m then dropped_oversize st else st)"
  obtain f where f: "read_frame got mf [] (wire m @ concat (map wire ms)) st = (Frame f, st', concat (map wire ms))"
    and t: "trimmed (if f = [] then [] else [f]) = trimmed (delivered mf [m])"
    using read_message [of mf m got "concat (map wire ms)" st] Cons.prems unfolding st'_def by auto
  obtain fs st2 where c: "conn_frames got mf (concat (map wire ms)) st' = (fs, st2)" by (metis surj_pair)
  have "conn_frames got mf (concat (map wire (m # ms))) st = ((if f = [] then [] else [f]) @ fs, st2)"
    by (simp add: conn_frames.simps [of got mf "wire m @ concat (map wire ms)"] f c)
  then show ?case
    using Cons.IH [of st'] Cons.prems t delivered_Cons [of mf m ms] c
    by (auto simp: trimmed_def st'_def dropped_oversize_def)
qed

text \<open>
  C23: framing round trip. Messages sent on one connection, each with an octet count or as a line, in any mix,
  come out in order and complete, up to trailing line feeds. A message over the size limit is dropped and
  counted, and the messages around it are unharmed.
\<close>

theorem frames_recovered:
  assumes "list_all (message_ok mf) ms"
  shows "map (rstrip_of [LF]) (fst (conn_frames got mf (concat (map wire ms)) no_stats))
           = map (rstrip_of [LF]) (delivered mf ms) \<and>
         snd (conn_frames got mf (concat (map wire ms)) no_stats)
           = \<lparr>fs_dropped_oversize = length (filter (too_long mf) ms), fs_truncated_frames = 0\<rparr>"
  using conn_frames_messages [OF assms, of got no_stats] by (simp add: trimmed_def no_stats_def)

theorem frames_recovered_witness:
  "map (rstrip_of [LF]) (fst (conn_frames (\<lambda>_. 3) 12
     (concat (map wire [Counted ''<34>login'', Plain ''2026 Oct 22 up'', Counted ''<1>0123456789'', Plain ''007''])) no_stats))
   = [''<34>login'', ''2026 Oct 22 up'', ''007'']"
proof -
  let ?ms = "[Counted ''<34>login'', Plain ''2026 Oct 22 up'', Counted ''<1>0123456789'', Plain ''007'']"
  have "list_all (message_ok 12) ?ms" by code_simp
  moreover have "map (rstrip_of [LF]) (delivered 12 ?ms) = [''<34>login'', ''2026 Oct 22 up'', ''007'']" by code_simp
  ultimately show ?thesis using frames_recovered [of 12 ?ms "\<lambda>_. 3"] by simp
qed

end
