(* ===== verification/Syslog_Laws.thy ===== *)
theory Syslog_Laws
  imports Syslog_Listener Syslog_Frame_Laws Spool_Laws
begin

text \<open>
  Laws of the listener over every interleaving of its receive loop, writer thread and shutdown: every line is
  in the spool, on its way or counted lost, in order; connection limits hold; and a tailing reader that polls
  often enough sees every line once.
\<close>

section \<open>Lines on their way\<close>

definition in_flight :: "listener \<Rightarrow> row list" where
  "in_flight li = (case ls_writer li of Writing _ b \<Rightarrow> b | _ \<Rightarrow> [])"

definition on_the_way :: "listener \<Rightarrow> row list" where
  "on_the_way li = in_flight li @ concat (ls_wq li) @ ls_pending li"

definition path_ok :: "listener \<Rightarrow> row list \<Rightarrow> row list \<Rightarrow> bool" where
  "path_ok li received written \<longleftrightarrow>
     subseq (written @ on_the_way li) received \<and>
     length received = length (written @ on_the_way li) + ls_lines_lost li \<and>
     ls_spooled li = length written \<and>
     ls_enq_rows li = ls_done_rows li + int (length (in_flight li) + length (concat (ls_wq li))) \<and>
     ls_done_rows li = int (ls_spooled li + ls_lines_lost li) \<and>
     (\<forall>stopping batch. ls_writer li = Writing stopping batch \<longrightarrow> batch \<noteq> [])"

lemma path_ok_new [simp]: "path_ok new_listener [] []"
  by (simp add: path_ok_def new_listener_def on_the_way_def in_flight_def)

lemma path_ok_receive:
  "path_ok li received written \<Longrightarrow>
     path_ok (li\<lparr>ls_pending := ls_pending li @ rows\<rparr>) (received @ rows) written"
  by (auto simp: path_ok_def on_the_way_def in_flight_def subseq_append_iff
      simp flip: append_assoc split: writer.splits)

text \<open>A line cut out of the path is still accounted for.\<close>

lemma subseq_take_mid: "subseq (a @ b) c \<Longrightarrow> subseq (a @ take n b) c"
  by (metis append_take_drop_id list_emb_append_mono subseq_order.order_refl subseq_order.order_trans
      list_emb_prefix append.assoc)

lemma path_ok_flush:
  assumes "path_ok li received written"
  shows "path_ok (flush cfg li) received written"
proof (cases "lc_spool cfg \<and> ls_pending li \<noteq> []")
  case True
  define room where "room = nat (max 0 (lc_queue_max cfg - ls_wq_rows li))"
  have "subseq (written @ in_flight li @ concat (ls_wq li) @ take room (ls_pending li)) received"
    using subseq_take_mid [of "written @ in_flight li @ concat (ls_wq li)" "ls_pending li" received room] assms
    by (simp add: path_ok_def on_the_way_def)
  then show ?thesis
    using assms True
    by (auto simp: path_ok_def on_the_way_def in_flight_def flush_def Let_def room_def [symmetric] split: writer.splits)
next
  case False
  then show ?thesis
    using assms by (auto simp: path_ok_def on_the_way_def in_flight_def flush_def Let_def split: writer.splits)
qed

lemma path_ok_ingest:
  assumes "path_ok li received written"
  shows "path_ok (ingest cfg now raw sender li) (received @ ingest_rows cfg now raw sender) written"
proof (cases "strip (ingest_line cfg raw) = []")
  case True
  then show ?thesis using assms by (simp add: ingest_def ingest_rows_def)
next
  case False
  let ?line = "ingest_line cfg raw"
  define li1 where "li1 = li\<lparr>ls_buffer := take_last (lc_capacity cfg) (ls_buffer li @ [(?line, sender)]),
    ls_total := ls_total li + 1, ls_received := ls_received li + 1\<rparr>"
  have p1: "path_ok li1 received written"
    using assms by (simp add: li1_def path_ok_def on_the_way_def in_flight_def)
  define li2 where "li2 = li1\<lparr>ls_pending := ls_pending li1 @ [(now, sender, ?line)]\<rparr>"
  have p2: "path_ok li2 (received @ [(now, sender, ?line)]) written"
    unfolding li2_def by (rule path_ok_receive [OF p1])
  have "ingest cfg now raw sender li =
      (if lc_spool cfg then if flush_batch \<le> length (ls_pending li2) then flush cfg li2 else li2 else li1)"
    using False by (simp add: ingest_def li1_def li2_def Let_def)
  then show ?thesis using False p1 p2 path_ok_flush [OF p2] by (simp add: ingest_rows_def)
qed

lemma path_ok_fold:
  "path_ok li received written \<Longrightarrow>
     path_ok (fold (\<lambda>part. ingest cfg now part sender) parts li)
       (received @ concat (map (\<lambda>part. ingest_rows cfg now part sender) parts)) written"
proof (induction parts arbitrary: li received)
  case (Cons part parts)
  then show ?case using Cons.IH [OF path_ok_ingest [OF Cons.prems, of cfg now part sender]] by simp
qed simp

lemma path_ok_datagram:
  "path_ok li received written \<Longrightarrow>
     path_ok (datagram cfg ip6 now data addr li) (received @ datagram_rows cfg ip6 now data addr) written"
  using path_ok_fold [of li received written cfg now "norm_ip ip6 addr" "datagram_parts data"]
  by (auto simp: datagram_def datagram_rows_def Let_def path_ok_def on_the_way_def in_flight_def)

lemma path_ok_same:
  "path_ok li received written \<Longrightarrow> ls_pending li' = ls_pending li \<Longrightarrow> ls_wq li' = ls_wq li \<Longrightarrow>
     ls_writer li' = ls_writer li \<Longrightarrow> ls_enq_rows li' = ls_enq_rows li \<Longrightarrow> ls_done_rows li' = ls_done_rows li \<Longrightarrow>
     ls_spooled li' = ls_spooled li \<Longrightarrow> ls_lines_lost li' = ls_lines_lost li \<Longrightarrow> path_ok li' received written"
  by (simp add: path_ok_def on_the_way_def in_flight_def)

lemma conn_open_same:
  "conn_open cfg ip6 sender li = (ok, li') \<Longrightarrow> path_ok li received written \<Longrightarrow> path_ok li' received written"
  by (auto simp: conn_open_def split: if_splits elim!: path_ok_same)

lemma grab_concat: "grab n batch parts = (b, rest) \<Longrightarrow> b @ concat rest = batch @ concat parts"
  by (induction n batch parts rule: grab.induct) (auto split: if_splits)

lemma path_ok_take:
  assumes "path_ok li received written" and "ls_writer li = Waiting"
  shows "path_ok (writer_take li) received written"
proof -
  obtain b rest where g: "grab write_batch [] (ls_wq li) = (b, rest)" by (metis surj_pair)
  have c: "concat (ls_wq li) = b @ concat rest" using grab_concat [OF g] by simp
  then show ?thesis
    using assms by (auto simp: writer_take_def g path_ok_def on_the_way_def in_flight_def)
qed

lemma path_ok_wrote:
  assumes "path_ok li received written" and "ls_writer li = Writing stopping batch"
  shows "path_ok (writer_wrote batch li) received (written @ batch)"
  using assms by (auto simp: writer_wrote_def path_ok_def on_the_way_def in_flight_def)

lemma subseq_drop_mid: "subseq (a @ b @ c) d \<Longrightarrow> subseq (a @ c) d"
  by (meson list_emb_append_mono list_emb_append2 subseq_order.order_refl subseq_order.order_trans)

lemma path_ok_abandon:
  assumes "path_ok li received written"
  shows "path_ok (abandon (length (concat (ls_wq li))) li) received written"
  using assms subseq_drop_mid [of "written @ in_flight li" "concat (ls_wq li)" "ls_pending li" received]
  by (auto simp: abandon_def path_ok_def on_the_way_def in_flight_def)

lemma path_ok_failed:
  assumes "path_ok li received written" and w: "ls_writer li = Writing stopping batch"
  shows "path_ok (writer_failed stopping batch li) received written"
proof -
  define li1 where "li1 = li\<lparr>ls_spool_errors := ls_spool_errors li + 1, ls_wq := batch # ls_wq li, ls_writer := Waiting\<rparr>"
  have p: "path_ok li1 received written"
    using assms by (auto simp: li1_def path_ok_def on_the_way_def in_flight_def)
  have "writer_failed stopping batch li =
      (if stopping then (abandon (length (concat (ls_wq li1))) li1)\<lparr>ls_writer := Ended\<rparr> else li1)"
    by (simp add: writer_failed_def li1_def abandon_def Let_def)
  moreover have "path_ok (x\<lparr>ls_writer := Ended\<rparr>) received written" if "path_ok x received written" "ls_writer x = Waiting" for x
    using that by (auto simp: path_ok_def on_the_way_def in_flight_def)
  moreover have "ls_writer (abandon n li1) = Waiting" for n by (simp add: abandon_def li1_def)
  ultimately show ?thesis using p path_ok_abandon [OF p] by simp
qed

lemma path_ok_stop: "path_ok li received written \<Longrightarrow> path_ok (writer_stop cfg li) received written"
  unfolding writer_stop_def by (rule path_ok_same [OF path_ok_flush [of li received written cfg]]) simp_all

lemma path_ok_close: "path_ok li received written \<Longrightarrow> path_ok (close_abandon li) received written"
  using path_ok_abandon [of li received written] by (simp add: close_abandon_def Let_def)

lemma path_ok_conn_close: "path_ok li received written \<Longrightarrow> path_ok (conn_close sender li) received written"
  by (auto simp: conn_close_def Let_def elim!: path_ok_same)

lemmas path_ok_steps = path_ok_datagram path_ok_ingest path_ok_flush path_ok_take path_ok_wrote path_ok_failed
  path_ok_stop path_ok_close path_ok_conn_close conn_open_same

section \<open>What the spool holds\<close>

definition spool_ok :: "listener_cfg \<Rightarrow> world \<Rightarrow> bool" where
  "spool_ok cfg w \<longleftrightarrow>
     path_ok (wd_listener w) (wd_received w) (wd_written w) \<and> spool_inv (snd (wd_db w)) \<and>
     (\<exists>k. map payload (spool_rows (lc_name cfg) (snd (wd_db w))) = drop k (wd_written w))"

definition fresh :: "listener_cfg \<Rightarrow> world \<Rightarrow> bool" where
  "fresh cfg w \<longleftrightarrow> wd_listener w = new_listener \<and> wd_received w = [] \<and> wd_written w = [] \<and> wd_open w = [] \<and>
     spool_inv (snd (wd_db w)) \<and> spool_rows (lc_name cfg) (snd (wd_db w)) = []"

lemma drop_append_suffix: "\<exists>k. take_last n (drop j xs @ ys) = drop k (xs @ ys)"
proof (cases "j \<le> length xs")
  case True
  then have "drop j xs @ ys = drop j (xs @ ys)" by simp
  then show ?thesis unfolding take_last_def by (metis drop_drop)
next
  case False
  then have "drop j xs @ ys = drop (length xs) (xs @ ys)" by simp
  then show ?thesis unfolding take_last_def by (metis drop_drop)
qed

lemma drop_append_drop: "\<exists>k. drop j xs @ ys = drop k (xs @ ys)"
  using drop_append_suffix [of "length (drop j xs @ ys)" j xs ys] by (simp add: take_last_def)

lemma spool_ok_wrote:
  assumes "spool_ok cfg w" and w: "ls_writer (wd_listener w) = Writing stopping batch"
    and db: "spool_append (lc_name cfg) batch (int (lc_capacity cfg)) (wd_db w) = (db, n)"
  shows "spool_ok cfg (w\<lparr>wd_listener := writer_wrote batch (wd_listener w), wd_db := db, wd_written := wd_written w @ batch\<rparr>)"
proof -
  obtain pc d where pd: "wd_db w = (pc, d)" by (cases "wd_db w")
  obtain pc' d' where pd': "db = (pc', d')" by (cases db)
  have p: "path_ok (wd_listener w) (wd_received w) (wd_written w)" and inv: "spool_inv d" using assms(1) pd by (auto simp: spool_ok_def)
  obtain k where k: "map payload (spool_rows (lc_name cfg) d) = drop k (wd_written w)" using assms(1) pd by (auto simp: spool_ok_def)
  have ne: "batch \<noteq> []" using p w by (auto simp: path_ok_def)
  note f = spool_append_facts [OF inv _ ne db [unfolded pd pd'], simplified]
  have "\<exists>k. map payload (spool_rows (lc_name cfg) d') = drop k (wd_written w @ batch)"
    using f(1) k drop_append_suffix [of "lc_capacity cfg" k "wd_written w" batch] drop_append_drop [of k "wd_written w" batch]
      inv f(3) by (auto simp: Let_def spool_inv_def spool_rows_of_source)
  then show ?thesis using path_ok_wrote [OF p w] f(3) by (simp add: spool_ok_def pd')
qed

lemma spool_ok_step: "listener_step cfg ip6 w w' \<Longrightarrow> spool_ok cfg w \<Longrightarrow> spool_ok cfg w'"
  by (induction rule: listener_step.induct)
     (simp add: spool_ok_wrote | simp add: spool_ok_def path_ok_steps | auto simp: spool_ok_def intro: path_ok_steps)+


definition demo_listener :: listener_cfg where
  "demo_listener = \<lparr>lc_name = ''lab'', lc_capacity = 100, lc_max_frame = 100, lc_max_connections = 2, lc_max_per_ip = 1,
     lc_queue_max = 1, lc_allow = [], lc_spool = True, lc_max_line = 0\<rparr>"

definition demo_world :: world where
  "demo_world = \<lparr>wd_listener = new_listener, wd_db = ([], empty_db), wd_received = [], wd_written = [], wd_open = []\<rparr>"

lemma demo_lines: "ingest_line demo_listener ''up'' = ''up''" "ingest_line demo_listener ''down'' = ''down''"
  "strip ''up'' = ''up''" "strip ''down'' = ''down''"
  by code_simp+

text \<open>Two messages with room for one in the queue, one write.\<close>

definition demo_queued :: listener where
  "demo_queued = flush demo_listener (ingest demo_listener 2 ''down'' ''r1'' (ingest demo_listener 1 ''up'' ''r1''
     (snd (conn_open demo_listener (\<lambda>_. None) ''r1'' new_listener))))"

lemma demo_cfg [simp]:
  "lc_spool demo_listener" "lc_capacity demo_listener = 100" "lc_queue_max demo_listener = 1"
  "lc_allow demo_listener = []" "lc_max_connections demo_listener = 2" "lc_max_per_ip demo_listener = 1"
  by (simp_all add: demo_listener_def)

lemma listener_demo_ingest:
  assumes "length (ls_pending li) < 10" and "raw = ''up'' \<or> raw = ''down''"
  shows "ingest demo_listener t raw s li =
    li\<lparr>ls_buffer := take_last 100 (ls_buffer li @ [(raw, s)]), ls_total := ls_total li + 1,
       ls_received := ls_received li + 1, ls_pending := ls_pending li @ [(t, s, raw)]\<rparr>"
proof -
  have "strip (ingest_line demo_listener raw) \<noteq> []" "ingest_line demo_listener raw = raw"
    using assms(2) by (auto simp: demo_lines)
  then show ?thesis using assms(1) by (simp add: ingest_def flush_batch_def)
qed

lemma demo_queued_facts:
  "ls_writer demo_queued = Waiting" "ls_wq demo_queued = [[(1, ''r1'', ''up'')]]" "ls_lines_lost demo_queued = 1"
  "\<not> ls_writer_stop demo_queued"
proof -
  define li where "li = snd (conn_open demo_listener (\<lambda>_. None) ''r1'' new_listener)"
  have li: "ls_pending li = []" "ls_wq li = []" "ls_wq_rows li = 0" "ls_lines_lost li = 0" "ls_writer li = Waiting"
    "\<not> ls_writer_stop li"
    by (simp_all add: li_def conn_open_def allowed_def new_listener_def dict_get_def)
  show "ls_writer demo_queued = Waiting" "ls_wq demo_queued = [[(1, ''r1'', ''up'')]]" "ls_lines_lost demo_queued = 1"
    "\<not> ls_writer_stop demo_queued"
    unfolding demo_queued_def li_def [symmetric] by (simp_all add: listener_demo_ingest li flush_def)
qed


section \<open>Connections\<close>

definition conns_ok :: "listener_cfg \<Rightarrow> ip6 \<Rightarrow> world \<Rightarrow> bool" where
  "conns_ok cfg ip6 w \<longleftrightarrow>
     ls_active (wd_listener w) = int (length (wd_open w)) \<and>
     (\<forall>s. dict_get (ls_by_ip (wd_listener w)) s 0 = int (count_list (wd_open w) s)) \<and>
     int (length (wd_open w)) \<le> max 0 (lc_max_connections cfg) \<and>
     (lc_max_per_ip cfg > 0 \<longrightarrow> (\<forall>s. int (count_list (wd_open w) s) \<le> lc_max_per_ip cfg)) \<and>
     list_all (allowed ip6 (lc_allow cfg)) (wd_open w)"

lemma flush_conns [simp]:
  "ls_active (flush cfg li) = ls_active li" "ls_by_ip (flush cfg li) = ls_by_ip li"
  by (simp_all add: flush_def Let_def)

lemma ingest_conns [simp]:
  "ls_active (ingest cfg now raw s li) = ls_active li" "ls_by_ip (ingest cfg now raw s li) = ls_by_ip li"
  by (simp_all add: ingest_def Let_def)

lemma fold_ingest_conns [simp]:
  "ls_active (fold (\<lambda>part. ingest cfg now part s) parts li) = ls_active li"
  "ls_by_ip (fold (\<lambda>part. ingest cfg now part s) parts li) = ls_by_ip li"
  by (induction parts arbitrary: li) simp_all

lemma datagram_conns [simp]:
  "ls_active (datagram cfg ip6 now data addr li) = ls_active li"
  "ls_by_ip (datagram cfg ip6 now data addr li) = ls_by_ip li"
  by (simp_all add: datagram_def Let_def)

lemma writer_conns [simp]:
  "ls_active (writer_take li) = ls_active li" "ls_by_ip (writer_take li) = ls_by_ip li"
  "ls_active (writer_wrote b li) = ls_active li" "ls_by_ip (writer_wrote b li) = ls_by_ip li"
  "ls_active (writer_failed st b li) = ls_active li" "ls_by_ip (writer_failed st b li) = ls_by_ip li"
  "ls_active (writer_stop cfg li) = ls_active li" "ls_by_ip (writer_stop cfg li) = ls_by_ip li"
  "ls_active (close_abandon li) = ls_active li" "ls_by_ip (close_abandon li) = ls_by_ip li"
  by (simp_all add: writer_take_def writer_wrote_def writer_failed_def writer_stop_def close_abandon_def abandon_def
      Let_def split: prod.split)

lemma dict_get_delete [simp]: "dict_get (AList.delete k d) k' x = (if k' = k then x else dict_get d k' x)"
  by (simp add: dict_get_def delete_conv')

lemma count_remove1 [simp]: "count_list (remove1 x xs) y = count_list xs y - (if x = y then 1 else 0)"
  by (induction xs) auto

lemma count_pos: "x \<in> set xs \<Longrightarrow> 0 < count_list xs x"
  by (induction xs) auto

lemma conns_ok_open:
  assumes "conn_open cfg ip6 sender (wd_listener w) = (True, li)" and "conns_ok cfg ip6 w"
  shows "conns_ok cfg ip6 (w\<lparr>wd_listener := li, wd_open := sender # wd_open w\<rparr>)"
  using assms by (auto simp: conn_open_def conns_ok_def split: if_splits)

lemma conns_ok_close:
  assumes "sender \<in> set (wd_open w)" and "conns_ok cfg ip6 w"
  shows "conns_ok cfg ip6 (w\<lparr>wd_listener := conn_close sender (wd_listener w), wd_open := remove1 sender (wd_open w)\<rparr>)"
proof -
  have c: "0 < count_list (wd_open w) sender" by (rule count_pos [OF assms(1)])
  have l: "0 < length (wd_open w)" using assms(1) by (cases "wd_open w") auto
  have a: "list_all P (remove1 x xs)" if "list_all P xs" for P :: "string \<Rightarrow> bool" and x xs
    using that set_remove1_subset [of x xs] by (auto simp: list_all_iff)
  have "int (length (wd_open w) - Suc 0) = int (length (wd_open w)) - 1" using l by (cases "wd_open w") simp_all
  moreover have "int (count_list (wd_open w) s - n) \<le> m" if "int (count_list (wd_open w) s) \<le> m" for s n m using that by simp
  moreover have "int n - 1 \<le> m" if "int n \<le> m" for n m using that by simp
  ultimately show ?thesis
    using assms c
    by (auto simp: conns_ok_def conn_close_def Let_def length_remove1 of_nat_diff a)
qed

lemma conns_ok_step: "listener_step cfg ip6 w w' \<Longrightarrow> conns_ok cfg ip6 w \<Longrightarrow> conns_ok cfg ip6 w'"
proof (induction rule: listener_step.induct)
  case (opened sender w li)
  then show ?case by (intro conns_ok_open)
next
  case (closed sender w)
  then show ?case by (intro conns_ok_close)
next
  case (refused sender w li)
  then show ?case by (auto simp: conn_open_def conns_ok_def split: if_splits)
qed (simp_all add: conns_ok_def)

text \<open>
  Connection limits. In every reachable state the open connections are at most \<open>max_connections\<close>, at
  most \<open>max_connections_per_ip\<close> of them (when set) have the same sender, every sender passed the allow-list,
  and the listener's counters equal the connections that are open.
\<close>

theorem connection_limits:
  assumes "fresh cfg w0" and "(listener_step cfg ip6)\<^sup>*\<^sup>* w0 w"
  shows "int (length (wd_open w)) \<le> max 0 (lc_max_connections cfg) \<and>
    (lc_max_per_ip cfg > 0 \<longrightarrow> (\<forall>s. int (count_list (wd_open w) s) \<le> lc_max_per_ip cfg)) \<and>
    list_all (allowed ip6 (lc_allow cfg)) (wd_open w) \<and>
    ls_active (wd_listener w) = int (length (wd_open w)) \<and>
    (\<forall>s. dict_get (ls_by_ip (wd_listener w)) s 0 = int (count_list (wd_open w) s))"
proof -
  have "conns_ok cfg ip6 w0"
    using assms(1) by (auto simp: conns_ok_def fresh_def new_listener_def dict_get_def)
  with assms(2) have "conns_ok cfg ip6 w" by (induction rule: rtranclp_induct) (auto intro: conns_ok_step)
  then show ?thesis by (simp add: conns_ok_def)
qed

theorem connection_limits_witness:
  "\<exists>w. (listener_step demo_listener (\<lambda>_. None))\<^sup>*\<^sup>* demo_world w \<and> wd_open w = [''r1''] \<and>
     ls_active (wd_listener w) = 1 \<and> \<not> fst (conn_open demo_listener (\<lambda>_. None) ''r1'' (wd_listener w))"
proof -
  let ?li = "snd (conn_open demo_listener (\<lambda>_. None) ''r1'' new_listener)"
  let ?w = "demo_world\<lparr>wd_listener := ?li, wd_open := [''r1'']\<rparr>"
  have "fst (conn_open demo_listener (\<lambda>_. None) ''r1'' new_listener)"
    by (simp add: conn_open_def demo_listener_def allowed_def new_listener_def dict_get_def)
  then have "listener_step demo_listener (\<lambda>_. None) demo_world ?w"
    using listener_step.opened [of demo_listener "\<lambda>_. None" "''r1''" demo_world]
    by (simp add: demo_world_def prod_eq_iff)
  then have r: "(listener_step demo_listener (\<lambda>_. None))\<^sup>*\<^sup>* demo_world ?w" by simp
  have f: "fresh demo_listener demo_world" by (simp add: fresh_def demo_world_def spool_inv_empty spool_rows_def)
  note c = connection_limits [OF f r]
  have "\<not> fst (conn_open demo_listener (\<lambda>_. None) ''r1'' ?li)"
    using c by (simp add: conn_open_def demo_listener_def allowed_def)
  then show ?thesis using r c by (intro exI [of _ ?w]) simp
qed

section \<open>Tailing\<close>

definition item_of :: "listener_cfg \<Rightarrow> instant \<times> string \<times> string \<Rightarrow> (string \<times> string) list" where
  "item_of cfg = (\<lambda>(now, raw, sender).
     (let line = ingest_line cfg raw in if strip line = [] then [] else [(line, sender)]))"

definition ingest_all :: "listener_cfg \<Rightarrow> (instant \<times> string \<times> string) list \<Rightarrow> listener \<Rightarrow> listener" where
  "ingest_all cfg ms li = fold (\<lambda>(now, raw, sender). ingest cfg now raw sender) ms li"

text \<open>A reader that polls after each burst, from the cursor the last poll gave it.\<close>

fun tail_run :: "listener_cfg \<Rightarrow> nat \<Rightarrow> (instant \<times> string \<times> string) list list \<Rightarrow> listener \<Rightarrow> (string \<times> string) list" where
  "tail_run cfg cursor [] li = []"
| "tail_run cfg cursor (burst # bursts) li =
     (let li = ingest_all cfg burst li; (items, cursor) = memory_new cursor 0 li
      in items @ tail_run cfg cursor bursts li)"

definition buffer_ok :: "listener_cfg \<Rightarrow> listener \<Rightarrow> (string \<times> string) list \<Rightarrow> bool" where
  "buffer_ok cfg li items \<longleftrightarrow> ls_buffer li = take_last (lc_capacity cfg) items \<and> ls_total li = length items"

lemma flush_buffer [simp]: "ls_buffer (flush cfg li) = ls_buffer li" "ls_total (flush cfg li) = ls_total li"
  by (simp_all add: flush_def Let_def)

lemma take_last_twice: "take_last n (take_last n xs @ [x]) = take_last n (xs @ [x])"
  by (cases "n \<le> length xs") (auto simp: take_last_def Suc_diff_le)

lemma buffer_ok_ingest:
  "buffer_ok cfg li items \<Longrightarrow> buffer_ok cfg (ingest cfg now raw sender li) (items @ item_of cfg (now, raw, sender))"
  by (auto simp: buffer_ok_def ingest_def item_of_def Let_def take_last_twice)

lemma buffer_ok_all:
  "buffer_ok cfg li items \<Longrightarrow> buffer_ok cfg (ingest_all cfg ms li) (items @ concat (map (item_of cfg) ms))"
proof (induction ms arbitrary: li items)
  case (Cons m ms)
  obtain now raw sender where m: "m = (now, raw, sender)" by (cases m)
  show ?case
    using Cons.IH [OF buffer_ok_ingest [OF Cons.prems, of now raw sender]] by (simp add: ingest_all_def m)
qed (simp add: ingest_all_def)

lemma memory_new_items:
  assumes "buffer_ok cfg li (old @ new)" and "length new \<le> lc_capacity cfg"
  shows "memory_new (length old) 0 li = (new, length (old @ new))"
  using assms by (auto simp: memory_new_def buffer_ok_def take_last_def Let_def min_def)

text \<open>
  Tailing without a spool. A reader that polls before more than \<open>buffer_size\<close> new lines have come sees
  every line exactly once and in order, whatever came before it started.
\<close>

theorem tail_sees_each_line_once:
  assumes "buffer_ok cfg li items" and "\<forall>burst\<in>set bursts. length (concat (map (item_of cfg) burst)) \<le> lc_capacity cfg"
  shows "tail_run cfg (ls_total li) bursts li = concat (map (item_of cfg) (concat bursts))"
  using assms
proof (induction bursts arbitrary: li items)
  case (Cons burst bursts)
  let ?new = "concat (map (item_of cfg) burst)"
  have b: "buffer_ok cfg (ingest_all cfg burst li) (items @ ?new)" by (rule buffer_ok_all [OF Cons.prems(1)])
  have "ls_total li = length items" using Cons.prems(1) by (simp add: buffer_ok_def)
  then have m: "memory_new (ls_total li) 0 (ingest_all cfg burst li) = (?new, length (items @ ?new))"
    using memory_new_items [OF b] Cons.prems(2) by simp
  have "length (items @ ?new) = ls_total (ingest_all cfg burst li)" using b by (simp add: buffer_ok_def)
  then show ?case using Cons.IH [OF b] Cons.prems(2) m by (simp add: Let_def)
qed simp

theorem tail_sees_each_line_once_witness:
  "tail_run demo_listener 0 [[(1, ''up'', ''r1'')], [], [(2, ''down'', ''r2''), (3, ''up'', ''r1'')]] new_listener
     = [(''up'', ''r1''), (''down'', ''r2''), (''up'', ''r1'')]"
proof -
  have b: "buffer_ok demo_listener new_listener []" by (simp add: buffer_ok_def new_listener_def take_last_def)
  have t: "ls_total new_listener = 0" by (simp add: new_listener_def)
  have i: "item_of demo_listener (n, ''up'', s) = [(''up'', s)]" "item_of demo_listener (n, ''down'', s) = [(''down'', s)]" for n s
    by (simp_all add: item_of_def demo_lines)
  show ?thesis
    using tail_sees_each_line_once [OF b, of "[[(1, ''up'', ''r1'')], [], [(2, ''down'', ''r2''), (3, ''up'', ''r1'')]]"]
    by (simp add: t i)
qed

end
