(* ===== verification/Vault.thy ===== *)
theory Vault
  imports Regex Ip_Address
begin

text \<open>
  The reversible entity vault (\<open>sanitize_vault.py\<close>): identifiers in a prompt become indexed tokens, the
  model's answer is mapped back. The forward table is an association list in the order of its
  \<open>OrderedDict\<close>, least recently used first. \<open>now\<close> is the clock, read once per call of \<open>tokenize\<close>; IPv6
  literals (\<open>ip6\<close>) and the public-address tokens of the sanitizer (\<open>pub\<close>) are arguments.
\<close>

type_synonym vault_key = "string \<times> string"

record vault =
  va_max :: nat
  va_ttl :: "rat option"
  va_forward :: "(vault_key \<times> string \<times> string \<times> rat) list"
  va_reverse :: "(string \<times> string) list"
  va_counters :: "(string \<times> nat) list"

definition new_vault :: "int \<Rightarrow> rat option \<Rightarrow> vault" where
  "new_vault max_entries ttl =
     \<lparr>va_max = nat (max 1 max_entries), va_ttl = ttl, va_forward = [], va_reverse = [], va_counters = []\<rparr>"

definition clear :: "vault \<Rightarrow> vault" where
  "clear v = v\<lparr>va_forward := [], va_reverse := []\<rparr>"

section \<open>The token table\<close>

definition evict_oldest :: "vault \<Rightarrow> vault" where
  "evict_oldest v =
     (case va_forward v of
        [] \<Rightarrow> v
      | (_, token, _) # rest \<Rightarrow> v\<lparr>va_forward := rest, va_reverse := AList.delete token (va_reverse v)\<rparr>)"

function evict_excess :: "vault \<Rightarrow> vault" where
  "evict_excess v = (if va_max v < length (va_forward v) then evict_excess (evict_oldest v) else v)"
  by pat_completeness auto
termination
  by (relation "measure (\<lambda>v. length (va_forward v))") (auto simp: evict_oldest_def split: list.splits)

declare evict_excess.simps [simp del]

function expire_before :: "rat \<Rightarrow> vault \<Rightarrow> vault" where
  "expire_before cutoff v =
     (case va_forward v of
        [] \<Rightarrow> v
      | (_, _, _, seen) # _ \<Rightarrow> if seen \<ge> cutoff then v else expire_before cutoff (evict_oldest v))"
  by pat_completeness auto
termination
  by (relation "measure (\<lambda>(_, v). length (va_forward v))") (auto simp: evict_oldest_def)

declare expire_before.simps [simp del]

definition expire :: "rat \<Rightarrow> vault \<Rightarrow> vault" where
  "expire now v =
     (case va_ttl v of None \<Rightarrow> v | Some ttl \<Rightarrow> if ttl = 0 then v else expire_before (now - ttl) v)"

definition token_text :: "string \<Rightarrow> nat \<Rightarrow> string" where
  "token_text kind n = ''<'' @ kind @ ''_'' @ show_nat n @ ''>''"

definition token_for :: "rat \<Rightarrow> string \<Rightarrow> string \<Rightarrow> string \<Rightarrow> vault \<Rightarrow> string \<times> vault" where
  "token_for now kind key display v =
     (case map_of (va_forward v) (kind, key) of
        Some (token, shown, _) \<Rightarrow>
          (token, v\<lparr>va_forward := filter (\<lambda>e. fst e \<noteq> (kind, key)) (va_forward v) @ [((kind, key), token, shown, now)]\<rparr>)
      | None \<Rightarrow>
          (let n = dict_get (va_counters v) kind 0 + 1; token = token_text kind n
           in (token, evict_excess
                 (v\<lparr>va_counters := AList.update kind n (va_counters v),
                    va_forward := va_forward v @ [((kind, key), token, display, now)],
                    va_reverse := AList.update token display (va_reverse v)\<rparr>))))"

definition mapping_of :: "vault \<Rightarrow> (string \<times> string) list" where
  "mapping_of v = fold (\<lambda>(_, token, display, _). AList.update display token) (va_forward v) []"

section \<open>Patterns\<close>

abbreviation hex4 :: rx where "hex4 \<equiv> Seq hexc (upto_reps 3 hexc)"
definition hex2 :: rx where "hex2 = Seq hexc hexc"
definition colon :: rx where "colon = lit '':''"

definition mac_colon_re :: rx where
  "mac_colon_re = seqs [Bos, hex2, reps 5 (Seq colon hex2), Eol]"

definition rep_range :: "nat \<Rightarrow> nat \<Rightarrow> rx \<Rightarrow> rx" where
  "rep_range lo hi a = (if lo = 0 then upto_reps hi a else Seq (reps lo a) (upto_reps (hi - lo) a))"

definition plen_rx :: "nat \<Rightarrow> rx" where "plen_rx n = opt (Grp 2 (Seq (lit ''/'') (rep_range 1 n digit)))"

definition ipv6_re :: rx where
  "ipv6_re =
     (let hc = Seq hex4 colon; ch = Seq colon hex4
      in seqs [Not_Behind (\<lambda>c. c = CHR '':'' \<or> word_char c \<or> c = CHR ''<''),
               Grp 1 (alts [Seq (reps 6 hc) hex4, Seq (rep_range 1 7 hc) colon, Seq colon (rep_range 1 7 ch),
                            seqs [rep_range 1 6 hc, colon, hex4], Seq (rep_range 2 7 hc) hex4]),
               plen_rx 3, Not_Ahead (Cls (\<lambda>c. c = CHR '':'' \<or> word_char c))])"

definition ipv4_re :: rx where
  "ipv4_re =
     seqs [Wordb, Grp 1 (alts [seqs [reps 3 (Seq (rep_range 1 3 digit) (lit ''.'')), rep_range 1 3 digit],
                               seqs [lit ''PUB-'', reps 8 (Cls (\<lambda>c. is_digit c \<or> c \<in> set ''abcdef''))]]),
           plen_rx 2, Wordb]"

definition mac_re :: rx where
  "mac_re = alts [seqs [Wordb, reps 5 (Seq hex2 (any_of '':-'')), hex2, Wordb],
                  seqs [Wordb, reps 2 (Seq (reps 4 hexc) (lit ''.'')), reps 4 hexc, Wordb]]"

definition asn_digits :: rx where "asn_digits = Grp 1 (rep_range 1 10 digit)"

definition asn_res :: "rx list" where
  "asn_res =
     [seqs [Wordb, lit ''AS'', opt (lit '' ''), asn_digits, Wordb],
      seqs [Wordb, alts (map ilit [''remote'', ''peer'', ''local'', ''neighbor'']), any_of ''- '', ilit ''as'', plus1 space,
            asn_digits, Wordb],
      seqs [Wordb, alts [seqs [ilit ''router'', plus1 space, ilit ''bgp''], ilit ''autonomous-system''], plus1 space,
            asn_digits, Wordb]]"

definition token_kinds :: "string list" where
  "token_kinds = [''IP6'', ''IP'', ''MAC'', ''ASN'', ''HOST'']"

definition token_re :: rx where
  "token_re = seqs [lit ''<'', alts (map lit token_kinds), lit ''_'', plus1 digit, lit ''>'']"

section \<open>Tokenizing\<close>

text \<open>\<open>re.sub\<close> with a replacement that uses and updates the vault.\<close>

function sub_with :: "rx \<Rightarrow> (string \<Rightarrow> caps \<Rightarrow> vault \<Rightarrow> string \<times> vault) \<Rightarrow> string \<Rightarrow> string \<Rightarrow> vault \<Rightarrow> string \<times> vault" where
  "sub_with a f l [] v = ([], v)"
| "sub_with a f l (c # cs) v =
     (case rx_first a (l, c # cs, []) of
        Some (l', r', g) \<Rightarrow>
          (if length r' < length (c # cs)
           then (let (new, v) = f (take (length (c # cs) - length r') (c # cs)) g v; (rest, v) = sub_with a f l' r' v
                 in (new @ rest, v))
           else (let (rest, v) = sub_with a f (c # l) cs v in (c # rest, v)))
      | None \<Rightarrow> (let (rest, v) = sub_with a f (c # l) cs v in (c # rest, v)))"
  by pat_completeness auto
termination
  by (relation "measure (\<lambda>(_, _, _, r, _). length r)") auto

definition repl_ipv6 :: "ip6 \<Rightarrow> rat \<Rightarrow> string \<Rightarrow> caps \<Rightarrow> vault \<Rightarrow> string \<times> vault" where
  "repl_ipv6 ip6 now whole g v =
     (let addr = group_of g 1
      in if rx_fullmatch mac_colon_re addr \<noteq> None then (whole, v)
         else case ip6 addr of
                None \<Rightarrow> (whole, v)
              | Some (key, _) \<Rightarrow> (case token_for now ''IP6'' key addr v of (t, v) \<Rightarrow> (t @ group_of g 2, v)))"

definition repl_ipv4 :: "(string \<Rightarrow> string option) \<Rightarrow> rat \<Rightarrow> string \<Rightarrow> caps \<Rightarrow> vault \<Rightarrow> string \<times> vault" where
  "repl_ipv4 pub now whole g v =
     (let addr = group_of g 1;
          entity = (if starts_with ''PUB-'' addr
                    then (let a = (case pub addr of Some x \<Rightarrow> if x = [] then addr else x | None \<Rightarrow> addr) in Some (a, a))
                    else map_option (\<lambda>w. (show_v4 w, addr)) (parse_v4 addr))
      in case entity of
           None \<Rightarrow> (whole, v)
         | Some (key, addr) \<Rightarrow> (case token_for now ''IP'' key addr v of (t, v) \<Rightarrow> (t @ group_of g 2, v)))"

definition repl_mac :: "rat \<Rightarrow> string \<Rightarrow> caps \<Rightarrow> vault \<Rightarrow> string \<times> vault" where
  "repl_mac now whole g v =
     token_for now ''MAC'' (filter (\<lambda>c. is_digit c \<or> c \<in> set ''abcdef'') (lower whole)) whole v"

text \<open>The digits are the end of the match in all three patterns.\<close>

definition repl_asn :: "rat \<Rightarrow> string \<Rightarrow> caps \<Rightarrow> vault \<Rightarrow> string \<times> vault" where
  "repl_asn now whole g v =
     (let asn = group_of g 1; (t, v) = token_for now ''ASN'' (show_nat (digits_value 0 asn)) asn v
      in (take (length whole - length asn) whole @ t, v))"

definition tokenize_hosts :: "rat \<Rightarrow> string list \<Rightarrow> string \<Rightarrow> vault \<Rightarrow> string \<times> vault" where
  "tokenize_hosts now hosts txt v =
     (let names = rev (sort_key length (rev (dedup (map strip (filter (\<lambda>h. length (strip h) \<ge> 2) hosts)))));
          name_char = (\<lambda>c. word_char c \<or> c = CHR ''-'');
          pattern = seqs [Not_Behind name_char, alts (map ilit names), Not_Ahead (Cls name_char)];
          canonical = rev (map (\<lambda>n. (lower n, n)) names)
      in if names = [] then (txt, v)
         else sub_with pattern
                (\<lambda>raw _. token_for now ''HOST'' (lower raw) (dict_get canonical (lower raw) raw)) [] txt v)"

definition tokenize ::
  "ip6 \<Rightarrow> (string \<Rightarrow> string option) \<Rightarrow> rat \<Rightarrow> string list \<Rightarrow> string \<Rightarrow> vault \<Rightarrow> string \<times> vault" where
  "tokenize ip6 pub now hosts txt v =
     (if txt = [] then (txt, v)
      else let (out, v) = tokenize_hosts now hosts txt (expire now v);
               (out, v) = sub_with ipv6_re (repl_ipv6 ip6 now) [] out v;
               (out, v) = sub_with ipv4_re (repl_ipv4 pub now) [] out v;
               (out, v) = sub_with mac_re (repl_mac now) [] out v
           in fold (\<lambda>pattern (out, v). sub_with pattern (repl_asn now) [] out v) asn_res (out, v))"

definition detokenize :: "vault \<Rightarrow> string \<Rightarrow> string" where
  "detokenize v txt =
     (if txt = [] then txt else rx_sub token_re (\<lambda>whole _. dict_get (va_reverse v) whole whole) txt)"

end
