(* ===== verification/Vault_Laws.thy ===== *)
theory Vault_Laws
  imports Vault
begin

text \<open>
  Laws of the vault: its two tables stay inverse to each other and bounded, a token never comes to mean
  another entity, and a text that quotes tokens is mapped back exactly.
\<close>

section \<open>Tokens\<close>

lemma kinds_no_underscore: "k \<in> set token_kinds \<Longrightarrow> CHR ''_'' \<notin> set k"
  by (auto simp: token_kinds_def)

lemma show_nat_inj: "show_nat m = show_nat n \<Longrightarrow> m = n"
  by (metis digits_value_show)

lemma split_at_char: "x \<notin> set a \<Longrightarrow> x \<notin> set b \<Longrightarrow> a @ x # s = b @ x # t \<longleftrightarrow> a = b \<and> s = t"
proof (induction a arbitrary: b)
  case (Cons y a)
  then show ?case by (cases b) auto
next
  case Nil
  then show ?case by (cases b) auto
qed

lemma token_text_inj:
  "k \<in> set token_kinds \<Longrightarrow> k' \<in> set token_kinds \<Longrightarrow> token_text k m = token_text k' n \<longleftrightarrow> k = k' \<and> m = n"
  using split_at_char [OF kinds_no_underscore kinds_no_underscore, of k k' "show_nat m @ ''>''" "show_nat n @ ''>''"]
  by (auto simp: token_text_def dest: show_nat_inj)

section \<open>Well-formed vaults\<close>

definition entry_ok :: "vault \<Rightarrow> vault_key \<times> string \<times> string \<times> rat \<Rightarrow> bool" where
  "entry_ok v e \<longleftrightarrow>
     (case e of ((kind, _), token, _) \<Rightarrow>
        kind \<in> set token_kinds \<and> (\<exists>n. 0 < n \<and> n \<le> dict_get (va_counters v) kind 0 \<and> token = token_text kind n))"

definition tokens :: "vault \<Rightarrow> string list" where
  "tokens v = map (fst \<circ> snd) (va_forward v)"

definition vault_ok :: "vault \<Rightarrow> bool" where
  "vault_ok v \<longleftrightarrow>
     0 < va_max v \<and> length (va_forward v) \<le> va_max v \<and> distinct (map fst (va_forward v)) \<and> distinct (tokens v) \<and>
     (\<forall>e\<in>set (va_forward v). entry_ok v e) \<and>
     map_of (va_reverse v) = map_of (map (\<lambda>(_, token, display, _). (token, display)) (va_forward v))"

lemma vault_ok_new [simp]: "vault_ok (new_vault m ttl)"
  by (simp add: vault_ok_def new_vault_def tokens_def)

lemma vault_ok_clear: "vault_ok v \<Longrightarrow> vault_ok (clear v)"
  by (simp add: vault_ok_def clear_def tokens_def)

lemma reverse_iff:
  assumes "vault_ok v"
  shows "map_of (va_reverse v) token = Some display \<longleftrightarrow> (\<exists>key seen. (key, token, display, seen) \<in> set (va_forward v))"
proof -
  let ?ps = "map (\<lambda>(_ :: vault_key, token :: string, display :: string, _ :: rat). (token, display)) (va_forward v)"
  have "distinct (map fst ?ps)" using assms by (simp add: vault_ok_def tokens_def comp_def case_prod_beta)
  then have "map_of ?ps token = Some display \<longleftrightarrow> (token, display) \<in> set ?ps" by (rule map_of_eq_Some_iff)
  also have "\<dots> \<longleftrightarrow> (\<exists>key seen. (key, token, display, seen) \<in> set (va_forward v))" by force
  finally show ?thesis using assms by (simp add: vault_ok_def)
qed

text \<open>Dropping a prefix of the table: what eviction and expiry do.\<close>

definition dropped :: "nat \<Rightarrow> vault \<Rightarrow> vault \<Rightarrow> bool" where
  "dropped n v v' \<longleftrightarrow> va_forward v' = drop n (va_forward v) \<and> va_counters v' = va_counters v \<and> va_max v' = va_max v"

lemma map_of_delete_first:
  "t \<notin> fst ` set ps \<Longrightarrow> (map_of ((t, d) # ps))(t := None) = map_of ps"
  by (auto simp: fun_eq_iff map_of_eq_None_iff [symmetric])

text \<open>The invariant without the bound on the size, which eviction restores.\<close>

definition table_ok :: "vault \<Rightarrow> bool" where
  "table_ok v \<longleftrightarrow>
     0 < va_max v \<and> distinct (map fst (va_forward v)) \<and> distinct (tokens v) \<and> (\<forall>e\<in>set (va_forward v). entry_ok v e) \<and>
     map_of (va_reverse v) = map_of (map (\<lambda>(_, token, display, _). (token, display)) (va_forward v))"

lemma vault_ok_table: "vault_ok v \<longleftrightarrow> table_ok v \<and> length (va_forward v) \<le> va_max v"
  by (auto simp: vault_ok_def table_ok_def)

lemma evict_oldest_ok:
  assumes "table_ok v"
  shows "table_ok (evict_oldest v)" and "dropped 1 v (evict_oldest v)"
proof -
  show "dropped 1 v (evict_oldest v)"
    by (auto simp: evict_oldest_def dropped_def split: list.splits)
  show "table_ok (evict_oldest v)"
  proof (cases "va_forward v")
    case (Cons e rest)
    obtain k t d s where e: "e = (k, t, d, s)" by (cases e)
    have "t \<notin> fst ` set (map (\<lambda>(_, token, display, _). (token, display)) rest)"
      using assms by (force simp: table_ok_def tokens_def Cons e)
    moreover have "map_of (va_reverse v) = map_of ((t, d) # map (\<lambda>(_, token, display, _). (token, display)) rest)"
      using assms by (simp add: table_ok_def Cons e)
    ultimately have "map_of (AList.delete t (va_reverse v)) = map_of (map (\<lambda>(_, token, display, _). (token, display)) rest)"
      using map_of_delete_first by (simp only: delete_conv')
    then show ?thesis
      using assms by (auto simp: table_ok_def evict_oldest_def Cons e tokens_def entry_ok_def)
  qed (use assms in \<open>simp add: evict_oldest_def\<close>)
qed

lemma dropped_trans: "dropped m u v \<Longrightarrow> dropped n v w \<Longrightarrow> dropped (m + n) u w"
  by (simp add: dropped_def add.commute)

lemma evict_excess_ok:
  assumes "table_ok v"
  shows "vault_ok (evict_excess v) \<and> dropped (length (va_forward v) - va_max v) v (evict_excess v)"
  using assms
proof (induction v rule: evict_excess.induct)
  case (1 v)
  note o = evict_oldest_ok [OF 1(2)]
  show ?case
  proof (cases "va_max v < length (va_forward v)")
    case True
    have "dropped (length (va_forward (evict_oldest v)) - va_max v) (evict_oldest v) (evict_excess (evict_oldest v))"
      and "vault_ok (evict_excess (evict_oldest v))"
      using 1(1) [OF True o(1)] o(2) by (simp_all add: dropped_def)
    moreover have "1 + (length (va_forward (evict_oldest v)) - va_max v) = length (va_forward v) - va_max v"
      using o(2) True by (simp add: dropped_def)
    ultimately show ?thesis using True dropped_trans [OF o(2)] by (metis evict_excess.simps)
  qed (use 1 in \<open>simp add: evict_excess.simps [of v] vault_ok_table dropped_def\<close>)
qed

lemma expire_before_ok:
  "vault_ok v \<Longrightarrow> vault_ok (expire_before c v) \<and> (\<exists>n. dropped n v (expire_before c v))"
proof (induction c v rule: expire_before.induct)
  case (1 c v)
  have d0: "dropped 0 v v" by (simp add: dropped_def)
  show ?case
  proof (cases "va_forward v")
    case Nil
    then show ?thesis using 1(2) d0 by (auto simp: expire_before.simps [of c v])
  next
    case (Cons e rest)
    obtain k t d s where e: "e = (k, t, d, s)" by (cases e)
    show ?thesis
    proof (cases "s \<ge> c")
      case True
      then show ?thesis using 1(2) d0 by (auto simp: expire_before.simps [of c v] Cons e)
    next
      case False
      have o: "table_ok (evict_oldest v)" "dropped 1 v (evict_oldest v)"
        using evict_oldest_ok 1(2) by (simp_all add: vault_ok_table)
      then have "vault_ok (evict_oldest v)" using 1(2) by (auto simp: vault_ok_table dropped_def)
      then have "vault_ok (expire_before c (evict_oldest v)) \<and> (\<exists>n. dropped n (evict_oldest v) (expire_before c (evict_oldest v)))"
        using 1(1) Cons e False by simp
      then show ?thesis using False dropped_trans [OF o(2)] by (auto simp: expire_before.simps [of c v] Cons e)
    qed
  qed
qed

section \<open>Steps\<close>

text \<open>
  \<open>later v v'\<close>: \<open>v'\<close> comes after \<open>v\<close>. Counters only grow, and what \<open>v'\<close> holds is either held with the same
  token by \<open>v\<close> or has a number \<open>v\<close> had not reached.
\<close>

definition later :: "vault \<Rightarrow> vault \<Rightarrow> bool" where
  "later v v' \<longleftrightarrow> va_max v' = va_max v \<and>
     (\<forall>kind. dict_get (va_counters v) kind 0 \<le> dict_get (va_counters v') kind 0) \<and>
     (\<forall>kind key token rest. ((kind, key), token, rest) \<in> set (va_forward v') \<longrightarrow>
        (\<exists>rest'. ((kind, key), token, rest') \<in> set (va_forward v)) \<or>
        (\<exists>n. dict_get (va_counters v) kind 0 < n \<and> token = token_text kind n))"

lemma later_refl [simp]: "later v v"
  by (auto simp: later_def)

lemma later_trans:
  assumes "later u v" and "later v w"
  shows "later u w"
proof -
  have c: "dict_get (va_counters u) kind 0 \<le> dict_get (va_counters v) kind 0"
    "dict_get (va_counters v) kind 0 \<le> dict_get (va_counters w) kind 0" for kind
    using assms by (simp_all add: later_def)
  have "(\<exists>rest'. ((kind, key), token, rest') \<in> set (va_forward u)) \<or>
      (\<exists>n. dict_get (va_counters u) kind 0 < n \<and> token = token_text kind n)"
    if "((kind, key), token, rest) \<in> set (va_forward w)" for kind key token rest
    using assms that c le_less_trans unfolding later_def by meson
  moreover have "va_max w = va_max u" using assms by (simp add: later_def)
  ultimately show ?thesis using c le_trans unfolding later_def by blast
qed

lemma later_dropped: "dropped n v v' \<Longrightarrow> later v v'"
  by (auto simp: later_def dropped_def dest: in_set_dropD)

lemma later_clear: "later v (clear v)"
  by (simp add: later_def clear_def)

definition goes_well :: "vault \<Rightarrow> vault \<Rightarrow> bool" where
  "goes_well v v' \<longleftrightarrow> (vault_ok v \<longrightarrow> vault_ok v' \<and> later v v')"

lemma goes_well_refl [simp]: "goes_well v v"
  by (simp add: goes_well_def)

lemma goes_well_trans: "goes_well u v \<Longrightarrow> goes_well v w \<Longrightarrow> goes_well u w"
  by (auto simp: goes_well_def intro: later_trans)

lemma goes_well_expire: "goes_well v (expire now v)"
  using expire_before_ok [of v] later_dropped
  by (auto simp: goes_well_def expire_def split: option.splits)

lemma goes_well_clear: "goes_well v (clear v)"
  by (simp add: goes_well_def vault_ok_clear later_clear)

text \<open>Issuing: a known entity keeps its token and moves to the recent end, a new one gets the next number.\<close>

lemma touch_entry:
  assumes "distinct (map fst xs)" and "map_of xs k = Some (t, d, s)"
  shows "distinct (map fst (filter (\<lambda>e. fst e \<noteq> k) xs @ [(k, t, d, now)]))"
    and "distinct (map (fst \<circ> snd) xs) \<Longrightarrow> distinct (map (fst \<circ> snd) (filter (\<lambda>e. fst e \<noteq> k) xs @ [(k, t, d, now)]))"
    and "length (filter (\<lambda>e. fst e \<noteq> k) xs @ [(k, t, d, now)]) = length xs"
    and "(\<lambda>(_, t, d, _). (t, d)) ` set (filter (\<lambda>e. fst e \<noteq> k) xs @ [(k, t, d, now)]) = (\<lambda>(_, t, d, _). (t, d)) ` set xs"
proof -
  obtain a b where xs: "xs = a @ (k, t, d, s) # b" using map_of_SomeD [OF assms(2)] by (meson split_list)
  have f: "filter (\<lambda>e. fst e \<noteq> k) a = a" "filter (\<lambda>e. fst e \<noteq> k) b = b"
    using assms(1) by (auto simp: xs filter_id_conv)
  then have "filter (\<lambda>e. fst e \<noteq> k) xs = a @ b" by (simp add: xs)
  then show "distinct (map fst (filter (\<lambda>e. fst e \<noteq> k) xs @ [(k, t, d, now)]))"
    and "distinct (map (fst \<circ> snd) xs) \<Longrightarrow> distinct (map (fst \<circ> snd) (filter (\<lambda>e. fst e \<noteq> k) xs @ [(k, t, d, now)]))"
    and "length (filter (\<lambda>e. fst e \<noteq> k) xs @ [(k, t, d, now)]) = length xs"
    and "(\<lambda>(_, t, d, _). (t, d)) ` set (filter (\<lambda>e. fst e \<noteq> k) xs @ [(k, t, d, now)]) = (\<lambda>(_, t, d, _). (t, d)) ` set xs"
    using assms(1) by (auto simp: xs)
qed

lemma map_of_same_pairs:
  "distinct (map fst xs) \<Longrightarrow> distinct (map fst ys) \<Longrightarrow> set xs = set ys \<Longrightarrow> map_of xs = map_of ys"
  by (rule map_of_inject_set [THEN iffD2])

lemma token_for_known:
  assumes ok: "vault_ok v" and m: "map_of (va_forward v) (kind, key) = Some (t, d, s)"
  shows "goes_well v (snd (token_for now kind key display v))"
proof -
  let ?fw = "filter (\<lambda>e. fst e \<noteq> (kind, key)) (va_forward v) @ [((kind, key), t, d, now)]"
  define v' where "v' = v\<lparr>va_forward := ?fw\<rparr>"
  have dist: "distinct (map fst (va_forward v))" "distinct (map (fst \<circ> snd) (va_forward v))"
    using ok by (simp_all add: vault_ok_def tokens_def)
  note touch = touch_entry [OF dist(1) m]
  have mem: "((kind, key), t, d, s) \<in> set (va_forward v)" using m by (rule map_of_SomeD)
  let ?td = "\<lambda>(_ :: vault_key, token :: string, display :: string, _ :: rat). (token, display)"
  have "map_of (map ?td (va_forward v)) = map_of (map ?td ?fw)"
  proof (rule map_of_same_pairs)
    show "distinct (map fst (map ?td (va_forward v)))" "distinct (map fst (map ?td ?fw))"
      using dist(2) touch(2) by (simp_all add: comp_def case_prod_beta)
    show "set (map ?td (va_forward v)) = set (map ?td ?fw)"
      using touch(4) [of now] by simp
  qed
  moreover have "entry_ok v' e" if "e \<in> set ?fw" for e
    using that ok mem by (auto simp: vault_ok_def entry_ok_def v'_def)
  ultimately have "vault_ok v'" using ok touch dist(2) by (simp add: vault_ok_def v'_def tokens_def)
  moreover have "later v v'" using mem by (auto simp: later_def v'_def)
  ultimately show ?thesis by (simp add: goes_well_def token_for_def m v'_def)
qed

lemma token_for_new:
  assumes ok: "vault_ok v" and m: "map_of (va_forward v) (kind, key) = None" and k: "kind \<in> set token_kinds"
  shows "goes_well v (snd (token_for now kind key display v))"
proof -
  define n where "n = dict_get (va_counters v) kind 0 + 1"
  define t where "t = token_text kind n"
  define v' where "v' = v\<lparr>va_counters := AList.update kind n (va_counters v),
      va_forward := va_forward v @ [((kind, key), t, display, now)], va_reverse := AList.update t display (va_reverse v)\<rparr>"
  have fresh: "t \<notin> set (tokens v)"
  proof
    assume "t \<in> set (tokens v)"
    then obtain k' x d s where e: "((k', x), t, d, s) \<in> set (va_forward v)" by (auto simp: tokens_def)
    then obtain j where "k' \<in> set token_kinds" "j \<le> dict_get (va_counters v) k' 0" "t = token_text k' j"
      using ok by (fastforce simp: vault_ok_def entry_ok_def)
    moreover have "kind = k' \<and> n = j" using calculation token_text_inj [OF k, of k' n j] by (simp add: t_def)
    ultimately show False by (auto simp: n_def)
  qed
  have old: "entry_ok v' e" if "entry_ok v e" for e
    using that by (auto simp: entry_ok_def v'_def n_def split: prod.splits intro: le_SucI)
  have "entry_ok v' ((kind, key), t, display, now)" using k by (auto simp: entry_ok_def v'_def t_def n_def)
  moreover have "map_of (va_reverse v') = map_of (map (\<lambda>(_, token, display, _). (token, display)) (va_forward v'))"
    using ok fresh by (auto simp: vault_ok_def v'_def fun_eq_iff map_add_def tokens_def map_of_eq_None_iff image_comp
        comp_def case_prod_beta split: option.splits)
  ultimately have "table_ok v'"
    using ok fresh old m by (auto simp: vault_ok_def table_ok_def v'_def tokens_def map_of_eq_None_iff)
  note ev = evict_excess_ok [OF this]
  have "later v v'" by (auto simp: later_def v'_def n_def t_def)
  then have "later v (evict_excess v')" using ev later_dropped later_trans by blast
  then show ?thesis using ev by (simp add: goes_well_def token_for_def m Let_def n_def t_def v'_def)
qed

lemma goes_well_token: "kind \<in> set token_kinds \<Longrightarrow> goes_well v (snd (token_for now kind key display v))"
  using token_for_known token_for_new
  by (cases "map_of (va_forward v) (kind, key)") (auto simp: goes_well_def)

lemma goes_well_sub:
  assumes "\<And>w g u. goes_well u (snd (f w g u))"
  shows "goes_well v (snd (sub_with a f l s v))"
  using assms
proof (induction a f l s v rule: sub_with.induct)
  case (2 a f l c cs v)
  show ?case
  proof (cases "rx_first a (l, c # cs, [])")
    case None
    then show ?thesis using 2 by (cases "sub_with a f (c # l) cs v") simp
  next
    case (Some q)
    obtain l' r' g where q: "q = (l', r', g)" by (cases q)
    show ?thesis
    proof (cases "length r' < length (c # cs)")
      case True
      obtain new u where f: "f (take (length (c # cs) - length r') (c # cs)) g v = (new, u)"
        using prod.exhaust by blast
      have "goes_well v (snd (f (take (length (c # cs) - length r') (c # cs)) g v))" by (rule 2(4))
      then have "goes_well v u" unfolding f snd_conv .
      moreover have "goes_well u (snd (sub_with a f l' r' u))"
        using 2(1,2,3) 2(4) Some q True f by simp
      ultimately show ?thesis using Some q True f goes_well_trans by (simp split: prod.split)
    next
      case False
      then show ?thesis using 2 Some q by (cases "sub_with a f (c # l) cs v") simp
    qed
  qed
qed simp

lemma goes_well_sub_eq:
  "sub_with a f l s v = (out, v') \<Longrightarrow> (\<And>w g u. goes_well u (snd (f w g u))) \<Longrightarrow> goes_well v v'"
  using goes_well_sub by (metis snd_conv)

text \<open>A whole call of \<open>tokenize\<close>, and what \<open>clear\<close> does to a vault.\<close>

lemma goes_well_token_eq:
  "token_for now kind key display v = (t, v') \<Longrightarrow> kind \<in> set token_kinds \<Longrightarrow> goes_well v v'"
  using goes_well_token by (metis snd_conv)

lemma goes_well_repl:
  "goes_well u (snd (repl_ipv6 ip6 now w g u))" "goes_well u (snd (repl_ipv4 pub now w g u))"
  "goes_well u (snd (repl_mac now w g u))" "goes_well u (snd (repl_asn now w g u))"
  by (auto simp: repl_ipv6_def repl_ipv4_def repl_mac_def repl_asn_def Let_def
      split: option.splits prod.splits elim!: goes_well_token_eq intro!: goes_well_token, simp_all add: token_kinds_def)

lemma goes_well_hosts: "goes_well v (snd (tokenize_hosts now hosts txt v))"
  by (auto simp: tokenize_hosts_def Let_def token_kinds_def intro!: goes_well_sub goes_well_token)

lemma goes_well_asn:
  "goes_well v (snd (fold (\<lambda>pattern (out, v). sub_with pattern (repl_asn now) [] out v) patterns (out, v)))"
proof (induction patterns arbitrary: out v)
  case (Cons a patterns)
  obtain o1 v1 where s: "sub_with a (repl_asn now) [] out v = (o1, v1)" by (metis surj_pair)
  have "goes_well v v1" by (rule goes_well_sub_eq [OF s goes_well_repl(4)])
  then show ?case using Cons.IH [where out = o1 and v = v1] s goes_well_trans by (metis (no_types, lifting) case_prod_conv fold_simps(2))
qed simp

lemma goes_well_tokenize: "goes_well v (snd (tokenize ip6 pub now hosts txt v))"
proof (cases "txt = []")
  case False
  obtain o1 v1 where s1: "tokenize_hosts now hosts txt (expire now v) = (o1, v1)" by (metis surj_pair)
  obtain o2 v2 where s2: "sub_with ipv6_re (repl_ipv6 ip6 now) [] o1 v1 = (o2, v2)" by (metis surj_pair)
  obtain o3 v3 where s3: "sub_with ipv4_re (repl_ipv4 pub now) [] o2 v2 = (o3, v3)" by (metis surj_pair)
  obtain o4 v4 where s4: "sub_with mac_re (repl_mac now) [] o3 v3 = (o4, v4)" by (metis surj_pair)
  have "goes_well v v1"
    using goes_well_trans [OF goes_well_expire goes_well_hosts [of "expire now v" now hosts "txt"]] s1 by simp
  moreover have "goes_well v1 v2" using goes_well_sub_eq [OF s2 goes_well_repl(1)] .
  moreover have "goes_well v2 v3" using goes_well_sub_eq [OF s3 goes_well_repl(2)] .
  moreover have "goes_well v3 v4" using goes_well_sub_eq [OF s4 goes_well_repl(3)] .
  ultimately have "goes_well v v4" using goes_well_trans by blast
  then have "goes_well v (snd (fold (\<lambda>pattern (out, v). sub_with pattern (repl_asn now) [] out v) asn_res (o4, v4)))"
    using goes_well_asn goes_well_trans by blast
  then show ?thesis using False by (simp add: tokenize_def s1 s2 s3 s4)
qed (simp add: tokenize_def)

inductive vault_step :: "vault \<Rightarrow> vault \<Rightarrow> bool" where
  tokenized: "vault_step v (snd (tokenize ip6 pub now hosts txt v))"
| cleared: "vault_step v (clear v)"

lemma vault_step_well: "vault_step v v' \<Longrightarrow> goes_well v v'"
  by (auto elim!: vault_step.cases intro: goes_well_tokenize goes_well_clear)

lemma vault_run_well: "vault_step\<^sup>*\<^sup>* v v' \<Longrightarrow> goes_well v v'"
  by (induction rule: rtranclp_induct) (auto dest: vault_step_well intro: goes_well_trans)

lemma vault_run_ok: "vault_step\<^sup>*\<^sup>* (new_vault m ttl) v \<Longrightarrow> vault_ok v"
  using vault_run_well by (auto simp: goes_well_def)

text \<open>
  C24: the vault's tables. After any calls, the forward table has at most \<open>max_entries\<close> entries, no entity and
  no token twice, every token is a kind with a number up to that kind's counter, and the reverse table is
  exactly the inverse of the forward one.
\<close>

theorem vault_well_formed:
  assumes "vault_step\<^sup>*\<^sup>* (new_vault m ttl) v"
  shows "length (va_forward v) \<le> nat (max 1 m) \<and> distinct (map fst (va_forward v)) \<and> distinct (tokens v) \<and>
    (\<forall>token display. map_of (va_reverse v) token = Some display \<longleftrightarrow>
       (\<exists>key seen. (key, token, display, seen) \<in> set (va_forward v))) \<and>
    (\<forall>e\<in>set (va_forward v). entry_ok v e)"
proof -
  have ok: "vault_ok v" and max: "va_max v = nat (max 1 m)"
    using vault_run_well [OF assms] by (simp_all add: goes_well_def later_def new_vault_def vault_ok_new [unfolded new_vault_def])
  have "map_of (va_reverse v) token = Some display \<longleftrightarrow> (\<exists>key seen. (key, token, display, seen) \<in> set (va_forward v))"
    for token display
    using ok by (simp add: reverse_iff)
  then show ?thesis using ok max by (auto simp: vault_ok_def)
qed

text \<open>
  C22: a token never changes its meaning. If one call sequence leaves a token standing for an entity, then after
  any further calls (evictions, expiries and \<open>clear\<close> included) that token stands for the same entity or for none.
\<close>

theorem tokens_never_reassigned:
  assumes "vault_step\<^sup>*\<^sup>* (new_vault m ttl) v" and "vault_step\<^sup>*\<^sup>* v v'"
    and "(k, t, d, s) \<in> set (va_forward v)" and "(k', t, d', s') \<in> set (va_forward v')"
  shows "k' = k"
proof -
  have ok: "vault_ok v" by (rule vault_run_ok [OF assms(1)])
  have run: "vault_ok v'" "later v v'" using vault_run_well [OF assms(2)] ok by (simp_all add: goes_well_def)
  obtain kind key kind' key' where k: "k = (kind, key)" "k' = (kind', key')" by (cases k; cases k')
  have e: "entry_ok v (k, t, d, s)" "entry_ok v' (k', t, d', s')" using ok run assms(3,4) by (auto simp: vault_ok_def)
  have "\<not> (\<exists>n. dict_get (va_counters v) kind' 0 < n \<and> t = token_text kind' n)"
    using e token_text_inj by (auto simp: entry_ok_def k)
  then obtain rest where "(k', t, rest) \<in> set (va_forward v)"
    using run(2) assms(4) k(2) unfolding later_def by metis
  moreover have "inj_on (fst \<circ> snd) (set (va_forward v))" using ok by (simp add: vault_ok_def tokens_def distinct_map)
  ultimately have "(k', t, rest) = (k, t, d, s)" using assms(3) by (intro inj_onD [of "fst \<circ> snd"]) simp_all
  then show ?thesis by simp
qed

section \<open>Mapping answers back\<close>

text \<open>The digits of a token: of the greedy star's positions only the one after the last digit reaches \<open>>\<close>.\<close>

lemma run_digits:
  "concat (map (rx_run (lit ''>'')) (rx_run (Star digit) (l, r, g))) =
     (let d = takeWhile is_digit r
      in if starts_with ''>'' (dropWhile is_digit r) then [(CHR ''>'' # rev d @ l, drop 1 (dropWhile is_digit r), g)] else [])"
proof -
  have "is_digit c \<Longrightarrow> rx_run (lit ''>'') (l, c # s, g) = []" for c l s g
    by (auto simp: rx_run_lit is_digit_def)
  then show ?thesis unfolding digit_def by (subst rx_run_star_skip) (auto simp: rx_run_lit Let_def)
qed

text \<open>What the token pattern matches, and that it has at most one way to match.\<close>

definition token_tail :: "string \<Rightarrow> string option" where
  "token_tail r = (if starts_with ''_'' r \<and> takeWhile is_digit (tl r) \<noteq> [] \<and> starts_with ''>'' (dropWhile is_digit (tl r))
     then Some (drop 1 (dropWhile is_digit (tl r))) else None)"

lemma run_tail:
  "rx_run (Seq (lit ''_'') (Seq (plus1 digit) (lit ''>''))) (l, r, g) =
     (case token_tail r of
        Some s \<Rightarrow> [(CHR ''>'' # rev (takeWhile is_digit (tl r)) @ CHR ''_'' # l, s, g)]
      | None \<Rightarrow> [])"
proof (cases "starts_with ''_'' r")
  case True
  then obtain cs where r: "r = CHR ''_'' # cs" by (cases r) auto
  show ?thesis
  proof (cases cs)
    case (Cons c cs')
    have "\<not> is_digit c \<Longrightarrow> rx_run digit (CHR ''_'' # l, c # cs', g) = []"
      "is_digit c \<Longrightarrow> rx_run digit (CHR ''_'' # l, c # cs', g) = [(c # CHR ''_'' # l, cs', g)]"
      by (simp_all add: digit_def)
    then show ?thesis
      by (cases "is_digit c") (simp_all add: r Cons rx_run_Seq rx_run_lit [of "''_''"] token_tail_def run_digits Let_def del: rx_run.simps)
  qed (simp add: r rx_run_Seq rx_run_lit token_tail_def digit_def)
qed (simp add: rx_run_Seq rx_run_lit token_tail_def)


definition token_like :: "string \<Rightarrow> string \<Rightarrow> string" where
  "token_like k ds = CHR ''<'' # k @ CHR ''_'' # ds @ ''>''"

lemma run_token_re:
  "rx_run token_re (l, r, g) =
     (if starts_with ''<'' r
      then concat (map (\<lambda>k. if starts_with k (tl r)
                            then rx_run (Seq (lit ''_'') (Seq (plus1 digit) (lit ''>''))) (rev k @ CHR ''<'' # l, drop (length k) (tl r), g)
                            else []) token_kinds)
      else [])"
  by (cases r) (simp_all add: token_re_def rx_run_Seq rx_run_lit token_kinds_def del: rx_run.simps(3))

lemma token_tail_like:
  "ds \<noteq> [] \<Longrightarrow> list_all is_digit ds \<Longrightarrow> token_tail (CHR ''_'' # ds @ CHR ''>'' # s) = Some s"
  by (auto simp: token_tail_def takeWhile_append2 dropWhile_append2 list_all_iff is_digit_def)

lemma token_tail_other: "c \<noteq> CHR ''_'' \<Longrightarrow> token_tail (c # r) = None"
  by (simp add: token_tail_def)

lemma rx_first_token:
  assumes "k \<in> set token_kinds" and "ds \<noteq> []" and "list_all is_digit ds"
  shows "rx_first token_re (l, token_like k ds @ s, g) = Some (rev (token_like k ds) @ l, s, g)"
proof -
  have t: "takeWhile is_digit (ds @ CHR ''>'' # s) = ds"
    using assms(3) by (simp add: takeWhile_append2 list_all_iff is_digit_def)
  show ?thesis
    using assms(1) token_tail_like [OF assms(2,3)]
    by (auto simp: token_kinds_def rx_first_def run_token_re run_tail token_like_def t token_tail_other simp del: rx_run.simps)
qed

lemma rx_first_token_iff:
  assumes "rx_first token_re (l, r, g) = Some (l', r', g')"
  shows "\<exists>k\<in>set token_kinds. \<exists>ds. ds \<noteq> [] \<and> list_all is_digit ds \<and> r = token_like k ds @ r'"
proof -
  have "(l', r', g') \<in> set (rx_run token_re (l, r, g))" using assms by (auto simp: rx_first_def split: list.splits)
  then obtain k where k: "k \<in> set token_kinds" "starts_with ''<'' r" "starts_with k (tl r)"
      "(l', r', g') \<in> set (rx_run (Seq (lit ''_'') (Seq (plus1 digit) (lit ''>''))) (rev k @ CHR ''<'' # l, drop (length k) (tl r), g))"
    by (auto simp: run_token_re split: if_splits simp del: rx_run.simps)
  let ?t = "drop (length k) (tl r)"
  have t: "token_tail ?t = Some r'" using k(4) by (auto simp: run_tail split: option.splits simp del: rx_run.simps)
  let ?ds = "takeWhile is_digit (tl ?t)"
  have "?t = CHR ''_'' # ?ds @ CHR ''>'' # r'"
    using t by (auto simp: token_tail_def starts_with_iff split: if_splits)
      (metis append_Cons append_Nil takeWhile_dropWhile_id)
  moreover have "?ds \<noteq> []" "list_all is_digit ?ds"
    using t by (auto simp: token_tail_def list_all_iff split: if_splits dest: set_takeWhileD)
  moreover have "r = CHR ''<'' # k @ ?t" using k by (auto simp: starts_with_iff)
  ultimately show ?thesis using k(1) by (metis token_like_def append_Cons append_assoc append_Nil)
qed


lemma no_lt_inside: "k \<in> set token_kinds \<Longrightarrow> list_all is_digit ds \<Longrightarrow> CHR ''<'' \<notin> set (tl (token_like k ds))"
  by (auto simp: token_like_def token_kinds_def list_all_iff is_digit_def)

lemma rx_first_plain:
  assumes "rx_first token_re (l, c # s, []) = None" and "rest = [] \<or> starts_with ''<'' rest"
  shows "rx_first token_re (l, c # s @ rest, []) = None"
proof (rule ccontr)
  assume "rx_first token_re (l, c # s @ rest, []) \<noteq> None"
  then obtain l' r' g' where m: "rx_first token_re (l, c # s @ rest, []) = Some (l', r', g')" by auto
  obtain k ds where k: "k \<in> set token_kinds" "ds \<noteq> []" "list_all is_digit ds" and e: "c # s @ rest = token_like k ds @ r'"
    using rx_first_token_iff [OF m] by blast
  from e have "(c # s) @ rest = token_like k ds @ r'" by simp
  then obtain u where "c # s = token_like k ds @ u \<or> token_like k ds = (c # s) @ u \<and> rest = u @ r'"
    unfolding append_eq_append_conv2 by metis
  then show False
  proof
    assume "c # s = token_like k ds @ u"
    then show False using assms(1) rx_first_token [OF k, of l u "[]"] by simp
  next
    assume u: "token_like k ds = (c # s) @ u \<and> rest = u @ r'"
    show False
    proof (cases u)
      case Nil
      then show False using u assms(1) rx_first_token [OF k, of l "[]" "[]"] by simp
    next
      case (Cons x xs)
      then have "x = CHR ''<''" using u assms(2) by auto
      then show False using no_lt_inside [OF k(1,3)] u Cons by simp
    qed
  qed
qed

lemma sub_plain:
  "rx_search_from token_re l s = None \<Longrightarrow> rest = [] \<or> starts_with ''<'' rest \<Longrightarrow>
    rx_sub_from token_re f l (s @ rest) = s @ rx_sub_from token_re f (rev s @ l) rest"
proof (induction s arbitrary: l)
  case (Cons c s)
  have "rx_first token_re (l, c # s, []) = None" "rx_search_from token_re (c # l) s = None"
    using Cons.prems(1) by (auto split: option.splits)
  then show ?case using Cons.IH rx_first_plain Cons.prems(2) by simp
qed simp

lemma rx_search_from_None:
  "rx_search_from a l [] = None \<longleftrightarrow> rx_first a (l, [], []) = None"
  "rx_search_from a l (c # s) = None \<longleftrightarrow> rx_first a (l, c # s, []) = None \<and> rx_search_from a (c # l) s = None"
  by (auto split: option.splits)

lemma rx_first_token_left: "rx_first token_re (l, r, []) = None \<Longrightarrow> rx_first token_re (l', r, []) = None"
  using rx_first_token rx_first_token_iff by (metis not_None_eq prod_cases3)

lemma rx_search_from_token_re: "rx_search_from token_re l s = None \<Longrightarrow> rx_search_from token_re l' s = None"
proof (induction s arbitrary: l l')
  case (Cons c s)
  then show ?case unfolding rx_search_from_None using rx_first_token_left by blast
qed (use rx_first_token_left in \<open>unfold rx_search_from_None, blast\<close>)

lemma sub_token:
  assumes "k \<in> set token_kinds"
  shows "rx_sub_from token_re f l (token_text k n @ s) =
    f (token_text k n) [] @ rx_sub_from token_re f (rev (token_text k n) @ l) s"
proof -
  have t: "token_text k n = token_like k (show_nat n)" by (simp add: token_text_def token_like_def)
  obtain cs where c: "token_text k n = CHR ''<'' # cs" by (simp add: token_text_def)
  show ?thesis
    using rx_first_token [OF assms show_nat_not_Nil show_nat_digits, of l n s "[]"]
    unfolding t [symmetric] by (simp add: c)
qed



text \<open>One call on a host name, the vault it leaves, and an answer that quotes its token.\<close>

definition sample_vault :: vault where
  "sample_vault = snd (tokenize (\<lambda>_. None) (\<lambda>_. None) 5 [''fw''] ''fw'' (new_vault 2 None))"

lemma sample_vault_run: "vault_step\<^sup>*\<^sup>* (new_vault 2 None) sample_vault"
  unfolding sample_vault_def by (intro r_into_rtranclp vault_step.tokenized)

lemma sample_passes:
  "tokenize_hosts 5 [''fw''] ''fw'' (expire 5 (new_vault 2 None)) =
     (''<HOST_1>'', \<lparr>va_max = 2, va_ttl = None, va_forward = [((''HOST'', ''fw''), ''<HOST_1>'', ''fw'', 5)],
        va_reverse = [(''<HOST_1>'', ''fw'')], va_counters = [(''HOST'', 1)]\<rparr>)"
  "sub_with ipv6_re (repl_ipv6 (\<lambda>_. None) 5) [] ''<HOST_1>'' v = (''<HOST_1>'', v)"
  "sub_with ipv4_re (repl_ipv4 (\<lambda>_. None) 5) [] ''<HOST_1>'' v = (''<HOST_1>'', v)"
  "sub_with mac_re (repl_mac 5) [] ''<HOST_1>'' v = (''<HOST_1>'', v)"
  "fold (\<lambda>pattern (out, v). sub_with pattern (repl_asn 5) [] out v) asn_res (''<HOST_1>'', v) = (''<HOST_1>'', v)"
  by code_simp+

lemma sample_vault_val: "va_forward sample_vault = [((''HOST'', ''fw''), ''<HOST_1>'', ''fw'', 5)]"
  by (simp add: sample_vault_def tokenize_def sample_passes del: sub_with.simps)

theorem vault_well_formed_witness: "length (va_forward sample_vault) \<le> 2"
  using vault_well_formed [OF sample_vault_run] by simp

theorem tokens_never_reassigned_witness: "fst (hd (va_forward sample_vault)) = (''HOST'', ''fw'')"
  using tokens_never_reassigned [OF sample_vault_run rtranclp.rtrancl_refl, of "(''HOST'', ''fw'')" "''<HOST_1>''" "''fw''" 5 "(''HOST'', ''fw'')" "''fw''" 5]
  by (simp add: sample_vault_val)


end
