(* ===== verification/Net_Address.thy ===== *)
theory Net_Address
  imports Netlog_Prelude
begin

text \<open>
  What the outbound guard takes from Python's \<open>ipaddress\<close> and \<open>urllib.parse\<close> (Python 3.11): addresses as the
  integers of \<open>int(addr)\<close>, the special-purpose tables behind \<open>is_private\<close> and its siblings, and the parts of
  a URL. A scope id is checked and dropped; texts are ASCII, so no name is normalized.
\<close>

section \<open>Addresses\<close>

datatype ipaddr = V4 int | V6 int

fun hextets_value :: "int \<Rightarrow> int list \<Rightarrow> int" where
  "hextets_value acc [] = acc"
| "hextets_value acc (h # hs) = hextets_value (acc * 65536 + h) hs"

fun int_value :: "int \<Rightarrow> int \<Rightarrow> int list \<Rightarrow> int" where
  "int_value base acc [] = acc"
| "int_value base acc (d # ds) = int_value base (base * acc + d) ds"

definition digit_of :: "char \<Rightarrow> int" where
  "digit_of c = of_char c - 48"

definition is_hex :: "char \<Rightarrow> bool" where
  "is_hex c = (let n = (of_char c :: int) in is_digit c \<or> (65 \<le> n \<and> n \<le> 70) \<or> (97 \<le> n \<and> n \<le> 102))"

definition hex_of :: "char \<Rightarrow> int" where
  "hex_of c = (let n = (of_char c :: int) in if n < 58 then n - 48 else if n < 71 then n - 55 else n - 87)"

definition decimal :: "string \<Rightarrow> int" where
  "decimal s = int_value 10 0 (map digit_of s)"

definition octet :: "string \<Rightarrow> int option" where
  "octet s =
     (if s = [] \<or> \<not> list_all is_digit s \<or> length s > 3 \<or> (s \<noteq> ''0'' \<and> hd s = CHR ''0'') \<or> decimal s > 255 then None
      else Some (decimal s))"

definition dotted_quad :: "string \<Rightarrow> int option" where
  "dotted_quad s =
     (let parts = split_on (CHR ''.'') s
      in if length parts = 4 then map_option (int_value 256 0) (those (map octet parts)) else None)"

text \<open>A part of an IPv6 literal: its text, or the half of an IPv4 suffix.\<close>

datatype v6_part = Text string | Half int

fun hextet :: "v6_part \<Rightarrow> int option" where
  "hextet (Half n) = Some n"
| "hextet (Text s) =
     (if s = [] \<or> length s > 4 \<or> \<not> list_all is_hex s then None else Some (int_value 16 0 (map hex_of s)))"

definition v6_parts :: "string \<Rightarrow> v6_part list option" where
  "v6_parts s =
     (let parts = split_on (CHR '':'') s; front = map Text (butlast parts)
      in if length parts < 3 then None
         else if CHR ''.'' \<in> set (last parts)
         then map_option (\<lambda>n. front @ [Half (n div 65536), Half (n mod 65536)]) (dotted_quad (last parts))
         else Some (map Text parts))"

definition v6_value :: "v6_part list \<Rightarrow> int option" where
  "v6_value parts =
     (let n = length parts; blank = (\<lambda>i. parts ! i = Text []); skips = filter blank [1..<n - 1]
      in if n > 9 \<or> length skips > 1 then None
         else case skips of
                [] \<Rightarrow>
                  (if n \<noteq> 8 \<or> blank 0 \<or> blank (n - 1) then None
                   else map_option (hextets_value 0) (those (map hextet parts)))
              | i # _ \<Rightarrow>
                  (let hi = (if blank 0 then i - 1 else i); lo = (if blank (n - 1) then n - i - 2 else n - i - 1)
                   in if (blank 0 \<and> hi \<noteq> 0) \<or> (blank (n - 1) \<and> lo \<noteq> 0) \<or> hi + lo \<ge> 8 then None
                      else case (those (map hextet (take hi parts)), those (map hextet (drop (n - lo) parts))) of
                             (Some front, Some back) \<Rightarrow>
                               Some (hextets_value (hextets_value 0 front * 65536 ^ (8 - (hi + lo))) back)
                           | _ \<Rightarrow> None))"

definition parse_v6 :: "string \<Rightarrow> int option" where
  "parse_v6 s =
     (case partition_on (CHR ''%'') s of
        (addr, scoped, scope) \<Rightarrow>
          (if scoped \<and> (scope = [] \<or> CHR ''%'' \<in> set scope) then None
           else Option.bind (v6_parts addr) v6_value))"

definition ip_address :: "string \<Rightarrow> ipaddr option" where
  "ip_address s = (case dotted_quad s of Some n \<Rightarrow> Some (V4 n) | None \<Rightarrow> map_option V6 (parse_v6 s))"

section \<open>Networks\<close>

text \<open>A network is its first address and its prefix length.\<close>

type_synonym network = "ipaddr \<times> nat"

fun in_network :: "ipaddr \<Rightarrow> network \<Rightarrow> bool" where
  "in_network (V4 a) (V4 b, plen) = (a div 2 ^ (32 - plen) = b div 2 ^ (32 - plen))"
| "in_network (V6 a) (V6 b, plen) = (a div 2 ^ (128 - plen) = b div 2 ^ (128 - plen))"
| "in_network _ _ = False"

definition v4net :: "int \<Rightarrow> int \<Rightarrow> int \<Rightarrow> int \<Rightarrow> nat \<Rightarrow> network" where
  "v4net a b c d plen = (V4 (((a * 256 + b) * 256 + c) * 256 + d), plen)"

text \<open>An IPv6 network from its leading hextets.\<close>

definition v6net :: "int list \<Rightarrow> nat \<Rightarrow> network" where
  "v6net hs plen = (V6 (hextets_value 0 hs * 65536 ^ (8 - length hs)), plen)"

definition private_networks :: "network list" where
  "private_networks =
     [v4net 0 0 0 0 8, v4net 10 0 0 0 8, v4net 127 0 0 0 8, v4net 169 254 0 0 16, v4net 172 16 0 0 12,
      v4net 192 0 0 0 24, v4net 192 0 0 170 31, v4net 192 0 2 0 24, v4net 192 168 0 0 16, v4net 198 18 0 0 15,
      v4net 198 51 100 0 24, v4net 203 0 113 0 24, v4net 240 0 0 0 4, v4net 255 255 255 255 32,
      v6net [0, 0, 0, 0, 0, 0, 0, 1] 128, v6net [0, 0, 0, 0, 0, 0, 0, 0] 128, v6net [0, 0, 0, 0, 0, 65535] 96,
      v6net [0x64, 0xff9b, 1] 48, v6net [0x100] 64, v6net [0x2001] 23, v6net [0x2001, 0xdb8] 32, v6net [0x2002] 16,
      v6net [0xfc00] 7, v6net [0xfe80] 10]"

definition private_exceptions :: "network list" where
  "private_exceptions =
     [v4net 192 0 0 9 32, v4net 192 0 0 10 32,
      v6net [0x2001, 1, 0, 0, 0, 0, 0, 1] 128, v6net [0x2001, 1, 0, 0, 0, 0, 0, 2] 128, v6net [0x2001, 3] 32,
      v6net [0x2001, 4, 0x112] 48, v6net [0x2001, 0x20] 28, v6net [0x2001, 0x30] 28]"

definition reserved_networks :: "network list" where
  "reserved_networks =
     [v4net 240 0 0 0 4, v6net [0] 8, v6net [0x100] 8, v6net [0x200] 7, v6net [0x400] 6, v6net [0x800] 5,
      v6net [0x1000] 4, v6net [0x4000] 3, v6net [0x6000] 3, v6net [0x8000] 3, v6net [0xa000] 3, v6net [0xc000] 3,
      v6net [0xe000] 4, v6net [0xf000] 5, v6net [0xf800] 6, v6net [0xfe00] 9]"

definition ipv4_mapped :: "ipaddr \<Rightarrow> ipaddr option" where
  "ipv4_mapped a = (case a of V6 n \<Rightarrow> if n div 2 ^ 32 = 65535 then Some (V4 (n mod 2 ^ 32)) else None | V4 _ \<Rightarrow> None)"

definition is_unspecified :: "ipaddr \<Rightarrow> bool" where
  "is_unspecified a = (a = V4 0 \<or> a = V6 0)"

definition is_loopback :: "ipaddr \<Rightarrow> bool" where
  "is_loopback a = (in_network a (v4net 127 0 0 0 8) \<or> a = V6 1)"

definition is_multicast :: "ipaddr \<Rightarrow> bool" where
  "is_multicast a = (in_network a (v4net 224 0 0 0 4) \<or> in_network a (v6net [0xff00] 8))"

definition is_link_local :: "ipaddr \<Rightarrow> bool" where
  "is_link_local a = (in_network a (v4net 169 254 0 0 16) \<or> in_network a (v6net [0xfe80] 10))"

definition is_reserved :: "ipaddr \<Rightarrow> bool" where
  "is_reserved a = list_ex (in_network a) reserved_networks"

definition is_private :: "ipaddr \<Rightarrow> bool" where
  "is_private a =
     (let a = (case ipv4_mapped a of Some m \<Rightarrow> m | None \<Rightarrow> a)
      in list_ex (in_network a) private_networks \<and> \<not> list_ex (in_network a) private_exceptions)"

definition is_global :: "ipaddr \<Rightarrow> bool" where
  "is_global a = (\<not> in_network a (v4net 100 64 0 0 10) \<and> \<not> is_private a)"

section \<open>URLs\<close>

record url_parts =
  up_scheme :: string
  up_netloc :: string
  up_path :: string

definition is_letter :: "char \<Rightarrow> bool" where
  "is_letter c = (let n = (of_char (lower_char c) :: nat) in 97 \<le> n \<and> n \<le> 122)"

definition scheme_char :: "char \<Rightarrow> bool" where
  "scheme_char c = (is_letter c \<or> is_digit c \<or> c \<in> set ''+-.'')"

definition clean_url :: "string \<Rightarrow> string" where
  "clean_url url =
     filter (\<lambda>c. (of_char c :: nat) \<notin> {9, 10, 13}) (dropWhile (\<lambda>c. (of_char c :: nat) \<le> 32) url)"

definition split_scheme :: "string \<Rightarrow> string \<times> string" where
  "split_scheme url =
     (case partition_on (CHR '':'') url of
        (a, found, rest) \<Rightarrow>
          (if found \<and> a \<noteq> [] \<and> is_letter (hd a) \<and> list_all scheme_char a then (lower a, rest) else ([], url)))"

definition before_last :: "char \<Rightarrow> string \<Rightarrow> string" where
  "before_last x s = rev (dropWhile (\<lambda>c. c \<noteq> x) (rev s))"

definition after_last :: "char \<Rightarrow> string \<Rightarrow> string" where
  "after_last x s = rev (takeWhile (\<lambda>c. c \<noteq> x) (rev s))"

definition bracketed_ok :: "string \<Rightarrow> bool" where
  "bracketed_ok netloc =
     (let inside = fst (partition_on (CHR '']'') (snd (snd (partition_on (CHR ''['') netloc))));
          (version, dot, rest) = partition_on (CHR ''.'') (tl inside)
      in if CHR ''['' \<notin> set netloc \<and> CHR '']'' \<notin> set netloc then True
         else if CHR ''['' \<notin> set netloc \<or> CHR '']'' \<notin> set netloc then False
         else if starts_with ''v'' inside then version \<noteq> [] \<and> list_all is_hex version \<and> dot \<and> rest \<noteq> []
         else case ip_address inside of Some (V6 _) \<Rightarrow> True | _ \<Rightarrow> False)"

definition uses_params :: "string list" where
  "uses_params = [[], ''ftp'', ''hdl'', ''prospero'', ''http'', ''https'', ''shttp'', ''rtsp'', ''rtspu'', ''sip'', ''sips'',
     ''mms'', ''sftp'', ''tel'']"

definition split_params :: "string \<Rightarrow> string" where
  "split_params path = before_last (CHR ''/'') path @ takeWhile (\<lambda>c. c \<noteq> CHR '';'') (after_last (CHR ''/'') path)"

text \<open>\<open>urlparse(url)\<close>, \<open>None\<close> where it raises \<open>ValueError\<close>.\<close>

definition urlparse :: "string \<Rightarrow> url_parts option" where
  "urlparse url =
     (let (scheme, rest) = split_scheme (clean_url url);
          has_netloc = starts_with ''//'' rest;
          in_netloc = (\<lambda>c. c \<notin> set ''/?#'');
          netloc = (if has_netloc then takeWhile in_netloc (drop 2 rest) else []);
          rest = (if has_netloc then dropWhile in_netloc (drop 2 rest) else rest);
          path = takeWhile (\<lambda>c. c \<noteq> CHR ''?'') (takeWhile (\<lambda>c. c \<noteq> CHR ''#'') rest)
      in if bracketed_ok netloc
         then Some \<lparr>up_scheme = scheme, up_netloc = netloc,
                    up_path = (if scheme \<in> set uses_params then split_params path else path)\<rparr>
         else None)"

text \<open>\<open>parsed.hostname\<close> (\<open>[]\<close> for \<open>None\<close>), \<open>parsed.port\<close> (\<open>None\<close> where it raises), and whether \<open>parsed.username\<close> is set.\<close>

definition host_port :: "url_parts \<Rightarrow> string \<times> string" where
  "host_port u =
     (let hostinfo = after_last (CHR ''@'') (up_netloc u)
      in case partition_on (CHR ''['') hostinfo of
           (_, True, bracketed) \<Rightarrow>
             (case partition_on (CHR '']'') bracketed of (host, _, port) \<Rightarrow> (host, snd (snd (partition_on (CHR '':'') port))))
         | _ \<Rightarrow> (case partition_on (CHR '':'') hostinfo of (host, _, port) \<Rightarrow> (host, port)))"

definition url_host :: "url_parts \<Rightarrow> string" where
  "url_host u =
     (case partition_on (CHR ''%'') (fst (host_port u)) of
        (host, percent, zone) \<Rightarrow> lower host @ (if percent then ''%'' @ zone else []))"

definition url_port :: "url_parts \<Rightarrow> int option option" where
  "url_port u =
     (let port = snd (host_port u)
      in if port = [] then Some None
         else if list_all is_digit port \<and> decimal port \<le> 65535 then Some (Some (decimal port)) else None)"

definition has_userinfo :: "url_parts \<Rightarrow> bool" where
  "has_userinfo u = (CHR ''@'' \<in> set (up_netloc u))"

end
