(* ===== verification/Outbound.thy ===== *)
theory Outbound
  imports Net_Address
begin

text \<open>
  The outbound guard: the SSRF checks of \<open>sources/base.py\<close> with its source registry and authentication choice,
  and the hardened opener of \<open>sources/outbound.py\<close>. Name resolution (\<open>dns\<close>, the addresses of \<open>getaddrinfo\<close> or
  \<open>None\<close> for \<open>OSError\<close>), whether a connect succeeds, the reply of a server and the proxy settings are
  arguments; \<open>env\<close> is \<open>os.environ\<close>, with the empty text for an unset name. A \<open>refusal\<close> is a raised \<open>SourceError\<close>, one constructor per message;
  \<open>Malformed_Url\<close> and \<open>Bad_Registration\<close> are \<open>ValueError\<close>s.
\<close>

datatype refusal =
    Url_Required | Bad_Scheme string | Missing_Host | Invalid_Port | Embedded_Credentials | Metadata_Host
  | Localhost_Host | Targets string | Unresolved string | No_Addresses string | Unparseable string
  | Resolves_To string string | Needs_Https | Env_Credentials string | Redirected int | Unknown_Source string
  | Bad_Host_Filter | No_Auth string | No_Connection | Http_Error int | Malformed_Url | Bad_Registration

type_synonym environ = "string \<Rightarrow> string"
type_synonym resolver = "string \<Rightarrow> int option \<Rightarrow> string list option"

definition env_text :: "environ \<Rightarrow> string \<Rightarrow> string" where
  "env_text env name = strip (env name)"

definition true_words :: "string list" where
  "true_words = [''1'', ''true'', ''yes'', ''on'']"

definition env_flag :: "environ \<Rightarrow> string \<Rightarrow> bool" where
  "env_flag env name = (lower (env_text env name) \<in> set true_words)"

section \<open>Host filters and address spellings\<close>

definition filter_char :: "char \<Rightarrow> bool" where
  "filter_char c = (is_letter c \<or> is_digit c \<or> c \<in> set ''._:*-'')"

definition validate_host_filter :: "string \<Rightarrow> refusal + string" where
  "validate_host_filter host_filter =
     (let value = strip host_filter
      in if value = [] then Inr []
         else if length value > 255 \<or> \<not> list_all filter_char value \<or> is_infix ''..'' value then Inl Bad_Host_Filter
         else Inr value)"

definition is_octal :: "char \<Rightarrow> bool" where
  "is_octal c = (is_digit c \<and> digit_of c < 8)"

definition num_part_ok :: "string \<Rightarrow> bool" where
  "num_part_ok p =
     ((starts_with ''0x'' p \<or> starts_with ''0X'' p) \<and> list_all is_hex (drop 2 p) \<or> p \<noteq> [] \<and> list_all is_digit p)"

definition num_part :: "string \<Rightarrow> int option" where
  "num_part p =
     (if starts_with ''0x'' p \<or> starts_with ''0X'' p then Some (int_value 16 0 (map hex_of (drop 2 p)))
      else if length p > 1 \<and> starts_with ''0'' p
      then (if list_all is_octal p then Some (int_value 8 0 (map digit_of p)) else None)
      else Some (decimal p))"

definition parse_ipv4_loose :: "string \<Rightarrow> ipaddr option" where
  "parse_ipv4_loose host =
     (let parts = split_on (CHR ''.'') host
      in if length parts > 4 \<or> \<not> list_all num_part_ok parts then None
         else case those (map num_part parts) of
                None \<Rightarrow> None
              | Some nums \<Rightarrow>
                  (let last_size = 256 ^ (5 - length parts)
                   in if list_ex (\<lambda>n. n > 255) (butlast nums) \<or> last nums \<ge> last_size then None
                      else Some (V4 (int_value 256 0 (butlast nums) * last_size + last nums))))"

definition literal_address :: "string \<Rightarrow> ipaddr option" where
  "literal_address host = (case ip_address host of Some a \<Rightarrow> Some a | None \<Rightarrow> parse_ipv4_loose host)"

section \<open>Addresses that must not be contacted\<close>

definition always_blocked_nets :: "network list" where
  "always_blocked_nets = [v4net 0 0 0 0 8, v4net 169 254 0 0 16, v4net 100 100 100 200 32, v4net 168 63 129 16 32,
     v6net [0xfd00, 0xec2] 32]"

definition cgnat :: network where "cgnat = v4net 100 64 0 0 10"
definition nat64 :: network where "nat64 = v6net [0x64, 0xff9b] 96"

definition embedded_v4 :: "ipaddr \<Rightarrow> ipaddr" where
  "embedded_v4 a =
     (case a of
        V4 _ \<Rightarrow> a
      | V6 n \<Rightarrow> (case ipv4_mapped a of Some m \<Rightarrow> m | None \<Rightarrow> if in_network a nat64 then V4 (n mod 2 ^ 32) else a))"

definition address_problem :: "ipaddr \<Rightarrow> bool \<Rightarrow> string option" where
  "address_problem addr allow_private =
     (let a = embedded_v4 addr
      in if is_unspecified a \<or> is_multicast a \<or> is_link_local a \<or> list_ex (in_network a) always_blocked_nets
         then Some ''a blocked address (link-local, metadata, unspecified or multicast)''
         else if allow_private then None
         else if is_loopback a then Some ''a loopback address''
         else if is_private a \<or> is_reserved a \<or> \<not> is_global a \<or> in_network a cgnat
         then Some ''a private or non-routable address''
         else None)"

definition sock_address :: "string \<Rightarrow> ipaddr option" where
  "sock_address raw = ip_address (fst (partition_on (CHR ''%'') raw))"

fun check_infos :: "string \<Rightarrow> bool \<Rightarrow> string list \<Rightarrow> refusal option" where
  "check_infos host allow_private [] = None"
| "check_infos host allow_private (raw # rest) =
     (case sock_address raw of
        None \<Rightarrow> Some (Unparseable host)
      | Some addr \<Rightarrow>
          (case address_problem addr allow_private of
             Some problem \<Rightarrow> Some (Resolves_To host problem)
           | None \<Rightarrow> check_infos host allow_private rest))"

definition resolve_checked :: "resolver \<Rightarrow> string \<Rightarrow> int option \<Rightarrow> bool \<Rightarrow> refusal + string list" where
  "resolve_checked dns host port allow_private =
     (case dns host port of
        None \<Rightarrow> Inl (Unresolved host)
      | Some infos \<Rightarrow>
          (if infos = [] then Inl (No_Addresses host)
           else case check_infos host allow_private infos of Some r \<Rightarrow> Inl r | None \<Rightarrow> Inr infos))"

section \<open>URLs\<close>

definition metadata_hosts :: "string list" where
  "metadata_hosts = [''metadata.google.internal'', ''metadata.google.com'', ''metadata'', ''instance-data'',
     ''instance-data.ec2.internal'']"

definition not_global_info :: "string \<Rightarrow> bool" where
  "not_global_info raw = (case sock_address raw of Some a \<Rightarrow> \<not> is_global a | None \<Rightarrow> False)"

definition host_name :: "string \<Rightarrow> string" where
  "host_name host = rev (dropWhile (\<lambda>c. c = CHR ''.'') (rev (lower host)))"

text \<open>The target's addresses: refused, or whether all of them are private.\<close>

definition check_target ::
  "resolver \<Rightarrow> string \<Rightarrow> string \<Rightarrow> int option \<Rightarrow> bool \<Rightarrow> bool \<Rightarrow> refusal + bool" where
  "check_target dns scheme lowered port allow_private resolve =
     (case literal_address lowered of
        Some literal \<Rightarrow>
          (case address_problem literal allow_private of
             Some problem \<Rightarrow> Inl (Targets problem)
           | None \<Rightarrow> Inr (\<not> is_global literal))
      | None \<Rightarrow>
          (if resolve
           then let p = (case port of Some n \<Rightarrow> if n = 0 then None else Some n | None \<Rightarrow> None);
                    p = (case p of Some n \<Rightarrow> n | None \<Rightarrow> if scheme = ''https'' then 443 else 80)
                in case resolve_checked dns lowered (Some p) allow_private of
                     Inl r \<Rightarrow> Inl r
                   | Inr infos \<Rightarrow> Inr (list_all not_global_info infos)
           else Inr False))"

definition validate_outbound_url ::
  "environ \<Rightarrow> resolver \<Rightarrow> string \<Rightarrow> bool \<Rightarrow> bool \<Rightarrow> bool \<Rightarrow> refusal + string" where
  "validate_outbound_url env dns url0 allow0 require_https resolve =
     (let url = strip url0; allow_private = (allow0 \<or> env_flag env ''NETLOG_ALLOW_PRIVATE_OUTBOUND'')
      in if url = [] then Inl Url_Required
         else case urlparse url of
                None \<Rightarrow> Inl Malformed_Url
              | Some parsed \<Rightarrow>
                  (let scheme = up_scheme parsed; host = url_host parsed; lowered = host_name host
                   in if scheme \<noteq> ''http'' \<and> scheme \<noteq> ''https'' then Inl (Bad_Scheme scheme)
                      else if host = [] then Inl Missing_Host
                      else case url_port parsed of
                             None \<Rightarrow> Inl Invalid_Port
                           | Some port \<Rightarrow>
                               (if require_https \<and> has_userinfo parsed then Inl Embedded_Credentials
                                else if lowered \<in> set metadata_hosts \<or> ends_with ''.metadata.google.internal'' lowered
                                then Inl Metadata_Host
                                else if \<not> allow_private \<and> (lowered = ''localhost'' \<or> ends_with ''.localhost'' lowered)
                                then Inl Localhost_Host
                                else case check_target dns scheme lowered port allow_private resolve of
                                       Inl r \<Rightarrow> Inl r
                                     | Inr private_only \<Rightarrow>
                                         (if require_https \<and> scheme \<noteq> ''https''
                                             \<and> \<not> (env_flag env ''NETLOG_ALLOW_INSECURE_HTTP'' \<or> (allow_private \<and> private_only))
                                          then Inl Needs_Https else Inr url))))"

section \<open>Credentials of the environment\<close>

definition env_values :: "environ \<Rightarrow> string list \<Rightarrow> string list" where
  "env_values env names = filter (\<lambda>v. v \<noteq> []) (map (env_text env) names)"

definition strip_right :: "char \<Rightarrow> string \<Rightarrow> string" where
  "strip_right x s = rev (dropWhile (\<lambda>c. c = x) (rev s))"

definition endpoint_key :: "string \<Rightarrow> (string \<times> string \<times> int \<times> string) option" where
  "endpoint_key url =
     (case urlparse (strip url) of
        None \<Rightarrow> None
      | Some parsed \<Rightarrow>
          (let host = host_name (url_host parsed); scheme = up_scheme parsed
           in if (scheme \<noteq> ''http'' \<and> scheme \<noteq> ''https'') \<or> host = [] then None
              else case url_port parsed of
                     None \<Rightarrow> None
                   | Some port \<Rightarrow>
                       (let p = (case port of Some n \<Rightarrow> n | None \<Rightarrow> 0);
                            p = (if p \<noteq> 0 then p else if scheme = ''https'' then 443 else 80)
                        in Some (scheme, host, p, strip_right (CHR ''/'') (up_path parsed)))))"

definition endpoints_match :: "string \<Rightarrow> string \<Rightarrow> bool" where
  "endpoints_match left right = (endpoint_key left \<noteq> None \<and> endpoint_key left = endpoint_key right)"

definition uses_env_credentials :: "(string \<times> string) list \<Rightarrow> (string \<times> string list) list \<Rightarrow> bool" where
  "uses_env_credentials supplied env_creds =
     list_ex (\<lambda>(name, value). value \<noteq> [] \<and> value \<in> set (dict_get env_creds name [])) supplied"

definition require_env_bound_target ::
  "string \<Rightarrow> string \<Rightarrow> (string \<times> string) list \<Rightarrow> (string \<times> string list) list \<Rightarrow> string list \<Rightarrow> refusal + bool" where
  "require_env_bound_target service url supplied env_creds env_urls =
     (if \<not> uses_env_credentials supplied env_creds then Inr False
      else if list_ex (\<lambda>env_url. env_url \<noteq> [] \<and> endpoints_match url env_url) env_urls then Inr True
      else Inl (Env_Credentials service))"

section \<open>The guarded opener\<close>

text \<open>One TCP connect: the addresses tried and the one that answered.\<close>

fun try_connect :: "(string \<Rightarrow> bool) \<Rightarrow> string list \<Rightarrow> string list \<times> string option" where
  "try_connect up [] = ([], None)"
| "try_connect up (a # rest) =
     (if up a then ([a], Some a) else (case try_connect up rest of (tried, r) \<Rightarrow> (a # tried, r)))"

definition guarded_create_connection ::
  "resolver \<Rightarrow> (string \<Rightarrow> bool) \<Rightarrow> bool \<Rightarrow> string \<Rightarrow> int option \<Rightarrow> string list \<times> (refusal + string)" where
  "guarded_create_connection dns up allow_private host port =
     (case resolve_checked dns host port allow_private of
        Inl r \<Rightarrow> ([], Inl r)
      | Inr infos \<Rightarrow>
          (case try_connect up infos of
             (tried, Some a) \<Rightarrow> (tried, Inr a)
           | (tried, None) \<Rightarrow> (tried, Inl No_Connection)))"

definition redirect_codes :: "int list" where
  "redirect_codes = [301, 302, 303, 307, 308]"

text \<open>The reply's status and whether it names a location.\<close>

definition open_reply :: "string \<Rightarrow> int \<times> bool \<Rightarrow> refusal + string \<times> int" where
  "open_reply addr reply =
     (let (code, location) = reply
      in if code \<in> set redirect_codes \<and> location then Inl (Redirected code)
         else if 200 \<le> code \<and> code < 300 then Inr (addr, code)
         else Inl (Http_Error code))"

definition proxied :: "string list \<Rightarrow> (string \<Rightarrow> bool) \<Rightarrow> string \<Rightarrow> bool option" where
  "proxied proxies bypass url =
     map_option (\<lambda>u. up_scheme u \<in> set proxies \<and> \<not> bypass (url_host u)) (urlparse url)"

text \<open>
  \<open>dns\<close> answers the check and \<open>dns'\<close> the connect; \<open>target\<close> is the host and port \<open>http.client\<close> reads from the
  request. The result lists the addresses this process connected to itself (none through a proxy).
\<close>

definition safe_urlopen ::
  "environ \<Rightarrow> resolver \<Rightarrow> resolver \<Rightarrow> (string \<Rightarrow> bool) \<Rightarrow> (string \<Rightarrow> int \<times> bool) \<Rightarrow> string list \<Rightarrow> (string \<Rightarrow> bool) \<Rightarrow>
   (string \<Rightarrow> string \<times> int option) \<Rightarrow> string \<Rightarrow> bool \<Rightarrow> bool \<Rightarrow> string list \<times> (refusal + string \<times> int)" where
  "safe_urlopen env dns dns' up serve proxies bypass target url allow_private require_https =
     (case proxied proxies bypass url of
        None \<Rightarrow> ([], Inl Malformed_Url)
      | Some via \<Rightarrow>
          (case validate_outbound_url env dns url allow_private require_https (\<not> via) of
             Inl r \<Rightarrow> ([], Inl r)
           | Inr _ \<Rightarrow>
               (if via then ([], open_reply ''proxy'' (serve ''proxy''))
                else case target url of
                       (host, port) \<Rightarrow>
                         (case guarded_create_connection dns' up allow_private host port of
                            (tried, Inl r) \<Rightarrow> (tried, Inl r)
                          | (tried, Inr a) \<Rightarrow> (tried, open_reply a (serve a))))))"

section \<open>Sources\<close>

record source_config =
  sc_id :: string
  sc_type :: string
  sc_url :: string
  sc_auth_methods :: "string list"
  sc_api_token :: string
  sc_username :: string
  sc_password :: string
  sc_cookies :: "(string \<times> string) list"
  sc_extra :: "(string \<times> string) list"
  sc_allow_private :: bool

definition operator_configured :: "environ \<Rightarrow> source_config \<Rightarrow> bool" where
  "operator_configured env config =
     (let url = strip (sc_url config)
      in if url = [] then False
         else if env_text env (''NETLOG_SOURCE_'' @ sc_id config @ ''_URL'') = url then True
         else sc_id config = ''solarwinds'' \<and> env_text env ''SOLARWINDS_URL'' = url)"

definition source_allow_private :: "environ \<Rightarrow> source_config \<Rightarrow> bool" where
  "source_allow_private env config =
     (if sc_allow_private config \<or> env_flag env ''NETLOG_ALLOW_PRIVATE_OUTBOUND'' then True
      else if operator_configured env config then True
      else let asked = lower (strip (dict_get (sc_extra config) ''allow_private'' [])) \<in> set true_words
           in asked \<and> env_flag env (''NETLOG_SOURCE_'' @ sc_id config @ ''_ALLOW_PRIVATE''))"

record 'a registry =
  rg_factories :: "(string \<times> (source_config \<Rightarrow> 'a)) list"
  rg_outbound :: "string list"

definition register :: "string \<Rightarrow> (source_config \<Rightarrow> 'a) \<Rightarrow> bool \<Rightarrow> 'a registry \<Rightarrow> refusal + 'a registry" where
  "register kind factory outbound reg =
     (if kind = [] then Inl Bad_Registration
      else Inr (reg\<lparr>rg_factories := AList.update kind factory (rg_factories reg),
                    rg_outbound := (if outbound then List.insert kind (rg_outbound reg) else removeAll kind (rg_outbound reg))\<rparr>))"

definition create :: "environ \<Rightarrow> resolver \<Rightarrow> source_config \<Rightarrow> 'a registry \<Rightarrow> refusal + 'a" where
  "create env dns config reg =
     (case map_of (rg_factories reg) (sc_type config) of
        None \<Rightarrow> Inl (Unknown_Source (sc_type config))
      | Some factory \<Rightarrow>
          (if sc_type config \<in> set (rg_outbound reg)
           then (case validate_outbound_url env dns (sc_url config) (source_allow_private env config) False True of
                   Inl r \<Rightarrow> Inl r
                 | Inr _ \<Rightarrow> Inr (factory config))
           else Inr (factory config)))"

text \<open>A redirect of a guarded session is followed only if its joined target passes the guard.\<close>

definition check_redirect :: "environ \<Rightarrow> resolver \<Rightarrow> bool \<Rightarrow> string option \<Rightarrow> refusal + unit" where
  "check_redirect env dns allow_private target =
     (case target of
        None \<Rightarrow> Inr ()
      | Some url \<Rightarrow> (case validate_outbound_url env dns url allow_private False True of Inl r \<Rightarrow> Inl r | Inr _ \<Rightarrow> Inr ()))"

record auth =
  au_headers :: "(string \<times> string) list"
  au_cookies :: "(string \<times> string) list"
  au_basic :: "(string \<times> string) option"

definition auth_of :: "string \<Rightarrow> string \<Rightarrow> source_config \<Rightarrow> string \<Rightarrow> auth option" where
  "auth_of token_header token_scheme config method =
     (if method = ''api_token'' \<and> sc_api_token config \<noteq> []
      then Some \<lparr>au_headers = [(token_header, strip (token_scheme @ '' '' @ sc_api_token config))], au_cookies = [], au_basic = None\<rparr>
      else if method = ''basic'' \<and> sc_username config \<noteq> [] \<and> sc_password config \<noteq> []
      then Some \<lparr>au_headers = [], au_cookies = [], au_basic = Some (sc_username config, sc_password config)\<rparr>
      else if method = ''cookie'' \<and> sc_cookies config \<noteq> []
      then Some \<lparr>au_headers = [], au_cookies = sc_cookies config, au_basic = None\<rparr>
      else None)"

fun first_auth :: "string \<Rightarrow> string \<Rightarrow> source_config \<Rightarrow> string list \<Rightarrow> refusal + auth" where
  "first_auth token_header token_scheme config [] = Inl (No_Auth (sc_id config))"
| "first_auth token_header token_scheme config (m # ms) =
     (case auth_of token_header token_scheme config m of
        Some a \<Rightarrow> Inr a
      | None \<Rightarrow> first_auth token_header token_scheme config ms)"

definition build_auth :: "source_config \<Rightarrow> string \<Rightarrow> string \<Rightarrow> refusal + auth" where
  "build_auth config token_header token_scheme =
     first_auth token_header token_scheme config
       (if sc_auth_methods config = [] then [''api_token'', ''basic'', ''cookie''] else sc_auth_methods config)"

end
