(* ===== verification/Outbound_Ranges.thy ===== *)
theory Outbound_Ranges
  imports Outbound
begin

text \<open>
  What an address that passes \<open>address_problem\<close> is, in ranges instead of tables, and that every parsed
  address is a number of its version's width.
\<close>

section \<open>Networks as ranges\<close>

lemma div_eq_iff: "(m :: int) > 0 \<Longrightarrow> n div m = q \<longleftrightarrow> q * m \<le> n \<and> n < q * m + m"
proof
  assume m: "m > 0" and "n div m = q"
  then have "n = q * m + n mod m" by auto
  then show "q * m \<le> n \<and> n < q * m + m" using m pos_mod_bound [of m n] pos_mod_sign [of m n] by linarith
next
  assume m: "m > 0" and q: "q * m \<le> n \<and> n < q * m + m"
  show "n div m = q" by (rule int_div_pos_eq [of _ _ _ "n - q * m"]) (use m q in simp_all)
qed

lemma in_network_range:
  "in_network (V4 n) (V4 b, p) \<longleftrightarrow>
     b div 2 ^ (32 - p) * 2 ^ (32 - p) \<le> n \<and> n < b div 2 ^ (32 - p) * 2 ^ (32 - p) + 2 ^ (32 - p)"
  "in_network (V6 n) (V6 b, p) \<longleftrightarrow>
     b div 2 ^ (128 - p) * 2 ^ (128 - p) \<le> n \<and> n < b div 2 ^ (128 - p) * 2 ^ (128 - p) + 2 ^ (128 - p)"
  using div_eq_iff by simp_all

text \<open>The special-purpose IPv4 ranges, as first and last address.\<close>

definition v4_at :: "int \<Rightarrow> int \<Rightarrow> int \<Rightarrow> int \<Rightarrow> int" where
  "v4_at a b c d = ((a * 256 + b) * 256 + c) * 256 + d"

definition special_v4 :: "(int \<times> int) list" where
  "special_v4 =
     [(v4_at 0 0 0 0, v4_at 0 255 255 255), (v4_at 10 0 0 0, v4_at 10 255 255 255),
      (v4_at 100 64 0 0, v4_at 100 127 255 255), (v4_at 127 0 0 0, v4_at 127 255 255 255),
      (v4_at 168 63 129 16, v4_at 168 63 129 16), (v4_at 169 254 0 0, v4_at 169 254 255 255),
      (v4_at 172 16 0 0, v4_at 172 31 255 255), (v4_at 192 0 0 0, v4_at 192 0 0 8),
      (v4_at 192 0 0 11, v4_at 192 0 0 255), (v4_at 192 0 2 0, v4_at 192 0 2 255),
      (v4_at 192 168 0 0, v4_at 192 168 255 255), (v4_at 198 18 0 0, v4_at 198 19 255 255),
      (v4_at 198 51 100 0, v4_at 198 51 100 255), (v4_at 203 0 113 0, v4_at 203 0 113 255),
      (v4_at 224 0 0 0, v4_at 255 255 255 255)]"

definition public_v4 :: "int \<Rightarrow> bool" where
  "public_v4 n \<longleftrightarrow> (\<forall>(first, final)\<in>set special_v4. n < first \<or> final < n)"

definition in_v4 :: "int \<Rightarrow> bool" where "in_v4 n \<longleftrightarrow> 0 \<le> n \<and> n < 2 ^ 32"

lemmas address_tables = address_problem_def embedded_v4_def ipv4_mapped_def is_unspecified_def is_multicast_def
  is_link_local_def is_loopback_def is_private_def is_reserved_def is_global_def always_blocked_nets_def cgnat_def nat64_def
  private_networks_def private_exceptions_def reserved_networks_def v4net_def v6net_def

lemma problem_v4:
  assumes "in_v4 n"
  shows "address_problem (V4 n) False = None \<longleftrightarrow> public_v4 n"
  using assms
  by (simp add: address_tables div_eq_iff public_v4_def special_v4_def v4_at_def in_v4_def Let_def) presburger

text \<open>
  Of IPv6 two blocks are left: global unicast \<open>2000::/3\<close>, less 6to4 and documentation addresses, and the old
  site-local block \<open>fec0::/10\<close>, which none of the tables names.
\<close>

definition site_local :: "int \<Rightarrow> bool" where
  "site_local n \<longleftrightarrow> n div 2 ^ 118 = 0xfec0 div 2 ^ 6"

definition public_v6 :: "int \<Rightarrow> bool" where
  "public_v6 n \<longleftrightarrow> n div 2 ^ 125 = 1 \<and> n div 2 ^ 112 \<noteq> 0x2002 \<and> n div 2 ^ 96 \<noteq> 0x20010db8"

definition in_v6 :: "int \<Rightarrow> bool" where "in_v6 n \<longleftrightarrow> 0 \<le> n \<and> n < 2 ^ 128"

definition public_address :: "ipaddr \<Rightarrow> bool" where
  "public_address a = (case embedded_v4 a of V4 n \<Rightarrow> public_v4 n | V6 n \<Rightarrow> public_v6 n \<or> site_local n)"

lemma in_top16:
  assumes "p \<le> 16"
  shows "in_network (V6 n) (v6net [x] p) \<longleftrightarrow> n div 2 ^ 112 div 2 ^ (16 - p) = x div 2 ^ (16 - p)"
proof -
  have "128 - p = 112 + (16 - p)" using assms by simp
  then have "(2 :: int) ^ (128 - p) = 2 ^ 112 * 2 ^ (16 - p)" by (simp only: power_add)
  then have d: "m div 2 ^ (128 - p) = m div 2 ^ 112 div 2 ^ (16 - p)" for m :: int
    by (simp add: zdiv_zmult2_eq)
  have "x * 65536 ^ 7 div 2 ^ 112 = x" by simp
  then show ?thesis by (simp add: v6net_def d)
qed

lemma problem_v6:
  assumes "in_v6 n" and "address_problem (V6 n) False = None" and "embedded_v4 (V6 n) = V6 n"
  shows "public_v6 n \<or> site_local n"
proof -
  have no: "\<not> is_reserved (V6 n)" "\<not> is_private (V6 n)" "\<not> is_multicast (V6 n)" "\<not> is_link_local (V6 n)"
    using assms(2,3) by (auto simp: address_problem_def Let_def split: if_splits)
  define h where "h = n div 2 ^ 112"
  have h: "0 \<le> h" "h < 65536"
    using assms(1) div_eq_iff [of "2 ^ 112" n h] by (simp_all add: h_def in_v6_def div_pos_pos_trivial zdiv_mono1)
  define g where "g = n div 2 ^ 96"
  have hg: "h = g div 65536" using zdiv_zmult2_eq [of "2 ^ 16" n "2 ^ 96"] by (simp add: h_def g_def)
  have "ipv4_mapped (V6 n) = None" using assms(3) by (auto simp: embedded_v4_def ipv4_mapped_def split: if_splits)
  then have "\<not> in_network (V6 n) (v6net [0x2002] 16) \<and> \<not> in_network (V6 n) (v6net [0x2001, 0xdb8] 32) \<and>
      \<not> in_network (V6 n) (v6net [0xfc00] 7) \<or> list_ex (in_network (V6 n)) private_exceptions"
    using no(2) by (simp add: is_private_def private_networks_def Let_def) blast
  then have priv: "h \<noteq> 0x2002 \<and> g \<noteq> 0x20010db8 \<and> h div 512 \<noteq> 126"
  proof
    assume "list_ex (in_network (V6 n)) private_exceptions"
    then have "g div 16 \<in> {0x2001000, 0x2001002, 0x2001003}"
      using zdiv_zmult2_eq [of "2 ^ 4" n "2 ^ 96"] zdiv_zmult2_eq [of "2 ^ 20" n "2 ^ 80"]
      by (auto simp: private_exceptions_def v6net_def v4net_def g_def)
    then show ?thesis using hg by auto
  qed (simp add: in_top16, simp add: v6net_def g_def h_def)
  have top: "in_network (V6 n) (v6net [x] p) \<longleftrightarrow> h div 2 ^ (16 - p) = x div 2 ^ (16 - p)" if "p \<le> 16" for x p
    using in_top16 [OF that] by (simp add: h_def)
  have "8192 \<le> h \<and> h < 16384 \<or> 65216 \<le> h \<and> h < 65280"
    using no(1,3,4) h priv unfolding is_reserved_def reserved_networks_def is_multicast_def is_link_local_def
    by (cases "h < 16384") (simp_all add: top div_eq_iff v4net_def not_less)
  then have "h div 8192 = 1 \<or> h div 64 = 1019" by auto
  moreover have "n div 2 ^ 125 = h div 8192" "n div 2 ^ 118 = h div 64"
    using zdiv_zmult2_eq [of "2 ^ 13" n "2 ^ 112"] zdiv_zmult2_eq [of "2 ^ 6" n "2 ^ 112"] by (simp_all add: h_def)
  ultimately show ?thesis using priv by (auto simp: public_v6_def site_local_def h_def g_def)
qed

definition in_range :: "ipaddr \<Rightarrow> bool" where
  "in_range a = (case a of V4 n \<Rightarrow> in_v4 n | V6 n \<Rightarrow> in_v6 n)"

lemma embedded_in_range: "in_range a \<Longrightarrow> in_range (embedded_v4 a)"
  by (auto simp: in_range_def in_v4_def embedded_v4_def ipv4_mapped_def split: ipaddr.splits)

lemma embedded_idem: "embedded_v4 (embedded_v4 a) = embedded_v4 a"
  by (auto simp: embedded_v4_def ipv4_mapped_def split: ipaddr.splits)

lemma problem_embedded: "address_problem (embedded_v4 a) p = address_problem a p"
  by (simp add: address_problem_def embedded_idem)

lemma address_problem_public:
  assumes "in_range a" and "address_problem a False = None"
  shows "public_address a"
proof (cases "embedded_v4 a")
  case (V4 n)
  then show ?thesis
    using embedded_in_range [OF assms(1)] assms(2) problem_v4 [of n] problem_embedded [of a False]
    by (simp add: public_address_def in_range_def)
next
  case (V6 n)
  then show ?thesis
    using embedded_in_range [OF assms(1)] assms(2) problem_v6 [of n] problem_embedded [of a False] embedded_idem [of a]
    by (simp add: public_address_def in_range_def)
qed

text \<open>Link-local, metadata, unspecified and multicast addresses are refused even when private ones are allowed.\<close>

definition never_v4 :: "(int \<times> int) list" where
  "never_v4 = [(v4_at 0 0 0 0, v4_at 0 255 255 255), (v4_at 100 100 100 200, v4_at 100 100 100 200),
     (v4_at 168 63 129 16, v4_at 168 63 129 16), (v4_at 169 254 0 0, v4_at 169 254 255 255),
     (v4_at 224 0 0 0, v4_at 239 255 255 255)]"

lemma problem_v4_private:
  "in_v4 n \<Longrightarrow> address_problem (V4 n) True = None \<longleftrightarrow> (\<forall>(first, final)\<in>set never_v4. n < first \<or> final < n)"
  by (simp add: address_tables div_eq_iff never_v4_def v4_at_def in_v4_def Let_def) presburger

section \<open>Parsed addresses are in range\<close>

lemma hextets_value_bound:
  "\<forall>h\<in>set hs. 0 \<le> h \<and> h < 65536 \<Longrightarrow> 0 \<le> a \<and> a < 65536 ^ k \<Longrightarrow>
    0 \<le> hextets_value a hs \<and> hextets_value a hs < 65536 ^ (k + length hs)"
proof (induction hs arbitrary: a k)
  case (Cons h hs)
  have "0 \<le> a * 65536 + h \<and> a * 65536 + h < 65536 ^ Suc k" using Cons.prems by auto
  from Cons.IH [OF _ this] Cons.prems show ?case by simp
qed simp

lemma int_value_bound:
  "\<forall>d\<in>set ds. 0 \<le> d \<and> d < b \<Longrightarrow> 0 \<le> a \<and> a < b ^ k \<Longrightarrow> 0 < b \<Longrightarrow>
    0 \<le> int_value b a ds \<and> int_value b a ds < b ^ (k + length ds)"
proof (induction ds arbitrary: a k)
  case (Cons d ds)
  have "b * a + d < b * (a + 1)" using Cons.prems by (simp add: algebra_simps)
  also have "\<dots> \<le> b * b ^ k" using Cons.prems by (intro mult_left_mono) auto
  finally have "0 \<le> b * a + d \<and> b * a + d < b ^ Suc k" using Cons.prems by simp
  from Cons.IH [OF _ this] Cons.prems show ?case by simp
qed simp

lemma those_Some: "those xs = Some ys \<Longrightarrow> xs = map Some ys"
  by (induction xs arbitrary: ys) (auto split: option.splits)

lemma of_char_int: "(of_char c :: int) = int (of_char c)"
  by (simp add: of_nat_of_char)

lemma digit_of_bound: "is_digit c \<Longrightarrow> 0 \<le> digit_of c \<and> digit_of c < 10"
  by (simp add: digit_of_def is_digit_def of_char_int Let_def)

lemma hex_of_bound: "is_hex c \<Longrightarrow> 0 \<le> hex_of c \<and> hex_of c < 16"
  by (auto simp: hex_of_def is_hex_def is_digit_def of_char_int Let_def)

lemma octet_bound: "octet s = Some n \<Longrightarrow> 0 \<le> n \<and> n < 256"
  using int_value_bound [of "map digit_of s" 10 0 0] digit_of_bound
  by (auto simp: octet_def decimal_def list_all_iff split: if_splits)

lemma dotted_quad_bound: "dotted_quad s = Some n \<Longrightarrow> in_v4 n"
proof -
  assume a: "dotted_quad s = Some n"
  then obtain os where o: "those (map octet (split_on (CHR ''.'') s)) = Some os" "n = int_value 256 0 os"
    and l: "length (split_on (CHR ''.'') s) = 4"
    by (auto simp: dotted_quad_def Let_def split: if_splits)
  have m: "map octet (split_on (CHR ''.'') s) = map Some os" using those_Some [OF o(1)] .
  then have "length os = 4" using l by (metis length_map)
  moreover have "0 \<le> d \<and> d < 256" if "d \<in> set os" for d
  proof -
    have "Some d \<in> set (map octet (split_on (CHR ''.'') s))" using that m by simp
    then show ?thesis using octet_bound by auto
  qed
  ultimately show ?thesis using int_value_bound [of os 256 0 0] by (simp add: o(2) in_v4_def)
qed

lemma hextet_bound:
  assumes "hextet p = Some h" and "\<And>n. p = Half n \<Longrightarrow> 0 \<le> n \<and> n < 65536"
  shows "0 \<le> h \<and> h < 65536"
proof (cases p)
  case (Text s)
  then have s: "length s \<le> 4" "list_all is_hex s" "h = int_value 16 0 (map hex_of s)" using assms by (auto split: if_splits)
  have "0 \<le> h \<and> h < 16 ^ length s"
    using int_value_bound [of "map hex_of s" 16 0 0] s hex_of_bound by (auto simp: list_all_iff)
  moreover have "(16 :: int) ^ length s \<le> 16 ^ 4" using s(1) by (intro power_increasing) auto
  ultimately show ?thesis by simp
qed (use assms in auto)

lemma those_hextets_bound:
  assumes "those (map hextet ps) = Some hs" and "\<forall>p\<in>set ps. \<forall>n. p = Half n \<longrightarrow> 0 \<le> n \<and> n < 65536"
  shows "\<forall>h\<in>set hs. 0 \<le> h \<and> h < 65536" and "length hs = length ps"
proof -
  have m: "map hextet ps = map Some hs" by (rule those_Some [OF assms(1)])
  then show "length hs = length ps" by (metis length_map)
  have "0 \<le> h \<and> h < 65536" if "h \<in> set hs" for h
  proof -
    have "Some h \<in> set (map hextet ps)" using that m by simp
    then obtain p where "p \<in> set ps" "hextet p = Some h" by auto
    then show ?thesis using hextet_bound assms(2) by metis
  qed
  then show "\<forall>h\<in>set hs. 0 \<le> h \<and> h < 65536" by blast
qed

lemma v6_parts_halves:
  assumes "v6_parts s = Some ps"
  shows "\<forall>p\<in>set ps. \<forall>n. p = Half n \<longrightarrow> 0 \<le> n \<and> n < 65536"
  using assms dotted_quad_bound
  by (auto simp: v6_parts_def Let_def in_v4_def split: if_splits) fastforce+

lemma none_or: "(if b then None else x) = Some y \<longleftrightarrow> \<not> b \<and> x = Some y"
  by simp

lemma v6_value_bound:
  assumes "v6_value ps = Some n" and half: "\<forall>p\<in>set ps. \<forall>n. p = Half n \<longrightarrow> 0 \<le> n \<and> n < 65536"
  shows "in_v6 n"
proof -
  have part: "\<forall>p\<in>set (take k ps). \<forall>n. p = Half n \<longrightarrow> 0 \<le> n \<and> n < 65536"
    "\<forall>p\<in>set (drop k ps). \<forall>n. p = Half n \<longrightarrow> 0 \<le> n \<and> n < 65536" for k
    using half by (auto dest: in_set_takeD in_set_dropD)
  show ?thesis
  proof (cases "filter (\<lambda>i. ps ! i = Text []) [1..<length ps - 1]")
    case Nil
    then obtain hs where hs: "those (map hextet ps) = Some hs" "length ps = 8" "n = hextets_value 0 hs"
      using assms(1) by (auto simp: v6_value_def Let_def split: if_splits)
    then show ?thesis using those_hextets_bound [OF hs(1) half] hextets_value_bound [of hs 0 0] by (simp add: in_v6_def)
  next
    case (Cons i rest)
    define hi where "hi = (if ps ! 0 = Text [] then i - 1 else i)"
    define lo where "lo = (if ps ! (length ps - 1) = Text [] then length ps - i - 2 else length ps - i - 1)"
    have le: "hi + lo < 8" and "(case (those (map hextet (take hi ps)), those (map hextet (drop (length ps - lo) ps))) of
        (Some f, Some g) \<Rightarrow> Some (hextets_value (hextets_value 0 f * 65536 ^ (8 - (hi + lo))) g) | _ \<Rightarrow> None) = Some n"
      using assms(1) unfolding v6_value_def Let_def Cons hi_def lo_def by (simp_all add: none_or split del: if_split)
    then obtain xs ys where f: "those (map hextet (take hi ps)) = Some xs"
      and b: "those (map hextet (drop (length ps - lo) ps)) = Some ys"
      and n: "n = hextets_value (hextets_value 0 xs * 65536 ^ (8 - (hi + lo))) ys"
      by (auto split: option.splits)
    note fb = those_hextets_bound [OF f part(1)]
    note bb = those_hextets_bound [OF b part(2)]
    have "0 \<le> hextets_value 0 xs \<and> hextets_value 0 xs < 65536 ^ hi"
    proof -
      have "0 \<le> hextets_value 0 xs \<and> hextets_value 0 xs < 65536 ^ length xs"
        using hextets_value_bound [of xs 0 0] fb(1) by simp
      moreover have "(65536 :: int) ^ length xs \<le> 65536 ^ hi" using fb(2) by (intro power_increasing) auto
      ultimately show ?thesis by linarith
    qed
    moreover have "(65536 :: int) ^ (8 - lo) = 65536 ^ hi * 65536 ^ (8 - (hi + lo))" using le by (simp flip: power_add)
    ultimately have "0 \<le> hextets_value 0 xs * 65536 ^ (8 - (hi + lo)) \<and>
        hextets_value 0 xs * 65536 ^ (8 - (hi + lo)) < 65536 ^ (8 - lo)"
      by (auto intro!: mult_strict_right_mono)
    from hextets_value_bound [OF bb(1) this]
    have "0 \<le> n \<and> n < 65536 ^ (8 - lo + length ys)" by (simp add: n)
    moreover have "(65536 :: int) ^ (8 - lo + length ys) \<le> 65536 ^ 8" using bb(2) le by (intro power_increasing) auto
    ultimately show ?thesis by (simp add: in_v6_def)
  qed
qed

lemma ip_address_range: "ip_address s = Some a \<Longrightarrow> in_range a"
  using dotted_quad_bound v6_value_bound v6_parts_halves
  by (auto simp: ip_address_def parse_v6_def in_range_def split: option.splits prod.splits if_splits Option.bind_splits)

end
