(* ===== verification/Outbound_Laws.thy ===== *)
theory Outbound_Laws
  imports Outbound_Ranges Ip_Address
begin

text \<open>
  Laws of the outbound guard: only public targets are accepted, whatever their spelling; no other address is
  contacted, whatever DNS answers; and where credentials of the environment may go.
\<close>

section \<open>What is accepted is public\<close>

lemma check_infos_None:
  "check_infos host ap infos = None \<longleftrightarrow>
     (\<forall>raw\<in>set infos. \<exists>a. sock_address raw = Some a \<and> address_problem a ap = None)"
  by (induction infos) (auto split: option.splits)

lemma resolve_checked_Inr:
  "resolve_checked dns host port ap = Inr infos \<longleftrightarrow>
     dns host port = Some infos \<and> infos \<noteq> [] \<and>
     (\<forall>raw\<in>set infos. \<exists>a. sock_address raw = Some a \<and> address_problem a ap = None)"
  using check_infos_None [of host ap infos]
  by (cases "check_infos host ap infos"; cases "dns host port = Some infos") (auto simp: resolve_checked_def split: option.splits if_splits)

lemma int_value_nonneg: "\<forall>d\<in>set ds. 0 \<le> d \<Longrightarrow> 0 \<le> b \<Longrightarrow> 0 \<le> a \<Longrightarrow> 0 \<le> int_value b a ds"
  by (induction ds arbitrary: a) simp_all

lemma digit_is_hex: "is_digit c \<Longrightarrow> is_hex c"
  by (simp add: is_hex_def Let_def)

lemma num_part_nonneg:
  assumes "num_part p = Some n" and "num_part_ok p"
  shows "0 \<le> n"
proof -
  have hex: "is_hex c \<Longrightarrow> 0 \<le> hex_of c" and dig: "is_digit c \<Longrightarrow> 0 \<le> digit_of c" for c
    using hex_of_bound digit_of_bound by blast+
  show ?thesis
  proof (cases "starts_with ''0x'' p \<or> starts_with ''0X'' p")
    case True
    then have "\<forall>c\<in>set (drop 2 p). is_hex c"
      using assms(2) digit_is_hex by (auto simp: num_part_ok_def list_all_iff dest: in_set_dropD)
    then show ?thesis using True assms(1) hex by (auto simp: num_part_def intro!: int_value_nonneg)
  next
    case False
    then show ?thesis
      using assms dig by (auto simp: num_part_def num_part_ok_def decimal_def list_all_iff split: if_splits intro!: int_value_nonneg)
  qed
qed

lemma positional_bound:
  assumes "0 \<le> v" and "v < p" and "0 \<le> l" and "l < s"
  shows "0 \<le> v * s + l \<and> v * s + l < p * (s :: int)"
proof -
  have "v * s + l < (v + 1) * s" using assms by (simp add: algebra_simps)
  also have "\<dots> \<le> p * s" using assms by (intro mult_right_mono) auto
  finally show ?thesis using assms by simp
qed

lemma loose_range:
  assumes "parse_ipv4_loose host = Some a"
  shows "in_range a"
proof -
  let ?ps = "split_on (CHR ''.'') host" and ?size = "256 ^ (5 - length (split_on (CHR ''.'') host)) :: int"
  obtain nums where nums: "those (map num_part ?ps) = Some nums"
    using assms by (auto simp: parse_ipv4_loose_def Let_def split: if_splits option.splits)
  have b: "length ?ps \<le> 4" "list_all num_part_ok ?ps" "\<not> list_ex (\<lambda>n. n > 255) (butlast nums)" "last nums < ?size"
    and a: "a = V4 (int_value 256 0 (butlast nums) * ?size + last nums)"
    using assms by (auto simp: parse_ipv4_loose_def Let_def nums split: if_splits)
  have m: "map num_part ?ps = map Some nums" by (rule those_Some [OF nums])
  then have len: "length nums = length ?ps" by (metis length_map)
  have nn: "0 \<le> n" if n: "n \<in> set nums" for n
  proof -
    have "Some n \<in> set (map num_part ?ps)" using n m by simp
    then show ?thesis using num_part_nonneg b(2) by (auto simp: list_all_iff)
  qed
  have "0 \<le> int_value 256 0 (butlast nums) \<and> int_value 256 0 (butlast nums) < 256 ^ (0 + length (butlast nums))"
    by (rule int_value_bound) (use nn b(3) in \<open>auto simp: list_ex_iff not_less dest: in_set_butlastD\<close>)
  moreover have "(256 :: int) ^ 4 = 256 ^ length (butlast nums) * ?size"
    using b(1) len by (cases ?ps) (simp_all flip: power_add)
  moreover have "nums \<noteq> []" using len by (cases ?ps) auto
  then have "0 \<le> last nums" using nn by simp
  ultimately have "0 \<le> int_value 256 0 (butlast nums) * ?size + last nums \<and>
      int_value 256 0 (butlast nums) * ?size + last nums < 256 ^ 4"
    using positional_bound [where v = "int_value 256 0 (butlast nums)" and p = "256 ^ length (butlast nums)"
        and l = "last nums" and s = ?size] b(4) by simp
  then show ?thesis by (simp add: a in_range_def in_v4_def)
qed

lemma literal_range: "literal_address host = Some a \<Longrightarrow> in_range a"
  using ip_address_range loose_range by (auto simp: literal_address_def split: option.splits)

lemma sock_range: "sock_address raw = Some a \<Longrightarrow> in_range a"
  using ip_address_range by (auto simp: sock_address_def)

definition public_answer :: "string \<Rightarrow> bool" where
  "public_answer raw \<longleftrightarrow> (\<exists>a. sock_address raw = Some a \<and> public_address a)"

lemma check_target_public:
  assumes "check_target dns scheme lowered port False True = Inr b"
  shows "case literal_address lowered of
       Some a \<Rightarrow> public_address a
     | None \<Rightarrow> \<exists>p infos. dns lowered (Some p) = Some infos \<and> infos \<noteq> [] \<and> (\<forall>raw\<in>set infos. public_answer raw)"
proof (cases "literal_address lowered")
  case (Some a)
  then have "address_problem a False = None" using assms by (auto simp: check_target_def split: option.splits)
  then show ?thesis using Some address_problem_public [OF literal_range] by simp
next
  case None
  then obtain p infos where "resolve_checked dns lowered (Some p) False = Inr infos"
    using assms by (auto simp: check_target_def Let_def split: sum.splits)
  then have r: "dns lowered (Some p) = Some infos" "infos \<noteq> []"
    and all: "\<forall>raw\<in>set infos. \<exists>a. sock_address raw = Some a \<and> address_problem a False = None"
    by (simp_all add: resolve_checked_Inr)
  have "public_answer raw" if raw: "raw \<in> set infos" for raw
  proof -
    obtain a where a: "sock_address raw = Some a" "address_problem a False = None" using bspec [OF all raw] by blast
    have "public_address a" by (rule address_problem_public [OF sock_range [OF a(1)] a(2)])
    then show ?thesis using a(1) by (simp add: public_answer_def)
  qed
  then show ?thesis using None r by auto
qed

lemma inl_or: "(if b then Inl r else x) = Inr y \<longleftrightarrow> \<not> b \<and> x = Inr y"
  by simp

lemma validate_Inr:
  assumes "validate_outbound_url env dns url ap https resolve = Inr u"
  obtains parsed port b where "u = strip url" "urlparse u = Some parsed"
    "up_scheme parsed = ''http'' \<or> up_scheme parsed = ''https''" "url_host parsed \<noteq> []" "url_port parsed = Some port"
    "https \<longrightarrow> \<not> has_userinfo parsed"
    "host_name (url_host parsed) \<notin> set metadata_hosts"
    "check_target dns (up_scheme parsed) (host_name (url_host parsed)) port
       (ap \<or> env_flag env ''NETLOG_ALLOW_PRIVATE_OUTBOUND'') resolve = Inr b"
    "https \<and> up_scheme parsed \<noteq> ''https'' \<longrightarrow> env_flag env ''NETLOG_ALLOW_INSECURE_HTTP'' \<or>
       (ap \<or> env_flag env ''NETLOG_ALLOW_PRIVATE_OUTBOUND'') \<and> b"
proof -
  let ?ap = "ap \<or> env_flag env ''NETLOG_ALLOW_PRIVATE_OUTBOUND''"
  obtain parsed where p: "urlparse (strip url) = Some parsed"
    using assms unfolding validate_outbound_url_def Let_def inl_or by (cases "urlparse (strip url)") simp_all
  note a = assms [unfolded validate_outbound_url_def Let_def inl_or p option.case]
  obtain port where port: "url_port parsed = Some port"
    using a by (cases "url_port parsed") simp_all
  note a = a [unfolded port option.case inl_or]
  obtain b where b: "check_target dns (up_scheme parsed) (host_name (url_host parsed)) port ?ap resolve = Inr b"
    using a by (cases "check_target dns (up_scheme parsed) (host_name (url_host parsed)) port ?ap resolve") simp_all
  show ?thesis
    by (rule that [OF _ _ _ _ port _ _ b]) (use a [unfolded b sum.case inl_or] p in auto)
qed

definition public_target :: "resolver \<Rightarrow> string \<Rightarrow> bool" where
  "public_target dns url \<longleftrightarrow>
     (\<exists>parsed. urlparse (strip url) = Some parsed \<and> up_scheme parsed \<in> {''http'', ''https''} \<and>
        (case literal_address (host_name (url_host parsed)) of
           Some a \<Rightarrow> public_address a
         | None \<Rightarrow> \<exists>p infos. dns (host_name (url_host parsed)) (Some p) = Some infos \<and> infos \<noteq> [] \<and>
             (\<forall>raw\<in>set infos. public_answer raw)))"

lemma accepted_public:
  assumes "validate_outbound_url env dns url False https True = Inr u"
    and "\<not> env_flag env ''NETLOG_ALLOW_PRIVATE_OUTBOUND''"
  shows "public_target dns url"
  using assms(1)
proof (rule validate_Inr)
  fix parsed port b
  assume "u = strip url" "urlparse u = Some parsed" "up_scheme parsed = ''http'' \<or> up_scheme parsed = ''https''"
    and "check_target dns (up_scheme parsed) (host_name (url_host parsed)) port
       (False \<or> env_flag env ''NETLOG_ALLOW_PRIVATE_OUTBOUND'') True = Inr b"
  then show ?thesis using check_target_public assms(2) by (auto simp: public_target_def)
qed


section \<open>What is contacted was checked\<close>

lemma try_connect_tried: "set (fst (try_connect up infos)) \<subseteq> set infos"
  by (induction infos) (auto split: prod.splits if_splits)

definition checked_answer :: "bool \<Rightarrow> string \<Rightarrow> bool" where
  "checked_answer ap raw \<longleftrightarrow> (\<exists>a. sock_address raw = Some a \<and> address_problem a ap = None)"

lemma connection_checked:
  assumes "a \<in> set (fst (guarded_create_connection dns up ap host port))"
  shows "checked_answer ap a"
proof (cases "resolve_checked dns host port ap")
  case (Inr infos)
  then have "a \<in> set infos"
    using assms subsetD [OF try_connect_tried [of up infos]]
    by (auto simp: guarded_create_connection_def split: prod.splits option.splits)
  then show ?thesis using Inr by (simp add: resolve_checked_Inr checked_answer_def)
qed (use assms in \<open>simp add: guarded_create_connection_def\<close>)

lemma connection_once: "length (filter up (fst (guarded_create_connection dns up ap host port))) \<le> 1"
proof -
  have "length (filter up (fst (try_connect up infos))) \<le> 1" for infos
    by (induction infos) (auto split: prod.splits)
  then show ?thesis by (auto simp: guarded_create_connection_def split: sum.splits prod.splits option.splits)
       (metis fst_conv)+
qed

lemma open_reply_code: "open_reply addr reply = Inr (a, code) \<Longrightarrow> code \<notin> set redirect_codes"
  by (auto simp: open_reply_def redirect_codes_def split: prod.splits if_splits)

lemma opener_checked:
  assumes "safe_urlopen env dns dns' up serve proxies bypass target url ap https = (tried, result)"
  shows "(\<forall>raw\<in>set tried. checked_answer ap raw) \<and> length (filter up tried) \<le> 1 \<and>
    (\<forall>a code. result = Inr (a, code) \<longrightarrow> code \<notin> set redirect_codes)"
proof -
  obtain host port where t: "target url = (host, port)" by (cases "target url")
  obtain tr res where g: "guarded_create_connection dns' up ap host port = (tr, res)" by fastforce
  have "tried = [] \<or> tried = tr" and "\<forall>a code. result = Inr (a, code) \<longrightarrow> code \<notin> set redirect_codes"
    using assms by (auto simp: safe_urlopen_def t g dest: open_reply_code split: option.splits sum.splits if_splits)
  moreover have "\<forall>raw\<in>set tr. checked_answer ap raw" "length (filter up tr) \<le> 1"
    using connection_checked [of _ dns' up ap host port] connection_once [of up dns' ap host port] by (simp_all add: g)
  ultimately show ?thesis by auto
qed


text \<open>
  C20: no rebinding. Every address the opener connects to passed the address check in the resolution that
  returned it, even when DNS answers the connect differently from the check and whatever host \<open>http.client\<close>
  reads from the URL; and a request sent is never repeated for a redirect.
\<close>

theorem connects_only_to_checked:
  assumes "safe_urlopen env dns dns' up serve proxies bypass target url ap https = (tried, result)"
  shows "(\<forall>raw\<in>set tried. checked_answer ap raw) \<and> length (filter up tried) \<le> 1 \<and>
    (\<forall>a code. result = Inr (a, code) \<longrightarrow> code \<notin> set redirect_codes)"
  by (rule opener_checked [OF assms])

section \<open>Spellings\<close>

lemma decimal_digits_value: "list_all is_digit s \<Longrightarrow> int_value 10 (int a) (map digit_of s) = int (digits_value a s)"
proof (induction s arbitrary: a)
  case (Cons c s)
  then have "10 * int a + digit_of c = int (10 * a + (of_char c - 48))"
    by (simp add: digit_of_def of_char_int is_digit_def Let_def of_nat_diff)
  then show ?case using Cons by (simp only: list.map int_value.simps digits_value.simps list.pred_inject)
qed simp

lemma decimal_show: "decimal (show_nat n) = int n"
  using decimal_digits_value [of "show_nat n" 0] by (simp add: decimal_def)

lemma show_nat_no_char: "\<not> is_digit x \<Longrightarrow> \<forall>c\<in>set (show_nat n). c \<noteq> x"
  using show_nat_digits by (metis list_all_iff)

lemma num_part_show: "num_part_ok (show_nat n) \<and> num_part (show_nat n) = Some (int n)"
proof -
  have no: "\<not> starts_with [a, x] (show_nat n)" if "\<not> is_digit x" for a x
  proof
    assume "starts_with [a, x] (show_nat n)"
    then have "x \<in> set (show_nat n)" by (auto simp: starts_with_iff)
    then show False using show_nat_no_char [OF that] by blast
  qed
  have "\<not> starts_with ''0x'' (show_nat n)" "\<not> starts_with ''0X'' (show_nat n)"
    by (rule no, simp add: is_digit_def)+
  moreover have "\<not> starts_with ''0'' (show_nat n)" if "length (show_nat n) > 1"
  proof (cases "n = 0")
    case True
    then show ?thesis using that by (simp add: show_nat_small)
  next
    case False
    then have "hd (show_nat n) \<noteq> CHR ''0''" by (intro show_nat_hd) simp
    then show ?thesis by (cases "show_nat n") simp_all
  qed
  ultimately show ?thesis by (auto simp: num_part_ok_def num_part_def decimal_show)
qed

text \<open>The spelling of an address in one to four decimal parts, and the number it stands for.\<close>

definition dotted :: "nat list \<Rightarrow> string" where
  "dotted ns = join_with ''.'' (map show_nat ns)"

definition dotted_value :: "nat list \<Rightarrow> int" where
  "dotted_value ns = int_value 256 0 (map int (butlast ns)) * 256 ^ (5 - length ns) + int (last ns)"

definition dotted_ok :: "nat list \<Rightarrow> bool" where
  "dotted_ok ns \<longleftrightarrow> 1 \<le> length ns \<and> length ns \<le> 4 \<and> (\<forall>n\<in>set (butlast ns). n < 256) \<and> last ns < 256 ^ (5 - length ns)"

lemma split_dotted: "ns \<noteq> [] \<Longrightarrow> split_on (CHR ''.'') (dotted ns) = map show_nat ns"
proof (induction ns rule: induct_list012)
  case (3 n m ns)
  have "dotted (n # m # ns) = show_nat n @ CHR ''.'' # dotted (m # ns)" by (simp add: dotted_def)
  then show ?case using 3 split_on_join [OF show_nat_no_dot] by simp
qed (simp_all add: dotted_def split_on_single show_nat_no_dot)

lemma octet_show: "n < 256 \<Longrightarrow> octet (show_nat n) = Some (int n)"
  using parse_octet_show [of n] decimal_show [of n]
  by (cases "show_nat n") (auto simp: octet_def parse_octet_def Let_def split: if_splits)

lemma those_map_Some: "those (map Some xs) = Some xs"
  by (induction xs) simp_all

lemma dropWhile_none: "x \<notin> set s \<Longrightarrow> dropWhile (\<lambda>c. c \<noteq> x) s = []"
  by (induction s) auto

lemma split_on_none: "x \<notin> set s \<Longrightarrow> split_on x s = [s]"
  by (rule split_on_single) auto

lemma not_v6_dotted: "parse_v6 (dotted ns) = None"
proof -
  have "\<not> is_digit (CHR ''%'')" "\<not> is_digit (CHR '':'')" by (simp_all add: is_digit_def)
  then have n: "CHR ''%'' \<notin> set (dotted ns)" "CHR '':'' \<notin> set (dotted ns)"
    using show_nat_no_char by (induction ns rule: induct_list012) (auto simp: dotted_def)
  have p: "partition_on (CHR ''%'') (dotted ns) = (dotted ns, False, [])"
    unfolding partition_on_def Let_def dropWhile_none [OF n(1)] by simp
  show ?thesis using n(2) by (simp add: parse_v6_def p v6_parts_def split_on_none Let_def)
qed

text \<open>
  Spellings agree. An address written as one to four decimal parts, in any of the forms libc resolvers take,
  is recognized as the number it stands for, so it meets the same checks as its dotted quad.
\<close>

theorem spellings_agree:
  assumes "dotted_ok ns"
  shows "literal_address (dotted ns) = Some (V4 (dotted_value ns))"
proof -
  have ne: "ns \<noteq> []" using assms by (auto simp: dotted_ok_def)
  note s = split_dotted [OF ne]
  show ?thesis
  proof (cases "length ns = 4")
    case True
    have all: "n < 256" if "n \<in> set ns" for n
      using that assms ne True by (cases ns rule: rev_cases) (auto simp: dotted_ok_def)
    then have "map octet (map show_nat ns) = map Some (map int ns)" using octet_show by simp
    then have "dotted_quad (dotted ns) = Some (int_value 256 0 (map int ns))"
      using True by (simp add: dotted_quad_def s those_map_Some del: map_map)
    moreover have "int_value 256 0 (map int ns) = dotted_value ns"
      using True by (auto simp: dotted_value_def length_Suc_conv numeral_eq_Suc)
    ultimately show ?thesis by (simp add: literal_address_def ip_address_def)
  next
    case False
    have "dotted_quad (dotted ns) = None" using False by (simp add: dotted_quad_def s)
    moreover have "those (map num_part (map show_nat ns)) = Some (map int ns)"
      using num_part_show those_map_Some [of "map int ns"] by (simp add: comp_def)
    moreover have "parse_ipv4_loose (dotted ns) = Some (V4 (dotted_value ns))"
      using assms ne num_part_show calculation(2)
      by (auto simp: parse_ipv4_loose_def s dotted_ok_def list_all_iff list_ex_iff dotted_value_def map_butlast [symmetric] last_map Let_def)
    ultimately show ?thesis using not_v6_dotted by (simp add: literal_address_def ip_address_def)
  qed
qed


section \<open>Never reachable\<close>

lemma problem_monotone: "address_problem a ap = None \<Longrightarrow> address_problem a True = None"
  by (auto simp: address_problem_def Let_def split: if_splits)

definition never_contacted :: "ipaddr \<Rightarrow> bool" where
  "never_contacted a =
     (case embedded_v4 a of
        V4 n \<Rightarrow> \<exists>(first, final)\<in>set never_v4. first \<le> n \<and> n \<le> final
      | V6 n \<Rightarrow> n = 0 \<or> n div 2 ^ 120 = 0xff \<or> n div 2 ^ 118 = 0xfe80 div 2 ^ 6 \<or> n div 2 ^ 96 = 0xfd000ec2)"

lemma never_problem:
  assumes "in_range a" and "address_problem a ap = None"
  shows "\<not> never_contacted a"
proof (cases "embedded_v4 a")
  case (V4 n)
  then have "in_v4 n" "address_problem (V4 n) True = None"
    using embedded_in_range [OF assms(1)] problem_monotone [OF assms(2)] problem_embedded [of a True]
    by (simp_all add: in_range_def)
  then show ?thesis using problem_v4_private [of n] V4 by (fastforce simp: never_contacted_def)
next
  case (V6 n)
  then have "address_problem (V6 n) True = None" "embedded_v4 (V6 n) = V6 n"
    using problem_monotone [OF assms(2)] problem_embedded [of a True] embedded_idem [of a] by simp_all
  then show ?thesis
    by (auto simp: address_problem_def never_contacted_def V6 is_unspecified_def is_multicast_def is_link_local_def
        always_blocked_nets_def v6net_def v4net_def Let_def split: if_splits)
qed

text \<open>
  Link-local, cloud metadata, unspecified and multicast addresses are never contacted, in any embedding and
  even when private targets are allowed.
\<close>

theorem metadata_never_contacted:
  assumes "safe_urlopen env dns dns' up serve proxies bypass target url ap https = (tried, result)"
    and "raw \<in> set tried"
  shows "\<exists>a. sock_address raw = Some a \<and> \<not> never_contacted a"
proof -
  have "checked_answer ap raw" using opener_checked [OF assms(1)] assms(2) by blast
  then show ?thesis using never_problem sock_range by (auto simp: checked_answer_def)
qed

section \<open>Credentials and sources\<close>

text \<open>
  Credentials of the environment go only to an endpoint of the environment. If a supplied value is one of the
  environment's for its field and the call is allowed, its URL has the scheme, host, port and path of a
  configured one.
\<close>

theorem env_credentials_bound:
  assumes "require_env_bound_target service url supplied creds urls = Inr trusted"
    and "(name, value) \<in> set supplied" and "value \<noteq> []" and "value \<in> set (dict_get creds name [])"
  shows "trusted \<and> (\<exists>e\<in>set urls. endpoint_key e \<noteq> None \<and> endpoint_key url = endpoint_key e)"
proof -
  have "uses_env_credentials supplied creds" using assms(2,3,4) by (auto simp: uses_env_credentials_def list_ex_iff)
  then obtain e where "trusted" "e \<in> set urls" "endpoints_match url e"
    using assms(1) by (auto simp: require_env_bound_target_def list_ex_iff split: if_splits)
  then show ?thesis unfolding endpoints_match_def by metis
qed

fun register_all :: "(string \<times> (source_config \<Rightarrow> 'a) \<times> bool) list \<Rightarrow> 'a registry \<Rightarrow> refusal + 'a registry" where
  "register_all [] reg = Inr reg"
| "register_all ((kind, factory, outbound) # rest) reg =
     (case register kind factory outbound reg of Inl e \<Rightarrow> Inl e | Inr reg \<Rightarrow> register_all rest reg)"

definition no_sources :: "'a registry" where
  "no_sources = \<lparr>rg_factories = [], rg_outbound = []\<rparr>"

lemma register_all_last:
  assumes "register_all rs reg = Inr reg'"
  shows "map_of (rg_factories reg') kind =
      (case map_of (rev rs) kind of Some (f, _) \<Rightarrow> Some f | None \<Rightarrow> map_of (rg_factories reg) kind)"
    and "kind \<in> set (rg_outbound reg') \<longleftrightarrow>
      (case map_of (rev rs) kind of Some (_, outbound) \<Rightarrow> outbound | None \<Rightarrow> kind \<in> set (rg_outbound reg))"
  using assms
  by (induction rs reg rule: register_all.induct)
    (auto simp: register_def map_add_def update_conv' split: if_splits option.splits)

text \<open>
  No unguarded network source. Whatever was registered before, a source is built by the latest factory of its
  type, and for an outbound type only after its URL passed the guard; without the operator's opt-in its target
  is public.
\<close>

theorem registry_guards_outbound:
  assumes "register_all rs no_sources = Inr reg" and "create env dns config reg = Inr source"
  shows "\<exists>factory outbound. map_of (rev rs) (sc_type config) = Some (factory, outbound) \<and> source = factory config \<and>
    (outbound \<and> \<not> source_allow_private env config \<longrightarrow> public_target dns (sc_url config))"
proof -
  obtain factory where f: "map_of (rg_factories reg) (sc_type config) = Some factory" "source = factory config"
    using assms(2) by (auto simp: create_def split: option.splits if_splits sum.splits)
  obtain outbound where o: "map_of (rev rs) (sc_type config) = Some (factory, outbound)"
    using register_all_last(1) [OF assms(1), of "sc_type config"] f(1) by (auto simp: no_sources_def split: option.splits)
  have "public_target dns (sc_url config)" if out: "outbound" and priv: "\<not> source_allow_private env config"
  proof -
    have "sc_type config \<in> set (rg_outbound reg)"
      using register_all_last(2) [OF assms(1), of "sc_type config"] o out by simp
    then obtain u where "validate_outbound_url env dns (sc_url config) False False True = Inr u"
      using assms(2) f(1) priv by (auto simp: create_def split: sum.splits)
    then show ?thesis using accepted_public priv by (auto simp: source_allow_private_def split: if_splits)
  qed
  then show ?thesis using f(2) o by blast
qed


section \<open>Witnesses\<close>

text \<open>A resolver with one public name, and one request through the opener.\<close>

definition demo_dns :: resolver where
  "demo_dns host port = (if host = ''a.io'' then Some [''8.8.8.8''] else None)"

lemma demo_check: "check_target demo_dns ''https'' ''a.io'' None False True = Inr False"
  by code_simp

lemma demo_accepted: "validate_outbound_url (\<lambda>_. []) demo_dns ''https://a.io'' False True True = Inr ''https://a.io''"
  by code_simp

lemma demo_opened:
  "safe_urlopen (\<lambda>_. []) demo_dns demo_dns (\<lambda>_. True) (\<lambda>_. (200, False)) [] (\<lambda>_. False) (\<lambda>_. (''a.io'', Some 443))
     ''https://a.io'' False True = ([''8.8.8.8''], Inr (''8.8.8.8'', 200))"
  by code_simp


theorem connects_only_to_checked_witness: "checked_answer False ''8.8.8.8''"
  using connects_only_to_checked [OF demo_opened] by simp

theorem metadata_never_contacted_witness: "\<exists>a. sock_address ''8.8.8.8'' = Some a \<and> \<not> never_contacted a"
  by (rule metadata_never_contacted [OF demo_opened]) simp

theorem spellings_agree_witness: "literal_address (dotted [127, 1]) = Some (V4 2130706433)"
  using spellings_agree [of "[127, 1]"] by (simp add: dotted_ok_def dotted_value_def)

theorem env_credentials_bound_witness:
  "endpoint_key ''https://A.io/x/'' = endpoint_key ''https://a.io:443/x''"
proof -
  have "require_env_bound_target ''itsm'' ''https://A.io/x/'' [(''token'', ''t'')] [(''token'', [''t''])] [''https://a.io:443/x''] = Inr True"
    by code_simp
  from env_credentials_bound [OF this, of "''token''" "''t''"] show ?thesis by (simp add: dict_get_def)
qed

definition demo_config :: source_config where
  "demo_config = \<lparr>sc_id = ''k'', sc_type = ''kibana'', sc_url = ''https://a.io'', sc_auth_methods = [], sc_api_token = [],
     sc_username = [], sc_password = [], sc_cookies = [], sc_extra = [], sc_allow_private = False\<rparr>"

theorem registry_guards_outbound_witness: "public_target demo_dns (sc_url demo_config)"
proof -
  have reg: "register_all [(''kibana'', sc_id, True)] no_sources = Inr \<lparr>rg_factories = [(''kibana'', sc_id)], rg_outbound = [''kibana'']\<rparr>"
    by (simp add: register_def no_sources_def)
  have "create (\<lambda>_. []) demo_dns demo_config \<lparr>rg_factories = [(''kibana'', sc_id)], rg_outbound = [''kibana'']\<rparr> = Inr ''k''"
    by code_simp
  note guarded = registry_guards_outbound [OF reg this]
  have "\<not> source_allow_private (\<lambda>_. []) demo_config" and "sc_type demo_config = ''kibana''" by code_simp+
  then show ?thesis using guarded by auto
qed

end
