(* ===== verification/Llm_Text_Laws.thy ===== *)
theory Llm_Text_Laws
  imports Llm_Gateway
begin

text \<open>
  Laws of the gateway's text handling: no delimiter survives the fencing of untrusted text, and truncation keeps
  a prompt within its budget.
\<close>

section \<open>Fencing\<close>

definition after_tag :: "string \<Rightarrow> string option" where
  "after_tag r =
     (let r1 = drop 1 r; r2 = (if starts_with ''/'' r1 then drop 1 r1 else r1); r3 = dropWhile is_space r2;
          n = length untrusted_tag; q = drop n r3
      in if starts_with ''<'' r \<and> lower (take n r3) = untrusted_tag \<and> (q = [] \<or> \<not> word_char (hd q)) then Some q else None)"

definition tag_here :: "string \<Rightarrow> bool" where
  "tag_here r \<longleftrightarrow> (\<exists>q. after_tag r = Some q \<and> CHR ''>'' \<in> set q)"

lemma lower_a_word: "lower_char c = CHR ''a'' \<Longrightarrow> word_char c"
proof -
  assume a: "lower_char c = CHR ''a''"
  have "(of_char c :: nat) = 65 \<or> (of_char c :: nat) = 97"
  proof (cases "65 \<le> (of_char c :: nat) \<and> (of_char c :: nat) \<le> 90")
    case True
    have "(of_char (lower_char c) :: nat) = 97" unfolding a by simp
    then show ?thesis using True by (simp add: lower_char_def Let_def of_char_of)
  next
    case False
    then show ?thesis using a by (auto simp: lower_char_def Let_def)
  qed
  then show ?thesis by (auto simp: word_char_def Let_def)
qed

lemma tag_last_word:
  assumes "lower (take (length untrusted_tag) r) = untrusted_tag"
  shows "rev (take (length untrusted_tag) r) @ l \<noteq> []" and "word_char (hd (rev (take (length untrusted_tag) r) @ l))"
proof -
  let ?w = "take (length untrusted_tag) r"
  have "untrusted_tag = butlast untrusted_tag @ [CHR ''a'']" by (simp add: untrusted_tag_def)
  then have ne: "?w \<noteq> []" using assms by (auto simp: lower_def)
  then obtain ys c where w: "?w = ys @ [c]" by (metis rev_exhaust)
  have "last untrusted_tag = CHR ''a''" by (simp add: untrusted_tag_def)
  moreover have "last (lower ?w) = lower_char c" by (simp add: w lower_def)
  ultimately have "word_char c" using assms lower_a_word by metis
  then show "word_char (hd (rev ?w @ l))" by (simp add: w)
  show "rev ?w @ l \<noteq> []" using ne by simp
qed

definition tag_end :: rx where
  "tag_end = seqs [ilit untrusted_tag, Wordb, Star (none_of ''>''), lit ''>'']"

lemma run_close: "rx_run (Seq (Star (none_of ''>'')) (lit ''>'')) (l, q, g) \<noteq> [] \<longleftrightarrow> CHR ''>'' \<in> set q"
proof -
  let ?f = "\<lambda>c. c \<notin> set ''>''"
  have skip: "?f c \<Longrightarrow> rx_run (lit ''>'') (l, c # s, g) = []" for c l s g by (simp add: rx_run_lit)
  have "rx_run (Seq (Star (none_of ''>'')) (lit ''>'')) (l, q, g) = rx_run (lit ''>'') (rev (takeWhile ?f q) @ l, dropWhile ?f q, g)"
    unfolding rx_run_Seq none_of_def by (rule rx_run_star_skip [OF skip])
  moreover have "starts_with ''>'' (dropWhile ?f q) \<longleftrightarrow> CHR ''>'' \<in> set q"
    by (induction q) auto
  ultimately show ?thesis by (simp add: rx_run_lit)
qed

lemma run_tag_end:
  "rx_run tag_end (l, r, g) \<noteq> [] \<longleftrightarrow>
     (let n = length untrusted_tag; q = drop n r
      in lower (take n r) = untrusted_tag \<and> (q = [] \<or> \<not> word_char (hd q)) \<and> CHR ''>'' \<in> set q)"
proof -
  let ?n = "length untrusted_tag"
  have low: "lower untrusted_tag = untrusted_tag" by code_simp
  have e: "rx_run tag_end (l, r, g) =
      (if lower (take ?n r) = untrusted_tag \<and> at_boundary (rev (take ?n r) @ l) (drop ?n r)
       then rx_run (Seq (Star (none_of ''>'')) (lit ''>'')) (rev (take ?n r) @ l, drop ?n r, g) else [])"
    by (simp add: tag_end_def rx_run_Seq rx_run_ilit low del: rx_run.simps(3))
  have "at_boundary (rev (take ?n r) @ l) (drop ?n r) \<longleftrightarrow> (drop ?n r = [] \<or> \<not> word_char (hd (drop ?n r)))"
    if "lower (take ?n r) = untrusted_tag"
    using tag_last_word [OF that, of l] by (simp add: at_boundary_def)
  then show ?thesis
    unfolding e Let_def using run_close [of "rev (take ?n r) @ l" "drop ?n r" g]
    by (cases "lower (take ?n r) = untrusted_tag") (simp_all del: rx_run.simps(3))
qed

lemma run_untrusted:
  "rx_run untrusted_re (l, r, g) \<noteq> [] \<longleftrightarrow> tag_here r"
proof -
  define b where "b = Seq (Star space) tag_end"
  have re: "untrusted_re = Seq (lit ''<'') (Seq (opt (lit ''/'')) b)" by (simp add: untrusted_re_def b_def tag_end_def)
  have tag: "hd untrusted_tag = CHR ''u''" "untrusted_tag \<noteq> []" by (simp_all add: untrusted_tag_def)
  have nosp: "rx_run tag_end (l, c # s, g) = []" if "is_space c" for c l s g
  proof -
    have "lower_char c \<noteq> CHR ''u''" using that by (auto simp: is_space_def lower_char_def Let_def)
    then have "lower (take (length untrusted_tag) (c # s)) \<noteq> untrusted_tag" by (auto simp: lower_def untrusted_tag_def)
    then show ?thesis using run_tag_end [of l "c # s" g] by (auto simp: Let_def)
  qed
  have b: "rx_run b (l, r, g) = rx_run tag_end (rev (takeWhile is_space r) @ l, dropWhile is_space r, g)" for l r g
    unfolding b_def rx_run_Seq space_def by (rule rx_run_star_skip [OF nosp])
  have slash: "rx_run b (l, CHR ''/'' # s, g) = []" for l s g
    using run_tag_end [of l "CHR ''/'' # s" g] by (auto simp: b Let_def lower_def untrusted_tag_def lower_char_def is_space_def)
  have "rx_run (Seq (opt (lit ''/'')) b) (l, r, g) =
      (if starts_with ''/'' r then rx_run b (CHR ''/'' # l, drop 1 r, g) else rx_run b (l, r, g))" for l r g
    using slash by (cases r) (auto simp: rx_run_Seq rx_run_lit simp del: rx_run.simps(3))
  then have "rx_run untrusted_re (l, r, g) \<noteq> [] \<longleftrightarrow> starts_with ''<'' r \<and>
      (if starts_with ''/'' (drop 1 r) then rx_run b (CHR ''/'' # CHR ''<'' # l, drop 1 (drop 1 r), g) \<noteq> []
       else rx_run b (CHR ''<'' # l, drop 1 r, g) \<noteq> [])"
    unfolding re by (cases r) (auto simp: rx_run_Seq [of "lit ''<''"] rx_run_lit simp del: rx_run.simps(3))
  then show ?thesis unfolding b run_tag_end tag_here_def after_tag_def Let_def by auto
qed

lemma first_untrusted: "rx_first untrusted_re (l, r, g) = None \<longleftrightarrow> \<not> tag_here r"
  using run_untrusted [of l r g] by (auto simp: rx_first_def split: list.splits)

lemma first_untrusted_shorter:
  assumes "rx_first untrusted_re (l, r, g) = Some (l', r', g')"
  shows "length r' < length r"
proof -
  obtain b where re: "untrusted_re = Seq (lit ''<'') b" by (simp add: untrusted_re_def)
  have "(l', r', g') \<in> set (rx_run untrusted_re (l, r, g))" using assms by (auto simp: rx_first_def split: list.splits)
  then obtain cs where "r = CHR ''<'' # cs" "(l', r', g') \<in> set (rx_run b (CHR ''<'' # l, cs, g))"
    unfolding re rx_run_Seq by (cases r) (auto simp: rx_run_lit split: if_splits)
  then show ?thesis using rx_run_splits by fastforce
qed

abbreviation (input) removed :: string where "removed \<equiv> ''[delimiter-removed]''"

definition fenced :: "string \<Rightarrow> string \<Rightarrow> string" where
  "fenced l r = rx_sub_from untrusted_re (\<lambda>_ _. removed) l r"

lemma fenced_Nil [simp]: "fenced l [] = []"
  by (simp add: fenced_def)

lemma fenced_Cons:
  obtains (copy) "\<not> tag_here (c # cs)" "fenced l (c # cs) = c # fenced (c # l) cs"
    | (cut) l' m r' where "tag_here (c # cs)" "c # cs = m @ r'" "m \<noteq> []" "fenced l (c # cs) = removed @ fenced l' r'"
proof (cases "rx_first untrusted_re (l, c # cs, [])")
  case None
  show ?thesis by (rule copy) (use None first_untrusted [of l "c # cs" "[]"] in \<open>simp_all add: fenced_def\<close>)
next
  case (Some p)
  obtain l' r' g' where p: "p = (l', r', g')" by (cases p)
  note short = first_untrusted_shorter [OF Some [unfolded p]]
  obtain m where m: "c # cs = m @ r'" using rx_first_splits [OF Some [unfolded p]] by blast
  then have "m \<noteq> []" using short by auto
  moreover have "tag_here (c # cs)" using Some first_untrusted by (metis option.distinct(1))
  moreover have "fenced l (c # cs) = removed @ fenced l' r'" using short by (simp add: fenced_def Some p)
  ultimately show ?thesis using cut m by blast
qed

text \<open>A part of the result before the first bracket is a copy, and no closing angle is made up.\<close>

lemma fenced_copy:
  "fenced l r = w @ q \<Longrightarrow> CHR ''['' \<notin> set w \<Longrightarrow> \<exists>y l'. r = w @ y \<and> q = fenced l' y"
proof (induction w arbitrary: l r)
  case (Cons x w)
  show ?case
  proof (cases r)
    case (Cons c cs)
    show ?thesis
    proof (cases rule: fenced_Cons [where c = c and cs = cs and l = l])
      case copy
      then have "x = c" "fenced (c # l) cs = w @ q" using Cons.prems(1) Cons by auto
      then show ?thesis using Cons.IH [of "c # l" cs] Cons.prems(2) Cons by simp
    next
      case (cut l' m r')
      then show ?thesis using Cons.prems Cons by simp
    qed
  qed (use Cons.prems in simp)
qed auto

lemma fenced_closing: "CHR ''>'' \<in> set (fenced l r) \<Longrightarrow> CHR ''>'' \<in> set r"
proof (induction r arbitrary: l rule: length_induct)
  case (1 r)
  show ?case
  proof (cases r)
    case (Cons c cs)
    show ?thesis
    proof (cases rule: fenced_Cons [where c = c and cs = cs and l = l])
      case copy
      then show ?thesis using 1 Cons by auto
    next
      case (cut l' m r')
      have "length r' < length r" using cut(2,3) Cons by (simp add: arg_cong [where f = length, OF cut(2), simplified])
      moreover have "CHR ''>'' \<in> set (fenced l' r')" using cut(4) 1(2) Cons by simp
      ultimately have "CHR ''>'' \<in> set r'" using 1(1) by blast
      then show ?thesis using cut(2) Cons by auto
    qed
  qed (use 1 in simp)
qed

lemma tag_here_hd: "tag_here (c # cs) \<Longrightarrow> c = CHR ''<''"
  unfolding tag_here_def after_tag_def Let_def by (simp split: if_splits)

lemma fenced_hd: "fenced l y \<noteq> [] \<Longrightarrow> \<not> word_char (hd (fenced l y)) \<Longrightarrow> y = [] \<or> \<not> word_char (hd y)"
proof (cases y)
  case (Cons c cs)
  assume h: "\<not> word_char (hd (fenced l y))"
  show ?thesis
  proof (cases rule: fenced_Cons [where c = c and cs = cs and l = l])
    case copy
    then show ?thesis using h Cons by simp
  next
    case cut
    have "\<not> word_char (CHR ''<'')" by code_simp
    then show ?thesis using tag_here_hd [OF cut(1)] Cons by simp
  qed
qed simp

text \<open>What makes a delimiter is the text up to its tag name, and a boundary and a closing angle after it.\<close>

lemma after_tag_split:
  assumes "after_tag u = Some q"
  obtains w where "u = w @ q" "CHR ''['' \<notin> set w" "w \<noteq> []" "q = [] \<or> \<not> word_char (hd q)"
    "\<And>y. y = [] \<or> \<not> word_char (hd y) \<Longrightarrow> after_tag (w @ y) = Some y"
proof -
  let ?n = "length untrusted_tag"
  define r1 where "r1 = drop 1 u"
  define sl where "sl = (if starts_with ''/'' r1 then ''/'' else [])"
  define r2 where "r2 = (if starts_with ''/'' r1 then drop 1 r1 else r1)"
  define sp where "sp = takeWhile is_space r2"
  define r3 where "r3 = dropWhile is_space r2"
  define tg where "tg = take ?n r3"
  have a: "starts_with ''<'' u" "lower tg = untrusted_tag" "q = drop ?n r3" "q = [] \<or> \<not> word_char (hd q)"
    using assms by (auto simp: after_tag_def Let_def tg_def r3_def r2_def r1_def split: if_splits)
  have u: "u = ''<'' @ sl @ sp @ tg @ q"
    using a(1,3) by (cases u) (auto simp: sl_def sp_def tg_def r1_def r2_def r3_def starts_with_iff)
  have len: "length tg = ?n" using a(2) by (metis length_map lower_def)
  have ne: "tg \<noteq> []" "lower_char (hd tg) = CHR ''u''" using a(2) by (auto simp: lower_def untrusted_tag_def)
  have sps: "\<forall>c\<in>set sp. is_space c" by (auto simp: sp_def dest: set_takeWhileD)
  have nsp: "\<not> is_space (hd tg)" using ne(2) by (auto simp: is_space_def lower_char_def Let_def split: if_splits)
  have nsl: "hd tg \<noteq> CHR ''/''" using ne(2) by (auto simp: lower_char_def)
  show ?thesis
  proof (rule that [of "''<'' @ sl @ sp @ tg"])
    have "CHR ''['' \<notin> set tg"
    proof
      assume "CHR ''['' \<in> set tg"
      then have "lower_char (CHR ''['') \<in> set (lower tg)" by (auto simp: lower_def)
      then show False by (simp add: a(2) untrusted_tag_def lower_char_def)
    qed
    moreover have "CHR ''['' \<notin> set sp" using sps by (auto simp: is_space_def)
    ultimately show "CHR ''['' \<notin> set (''<'' @ sl @ sp @ tg)" by (simp add: sl_def)
    show "after_tag ((''<'' @ sl @ sp @ tg) @ y) = Some y" if y: "y = [] \<or> \<not> word_char (hd y)" for y
    proof -
      have skip: "dropWhile is_space (sp @ tg @ y) = tg @ y"
        using sps nsp ne(1) by (simp add: dropWhile_append3 dropWhile_append2) (cases tg; simp)
      have "\<not> starts_with ''/'' (sp @ tg @ y)"
        using sps nsl ne(1) by (cases sp; cases tg) (auto simp: is_space_def)
      then show ?thesis using y skip len a(2) by (simp add: after_tag_def sl_def Let_def)
    qed
  qed (use u a(4) in simp_all)
qed

lemma no_tag_fenced: "\<not> tag_here (drop k (fenced l r))"
proof (induction r arbitrary: l k rule: length_induct)
  case (1 r)
  show ?case
  proof (cases r)
    case Nil
    then show ?thesis by (simp add: tag_here_def after_tag_def)
  next
    case (Cons c cs)
    show ?thesis
    proof (cases rule: fenced_Cons [where c = c and cs = cs and l = l])
      case (cut l' m r')
      define d where "d = removed"
      have d: "fenced l (c # cs) = d @ fenced l' r'" "CHR ''<'' \<notin> set d" using cut(4) by (simp_all add: d_def)
      show ?thesis
      proof (cases "k < length d")
        case True
        then have "drop k d \<noteq> []" "hd (drop k d) \<in> set d" by (simp_all add: hd_drop_conv_nth)
        then obtain x xs where "drop k d = x # xs" "x \<noteq> CHR ''<''" using d(2) by (cases "drop k d") auto
        then have "\<not> tag_here (drop k d @ fenced l' r')" using tag_here_hd by auto
        then show ?thesis using True d(1) Cons by simp
      next
        case False
        have "length r' < length r" using cut(2,3) Cons by (simp add: arg_cong [where f = length, OF cut(2), simplified])
        then have "\<not> tag_here (drop (k - length d) (fenced l' r'))" using 1 by blast
        then show ?thesis using False d(1) Cons by simp
      qed
    next
      case copy
      show ?thesis
      proof (cases k)
        case (Suc j)
        then show ?thesis using copy 1 Cons by simp
      next
        case 0
        show ?thesis
        proof
          assume "tag_here (drop k (fenced l r))"
          then obtain q where q: "after_tag (c # fenced (c # l) cs) = Some q" "CHR ''>'' \<in> set q"
            using copy 0 Cons by (auto simp: tag_here_def)
          obtain w where w: "c # fenced (c # l) cs = w @ q" "CHR ''['' \<notin> set w" "w \<noteq> []" "q = [] \<or> \<not> word_char (hd q)"
            "\<And>y. y = [] \<or> \<not> word_char (hd y) \<Longrightarrow> after_tag (w @ y) = Some y"
            using after_tag_split [OF q(1)] by blast
          obtain w' where w': "w = c # w'" "fenced (c # l) cs = w' @ q" using w(1,3) by (cases w) auto
          obtain y l' where y: "cs = w' @ y" "q = fenced l' y" using fenced_copy [OF w'(2)] w(2) w'(1) by auto
          have ne: "q \<noteq> []" using q(2) by auto
          then have "y = [] \<or> \<not> word_char (hd y)" using fenced_hd [of l' y] w(4) y(2) by auto
          then have "after_tag (c # cs) = Some y" using w(5) [of y] by (simp add: w'(1) y(1))
          moreover have "CHR ''>'' \<in> set y" using fenced_closing q(2) y(2) by metis
          ultimately show False using copy(1) by (simp add: tag_here_def)
        qed
      qed
    qed
  qed
qed


lemma search_untrusted: "rx_search_from untrusted_re l s = None \<longleftrightarrow> (\<forall>k. \<not> tag_here (drop k s))"
proof (induction s arbitrary: l)
  case Nil
  show ?case using first_untrusted [of l "[]" "[]"] by simp
next
  case (Cons c s)
  have "(\<forall>k. \<not> tag_here (drop k (c # s))) \<longleftrightarrow> \<not> tag_here (c # s) \<and> (\<forall>k. \<not> tag_here (drop k s))"
    by (metis drop0 drop_Suc_Cons not0_implies_Suc)
  then show ?case using Cons.IH [of "c # l"] first_untrusted [of l "c # s" "[]"] by (auto split: option.splits)
qed


section \<open>Budgets\<close>

text \<open>
  Prompts keep their budget. A prompt that fits is sent as it is; a longer one becomes its beginning, a marker
  that names what was cut, and its end, exactly as long as the budget, unless the budget is shorter than the marker.
\<close>

theorem truncated_prompt_fits:
  assumes "\<forall>k. lc_share cf k \<le> k" and "0 < budget" and "budget < int (length txt)"
    and "int (length (truncation_marker (length txt - nat budget) (length txt))) \<le> budget"
  shows "\<exists>i j. i \<le> j \<and> fit_budget cf txt budget =
      (take i txt @ truncation_marker (length txt - nat budget) (length txt) @ drop j txt, True) \<and>
    int (length (fst (fit_budget cf txt budget))) = budget"
proof -
  define b where "b = nat budget"
  define m where "m = truncation_marker (length txt - b) (length txt)"
  define keep where "keep = b - length m"
  have b: "b < length txt" "length m \<le> b" "int b = budget" using assms by (auto simp: b_def m_def)
  let ?i = "lc_share cf keep"
  have i: "?i \<le> keep" using assms(1) by blast
  then have "?i \<le> length txt" using b by (simp add: keep_def)
  note i = i this
  define j where "j = length txt - (keep - ?i)"
  have e: "fit_budget cf txt budget = (take ?i txt @ m @ drop j txt, True)"
    using assms(2,3) i b by (auto simp: fit_budget_def Let_def b_def [symmetric] m_def [symmetric] keep_def [symmetric] j_def)
  have "length (take ?i txt @ m @ drop j txt) = b" using i b by (simp add: j_def keep_def)
  moreover have "?i \<le> j" using i b by (simp add: j_def keep_def)
  ultimately show ?thesis using e b(3) unfolding m_def b_def
    by (intro exI [of _ ?i] exI [of _ j]) simp
qed


text \<open>A configuration, and a prompt of one hundred characters cut to ninety.\<close>

definition demo_cfg :: llm_cfg where
  "demo_cfg = \<lparr>lc_env = (\<lambda>_. []), lc_timeout = 9, lc_retries = 0, lc_backoff_base = 1, lc_backoff_max = 20,
     lc_ollama_url = [], lc_local_url = [], lc_xai_url = [], lc_anthropic_key = ''k'', lc_xai_key = [], lc_sockets = [],
     lc_audit_on = True, lc_clean = (\<lambda>s. (s, 0)), lc_share = (\<lambda>k. 7 * k div 10), lc_float = (\<lambda>_. None), lc_fixed = (\<lambda>_ _. ''0''),
     lc_jitter = (\<lambda>_. 0), lc_loads = (\<lambda>_. None), lc_ip6 = (\<lambda>_. None), lc_public = (\<lambda>_. None)\<rparr>"

theorem truncated_prompt_fits_witness:
  "length (fst (fit_budget demo_cfg (replicate 100 CHR ''a'') 90)) = 90"
proof -
  have m: "length (truncation_marker 10 100) = 69" by code_simp
  have share: "\<forall>k. lc_share demo_cfg k \<le> k" by (simp add: demo_cfg_def) presburger
  show ?thesis using truncated_prompt_fits [OF share, of 90 "replicate 100 CHR ''a''"] m by auto
qed

end
