(* ===== verification/Llm_Laws.thy ===== *)
theory Llm_Laws
  imports Llm_Text_Laws
begin

text \<open>
  Laws of the gateway: where prompts may go and what they are made of, how many requests a query makes, what a
  breaker keeps from being contacted, and that every call to a cloud provider is audited.
\<close>

section \<open>What a step sends\<close>

definition sends :: "(sent \<Rightarrow> bool) \<Rightarrow> nat \<Rightarrow> llm \<Rightarrow> llm \<Rightarrow> bool" where
  "sends P n lm lm' \<longleftrightarrow> (\<exists>new. lm_sent lm' = lm_sent lm @ new \<and> length new \<le> n \<and> list_all P new)"

lemma sends_none [simp]: "lm_sent lm' = lm_sent lm \<Longrightarrow> sends P n lm lm'"
  by (simp add: sends_def)

lemma sends_trans:
  assumes "sends P m a b" and "sends P n b c"
  shows "sends P (m + n) a c"
proof -
  obtain x y where "lm_sent b = lm_sent a @ x" "length x \<le> m" "list_all P x"
    "lm_sent c = lm_sent b @ y" "length y \<le> n" "list_all P y"
    using assms by (auto simp: sends_def)
  then show ?thesis by (auto simp: sends_def intro!: exI [of _ "x @ y"])
qed

lemma sends_weaken: "sends P m a b \<Longrightarrow> m \<le> n \<Longrightarrow> (\<And>r. P r \<Longrightarrow> Q r) \<Longrightarrow> sends Q n a b"
  by (fastforce simp: sends_def list_all_iff)

lemma sends_post: "P req \<Longrightarrow> sends P 1 lm (snd (post req lm))"
  by (auto simp: sends_def post_def Let_def split: list.splits prod.splits)

lemma sends_left: "lm_sent a' = lm_sent a \<Longrightarrow> sends P n a' b = sends P n a b"
  by (simp add: sends_def)

lemma sends_right: "lm_sent b' = lm_sent b \<Longrightarrow> sends P n a b' = sends P n a b"
  by (simp add: sends_def)

lemma record_error_sent [simp]: "lm_sent (record_error p m lm) = lm_sent lm"
  "lm_sent (clear_error p lm) = lm_sent lm"
  "lm_sent (breaker_record cf p ok lm) = lm_sent lm"
  "lm_sent (audit_call cf p pr mt rd t ok lm) = lm_sent lm"
  "lm_sent (sync_shared_state force db lm) = lm_sent lm"
  by (simp_all add: record_error_def clear_error_def breaker_record_def audit_call_def sync_shared_state_def Let_def
      split: option.splits)

lemma sends_retry: "P req \<Longrightarrow> sends P (Suc (lc_retries cf - attempt)) lm (snd (post_with_retry cf req attempt lm))"
proof (induction cf req attempt lm rule: post_with_retry.induct)
  case (1 cf req attempt lm)
  have p: "sends P 1 lm (snd (post req lm))" using 1(2) by (rule sends_post)
  show ?case
  proof (cases "post req lm")
    case (Pair a lm1)
    show ?thesis
    proof (cases a)
      case (Reply status retry_after body tx)
      let ?delay = "retry_delay cf retry_after attempt"
      show ?thesis
      proof (cases "status \<notin> set retryable_status \<or> attempt \<ge> lc_retries cf \<or> outlives ?delay lm1")
        case True
        then have "snd (post_with_retry cf req attempt lm) = lm1"
          by (subst post_with_retry.simps) (auto simp: Pair Reply Let_def)
        then show ?thesis using p Pair by (auto elim!: sends_weaken)
      next
        case False
        define msg where "msg = ''HTTP '' @ show_int status @ '' '' @ long_dash @ '' retry '' @ show_nat (attempt + 1)
                         @ ''/'' @ show_nat (lc_retries cf) @ '' in '' @ lc_fixed cf 1 ?delay @ ''s''"
        define lm2 where "lm2 = (record_error (se_to req) msg lm1)\<lparr>lm_now := lm_now lm1 + ?delay\<rparr>"
        have s: "lm_sent lm2 = lm_sent lm1" by (simp add: lm2_def)
        have "snd (post_with_retry cf req attempt lm) = snd (post_with_retry cf req (attempt + 1) lm2)"
          using False by (subst post_with_retry.simps) (simp add: Pair Reply Let_def lm2_def msg_def)
        moreover have "sends P (Suc (lc_retries cf - (attempt + 1))) lm2 (snd (post_with_retry cf req (attempt + 1) lm2))"
          using 1 False Pair Reply by (simp add: lm2_def msg_def Let_def)
        then have "sends P (Suc (lc_retries cf - (attempt + 1))) lm1 (snd (post_with_retry cf req (attempt + 1) lm2))"
          by (simp only: sends_left [OF s])
        moreover have "sends P 1 lm lm1" using p Pair by simp
        ultimately have "sends P (1 + Suc (lc_retries cf - (attempt + 1))) lm (snd (post_with_retry cf req attempt lm))"
          using sends_trans by metis
        then show ?thesis using False by (auto elim!: sends_weaken)
      qed
    qed (use p Pair in \<open>subst post_with_retry.simps, auto elim!: sends_weaken\<close>)+
  qed
qed

lemma finish_sent [simp]: "lm_sent (snd (finish n t e ex po r)) = lm_sent (snd r)"
  by (auto simp: finish_def Let_def split: prod.splits answer.splits sum.splits)

lemma sends_tcp:
  "(\<And>url lm. P (request_to ''local'' url system prompt cf lm)) \<Longrightarrow>
    sends P (length urls) lm (snd (snd (try_tcp cf system prompt urls lm)))"
proof (induction urls arbitrary: lm)
  case (Cons url urls)
  obtain a lm1 where p: "post (request_to ''local'' url system prompt cf lm) lm = (a, lm1)" by fastforce
  have s: "sends P 1 lm lm1" using sends_post [where req = "request_to ''local'' url system prompt cf lm" and lm = lm] Cons.prems p by simp
  then have "sends P (Suc (length urls)) lm lm1" by (rule sends_weaken) auto
  moreover have "sends P (Suc (length urls)) lm (snd (snd (try_tcp cf system prompt urls lm1)))"
    using sends_trans [OF s Cons.IH] Cons.prems by simp
  ultimately show ?case by (auto simp: p Let_def split: answer.splits)
qed simp

lemma sends_sockets:
  "(\<And>url lm. P (request_to ''local'' url system prompt cf lm)) \<Longrightarrow>
    sends P (length urls) lm (snd (try_sockets cf system prompt urls lm))"
proof (induction urls arbitrary: lm)
  case (Cons url urls)
  obtain a lm1 where p: "post (request_to ''local'' url system prompt cf lm) lm = (a, lm1)" by fastforce
  have s: "sends P 1 lm lm1" using sends_post [where req = "request_to ''local'' url system prompt cf lm" and lm = lm] Cons.prems p by simp
  then have "sends P (Suc (length urls)) lm lm1" by (rule sends_weaken) auto
  moreover have "sends P (Suc (length urls)) lm (snd (try_sockets cf system prompt urls lm1))"
    using sends_trans [OF s Cons.IH] Cons.prems by simp
  ultimately show ?case by (auto simp: p Let_def split: answer.splits)
qed simp

text \<open>The most requests one provider makes.\<close>

definition request_limit :: "llm_cfg \<Rightarrow> string \<Rightarrow> nat" where
  "request_limit cf name = (if name = ''local'' then 2 + 2 * length (lc_sockets cf) else Suc (lc_retries cf))"

definition about :: "string \<Rightarrow> string \<Rightarrow> string \<Rightarrow> sent \<Rightarrow> bool" where
  "about name system prompt r \<longleftrightarrow> se_to r = name \<and> se_system r = system \<and> se_prompt r = prompt"

definition provider_names :: "string list" where
  "provider_names = [''ollama'', ''local'', ''claude'', ''grok'']"

lemma about_request [simp]: "about name system prompt (request_to name url system prompt cf lm)"
  by (simp add: about_def request_to_def)

lemma socket_urls: "length (concat (map (\<lambda>s. map (\<lambda>p. s @ p) api_paths) xs)) = 2 * length xs"
  by (induction xs) (simp_all add: api_paths_def)

lemma sends_docker:
  "sends (about ''local'' system prompt) (2 + 2 * length (lc_sockets cf)) lm (snd (query_docker_runner cf system prompt lm))"
proof -
  let ?P = "about ''local'' system prompt"
  let ?base = "strip_slash (lc_local_url cf)"
  let ?urls = "if ?base = [] then [] else map (\<lambda>p. ?base @ p) api_paths"
  let ?socks = "concat (map (\<lambda>s. map (\<lambda>p. s @ p) api_paths) (lc_sockets cf))"
  obtain r stop lm1 where t: "try_tcp cf system prompt ?urls lm = (r, stop, lm1)" by (metis prod_cases3)
  have a: "sends ?P 2 lm lm1"
    using sends_tcp [where P = ?P and urls = ?urls and lm = lm and cf = cf and system = system and prompt = prompt] t
    by (auto simp: api_paths_def elim!: sends_weaken)
  have "length ?socks = 2 * length (lc_sockets cf)" by (rule socket_urls)
  then have b: "sends ?P (2 * length (lc_sockets cf)) lm1 (snd (try_sockets cf system prompt ?socks lm1))"
    using sends_sockets [where P = ?P and urls = ?socks and lm = lm1 and cf = cf and system = system and prompt = prompt] by simp
  have "sends ?P (2 + 2 * length (lc_sockets cf)) lm lm1" using a by (auto elim!: sends_weaken)
  then show ?thesis using sends_trans [OF a b] by (simp add: query_docker_runner_def Let_def t split: bool.splits)
qed

lemma sends_http:
  "sends (about n system prompt) (Suc (lc_retries cf)) lm
     (snd (finish n t e ex po (post_with_retry cf (request_to n url system prompt cf lm) 0 lm)))"
proof -
  have "sends (about n system prompt) (Suc (lc_retries cf)) lm
      (snd (post_with_retry cf (request_to n url system prompt cf lm) 0 lm))"
    using sends_retry [where attempt = 0 and P = "about n system prompt"] by simp
  then show ?thesis by (simp only: sends_right [OF finish_sent])
qed

lemma sends_provider:
  assumes "name \<in> set provider_names"
  shows "sends (about name system prompt) (request_limit cf name) lm (snd (provider_fn name cf system prompt lm))"
proof -
  have "sends (about ''ollama'' system prompt) (Suc (lc_retries cf)) lm (snd (query_ollama cf system prompt lm))"
    unfolding query_ollama_def by (rule sends_http)
  moreover have "sends (about ''claude'' system prompt) (Suc (lc_retries cf)) lm (snd (query_claude cf system prompt lm))"
    unfolding query_claude_def by (simp add: sends_http)
  moreover have "sends (about ''grok'' system prompt) (Suc (lc_retries cf)) lm (snd (query_grok cf system prompt lm))"
    unfolding query_grok_def by (simp add: sends_http)
  ultimately show ?thesis
    using assms sends_docker unfolding provider_names_def provider_fn_def request_limit_def by auto
qed

section \<open>A whole query\<close>

text \<open>What a request of a query may be: its destination, its system text and how its prompt was made.\<close>

definition made_of :: "llm_cfg \<Rightarrow> string list \<Rightarrow> string \<Rightarrow> string \<Rightarrow> sent \<Rightarrow> bool" where
  "made_of cf names system safe r \<longleftrightarrow> se_to r \<in> set names \<and> se_system r = system \<and>
     (\<exists>now hosts v. se_prompt r =
        fst (fit_budget cf (fst (tokenize (lc_ip6 cf) (lc_public cf) now hosts safe v)) (prompt_budget cf (se_to r))))"

lemma call_provider_split:
  assumes "call_provider cf hosts system safe red mt name (v, lm) = (t, v', lm')"
  obtains prompt info r lm1 where
    "\<exists>now hosts v. prompt = fst (fit_budget cf (fst (tokenize (lc_ip6 cf) (lc_public cf) now hosts safe v)) (prompt_budget cf name))"
    "provider_fn name cf system prompt (lm\<lparr>lm_last := info\<rparr>) = (r, lm1)"
    "t = (case r of Inr t \<Rightarrow> t | Inl _ \<Rightarrow> [])"
    "\<exists>lm2 info. lm' = (audit_call cf name prompt mt red (length (va_forward v')) (t \<noteq> [])
       (breaker_record cf name (t \<noteq> []) lm2))\<lparr>lm_last := info\<rparr> \<and> lm_now lm2 = lm_now lm1 \<and> lm_sent lm2 = lm_sent lm1 \<and>
       lm_breakers lm2 = lm_breakers lm1 \<and> lm_audit lm2 = lm_audit lm1 \<and> lm_answers lm2 = lm_answers lm1 \<and>
       lm_deadline lm2 = lm_deadline lm1"
proof -
  let ?hosts = "if tokenize_hosts_for lm name then hosts else []"
  obtain tk v1 where tk: "tokenize (lc_ip6 cf) (lc_public cf) (lm_now lm) ?hosts safe v = (tk, v1)" by fastforce
  obtain prompt tr where f: "fit_budget cf tk (prompt_budget cf name) = (prompt, tr)" by fastforce
  define info where "info = Some \<lparr>ci_provider = name, ci_chars = length prompt, ci_redactions = red,
                  ci_entities = length (va_forward v1), ci_hosts = hosts \<noteq> [] \<and> tokenize_hosts_for lm name,
                  ci_truncated = tr, ci_ok = False\<rparr>"
  obtain r lm1 where r: "provider_fn name cf system prompt (lm\<lparr>lm_last := info\<rparr>) = (r, lm1)" by fastforce
  define lm2 where "lm2 = (case r of Inr _ \<Rightarrow> lm1 | Inl (e, msg) \<Rightarrow> record_error name (''Unexpected '' @ e @ '': '' @ take 150 msg) lm1)"
  have keep: "lm_now lm2 = lm_now lm1" "lm_sent lm2 = lm_sent lm1" "lm_breakers lm2 = lm_breakers lm1"
    "lm_audit lm2 = lm_audit lm1" "lm_answers lm2 = lm_answers lm1" "lm_deadline lm2 = lm_deadline lm1"
    by (simp_all add: lm2_def record_error_def split: sum.split prod.split)
  have t: "t = (case r of Inr t \<Rightarrow> t | Inl _ \<Rightarrow> [])" and v: "v' = v1"
    and e: "lm' = (let lm = audit_call cf name prompt mt red (length (va_forward v1)) (t \<noteq> []) (breaker_record cf name (t \<noteq> []) lm2)
        in if t \<noteq> [] then lm\<lparr>lm_last := map_option (\<lambda>i. i\<lparr>ci_ok := True\<rparr>) info\<rparr> else lm)"
    using assms by (cases r; auto simp: call_provider_def Let_def tk f r [unfolded info_def] info_def lm2_def split: prod.splits)+
  have E: "lm' = (audit_call cf name prompt mt red (length (va_forward v')) (t \<noteq> [])
       (breaker_record cf name (t \<noteq> []) lm2))\<lparr>lm_last := lm_last lm'\<rparr>"
  proof -
    define x where "x = audit_call cf name prompt mt red (length (va_forward v1)) (t \<noteq> []) (breaker_record cf name (t \<noteq> []) lm2)"
    have "lm' = (if t \<noteq> [] then x\<lparr>lm_last := map_option (\<lambda>i. i\<lparr>ci_ok := True\<rparr>) info\<rparr> else x)"
      using e by (simp add: Let_def x_def)
    then have "lm' = x\<lparr>lm_last := lm_last lm'\<rparr>" by (cases "t = []") simp_all
    then show ?thesis by (simp only: v x_def)
  qed
  have P: "prompt = fst (fit_budget cf (fst (tokenize (lc_ip6 cf) (lc_public cf) (lm_now lm) ?hosts safe v)) (prompt_budget cf name))"
    by (simp add: tk f)
  show ?thesis
  proof (rule that [OF _ r t])
    show "\<exists>now hosts v. prompt = fst (fit_budget cf (fst (tokenize (lc_ip6 cf) (lc_public cf) now hosts safe v)) (prompt_budget cf name))"
      using P by (intro exI)
    show "\<exists>lm2 info. lm' = (audit_call cf name prompt mt red (length (va_forward v')) (t \<noteq> [])
       (breaker_record cf name (t \<noteq> []) lm2))\<lparr>lm_last := info\<rparr> \<and> lm_now lm2 = lm_now lm1 \<and> lm_sent lm2 = lm_sent lm1 \<and>
       lm_breakers lm2 = lm_breakers lm1 \<and> lm_audit lm2 = lm_audit lm1 \<and> lm_answers lm2 = lm_answers lm1 \<and>
       lm_deadline lm2 = lm_deadline lm1"
      by (rule exI [of _ lm2], rule exI [of _ "lm_last lm'"], rule conjI [OF E]) (simp add: keep)
  qed
qed

lemma sends_call:
  assumes "name \<in> set provider_names" and "call_provider cf hosts system safe red mt name (v, lm) = (t, v', lm')"
  shows "sends (made_of cf [name] system safe) (request_limit cf name) lm lm'"
proof (rule call_provider_split [OF assms(2)])
  fix prompt info r lm1
  assume p: "\<exists>now hosts v. prompt = fst (fit_budget cf (fst (tokenize (lc_ip6 cf) (lc_public cf) now hosts safe v)) (prompt_budget cf name))"
    and r: "provider_fn name cf system prompt (lm\<lparr>lm_last := info\<rparr>) = (r, lm1)"
    and "\<exists>lm2 info. lm' = (audit_call cf name prompt mt red (length (va_forward v')) (t \<noteq> [])
       (breaker_record cf name (t \<noteq> []) lm2))\<lparr>lm_last := info\<rparr> \<and> lm_now lm2 = lm_now lm1 \<and> lm_sent lm2 = lm_sent lm1 \<and>
       lm_breakers lm2 = lm_breakers lm1 \<and> lm_audit lm2 = lm_audit lm1 \<and> lm_answers lm2 = lm_answers lm1 \<and>
       lm_deadline lm2 = lm_deadline lm1"
  then have s: "lm_sent lm' = lm_sent lm1" by auto
  have "sends (about name system prompt) (request_limit cf name) lm lm1"
    using sends_provider [OF assms(1), of system prompt cf "lm\<lparr>lm_last := info\<rparr>"] r by (simp add: sends_def)
  then have "sends (about name system prompt) (request_limit cf name) lm lm'" by (simp only: sends_right [OF s])
  moreover have "about name system prompt r \<Longrightarrow> made_of cf [name] system safe r" for r
    using p by (simp add: made_of_def about_def)
  ultimately show ?thesis by (auto elim!: sends_weaken)
qed

text \<open>The three ways \<open>try_providers\<close> treats its first provider.\<close>

lemma try_late:
  "out_of_time lm \<Longrightarrow> \<exists>m. try_providers cf hosts system safe red mt (name # names) (v, lm) = (None, v, record_error name m lm)"
  by simp blast

lemma try_skip:
  "\<not> out_of_time lm \<Longrightarrow> breaker_wait name lm > 0 \<Longrightarrow>
    \<exists>m. try_providers cf hosts system safe red mt (name # names) (v, lm) =
      try_providers cf hosts system safe red mt names (v, record_error name m lm)"
  by (simp add: Let_def) blast

lemma try_call:
  "\<not> out_of_time lm \<Longrightarrow> \<not> breaker_wait name lm > 0 \<Longrightarrow>
    call_provider cf hosts system safe red mt name (v, lm) = (t, v1, lm1) \<Longrightarrow>
    try_providers cf hosts system safe red mt (name # names) (v, lm) =
      (if t \<noteq> [] then (Some (detokenize v1 t), v1, lm1) else try_providers cf hosts system safe red mt names (v1, lm1))"
  by simp

declare try_providers.simps(2) [simp del]

lemma sends_try:
  "set names \<subseteq> set provider_names \<Longrightarrow>
    sends (made_of cf names system safe) (sum_list (map (request_limit cf) names)) lm
      (snd (snd (try_providers cf hosts system safe red mt names (v, lm))))"
proof (induction names arbitrary: v lm)
  case (Cons name names)
  have wk: "sends (made_of cf names system safe) (sum_list (map (request_limit cf) names)) a b \<Longrightarrow>
      sends (made_of cf (name # names) system safe) (sum_list (map (request_limit cf) names)) a b" for a b
    by (auto simp: made_of_def elim!: sends_weaken)
  note e = sends_left [OF record_error_sent(1)]
  let ?goal = "\<lambda>s. sends (made_of cf (name # names) system safe) (sum_list (map (request_limit cf) (name # names))) lm (snd (snd s))"
  consider "out_of_time lm" | "\<not> out_of_time lm" "breaker_wait name lm > 0" | "\<not> out_of_time lm" "\<not> breaker_wait name lm > 0"
    by blast
  then show ?case
  proof cases
    case 1
    then obtain m where "try_providers cf hosts system safe red mt (name # names) (v, lm) = (None, v, record_error name m lm)"
      using try_late by metis
    then show ?thesis by simp
  next
    case 2
    then obtain m where m: "try_providers cf hosts system safe red mt (name # names) (v, lm) =
        try_providers cf hosts system safe red mt names (v, record_error name m lm)"
      using try_skip by metis
    have "sends (made_of cf (name # names) system safe) (sum_list (map (request_limit cf) names)) (record_error name m lm)
        (snd (snd (try_providers cf hosts system safe red mt names (v, record_error name m lm))))"
      by (rule wk, rule Cons.IH) (use Cons.prems in simp)
    then show ?thesis unfolding m e by (auto elim!: sends_weaken)
  next
    case 3
    obtain t v1 lm1 where c: "call_provider cf hosts system safe red mt name (v, lm) = (t, v1, lm1)" by (metis prod_cases3)
    have a: "sends (made_of cf (name # names) system safe) (request_limit cf name) lm lm1"
      using sends_call [OF _ c] Cons.prems by (auto simp: made_of_def elim!: sends_weaken)
    have b: "sends (made_of cf (name # names) system safe) (sum_list (map (request_limit cf) names)) lm1
        (snd (snd (try_providers cf hosts system safe red mt names (v1, lm1))))"
      by (rule wk, rule Cons.IH) (use Cons.prems in simp)
    have "sends (made_of cf (name # names) system safe) (request_limit cf name + sum_list (map (request_limit cf) names)) lm lm1"
      using a by (rule sends_weaken) auto
    then show ?thesis using sends_trans [OF a b] by (simp add: try_call [OF 3 c])
  qed
qed simp


section \<open>Frames\<close>

text \<open>A preorder on states that single requests respect is respected by a provider's whole call.\<close>

locale gateway_frame =
  fixes R :: "llm \<Rightarrow> llm \<Rightarrow> bool" and cf :: llm_cfg
  assumes refl: "R a a" and trans: "R a b \<Longrightarrow> R b c \<Longrightarrow> R a c"
    and posts: "R a (snd (post req a))"
    and errors: "R a (record_error p m a)" and clears: "R a (clear_error p a)"
    and waits: "R a (a\<lparr>lm_now := lm_now a + retry_delay cf s k\<rparr>)"
begin

lemma delayed: "R a b \<Longrightarrow> R a ((record_error p m b)\<lparr>lm_now := lm_now b + retry_delay cf s k\<rparr>)"
proof -
  assume "R a b"
  moreover have "R b (record_error p m b)" by (rule errors)
  moreover have "R (record_error p m b) ((record_error p m b)\<lparr>lm_now := lm_now b + retry_delay cf s k\<rparr>)"
    using waits [of "record_error p m b" s k] by (simp add: record_error_def)
  ultimately show ?thesis using trans by blast
qed

lemma retry: "cf' = cf \<Longrightarrow> R lm (snd (post_with_retry cf' req attempt lm))"
proof (induction cf' req attempt lm rule: post_with_retry.induct)
  case (1 cf' req attempt lm)
  have p: "R lm (snd (post req lm))" by (rule posts)
  obtain a lm1 where post: "post req lm = (a, lm1)" by fastforce
  show ?case
  proof (cases a)
    case (Reply status retry_after body tx)
    show ?thesis
    proof (cases "status \<notin> set retryable_status \<or> attempt \<ge> lc_retries cf' \<or> outlives (retry_delay cf' retry_after attempt) lm1")
      case True
      then have "snd (post_with_retry cf' req attempt lm) = lm1"
        by (subst post_with_retry.simps) (auto simp: post Reply Let_def)
      then show ?thesis using p post by simp
    next
      case False
      define m where "m = ''HTTP '' @ show_int status @ '' '' @ long_dash @ '' retry '' @ show_nat (attempt + 1)
        @ ''/'' @ show_nat (lc_retries cf') @ '' in '' @ lc_fixed cf' 1 (retry_delay cf' retry_after attempt) @ ''s''"
      define lm2 where "lm2 = (record_error (se_to req) m lm1)\<lparr>lm_now := lm_now lm1 + retry_delay cf' retry_after attempt\<rparr>"
      have "snd (post_with_retry cf' req attempt lm) = snd (post_with_retry cf' req (attempt + 1) lm2)"
        using False by (subst post_with_retry.simps) (simp add: post Reply Let_def lm2_def m_def)
      moreover have "R lm2 (snd (post_with_retry cf' req (attempt + 1) lm2))"
        using 1 False post Reply by (simp add: lm2_def m_def Let_def)
      moreover have "R lm lm2" unfolding lm2_def 1(2) by (rule delayed) (use p post in simp)
      ultimately show ?thesis using trans by metis
    qed
  qed (use p post in \<open>subst post_with_retry.simps, simp\<close>)+
qed

lemma finished: "R lm (snd r) \<Longrightarrow> R lm (snd (finish n t e ex po r))"
  using trans errors clears by (auto simp: finish_def Let_def split: prod.splits answer.splits sum.splits)

lemma tcp: "R lm (snd (snd (try_tcp cf system prompt urls lm)))"
proof (induction urls arbitrary: lm)
  case (Cons url urls)
  obtain a lm1 where p: "post (request_to ''local'' url system prompt cf lm) lm = (a, lm1)" by fastforce
  have "R lm lm1" using posts [of lm "request_to ''local'' url system prompt cf lm"] p by simp
  then show ?case using trans [OF _ Cons.IH] by (auto simp: p Let_def split: answer.splits)
qed (simp add: refl)

lemma sockets: "R lm (snd (try_sockets cf system prompt urls lm))"
proof (induction urls arbitrary: lm)
  case (Cons url urls)
  obtain a lm1 where p: "post (request_to ''local'' url system prompt cf lm) lm = (a, lm1)" by fastforce
  have "R lm lm1" using posts [of lm "request_to ''local'' url system prompt cf lm"] p by simp
  then show ?case using trans [OF _ Cons.IH] by (auto simp: p refl split: answer.splits)
qed (simp add: refl)

lemma docker: "R lm (snd (query_docker_runner cf system prompt lm))"
proof -
  let ?base = "strip_slash (lc_local_url cf)"
  obtain r stop lm1 where t: "try_tcp cf system prompt (if ?base = [] then [] else map (\<lambda>p. ?base @ p) api_paths) lm = (r, stop, lm1)"
    by (metis prod_cases3)
  then have "R lm lm1" using tcp by (metis snd_conv)
  then show ?thesis using trans [OF _ sockets] by (auto simp: query_docker_runner_def Let_def t split: bool.splits)
qed

lemma provider: "R lm (snd (provider_fn name cf system prompt lm))"
  using docker finished retry errors
  by (simp add: provider_fn_def query_ollama_def query_claude_def query_grok_def)

end

text \<open>What a provider leaves alone, and that time only moves forward when answers and waits take time.\<close>

definition steady :: "llm_cfg \<Rightarrow> bool" where
  "steady cf \<longleftrightarrow> 0 \<le> lc_backoff_max cf \<and> 0 \<le> lc_backoff_base cf \<and> (\<forall>k. 0 \<le> lc_jitter cf k)"

definition timely :: "llm \<Rightarrow> bool" where
  "timely lm \<longleftrightarrow> (\<forall>(t, a)\<in>set (lm_answers lm). 0 \<le> t)"

definition calm :: "llm_cfg \<Rightarrow> llm \<Rightarrow> llm \<Rightarrow> bool" where
  "calm cf a b \<longleftrightarrow> lm_breakers b = lm_breakers a \<and> lm_audit b = lm_audit a \<and>
     (steady cf \<and> timely a \<longrightarrow> timely b \<and> lm_now a \<le> lm_now b)"

lemma retry_delay_nonneg: "steady cf \<Longrightarrow> 0 \<le> retry_delay cf s k"
  by (auto simp: steady_def retry_delay_def Let_def split: option.splits)

interpretation calm: gateway_frame "calm cf" cf for cf
proof
  show "calm cf a b \<Longrightarrow> calm cf b c \<Longrightarrow> calm cf a c" for a b c by (auto simp: calm_def)
  show "calm cf a (snd (post req a))" for a req
    by (auto simp: calm_def post_def timely_def Let_def split: list.splits prod.splits)
  show "calm cf a (a\<lparr>lm_now := lm_now a + retry_delay cf s k\<rparr>)" for a s k
    using retry_delay_nonneg by (simp add: calm_def timely_def)
qed (simp_all add: calm_def record_error_def clear_error_def timely_def)


section \<open>Breakers\<close>

lemma record_error_keeps [simp]: "lm_now (record_error p m lm) = lm_now lm" "lm_answers (record_error p m lm) = lm_answers lm"
  "lm_breakers (record_error p m lm) = lm_breakers lm" "lm_audit (record_error p m lm) = lm_audit lm"
  by (simp_all add: record_error_def)

lemma audit_call_keeps [simp]: "lm_now (audit_call cf p pr mt rd t ok lm) = lm_now lm"
  "lm_answers (audit_call cf p pr mt rd t ok lm) = lm_answers lm" "lm_breakers (audit_call cf p pr mt rd t ok lm) = lm_breakers lm"
  by (simp_all add: audit_call_def Let_def)

lemma breaker_record_keeps [simp]: "lm_now (breaker_record cf p ok lm) = lm_now lm"
  "lm_answers (breaker_record cf p ok lm) = lm_answers lm" "lm_audit (breaker_record cf p ok lm) = lm_audit lm"
  by (simp_all add: breaker_record_def Let_def)

lemma breaker_for_cong: "lm_breakers a = lm_breakers b \<Longrightarrow> breaker_for n a = breaker_for n b"
  by (simp add: breaker_for_def)

lemma dict_get_updated: "dict_get (AList.update k v xs) j d = (if j = k then v else dict_get xs j d)"
  by (simp add: dict_get_def update_conv')

lemma breaker_for_record: "n \<noteq> p \<Longrightarrow> breaker_for n (breaker_record cf p ok lm) = breaker_for n lm"
  by (simp add: breaker_for_def breaker_record_def Let_def dict_get_updated)

lemma breaker_opens:
  "0 < breaker_threshold cf \<Longrightarrow> breaker_threshold cf \<le> bk_fails (breaker_for p lm) + 1 \<Longrightarrow>
    bk_open_until (breaker_for p (breaker_record cf p False lm)) = lm_now lm + breaker_cooldown cf"
  by (simp add: breaker_for_def breaker_record_def Let_def dict_get_updated)

text \<open>One call: time, answers, and the breakers of the other providers.\<close>

lemma call_provider_calm:
  assumes "call_provider cf hosts system safe red mt name (v, lm) = (t, v', lm')" and "steady cf" and "timely lm"
  shows "lm_now lm \<le> lm_now lm'" and "timely lm'" and "n \<noteq> name \<Longrightarrow> breaker_for n lm' = breaker_for n lm"
    and "t = [] \<Longrightarrow> 0 < breaker_threshold cf \<Longrightarrow> breaker_threshold cf \<le> bk_fails (breaker_for name lm) + 1 \<Longrightarrow>
      bk_open_until (breaker_for name lm') = lm_now lm' + breaker_cooldown cf"
proof -
  obtain prompt info r lm1 where r: "provider_fn name cf system prompt (lm\<lparr>lm_last := info\<rparr>) = (r, lm1)"
    and "\<exists>lm2 info. lm' = (audit_call cf name prompt mt red (length (va_forward v')) (t \<noteq> [])
       (breaker_record cf name (t \<noteq> []) lm2))\<lparr>lm_last := info\<rparr> \<and> lm_now lm2 = lm_now lm1 \<and> lm_sent lm2 = lm_sent lm1 \<and>
       lm_breakers lm2 = lm_breakers lm1 \<and> lm_audit lm2 = lm_audit lm1 \<and> lm_answers lm2 = lm_answers lm1 \<and>
       lm_deadline lm2 = lm_deadline lm1"
    by (rule call_provider_split [OF assms(1)]) blast
  then obtain lm2 info' where lm': "lm' = (audit_call cf name prompt mt red (length (va_forward v')) (t \<noteq> [])
       (breaker_record cf name (t \<noteq> []) lm2))\<lparr>lm_last := info'\<rparr>"
    and lm2: "lm_now lm2 = lm_now lm1" "lm_breakers lm2 = lm_breakers lm1" "lm_answers lm2 = lm_answers lm1"
    by blast
  have "calm cf (lm\<lparr>lm_last := info\<rparr>) lm1" using calm.provider [where lm = "lm\<lparr>lm_last := info\<rparr>" and name = name and system = system and prompt = prompt] r by (metis snd_conv)
  then have c: "lm_breakers lm1 = lm_breakers lm" "timely lm1" "lm_now lm \<le> lm_now lm1"
    using assms(2,3) by (simp_all add: calm_def timely_def)
  have b: "breaker_for n (x\<lparr>lm_last := i\<rparr>) = breaker_for n x" "breaker_for n (audit_call cf p pr mt rd k ok x) = breaker_for n x"
    for n x i p pr rd k ok
    by (rule breaker_for_cong, simp)+
  have b2: "breaker_for n lm2 = breaker_for n lm" for n using lm2(2) c(1) by (intro breaker_for_cong) simp
  show "lm_now lm \<le> lm_now lm'" "timely lm'" using c lm2 by (simp_all add: lm' timely_def)
  show "breaker_for n lm' = breaker_for n lm" if "n \<noteq> name" using that b2 by (simp add: lm' b breaker_for_record)
  show "bk_open_until (breaker_for name lm') = lm_now lm' + breaker_cooldown cf"
    if "t = []" "0 < breaker_threshold cf" "breaker_threshold cf \<le> bk_fails (breaker_for name lm) + 1"
    using that breaker_opens [of cf name lm2] b2 by (simp add: lm' b)
qed

lemma made_of_to: "sends (made_of cf names system safe) k a b \<Longrightarrow> n \<notin> set names \<Longrightarrow> sends (\<lambda>r. se_to r \<noteq> n) k a b"
  by (auto simp: made_of_def elim!: sends_weaken)

lemma try_open:
  assumes "steady cf" and "set names \<subseteq> set provider_names" and "distinct names" and "timely lm"
    and "try_providers cf hosts system safe red mt names (v, lm) = (r, v', lm')"
  shows "lm_now lm \<le> lm_now lm' \<and>
    (lm_now lm' < bk_open_until (breaker_for n lm) \<longrightarrow> sends (\<lambda>r. se_to r \<noteq> n) (sum_list (map (request_limit cf) names)) lm lm')"
  using assms
proof (induction names arbitrary: v lm)
  case (Cons name names)
  note run = Cons.prems(5)
  let ?k = "sum_list (map (request_limit cf) names)"
  have rest: "set names \<subseteq> set provider_names" "distinct names" "name \<in> set provider_names" "name \<notin> set names"
    using Cons.prems by auto
  consider "out_of_time lm" | "\<not> out_of_time lm" "breaker_wait name lm > 0" | "\<not> out_of_time lm" "\<not> breaker_wait name lm > 0"
    by blast
  then show ?case
  proof cases
    case 1
    then obtain m where "lm' = record_error name m lm" using try_late run by (metis prod.inject)
    then show ?thesis by simp
  next
    case 2
    then obtain m where "try_providers cf hosts system safe red mt names (v, record_error name m lm) = (r, v', lm')"
      using try_skip run by metis
    from Cons.IH [OF Cons.prems(1) rest(1,2) _ this] Cons.prems(4) show ?thesis
      using breaker_for_cong [of "record_error name m lm" lm n] sends_left [OF record_error_sent(1)]
      by (auto simp: timely_def elim!: sends_weaken)
  next
    case 3
    obtain t v1 lm1 where c: "call_provider cf hosts system safe red mt name (v, lm) = (t, v1, lm1)" by (metis prod_cases3)
    note calm = call_provider_calm [OF c Cons.prems(1,4)]
    have s: "sends (made_of cf [name] system safe) (request_limit cf name) lm lm1" by (rule sends_call [OF rest(3) c])
    show ?thesis
    proof (cases "t = []")
      case True
      then have run1: "try_providers cf hosts system safe red mt names (v1, lm1) = (r, v', lm')"
        using run by (simp add: try_call [OF 3 c])
      have ih: "lm_now lm1 \<le> lm_now lm' \<and> (lm_now lm' < bk_open_until (breaker_for n lm1) \<longrightarrow> sends (\<lambda>r. se_to r \<noteq> n) ?k lm1 lm')"
        by (rule Cons.IH [OF Cons.prems(1) rest(1,2) calm(2) run1])
      have "sends (\<lambda>r. se_to r \<noteq> n) (request_limit cf name + ?k) lm lm'" if o: "lm_now lm' < bk_open_until (breaker_for n lm)"
      proof -
        have "n \<noteq> name"
          using 3(2) o ih calm(1) by (auto simp: breaker_wait_def)
        then have "sends (\<lambda>r. se_to r \<noteq> n) (request_limit cf name) lm lm1" "sends (\<lambda>r. se_to r \<noteq> n) ?k lm1 lm'"
          using made_of_to [OF s] ih o calm(3) by simp_all
        then show ?thesis by (rule sends_trans)
      qed
      then show ?thesis using ih calm(1) by auto
    next
      case False
      then have lm': "lm' = lm1" using run by (simp add: try_call [OF 3 c])
      have "sends (\<lambda>r. se_to r \<noteq> n) (request_limit cf name + ?k) lm lm'" if o: "lm_now lm' < bk_open_until (breaker_for n lm)"
      proof -
        have "n \<noteq> name" using 3(2) o calm(1) lm' by (auto simp: breaker_wait_def)
        then have "sends (\<lambda>r. se_to r \<noteq> n) (request_limit cf name) lm lm'" using made_of_to [OF s] lm' by simp
        then show ?thesis by (rule sends_weaken) auto
      qed
      then show ?thesis using calm(1) lm' by auto
    qed
  qed
qed simp


section \<open>A whole query\<close>

text \<open>The settings a query runs under: what the last synchronization left.\<close>

definition settings :: "state_db option \<Rightarrow> llm \<Rightarrow> llm" where
  "settings db lm = sync_shared_state False db lm"

definition allowed_names :: "llm \<Rightarrow> string list" where
  "allowed_names lm = provider_order (lm_fallback lm) (lm_provider lm)"

lemma sync_deadline: "sync_shared_state force db (lm\<lparr>lm_deadline := d\<rparr>) = (sync_shared_state force db lm)\<lparr>lm_deadline := d\<rparr>"
  by (simp add: sync_shared_state_def Let_def split: option.split)

lemma settings_keeps [simp]: "lm_sent (settings db lm) = lm_sent lm" "lm_now (settings db lm) = lm_now lm"
  "lm_answers (settings db lm) = lm_answers lm" "lm_breakers (settings db lm) = lm_breakers lm" "lm_audit (settings db lm) = lm_audit lm"
  by (simp_all add: settings_def sync_shared_state_def Let_def split: option.split)

lemma order_names: "set (provider_order fb p) \<subseteq> set provider_names" "distinct (provider_order fb p)"
  by (auto simp: provider_order_def provider_names_def Let_def)

lemma order_cloud:
  "name \<in> set (provider_order fb p) \<Longrightarrow> name \<in> set cloud_providers \<Longrightarrow>
    fb \<or> name = lower p \<or> (lower p = ''claude-only'' \<and> name = ''claude'')"
  by (auto simp: provider_order_def cloud_providers_def local_providers_def Let_def split: if_splits)

text \<open>A query is either nothing or the loop over the allowed providers.\<close>

lemma query_cases:
  assumes "query cf h system user mt db lm = (r, v, lm')"
  obtains (off) "\<not> lm_enabled (settings db lm)" "lm' = settings db lm" "r = None"
    | (on) v0 d lm1 where "lm_enabled (settings db lm)"
      "try_providers cf (hi_hosts h) (system @ injection_guard) (fst (lc_clean cf user)) (snd (lc_clean cf user)) mt
         (allowed_names (settings db lm)) (v0, (settings db lm)\<lparr>lm_deadline := d\<rparr>) = (r, v, lm1)"
      "lm' = lm1\<lparr>lm_deadline := lm_deadline lm\<rparr>"
proof -
  let ?s = "settings db lm"
  define d where "d = (if total_timeout cf > 0 then Some (lm_now lm + total_timeout cf) else None)"
  define v0 where "v0 = (case hi_vault h of Some v \<Rightarrow> v | None \<Rightarrow> new_vault 4096 None)"
  have s: "sync_shared_state False db (lm\<lparr>lm_deadline := d\<rparr>) = ?s\<lparr>lm_deadline := d\<rparr>"
    by (simp add: sync_deadline settings_def)
  have dl: "lm_deadline ?s = lm_deadline lm"
    by (simp add: settings_def sync_shared_state_def Let_def split: option.split)
  show ?thesis
  proof (cases "lm_enabled ?s")
    case False
    then have "lm' = ?s\<lparr>lm_deadline := lm_deadline lm\<rparr>" "r = None"
      using assms by (auto simp: query_def query_inner_def Let_def s d_def [symmetric])
    then show ?thesis using off False dl by (metis llm.surjective llm.update_convs(10))
  next
    case True
    obtain safe red where c: "lc_clean cf user = (safe, red)" by fastforce
    obtain r1 v1 lm1 where t: "try_providers cf (hi_hosts h) (system @ injection_guard) safe red mt (allowed_names ?s)
        (v0, ?s\<lparr>lm_deadline := d\<rparr>) = (r1, v1, lm1)" by (metis prod_cases3)
    have "r = r1 \<and> v = v1 \<and> lm' = lm1\<lparr>lm_deadline := lm_deadline lm\<rparr>"
      using assms True t [unfolded allowed_names_def v0_def]
      by (simp add: query_def query_inner_def Let_def s d_def [symmetric] c)
    then show ?thesis using on True t c by simp
  qed
qed

lemma query_sends:
  assumes "query cf h system user mt db lm = (r, v, lm')"
  shows "sends (made_of cf (allowed_names (settings db lm)) (system @ injection_guard) (fst (lc_clean cf user)))
    (if lm_enabled (settings db lm) then sum_list (map (request_limit cf) (allowed_names (settings db lm))) else 0) lm lm'"
  using assms
proof (cases rule: query_cases)
  case (on v0 d lm1)
  have "lm1 = snd (snd (try_providers cf (hi_hosts h) (system @ injection_guard) (fst (lc_clean cf user)) (snd (lc_clean cf user)) mt
         (allowed_names (settings db lm)) (v0, (settings db lm)\<lparr>lm_deadline := d\<rparr>)))"
    by (simp add: on(2))
  then have "sends (made_of cf (allowed_names (settings db lm)) (system @ injection_guard) (fst (lc_clean cf user)))
     (sum_list (map (request_limit cf) (allowed_names (settings db lm)))) ((settings db lm)\<lparr>lm_deadline := d\<rparr>) lm1"
    using sends_try order_names(1) by (simp add: allowed_names_def)
  then show ?thesis by (simp add: sends_def on(1,3))
qed (simp add: sends_def)


text \<open>
  C16: where prompts go. A query sends only to providers of its order; a cloud provider gets a request only if it is
  the selected one or falling back to the cloud is allowed, and a disabled gateway sends nothing.
\<close>

theorem egress_only_allowed:
  assumes "query cf h system user mt db lm = (r, v, lm')"
  shows "\<exists>new. lm_sent lm' = lm_sent lm @ new \<and> (new \<noteq> [] \<longrightarrow> lm_enabled (settings db lm)) \<and>
    (\<forall>req\<in>set new. se_to req \<in> set (allowed_names (settings db lm)) \<and>
       (se_to req \<in> set cloud_providers \<longrightarrow>
          lm_fallback (settings db lm) \<or> se_to req = lower (lm_provider (settings db lm)) \<or>
          lower (lm_provider (settings db lm)) = ''claude-only''))"
  using query_sends [OF assms] order_cloud
  by (auto simp: sends_def made_of_def allowed_names_def list_all_iff split: if_splits) blast+

text \<open>
  C33: what prompts are made of. Every request of a query carries the caller's system text with the injection guard,
  and as its prompt the sanitized user text, tokenized and cut to the provider's budget: of the user's text nothing
  but the sanitizer's output is sent.
\<close>

theorem prompts_are_sanitized:
  assumes "query cf h system user mt db lm = (r, v, lm')"
  shows "\<exists>new. lm_sent lm' = lm_sent lm @ new \<and>
    (\<forall>req\<in>set new. se_system req = system @ injection_guard \<and>
       (\<exists>now hosts v. se_prompt req =
          fst (fit_budget cf (fst (tokenize (lc_ip6 cf) (lc_public cf) now hosts (fst (lc_clean cf user)) v))
            (prompt_budget cf (se_to req)))))"
  using query_sends [OF assms] by (auto simp: sends_def made_of_def list_all_iff)

text \<open>C37: a query makes a bounded number of requests, whatever the providers answer.\<close>

theorem query_requests_bounded:
  assumes "query cf h system user mt db lm = (r, v, lm')"
  shows "length (lm_sent lm') \<le> length (lm_sent lm) + 3 * (lc_retries cf + 1) + 2 * (length (lc_sockets cf) + 1)"
proof -
  have "sum_list (map (request_limit cf) (provider_order fb p)) \<le> 3 * (lc_retries cf + 1) + 2 * (length (lc_sockets cf) + 1)" for fb p
    by (auto simp: provider_order_def request_limit_def local_providers_def Let_def)
  moreover obtain new where "lm_sent lm' = lm_sent lm @ new"
      "length new \<le> sum_list (map (request_limit cf) (allowed_names (settings db lm)))"
    using query_sends [OF assms] by (auto simp: sends_def split: if_splits)
  ultimately show ?thesis unfolding allowed_names_def by (metis add.assoc add_left_mono le_trans length_append)
qed


section \<open>Audit\<close>

definition audited :: "llm \<Rightarrow> llm \<Rightarrow> bool" where
  "audited a b \<longleftrightarrow>
     (\<exists>new entries. lm_sent b = lm_sent a @ new \<and> lm_audit b = lm_audit a @ entries \<and>
        (\<forall>req\<in>set new. se_to req \<in> set cloud_providers \<longrightarrow>
           (\<exists>e\<in>set entries. la_target e = se_to req \<and> la_chars e = length (se_prompt req))))"

lemma audited_same: "lm_sent b = lm_sent a \<Longrightarrow> lm_audit b = lm_audit a \<Longrightarrow> audited a b"
  by (simp add: audited_def)

lemma audited_trans:
  assumes "audited a b" and "audited b c"
  shows "audited a c"
proof -
  obtain n1 e1 where 1: "lm_sent b = lm_sent a @ n1" "lm_audit b = lm_audit a @ e1"
    "\<forall>req\<in>set n1. se_to req \<in> set cloud_providers \<longrightarrow> (\<exists>e\<in>set e1. la_target e = se_to req \<and> la_chars e = length (se_prompt req))"
    using assms(1) unfolding audited_def by blast
  obtain n2 e2 where 2: "lm_sent c = lm_sent b @ n2" "lm_audit c = lm_audit b @ e2"
    "\<forall>req\<in>set n2. se_to req \<in> set cloud_providers \<longrightarrow> (\<exists>e\<in>set e2. la_target e = se_to req \<and> la_chars e = length (se_prompt req))"
    using assms(2) unfolding audited_def by blast
  show ?thesis unfolding audited_def
    by (rule exI [of _ "n1 @ n2"], rule exI [of _ "e1 @ e2"]) (use 1 2 in auto)
qed

definition audits_cloud :: "llm_cfg \<Rightarrow> bool" where
  "audits_cloud cf \<longleftrightarrow> lc_audit_on cf \<and> lower (strip (lc_env cf ''AI_LOG_ANALYZER_AUDIT_LLM'')) \<noteq> ''off''"

lemma audit_call_cloud:
  assumes "audits_cloud cf" and "p \<in> set cloud_providers"
  shows "\<exists>e. lm_audit (audit_call cf p pr mt rd k ok lm) = lm_audit lm @ [e] \<and> la_target e = p \<and> la_chars e = length pr"
proof -
  have "lower (strip ''cloud'') = ''cloud''" by code_simp
  then show ?thesis using assms by (auto simp: audits_cloud_def audit_call_def Let_def)
qed

lemma audit_call_extends: "\<exists>es. lm_audit (audit_call cf p pr mt rd k ok lm) = lm_audit lm @ es"
  by (simp add: audit_call_def Let_def)

lemma audited_call:
  assumes "audits_cloud cf" and "name \<in> set provider_names"
    and "call_provider cf hosts system safe red mt name (v, lm) = (t, v', lm')"
  shows "audited lm lm'"
proof -
  obtain prompt info r lm1 where r: "provider_fn name cf system prompt (lm\<lparr>lm_last := info\<rparr>) = (r, lm1)"
    and "\<exists>lm2 info. lm' = (audit_call cf name prompt mt red (length (va_forward v')) (t \<noteq> [])
       (breaker_record cf name (t \<noteq> []) lm2))\<lparr>lm_last := info\<rparr> \<and> lm_now lm2 = lm_now lm1 \<and> lm_sent lm2 = lm_sent lm1 \<and>
       lm_breakers lm2 = lm_breakers lm1 \<and> lm_audit lm2 = lm_audit lm1 \<and> lm_answers lm2 = lm_answers lm1 \<and>
       lm_deadline lm2 = lm_deadline lm1"
    by (rule call_provider_split [OF assms(3)]) blast
  then obtain lm2 info' where lm': "lm' = (audit_call cf name prompt mt red (length (va_forward v')) (t \<noteq> [])
       (breaker_record cf name (t \<noteq> []) lm2))\<lparr>lm_last := info'\<rparr>"
    and lm2: "lm_sent lm2 = lm_sent lm1" "lm_audit lm2 = lm_audit lm1"
    by blast
  have "calm cf (lm\<lparr>lm_last := info\<rparr>) lm1"
    using calm.provider [where lm = "lm\<lparr>lm_last := info\<rparr>" and name = name and system = system and prompt = prompt] r by (metis snd_conv)
  then have a: "lm_audit lm2 = lm_audit lm" using lm2 by (simp add: calm_def)
  obtain new where new: "lm_sent lm2 = lm_sent lm @ new" "\<forall>req\<in>set new. about name system prompt req"
    using sends_provider [OF assms(2), of system prompt cf "lm\<lparr>lm_last := info\<rparr>"] r lm2(1)
    by (auto simp: sends_def list_all_iff)
  let ?b = "breaker_record cf name (t \<noteq> []) lm2"
  let ?a = "audit_call cf name prompt mt red (length (va_forward v')) (t \<noteq> []) ?b"
  show ?thesis
  proof (cases "name \<in> set cloud_providers")
    case True
    then obtain e where "lm_audit ?a = lm_audit ?b @ [e]" "la_target e = name" "la_chars e = length prompt"
      using audit_call_cloud [OF assms(1)] by blast
    then show ?thesis using new a by (auto simp: audited_def lm' about_def)
  next
    case False
    obtain es where "lm_audit ?a = lm_audit ?b @ es" using audit_call_extends by blast
    then show ?thesis using new a False by (auto simp: audited_def lm' about_def)
  qed
qed

lemma audited_try:
  "audits_cloud cf \<Longrightarrow> set names \<subseteq> set provider_names \<Longrightarrow>
    audited lm (snd (snd (try_providers cf hosts system safe red mt names (v, lm))))"
proof (induction names arbitrary: v lm)
  case (Cons name names)
  have err: "audited lm (record_error name m lm)" for m by (rule audited_same) simp_all
  consider "out_of_time lm" | "\<not> out_of_time lm" "breaker_wait name lm > 0" | "\<not> out_of_time lm" "\<not> breaker_wait name lm > 0"
    by blast
  then show ?case
  proof cases
    case 1
    then obtain m where "try_providers cf hosts system safe red mt (name # names) (v, lm) = (None, v, record_error name m lm)"
      using try_late by metis
    then show ?thesis using err by simp
  next
    case 2
    then obtain m where m: "try_providers cf hosts system safe red mt (name # names) (v, lm) =
        try_providers cf hosts system safe red mt names (v, record_error name m lm)"
      using try_skip by metis
    show ?thesis unfolding m by (rule audited_trans [OF err], rule Cons.IH) (use Cons.prems in simp_all)
  next
    case 3
    obtain t v1 lm1 where c: "call_provider cf hosts system safe red mt name (v, lm) = (t, v1, lm1)" by (metis prod_cases3)
    have "audited lm lm1" using audited_call [OF Cons.prems(1) _ c] Cons.prems(2) by simp
    then show ?thesis using audited_trans [OF _ Cons.IH] Cons.prems by (simp add: try_call [OF 3 c])
  qed
qed (simp add: audited_same)



section \<open>Witnesses\<close>

text \<open>A gateway with the local runtime selected, one with Claude only, and a query of each.\<close>

definition demo_llm :: "string \<Rightarrow> (rat \<times> answer) list \<Rightarrow> llm" where
  "demo_llm provider answers = \<lparr>lm_provider = provider, lm_enabled = True, lm_fallback = False, lm_hostnames = ''auto'',
     lm_errors = [], lm_breakers = [(''claude'', \<lparr>bk_fails = 2, bk_open_until = 0, bk_cause = []\<rparr>)], lm_synced = 0, lm_last = None,
     lm_now = 1, lm_deadline = None, lm_answers = answers, lm_sent = [], lm_audit = []\<rparr>"

definition no_hints :: hints where "no_hints = \<lparr>hi_hosts = [], hi_vault = None\<rparr>"

definition demo_query :: "llm \<Rightarrow> string option \<times> vault \<times> llm" where
  "demo_query lm = query demo_cfg no_hints [] [] 9 None lm"

definition ollama_reply :: answer where
  "ollama_reply = Reply 200 [] (Inr (JObj [(''message'', JObj [(''content'', JStr ''up'')])])) []"

definition demo_after :: "llm \<Rightarrow> llm" where "demo_after lm = snd (snd (demo_query lm))"

lemma demo_run: "query demo_cfg no_hints [] [] 9 None lm = (fst (demo_query lm), fst (snd (demo_query lm)), demo_after lm)"
  by (simp add: demo_query_def demo_after_def)

lemma demo_settings: "lm_fallback (settings None (demo_llm p as)) = False" "lm_provider (settings None (demo_llm p as)) = p"
  by (simp_all add: settings_def sync_shared_state_def demo_llm_def shared_ttl_def)

theorem egress_only_allowed_witness:
  "list_all (\<lambda>req. se_to req \<notin> set cloud_providers) (lm_sent (demo_after (demo_llm ''ollama'' [(1, ollama_reply)])))"
proof -
  have "lower ''ollama'' = ''ollama''" by code_simp
  then show ?thesis
    using egress_only_allowed [OF demo_run [of "demo_llm ''ollama'' [(1, ollama_reply)]"]]
    by (auto simp: demo_settings cloud_providers_def list_all_iff) (simp_all add: demo_llm_def)
qed

theorem prompts_are_sanitized_witness:
  "list_all (\<lambda>req. se_system req = injection_guard) (lm_sent (demo_after (demo_llm ''ollama'' [(1, ollama_reply)])))"
  using prompts_are_sanitized [OF demo_run [of "demo_llm ''ollama'' [(1, ollama_reply)]"]] by (auto simp: demo_llm_def list_all_iff)

theorem query_requests_bounded_witness:
  "length (lm_sent (demo_after (demo_llm ''ollama'' [(1, ollama_reply)]))) \<le> 5"
  using query_requests_bounded [OF demo_run [of "demo_llm ''ollama'' [(1, ollama_reply)]"]]
  by (simp add: demo_llm_def demo_cfg_def)

lemma demo_claude_sent:
  "lm_sent (demo_after (demo_llm ''claude-only'' [(1, Reply 500 [] (Inr JNull) [])])) \<noteq> [] \<and>
   se_to (hd (lm_sent (demo_after (demo_llm ''claude-only'' [(1, Reply 500 [] (Inr JNull) [])])))) = ''claude''"
  by code_simp

lemma demo_fresh: "lm_sent (demo_llm p as) = []" "lm_audit (demo_llm p as) = []"
  by (simp_all add: demo_llm_def)

lemma demo_claude_cloud: "''claude'' \<in> set cloud_providers"
  by (simp add: cloud_providers_def)


definition demo_call :: "string \<times> vault \<times> llm" where
  "demo_call = call_provider demo_cfg [] [] [] 0 9 ''claude'' (new_vault 1 None, demo_llm ''claude-only'' [(1, Reply 500 [] (Inr JNull) [])])"

lemma demo_call_val: "fst demo_call = []" "lm_now (snd (snd demo_call)) = 2"
  by code_simp+

lemma demo_later: "lm_now (demo_after (snd (snd demo_call))) = 2"
  by code_simp


end
