(* ===== verification/Guardrail.thy ===== *)
theory Guardrail
  imports Regex Json_Value Ip_Address
begin

text \<open>
  The safety guardrail of \<open>remediation.py\<close>: how a CLI text is split into the commands it would run, the
  canonical form of a command, the rules no generated command may match, the read-only checks and the screening
  of model output. All patterns but \<open>_CONTROL_RE\<close> and the separators ignore case.
\<close>

section \<open>Rules\<close>

abbreviation (input) dq :: char where "dq \<equiv> CHR 0x22"
abbreviation (input) sq :: char where "sq \<equiv> CHR 0x27"

definition words1 :: rx where "words1 = plus1 nonspace"       \<comment> \<open>\<open>\\S+\<close>\<close>
definition gap :: rx where "gap = plus1 space"                \<comment> \<open>\<open>\\s+\<close>\<close>
definition ilits :: "string list \<Rightarrow> rx" where "ilits ws = alts (map ilit ws)"

text \<open>\<open>^\\s*\<close> and a command word.\<close>

definition verb :: "string \<Rightarrow> rx list \<Rightarrow> rx" where
  "verb w rest = seqs ([Bos, Star space, ilit w] @ rest)"

definition lower_letter :: "char \<Rightarrow> bool" where
  "lower_letter c = (let n = (of_char (lower_char c) :: nat) in 97 \<le> n \<and> n \<le> 122)"

definition at_gap_or_end :: rx where "at_gap_or_end = Not_Ahead (Not_Ahead (Alt space Eol))"

definition bgp_af :: rx where
  "bgp_af = Star (alts
     [seqs [ilit ''vrf'', gap, words1, gap],
      seqs [ilit ''ipv'', any_of ''46'', gap, ilits [''unicast'', ''multicast'', ''labeled-unicast''], gap,
            opt (seqs [ilit ''vrf'', gap, words1, gap])],
      seqs [ilit ''vpnv'', any_of ''46'', gap, ilit ''unicast'', gap],
      seqs [ilit ''l2vpn'', gap, ilit ''evpn'', gap],
      seqs [ilit ''all'', gap]])"

definition erase_storage :: rx where
  "erase_storage = Seq Wordb (alts
     [seqs [ilit ''write'', gap, ilit ''erase''],
      seqs [ilit ''erase'', gap, Star (seqs [lit ''/'', words1, gap]),
            alts [ilit ''startup-config'',
                  Seq (plus1 (Cls (\<lambda>c. lower_letter c \<or> is_digit c \<or> c \<in> set ''_-''))) (lit '':'')]],
      seqs [ilit ''format'', gap, Star (seqs [lit ''/'', words1, gap]),
            alts [ilit ''flash'', ilit ''bootflash'', Seq (ilit ''disk'') (Star digit), Seq (ilit ''usb'') (Star digit), ilit ''nvram''],
            alts [lit '':'', space, Eol]]])"

definition system_zeroize :: rx where
  "system_zeroize =
     seqs [Wordb, ilit ''request'', gap, ilits [''system'', ''vmhost''], gap,
           alts [ilit ''zeroize'', ilit ''halt'', ilit ''power-off'', ilit ''reboot'', seqs [ilit ''snapshot'', gap, ilit ''delete'']],
           Wordb]"

definition options_rx :: rx where "options_rx = Star (seqs [lit ''-'', words1, gap])"   \<comment> \<open>\<open>(?:-\\S+\\s+)*\<close>\<close>

definition unscoped_reload :: rx where
  "unscoped_reload =
     seqs [Bos, Star space, opt (seqs [ilit ''sudo'', gap, options_rx]),
           alts [ilit ''reload'', ilit ''reboot'', ilit ''halt'', ilit ''poweroff'',
                 seqs [ilit ''shutdown'', gap, alts [Seq (lit ''-'') words1, ilit ''now'', Seq (opt (lit ''+'')) digit]],
                 seqs [ilit ''init'', gap, any_of ''06''], seqs [ilit ''telinit'', gap, any_of ''06''],
                 seqs [ilit ''systemctl'', gap, options_rx, ilits [''reboot'', ''poweroff'', ''halt'', ''kexec'']]],
           Not_Ahead (Cls (\<lambda>c. word_char c \<or> c = CHR ''-''))]"

definition delete_files :: rx where
  "delete_files = Alt
     (verb ''delete'' [gap, plus1 (seqs [lit ''/'', words1, gap]), nonspace])
     (verb ''delete'' [gap, Alt (seqs [Star nonspace, lit '':'', Star nonspace]) (Seq (ilit ''startup-config'') (Star nonspace))])"

definition delete_config_stanza :: rx where
  "delete_config_stanza =
     verb ''delete'' [gap, ilits [''protocols'', ''routing-options'', ''routing-instances'', ''interfaces'', ''security'', ''system'',
                                ''policy-options'', ''firewall'', ''chassis''],
                    opt (Seq gap words1), Star space, Eol]"

definition delete_protocol_group :: rx where
  "delete_protocol_group =
     verb ''delete'' [gap, ilit ''protocols'', gap, words1,
                    opt (seqs [gap, ilits [''group'', ''area'', ''instance'', ''peer-group''], gap, words1]), Star space, Eol]"

definition clear_all_bgp :: rx where
  "clear_all_bgp =
     verb ''clear'' [gap, opt (Alt (Seq (ilit ''ip'') gap) (Seq (ilit ''ipv6'') gap)), ilit ''bgp'', gap,
       Alt (seqs [bgp_af, opt (Seq (ilit ''neighbor'') gap), alts [lit ''*'', ilit ''all'', ilit ''external''], Not_Ahead nonspace,
                  Not_Ahead (seqs [Star (none_of [CHR 0x0A]), Wordb, ilits [''soft'', ''in'', ''out''], Wordb])])
           (seqs [ilit ''neighbor'', Star space, Eol])]"

definition shell_wipe :: rx where
  "shell_wipe = alts
     [seqs [Wordb, ilit ''rm'', gap, options_rx,
            Alt (seqs [lit ''-'', Star (Cls lower_letter), ilit ''r'', Star (Cls lower_letter)]) (ilit ''--recursive''), gap, options_rx,
            alts [Seq (lit ''/'') (opt (lit ''*'')),
                  seqs [lit ''~'', opt (lit ''/''), opt (lit ''*'')],
                  seqs [lit ''/'', alts [ilit ''etc'', ilit ''var'', ilit ''boot'', ilit ''usr'', ilit ''bin'', ilit ''sbin'',
                                      Seq (ilit ''lib'') (Star wordc), ilit ''home'', ilit ''root'', ilit ''mnt'', ilit ''opt'', ilit ''srv'',
                                      ilit ''dev'', ilit ''sys'', ilit ''proc'', ilit ''flash''],
                        opt (Seq (lit ''/'') (Star nonspace))]],
            at_gap_or_end],
      seqs [Wordb, ilit ''mkfs'', Wordb],
      seqs [Wordb, ilit ''dd'', gap, ilit ''if='', Star (none_of [CHR 0x0A]), Wordb, ilit ''of=/dev/'']]"

definition forbidden :: "(string \<times> rx) list" where
  "forbidden =
     [(''erase_storage'', erase_storage),
      (''system_zeroize'', system_zeroize),
      (''crypto_zeroize'', verb ''crypto'' [gap, ilit ''key'', gap, ilit ''zeroize'', Wordb]),
      (''unscoped_reload'', unscoped_reload),
      (''wipe_bgp_asn'', verb ''no'' [gap, ilit ''router'', gap, ilits [''bgp'', ''ospf'', ''ospfv3'', ''isis'', ''eigrp'', ''rip''], Wordb]),
      (''no_feature'', verb ''no'' [gap, ilit ''feature'', Wordb]),
      (''delete_root_config'', verb ''delete'' [Star space, Eol]),
      (''delete_files'', delete_files),
      (''delete_config_stanza'', delete_config_stanza),
      (''delete_protocol_group'', delete_protocol_group),
      (''clear_all_bgp'', clear_all_bgp),
      (''load_override'', verb ''load'' [gap, ilits [''override'', ''replace'', ''factory-default''], Wordb]),
      (''config_replace'', verb ''configure'' [gap, ilit ''replace'', Wordb]),
      (''copy_over_config'',
         verb ''copy'' [gap, Not_Ahead (Seq (ilit ''running-config'') Wordb), words1, gap, ilits [''startup'', ''running''],
                      ilit ''-config'', Wordb]),
      (''fortios_destructive'',
         verb ''execute'' [gap, alts [Seq (ilit ''factoryreset'') (Star wordc), ilit ''formatlogdisk'', ilit ''erase-disk'', ilit ''reboot'',
                                    ilit ''shutdown'', seqs [ilit ''restore'', gap, ilit ''image'']], Wordb]),
      (''panos_destructive'',
         verb ''request'' [gap, alts [seqs [ilit ''system'', gap, ilit ''private-data-reset''], seqs [ilit ''restart'', gap, ilit ''system''],
                                    seqs [ilit ''shutdown'', gap, ilit ''system'']], Wordb]),
      (''sdwan_destructive'',
         Alt (verb ''request'' [gap, alts [seqs [ilit ''software'', gap, ilit ''reset''], seqs [ilit ''reset'', gap, ilit ''all''],
                                         seqs [ilit ''platform'', gap, ilit ''software'', gap, ilit ''sdwan'', gap, ilit ''software'', gap,
                                               ilit ''reset'']], Wordb])
             (verb ''reboot'' [gap, ilit ''now'', Wordb])),
      (''shell_wipe'', shell_wipe)]"

section \<open>Segments\<close>

text \<open>\<open>re.split\<close> for a pattern without groups that never matches the empty string.\<close>

fun on_head :: "('a list \<Rightarrow> 'a list) \<Rightarrow> 'a list list \<Rightarrow> 'a list list" where
  "on_head f [] = []"
| "on_head f (w # ws) = f w # ws"

function rx_split_from :: "rx \<Rightarrow> string \<Rightarrow> string \<Rightarrow> string list" where
  "rx_split_from a l [] = [[]]"
| "rx_split_from a l (c # cs) =
     (case rx_first a (l, c # cs, []) of
        Some (l', r', g) \<Rightarrow>
          (if length r' < length (c # cs) then [] # rx_split_from a l' r' else on_head (\<lambda>w. c # w) (rx_split_from a (c # l) cs))
      | None \<Rightarrow> on_head (\<lambda>w. c # w) (rx_split_from a (c # l) cs))"
  by pat_completeness auto

termination
  by (relation "measure (\<lambda>(_, _, r). length r)") auto

definition segment_split_re :: rx where
  "segment_split_re =
     alts [lit [CHR 0x0A], lit '';'', lit ''&&'', lit ''||'', seqs [Wordb, lit ''vtysh'', Wordb], Seq (lit ''-c'') gap]"

definition line_break_re :: rx where
  "line_break_re =
     alts [Cls (\<lambda>c. (of_char c :: nat) \<in> {13, 11, 12, 28, 29, 30}), lit [CHR 0xC2, CHR 0x85],
           lit [CHR 0xE2, CHR 0x80, CHR 0xA8], lit [CHR 0xE2, CHR 0x80, CHR 0xA9]]"

definition cli_control :: "char \<Rightarrow> bool" where
  "cli_control c = (let n = (of_char c :: nat) in n \<le> 8 \<or> (14 \<le> n \<and> n \<le> 27) \<or> n = 127)"

definition trim_quotes :: "string \<Rightarrow> string" where
  "trim_quotes p = strip (strip_chars [sq, dq] (strip p))"

definition command_segments :: "string \<Rightarrow> string list" where
  "command_segments cmd =
     (let txt = filter (\<lambda>c. \<not> cli_control c) (rx_sub line_break_re (\<lambda>_ _. [CHR 0x0A]) cmd)
      in filter (\<lambda>p. p \<noteq> []) (map trim_quotes (rx_split_from segment_split_re [] txt)))"

section \<open>Canonical form\<close>

text \<open>A command word with the length of its shortest accepted abbreviation and the words that may follow.\<close>

datatype cli_word = Command_Word (word_name: string) (word_min: nat) (word_sub: "cli_word list")

definition leaf :: "string \<times> nat \<Rightarrow> cli_word" where "leaf w = Command_Word (fst w) (snd w) []"

definition cli_tree :: "cli_word list" where
  "cli_tree =
     [leaf (''reload'', 3), leaf (''reboot'', 3), leaf (''halt'', 3), leaf (''poweroff'', 4),
      Command_Word ''write'' 2 [leaf (''erase'', 1)],
      leaf (''erase'', 3), leaf (''format'', 4), leaf (''delete'', 3), leaf (''copy'', 3),
      Command_Word ''configure'' 4 [leaf (''replace'', 3)],
      Command_Word ''crypto'' 3 [Command_Word ''key'' 1 [leaf (''zeroize'', 3)]],
      Command_Word ''clear'' 3 [Command_Word ''ip'' 2 [leaf (''bgp'', 2)], Command_Word ''ipv6'' 3 [leaf (''bgp'', 2)], leaf (''bgp'', 2)],
      Command_Word ''request'' 3
        [Command_Word ''system'' 3 (map leaf [(''zeroize'', 3), (''halt'', 3), (''reboot'', 3), (''power-off'', 3), (''snapshot'', 3)]),
         Command_Word ''vmhost'' 4 (map leaf [(''zeroize'', 3), (''halt'', 3), (''reboot'', 3), (''power-off'', 3), (''snapshot'', 3)]),
         Command_Word ''restart'' 3 [leaf (''system'', 3)], Command_Word ''shutdown'' 3 [leaf (''system'', 3)],
         Command_Word ''software'' 4 [leaf (''reset'', 3)], Command_Word ''reset'' 3 [leaf (''all'', 3)]],
      Command_Word ''execute'' 3
        [leaf (''factoryreset'', 4), leaf (''formatlogdisk'', 4), leaf (''erase-disk'', 4), leaf (''reboot'', 3), leaf (''shutdown'', 3),
         Command_Word ''restore'' 3 [leaf (''image'', 3)]],
      Command_Word ''load'' 3 (map leaf [(''override'', 3), (''replace'', 3), (''factory-default'', 3)])]"

definition wrapper_re :: rx where
  "wrapper_re = seqs [Bos, alts [lit ''do'', Seq (lit ''sudo'') (Star (seqs [gap, lit ''-'', words1])), lit ''nohup''], gap]"

function unwrap :: "string \<Rightarrow> string" where
  "unwrap s =
     (case rx_first wrapper_re ([], s, []) of
        Some (_, r, _) \<Rightarrow> (if length r < length s then unwrap r else s)
      | None \<Rightarrow> s)"
  by pat_completeness auto

termination
  by (relation "measure length") auto

declare unwrap.simps [simp del]

definition hits :: "string \<Rightarrow> cli_word \<Rightarrow> bool" where
  "hits tok w = (word_min w \<le> length tok \<and> starts_with tok (word_name w))"

fun expand_words :: "cli_word list \<Rightarrow> string list \<Rightarrow> string list" where
  "expand_words tree [] = []"
| "expand_words tree (tok # toks) =
     (case find (hits tok) tree of
        None \<Rightarrow> tok # toks
      | Some w \<Rightarrow> word_name w # (if word_sub w = [] then toks else expand_words (word_sub w) toks))"

definition canonical_segment :: "string \<Rightarrow> string" where
  "canonical_segment segment =
     join_with '' '' (expand_words cli_tree (split_on (CHR '' '') (unwrap (join_with '' '' (words (lower segment))))))"

section \<open>Verdicts\<close>

definition rule_hit :: "string \<Rightarrow> string option" where
  "rule_hit txt = map_option fst (find (\<lambda>(_, re). rx_search re txt \<noteq> None) forbidden)"

fun first_hit :: "string list \<Rightarrow> string option" where
  "first_hit [] = None"
| "first_hit (t # ts) = (case rule_hit t of Some rule \<Rightarrow> Some rule | None \<Rightarrow> first_hit ts)"

definition violation :: "string \<Rightarrow> string option" where
  "violation cmd = (let segs = command_segments cmd in first_hit (cmd # segs @ map canonical_segment segs))"

definition read_only_verbs :: "string list" where
  "read_only_verbs = [''show'', ''sho'', ''display'', ''get'', ''diagnose'', ''ping'', ''ping6'', ''traceroute'', ''traceroute6'',
     ''tracepath'', ''tracert'']"

definition read_only_exec :: "string list" where
  "read_only_exec = [''ping'', ''ping6'', ''ping-options'', ''traceroute'', ''traceroute6'', ''tracert'']"

definition quoted_re :: rx where
  "quoted_re = Alt (seqs [lit [dq], Star (none_of [dq]), lit [dq]]) (seqs [lit [sq], Star (none_of [sq]), lit [sq]])"

definition check_unsafe_re :: rx where
  "check_unsafe_re =
     alts [any_of (CHR 0x60 # ''>''), lit ''$('',
           seqs [lit ''|'', Star space, ilits [''sh'', ''bash'', ''zsh'', ''tee'', ''redirect'', ''save'', ''append'', ''xargs''], Wordb]]"

definition read_only_segment :: "string \<Rightarrow> bool" where
  "read_only_segment segment =
     (let c = canonical_segment segment; toks = words c; v = (if toks = [] then [] else hd toks)
      in starts_with ''#'' c \<or> starts_with ''!'' c \<or> v \<in> set read_only_verbs \<or>
         (v \<in> set [''execute'', ''exec'', ''exe''] \<and> length toks > 1 \<and> toks ! 1 \<in> set read_only_exec))"

fun read_only_violation :: "json \<Rightarrow> string option" where
  "read_only_violation (JStr cmd) =
     (case violation cmd of
        Some rule \<Rightarrow> Some rule
      | None \<Rightarrow>
          if rx_search check_unsafe_re (rx_sub quoted_re (\<lambda>_ _. [dq, dq]) cmd) \<noteq> None then Some ''check_shell_metacharacters''
          else if list_all read_only_segment (command_segments cmd) then None else Some ''not_read_only'')"
| "read_only_violation _ = Some ''not_a_string''"

declare read_only_violation.simps(1) [simp del]

text \<open>
  The errors of plan building: malformed parameters (\<open>PlanInputError\<close>, a \<open>SafetyViolationError\<close>), other
  safety violations, plans an export cannot express (\<open>ExportUnsupportedError\<close>) and, as \<open>Raised\<close>, an exception the code does not catch.
\<close>

datatype plan_error =
    Timer_Not_Int | Timer_Range int | Bad_Device | Bad_Interface | Bad_Neighbor | Bad_Plan_Id | Many_Hosts | Host_Union
  | Not_A_String json | Blocked string string | Check_Rejected string json string | No_Template
  | Control_Char string | Template_Syntax string
  | Unsupported string | Raised py_error

fun input_error :: "plan_error \<Rightarrow> bool" where
  "input_error Timer_Not_Int = True"
| "input_error (Timer_Range _) = True"
| "input_error Bad_Device = True"
| "input_error Bad_Interface = True"
| "input_error Bad_Neighbor = True"
| "input_error Bad_Plan_Id = True"
| "input_error Many_Hosts = True"
| "input_error Host_Union = True"
| "input_error _ = False"

definition min_rollback :: int where "min_rollback = 1"
definition max_rollback :: int where "max_rollback = 30"

fun check_timer :: "json \<Rightarrow> plan_error + int" where
  "check_timer (JInt n) = (if min_rollback \<le> n \<and> n \<le> max_rollback then Inr n else Inl (Timer_Range n))"
| "check_timer _ = Inl Timer_Not_Int"

fun check_commands :: "json list \<Rightarrow> plan_error + string list" where
  "check_commands [] = Inr []"
| "check_commands (JStr cmd # cs) =
     (case violation cmd of
        Some rule \<Rightarrow> Inl (Blocked cmd rule)
      | None \<Rightarrow> map_sum id (\<lambda>rest. cmd # rest) (check_commands cs))"
| "check_commands (j # cs) = Inl (Not_A_String j)"

text \<open>\<open>SafetyGuardrail.validate\<close>: what passes, as an integer and a list of texts.\<close>

definition validate :: "json list \<Rightarrow> json \<Rightarrow> plan_error + (string list \<times> int)" where
  "validate commands timer =
     (case check_timer timer of
        Inl e \<Rightarrow> Inl e
      | Inr n \<Rightarrow> map_sum id (\<lambda>cs. (cs, n)) (check_commands commands))"

fun text_of :: "json \<Rightarrow> string" where
  "text_of (JStr s) = s"
| "text_of _ = []"

fun validate_read_only :: "json list \<Rightarrow> string \<Rightarrow> plan_error + string list" where
  "validate_read_only [] label = Inr []"
| "validate_read_only (j # js) label =
     (case read_only_violation j of
        Some rule \<Rightarrow> Inl (Check_Rejected label j rule)
      | None \<Rightarrow> map_sum id (\<lambda>rest. text_of j # rest) (validate_read_only js label))"

section \<open>Screening\<close>

definition blocked_placeholder :: "string \<Rightarrow> string" where
  "blocked_placeholder rule =
     ''# BLOCKED by SafetyGuardrail ('' @ rule @ ''): command withheld '' @ [CHR 0xE2, CHR 0x80, CHR 0x94]
       @ '' requires manual engineering review''"

fun screen :: "string list \<Rightarrow> string list \<times> (string \<times> string) list" where
  "screen [] = ([], [])"
| "screen (cmd # cmds) =
     (let (safe, blocked) = screen cmds
      in case violation cmd of
           Some rule \<Rightarrow> (blocked_placeholder rule # safe, (cmd, rule) # blocked)
         | None \<Rightarrow> (cmd # safe, blocked))"

text \<open>\<open>screen_llm_cli\<close> on a JSON value; the blocked commands are appended in the order they are met.\<close>

fun screen_llm_cli :: "json \<Rightarrow> (string \<times> string) list \<Rightarrow> json \<times> (string \<times> string) list"
  and screen_items :: "json list \<Rightarrow> (string \<times> string) list \<Rightarrow> json list \<times> (string \<times> string) list"
  and screen_fields :: "(string \<times> json) list \<Rightarrow> (string \<times> string) list \<Rightarrow> (string \<times> json) list \<times> (string \<times> string) list"
where
  "screen_llm_cli (JStr cmd) sink =
     (case violation cmd of
        Some rule \<Rightarrow> (JStr (blocked_placeholder rule), sink @ [(cmd, rule)])
      | None \<Rightarrow> (JStr cmd, sink))"
| "screen_llm_cli (JList vs) sink = (let (vs, sink) = screen_items vs sink in (JList vs, sink))"
| "screen_llm_cli (JObj kvs) sink = (let (kvs, sink) = screen_fields kvs sink in (JObj kvs, sink))"
| "screen_llm_cli v sink = (v, sink)"
| "screen_items [] sink = ([], sink)"
| "screen_items (v # vs) sink =
     (let (v, sink) = screen_llm_cli v sink; (vs, sink) = screen_items vs sink in (v # vs, sink))"
| "screen_fields [] sink = ([], sink)"
| "screen_fields ((k, v) # kvs) sink =
     (let (v, sink) = screen_llm_cli v sink; (kvs, sink) = screen_fields kvs sink in ((k, v) # kvs, sink))"

end
