(* ===== verification/Regex_Laws.thy ===== *)
theory Regex_Laws
  imports Regex
begin

text \<open>
  Laws of the matcher that do not depend on a pattern: building a match from parts, patterns a context cannot
  change, and matches that go on in front of a longer text.
\<close>

section \<open>Building matches\<close>

lemma run_SeqI: "q \<in> set (rx_run a p) \<Longrightarrow> s \<in> set (rx_run b q) \<Longrightarrow> s \<in> set (rx_run (Seq a b) p)"
  by (auto simp: rx_run_Seq simp del: rx_run.simps(3))

lemma first_iff_hd: "rx_first a p = (if rx_run a p = [] then None else Some (hd (rx_run a p)))"
  by (cases "rx_run a p") (simp_all add: rx_first_def)

lemma first_Seq:
  assumes "rx_first a p = Some q" and "rx_first b q = Some s"
  shows "rx_first (Seq a b) p = Some s"
  using assms by (cases "rx_run a p"; cases "rx_run b q") (auto simp: rx_first_def rx_run_Seq simp del: rx_run.simps(3))

lemma first_Star_stop: "rx_run a p = [] \<Longrightarrow> rx_first (Star a) p = Some p"
  by (subst rx_first_def, subst rx_run.simps) simp

lemma first_Star_step:
  assumes "rx_first a p = Some q" and "length (fst (snd q)) < length (fst (snd p))" and "rx_first (Star a) q = Some s"
  shows "rx_first (Star a) p = Some s"
proof -
  obtain qs where a: "rx_run a p = q # qs" using assms(1) by (auto simp: rx_first_def split: list.splits)
  obtain ss where s: "rx_run (Star a) q = s # ss" using assms(3) by (auto simp: rx_first_def split: list.splits)
  have "\<exists>t. rx_run (Star a) p = rx_run (Star a) q @ t" by (subst rx_run.simps) (use assms(2) in \<open>auto simp: a\<close>)
  then show ?thesis by (auto simp: rx_first_def s)
qed

lemma first_Alt1: "rx_first a p = Some q \<Longrightarrow> rx_first (Alt a b) p = Some q"
  by (auto simp: rx_first_def split: list.splits)

lemma first_Alt2: "rx_run a p = [] \<Longrightarrow> rx_first (Alt a b) p = rx_first b p"
  by (simp add: rx_first_def)

lemma first_Star_Cls: "rx_first (Star (Cls f)) (l, r, g) = Some (rev (takeWhile f r) @ l, dropWhile f r, g)"
proof (induction r arbitrary: l)
  case (Cons c r)
  show ?case
  proof (cases "f c")
    case True
    show ?thesis
      by (rule first_Star_step [where q = "(c # l, r, g)"]) (use True Cons.IH [of "c # l"] in \<open>simp_all add: rx_first_def\<close>)
  qed (simp add: first_Star_stop)
qed (simp add: first_Star_stop)

lemma first_plus_Cls:
  "rx_first (plus1 (Cls f)) (l, r, g) =
     (if r \<noteq> [] \<and> f (hd r) then Some (rev (takeWhile f r) @ l, dropWhile f r, g) else None)"
proof (cases "r \<noteq> [] \<and> f (hd r)")
  case True
  then obtain c s where r: "r = c # s" "f c" by (cases r) auto
  have "rx_first (Cls f) (l, r, g) = Some (c # l, s, g)" using r by (simp add: rx_first_def)
  from first_Seq [OF this first_Star_Cls] show ?thesis using r by simp
next
  case False
  then have "rx_run (plus1 (Cls f)) (l, r, g) = []" by (cases r) (auto simp: rx_run_Seq simp del: rx_run.simps(3))
  then show ?thesis unfolding rx_first_def using False by (simp only: list.case if_False)
qed

lemma run_empty_iff: "rx_run a p = [] \<longleftrightarrow> rx_first a p = None"
  by (simp add: rx_first_def split: list.splits)

lemma run_Seq_empty: "rx_run a p = [] \<Longrightarrow> rx_run (Seq a b) p = []"
  by (simp add: rx_run_Seq del: rx_run.simps(3))

lemma search_here: "rx_first a ([], s, []) \<noteq> None \<Longrightarrow> rx_search a s \<noteq> None"
  by (cases s) (auto simp: rx_search_def split: option.splits)

section \<open>Contexts that do not matter\<close>

text \<open>A pattern that neither looks at the ends of the text nor accepts \<open>x\<close>, before a text that starts with \<open>x\<close>.\<close>

fun inner :: "rx \<Rightarrow> bool" where
  "inner (Seq a b) = (inner a \<and> inner b)"
| "inner (Alt a b) = (inner a \<and> inner b)"
| "inner (Star a) = inner a"
| "inner (Lazy a) = inner a"
| "inner (Not_Ahead a) = inner a"
| "inner (Grp n a) = inner a"
| "inner Eol = False"
| "inner Eos = False"
| "inner Bos = False"
| "inner (Not_Behind f) = False"
| "inner _ = True"

fun avoids :: "char \<Rightarrow> rx \<Rightarrow> bool" where
  "avoids x (Cls f) = (\<not> f x)"
| "avoids x (Seq a b) = (avoids x a \<and> avoids x b)"
| "avoids x (Alt a b) = (avoids x a \<and> avoids x b)"
| "avoids x (Star a) = avoids x a"
| "avoids x (Lazy a) = avoids x a"
| "avoids x (Not_Ahead a) = avoids x a"
| "avoids x (Grp n a) = avoids x a"
| "avoids x _ = True"

definition widen :: "string \<Rightarrow> string \<Rightarrow> rx_pos \<Rightarrow> rx_pos" where
  "widen l t p = (case p of (k, r, g) \<Rightarrow> (k @ l, r @ t, g))"

lemma widen_len [simp]: "length (fst (snd (widen l t p))) = length (fst (snd p)) + length t"
  by (simp add: widen_def split: prod.splits)

lemma concat_map_map_cong:
  assumes "\<And>q. q \<in> set qs \<Longrightarrow> F (w q) = map w (G q)"
  shows "concat (map F (map w qs)) = map w (concat (map G qs))"
  using assms by (induction qs) auto

lemma at_boundary_widen:
  assumes "l = [] \<or> \<not> word_char (hd l)" and "t = [] \<or> \<not> word_char (hd t)"
  shows "at_boundary (k @ l) (r @ t) = at_boundary k r"
  using assms by (cases k; cases r) (auto simp: at_boundary_def)

lemma run_widen:
  assumes "l = [] \<or> \<not> word_char (hd l)" and "t = [] \<or> \<not> word_char (hd t)"
  shows "inner a \<Longrightarrow> t = [] \<or> avoids (hd t) a \<Longrightarrow> rx_run a (widen l t p) = map (widen l t) (rx_run a p)"
proof (induction a p rule: rx_run.induct)
  case (2 f k r g)
  then show ?case by (cases r; cases t) (auto simp: widen_def)
next
  case (3 a b p)
  have a: "rx_run a (widen l t p) = map (widen l t) (rx_run a p)" using 3 by auto
  have "rx_run b (widen l t q) = map (widen l t) (rx_run b q)"
    if "q \<in> set (rx_run a p)" "length (fst (snd q)) \<le> length (fst (snd p))" for q
    using 3 that by (cases q) auto
  then show ?case unfolding rx_run.simps(3) a by (intro concat_map_map_cong) auto
next
  case (5 a p)
  have a: "rx_run a (widen l t p) = map (widen l t) (rx_run a p)" using 5 by auto
  have s: "rx_run (Star a) (widen l t q) = map (widen l t) (rx_run (Star a) q)"
    if "q \<in> set (rx_run a p)" "length (fst (snd q)) < length (fst (snd p))" for q
    using 5 that by (cases q) auto
  show ?case unfolding rx_run.simps(5) [of a p] rx_run.simps(5) [of a "widen l t p"] a map_append
    by (intro arg_cong2 [where f = append] concat_map_map_cong) (auto simp: s)
next
  case (6 a p)
  have a: "rx_run a (widen l t p) = map (widen l t) (rx_run a p)" using 6 by auto
  have s: "rx_run (Lazy a) (widen l t q) = map (widen l t) (rx_run (Lazy a) q)"
    if "q \<in> set (rx_run a p)" "length (fst (snd q)) < length (fst (snd p))" for q
    using 6 that by (cases q) auto
  have "concat (map (\<lambda>q. if length (fst (snd q)) < length (fst (snd (widen l t p))) then rx_run (Lazy a) q else [])
      (map (widen l t) (rx_run a p))) =
    map (widen l t) (concat (map (\<lambda>q. if length (fst (snd q)) < length (fst (snd p)) then rx_run (Lazy a) q else []) (rx_run a p)))"
    by (intro concat_map_map_cong) (auto simp: s)
  then show ?case unfolding rx_run.simps(6) [of a p] rx_run.simps(6) [of a "widen l t p"] a by simp
next
  case (10 k r g)
  then show ?case using at_boundary_widen [OF assms] by (simp add: widen_def)
next
  case (11 a k r g)
  then have "rx_run a (widen l t (k, r, g)) = map (widen l t) (rx_run a (k, r, g))" by auto
  then show ?case by (simp add: widen_def)
next
  case (13 n a k r g)
  then have e: "rx_run a (k @ l, r @ t, g) = map (widen l t) (rx_run a (k, r, g))" by (auto simp: widen_def)
  have "length r' \<le> length r" if "(k', r', g') \<in> set (rx_run a (k, r, g))" for k' r' g'
    using rx_run_splits [OF that] by auto
  then show ?case by (auto simp: widen_def e)
qed (auto simp: widen_def)

section \<open>Matches in front of more text\<close>

text \<open>
  A match stays a match when the text goes on with white space: for patterns that look ahead only for one
  character that is not a blank.
\<close>

fun open_ended :: "rx \<Rightarrow> bool" where
  "open_ended (Seq a b) = (open_ended a \<and> open_ended b)"
| "open_ended (Alt a b) = (open_ended a \<and> open_ended b)"
| "open_ended (Star a) = open_ended a"
| "open_ended (Lazy a) = open_ended a"
| "open_ended (Not_Ahead (Cls f)) = (\<not> f (CHR '' ''))"
| "open_ended (Not_Ahead _) = False"
| "open_ended (Grp n a) = False"
| "open_ended Eol = False"
| "open_ended Eos = False"
| "open_ended _ = True"

lemma run_open_ended:
  assumes t: "t = [] \<or> hd t = CHR '' ''"
  shows "open_ended a \<Longrightarrow> q \<in> set (rx_run a p) \<Longrightarrow> widen [] t q \<in> set (rx_run a (widen [] t p))"
proof (induction a p arbitrary: q rule: rx_run.induct)
  case (2 f l r g)
  then show ?case by (auto simp: widen_def split: list.splits if_splits)
next
  case (3 a b p)
  then obtain q1 where q1: "q1 \<in> set (rx_run a p)" "length (fst (snd q1)) \<le> length (fst (snd p))" "q \<in> set (rx_run b q1)"
    by (auto split: if_splits)
  have a: "widen [] t q1 \<in> set (rx_run a (widen [] t p))" using 3 q1 by auto
  have b: "widen [] t q \<in> set (rx_run b (widen [] t q1))" using 3 q1 by (cases q1) auto
  show ?case by (rule run_SeqI [OF a b])
next
  case (5 a p)
  show ?case
  proof (cases "q = p")
    case False
    with iffD1 [OF in_rx_run_Star 5(4)] obtain q1 where q1: "q1 \<in> set (rx_run a p)"
      "length (fst (snd q1)) < length (fst (snd p))" "q \<in> set (rx_run (Star a) q1)" by blast
    have "widen [] t q1 \<in> set (rx_run a (widen [] t p))" "widen [] t q \<in> set (rx_run (Star a) (widen [] t q1))"
      using 5 q1 by (cases q1; auto)+
    then show ?thesis using q1(2) by (subst in_rx_run_Star) auto
  qed (subst in_rx_run_Star, simp)
next
  case (6 a p)
  show ?case
  proof (cases "q = p")
    case False
    with iffD1 [OF in_rx_run_Lazy 6(4)] obtain q1 where q1: "q1 \<in> set (rx_run a p)"
      "length (fst (snd q1)) < length (fst (snd p))" "q \<in> set (rx_run (Lazy a) q1)" by blast
    have "widen [] t q1 \<in> set (rx_run a (widen [] t p))" "widen [] t q \<in> set (rx_run (Lazy a) (widen [] t q1))"
      using 6 q1 by (cases q1; auto)+
    then show ?thesis using q1(2) by (subst in_rx_run_Lazy) auto
  qed (subst in_rx_run_Lazy, simp)
next
  case (10 k r g)
  have "\<not> word_char (CHR '' '')" by code_simp
  then show ?case using 10 at_boundary_widen [of "[]" t k r] t by (auto simp: widen_def split: if_splits)
next
  case (11 a k r g)
  then obtain f where f: "a = Cls f" "\<not> f (CHR '' '')" by (cases a) auto
  then show ?case using 11 t by (cases r; cases t) (auto simp: widen_def split: if_splits)
next
  case (4 a b p)
  from 4(4) consider "q \<in> set (rx_run a p)" | "q \<in> set (rx_run b p)" by auto
  then show ?case
  proof cases
    case 1
    then show ?thesis using 4(1) [OF _ 1] 4(3) by simp
  next
    case 2
    then show ?thesis using 4(2) [OF _ 2] 4(3) by simp
  qed
next
  case (12 f k r g)
  then show ?case by (cases k) (simp_all add: widen_def split: if_splits)
next
  case (1 p)
  then show ?case by simp
next
  case (9 k r g)
  then show ?case using t by (cases k) (simp_all add: widen_def)
next
  case (13 n a k r g)
  from 13(2) show ?case by simp
next
  case (7 k r g)
  from 7(1) show ?case by simp
next
  case (8 k r g)
  from 8(1) show ?case by simp
qed

end
