(* ===== verification/Char_Code.thy ===== *)
theory Char_Code
  imports Regex
begin

text \<open>
  Equations for evaluation: character classes and case folding on the bits of a character, so that matches on
  concrete texts are computed without arithmetic.
\<close>

lemma all_chars: "list_all P (Enum.enum :: char list) \<Longrightarrow> P c"
  by (metis UNIV_I enum_UNIV list_all_iff)

fun low5 :: "bool \<Rightarrow> bool \<Rightarrow> bool \<Rightarrow> bool \<Rightarrow> bool \<Rightarrow> bool" where
  "low5 b0 b1 b2 b3 b4 = ((b0 \<or> b1 \<or> b2 \<or> b3 \<or> b4) \<and> \<not> (b4 \<and> b3 \<and> (b2 \<or> (b1 \<and> b0))))"

definition lower_bits :: "char \<Rightarrow> char" where
  "lower_bits c = (case c of Char b0 b1 b2 b3 b4 b5 b6 b7 \<Rightarrow>
     if \<not> b7 \<and> b6 \<and> \<not> b5 \<and> low5 b0 b1 b2 b3 b4 then Char b0 b1 b2 b3 b4 True b6 b7 else c)"

definition digit_bits :: "char \<Rightarrow> bool" where
  "digit_bits c = (case c of Char b0 b1 b2 b3 b4 b5 b6 b7 \<Rightarrow>
     \<not> b7 \<and> \<not> b6 \<and> b5 \<and> b4 \<and> (\<not> b3 \<or> (\<not> b2 \<and> \<not> b1)))"

definition space_bits :: "char \<Rightarrow> bool" where
  "space_bits c = (case c of Char b0 b1 b2 b3 b4 b5 b6 b7 \<Rightarrow>
     \<not> b7 \<and> \<not> b6 \<and> (if b5 then \<not> b4 \<and> \<not> b3 \<and> \<not> b2 \<and> \<not> b1 \<and> \<not> b0
       else b3 \<and> (if b4 then b2 else (b0 \<or> b1 \<or> b2) \<and> \<not> (b2 \<and> b1))))"

definition word_bits :: "char \<Rightarrow> bool" where
  "word_bits c = (digit_bits c \<or> (case c of Char b0 b1 b2 b3 b4 b5 b6 b7 \<Rightarrow>
     \<not> b7 \<and> b6 \<and> (low5 b0 b1 b2 b3 b4 \<or> (\<not> b5 \<and> b4 \<and> b3 \<and> b2 \<and> b1 \<and> b0))))"

lemma lower_char_code: "lower_char c = lower_bits c"
  by (rule all_chars) code_simp

lemma is_digit_code: "is_digit c = digit_bits c"
  by (rule all_chars) code_simp

lemma is_space_code: "is_space c = space_bits c"
  by (rule all_chars) code_simp

lemma word_char_code: "word_char c = word_bits c"
  by (rule all_chars) code_simp

declare lower_char_code [code] is_digit_code [code] is_space_code [code] word_char_code [code]

end
