(* ===== verification/Guardrail_Laws.thy ===== *)
theory Guardrail_Laws
  imports Guardrail Regex_Laws Char_Code
begin

text \<open>
  Laws of the guardrail: separators cut a text into independent commands, the canonical form undoes case,
  spacing, wrappers and abbreviations, and screening keeps what is safe and replaces the rest.
\<close>

section \<open>Separators\<close>

lemma on_head_append: "xs \<noteq> [] \<Longrightarrow> on_head f (xs @ ys) = on_head f xs @ ys"
  by (cases xs) auto

lemma on_head_Nil [simp]: "on_head f xs = [] \<longleftrightarrow> xs = []"
  by (cases xs) auto

lemma rx_split_ne: "rx_split_from a l r \<noteq> []"
  by (induction r arbitrary: l) (auto split: option.splits)

lemma first_widen:
  assumes "rx_run a (widen l t p) = map (widen l t) (rx_run a p)"
  shows "rx_first a (widen l t p) = map_option (widen l t) (rx_first a p)"
  using assms by (auto simp: rx_first_def split: list.splits)

text \<open>Splitting and substituting stop at a character the pattern treats on its own.\<close>

lemma split_widen:
  assumes "\<And>k r. r \<noteq> [] \<Longrightarrow> rx_run a (k @ l, r @ x # t, []) = map (widen l (x # t)) (rx_run a (k, r, []))"
    and "\<And>k. rx_first a (k @ l, x # t, []) = Some (x # k @ l, t, [])"
  shows "\<exists>k'. rx_split_from a (k @ l) (r @ x # t) = rx_split_from a k r @ rx_split_from a (x # k' @ l) t"
proof (induction r arbitrary: k rule: length_induct)
  case (1 r)
  show ?case
  proof (cases r)
    case Nil
    then show ?thesis using assms(2) by auto
  next
    case (Cons c cs)
    have w: "rx_first a (k @ l, r @ x # t, []) = map_option (widen l (x # t)) (rx_first a (k, r, []))"
      using first_widen [of a l "x # t" "(k, r, [])"] assms(1) [of r k] Cons unfolding widen_def prod.case by blast
    have "length cs < length r" using Cons by simp
    note step = 1 [rule_format, OF this, of "c # k", unfolded append_Cons]
    show ?thesis
    proof (cases "rx_first a (k, r, [])")
      case None
      then show ?thesis using w step Cons by (auto simp: on_head_append rx_split_ne)
    next
      case (Some q)
      obtain l' r' g where q: "q = (l', r', g)" by (cases q)
      show ?thesis
      proof (cases "length r' < length r")
        case True
        obtain k' where "rx_split_from a (l' @ l) (r' @ x # t) = rx_split_from a l' r' @ rx_split_from a (x # k' @ l) t"
          using 1 True by blast
        then show ?thesis using w Some q True Cons by (auto simp: widen_def)
      next
        case False
        then show ?thesis using w step Some q Cons by (auto simp: widen_def on_head_append rx_split_ne)
      qed
    qed
  qed
qed

lemma sub_widen:
  assumes "\<And>k r. rx_run a (k @ l, r @ u, []) = map (widen l u) (rx_run a (k, r, []))"
  shows "\<exists>k'. rx_sub_from a f (k @ l) (r @ u) = rx_sub_from a f k r @ rx_sub_from a f (k' @ l) u"
proof (induction r arbitrary: k rule: length_induct)
  case (1 r)
  show ?case
  proof (cases r)
    case Nil
    then show ?thesis by auto
  next
    case (Cons c cs)
    have w: "rx_first a (k @ l, r @ u, []) = map_option (widen l u) (rx_first a (k, r, []))"
      using first_widen [of a l u "(k, r, [])"] assms [of k r] unfolding widen_def prod.case by blast
    have "length cs < length r" using Cons by simp
    note step = 1 [rule_format, OF this, of "c # k", unfolded append_Cons]
    show ?thesis
    proof (cases "rx_first a (k, r, [])")
      case None
      then show ?thesis using w step Cons by auto
    next
      case (Some q)
      obtain l' r' g where q: "q = (l', r', g)" by (cases q)
      obtain m where m: "r = m @ r'" using rx_first_splits Some q by blast
      show ?thesis
      proof (cases "length r' < length r")
        case True
        obtain k' where "rx_sub_from a f (l' @ l) (r' @ u) = rx_sub_from a f l' r' @ rx_sub_from a f (k' @ l) u"
          using 1 True by blast
        moreover have "take (length r - length r') (r @ u) = take (length r - length r') r" by simp
        ultimately show ?thesis using w Some q True Cons by (auto simp: widen_def)
      next
        case False
        then show ?thesis using w step Some q Cons by (auto simp: widen_def)
      qed
    qed
  qed
qed

text \<open>What stands to the left of a separator does not matter either.\<close>

lemma split_left:
  assumes "\<And>k r. rx_run a (k @ l, r, []) = map (widen l []) (rx_run a (k, r, []))"
  shows "rx_split_from a (k @ l) r = rx_split_from a k r"
proof (induction r arbitrary: k rule: length_induct)
  case (1 r)
  show ?case
  proof (cases r)
    case (Cons c cs)
    have w: "rx_first a (k @ l, r, []) = map_option (widen l []) (rx_first a (k, r, []))"
      using first_widen [of a l "[]" "(k, r, [])"] assms [of k r] unfolding widen_def prod.case append_Nil2 by blast
    have "length cs < length r" using Cons by simp
    note step = 1 [rule_format, OF this, of "c # k", unfolded append_Cons]
    show ?thesis
    proof (cases "rx_first a (k, r, [])")
      case (Some q)
      obtain l' r' g where q: "q = (l', r', g)" by (cases q)
      show ?thesis using w step 1 Some q Cons by (auto simp: widen_def)
    qed (use w step Cons in auto)
  qed simp
qed

lemma semicolon_not_word: "\<not> word_char (CHR '';'')" by code_simp

lemma line_break_inner: "inner line_break_re" "avoids (CHR '';'') line_break_re"
  by (simp_all add: line_break_re_def lit_def lit_char_def)

lemma line_break_first: "rx_first line_break_re (l, CHR '';'' # b, g) = None"
  by (simp add: line_break_re_def rx_first_def rx_run_lit)

lemma run_line_break:
  "rx_run line_break_re (k @ l, r @ CHR '';'' # b, []) = map (widen l (CHR '';'' # b)) (rx_run line_break_re (k, r, []))"
  if "l = [] \<or> \<not> word_char (hd l)"
  using run_widen [of l "CHR '';'' # b" line_break_re "(k, r, [])"] that semicolon_not_word line_break_inner
  by (simp add: widen_def)

lemma sub_semicolon:
  "rx_sub line_break_re f (a @ CHR '';'' # b) = rx_sub line_break_re f a @ CHR '';'' # rx_sub line_break_re f b"
proof -
  have "rx_run line_break_re (k @ [], r @ CHR '';'' # b, []) = map (widen [] (CHR '';'' # b)) (rx_run line_break_re (k, r, []))" for k r
    by (rule run_line_break) simp
  from sub_widen [OF this, of f "[]" a] obtain k' where
    1: "rx_sub_from line_break_re f [] (a @ CHR '';'' # b) = rx_sub_from line_break_re f [] a @ rx_sub_from line_break_re f k' (CHR '';'' # b)"
    by auto
  have l: "rx_run line_break_re (k @ CHR '';'' # k', r @ [], []) = map (widen (CHR '';'' # k') []) (rx_run line_break_re (k, r, []))" for k r
    using run_widen [of "CHR '';'' # k'" "[]" line_break_re "(k, r, [])"] semicolon_not_word line_break_inner by (simp add: widen_def)
  have "rx_sub_from line_break_re f (CHR '';'' # k') b = rx_sub_from line_break_re f [] b"
    using sub_widen [OF l, of f "[]" b] by simp
  then show ?thesis using 1 by (simp add: rx_sub_def line_break_first)
qed

lemma run_split_re:
  assumes "l = [] \<or> \<not> word_char (hd l)" and "r \<noteq> []"
  shows "rx_run segment_split_re (k @ l, r @ CHR '';'' # b, []) = map (widen l (CHR '';'' # b)) (rx_run segment_split_re (k, r, []))"
proof -
  have other: "rx_run a (k @ l, r @ CHR '';'' # b, []) = map (widen l (CHR '';'' # b)) (rx_run a (k, r, []))"
    if "inner a" "avoids (CHR '';'') a" for a
    using run_widen [of l "CHR '';'' # b" a "(k, r, [])"] that assms(1) semicolon_not_word by (simp add: widen_def)
  have semi: "rx_run (lit '';'') (k @ l, r @ CHR '';'' # b, []) = map (widen l (CHR '';'' # b)) (rx_run (lit '';'') (k, r, []))"
    using assms(2) by (cases r) (auto simp: rx_run_lit widen_def)
  have "rx_run (Alt x y) (k @ l, r @ CHR '';'' # b, []) = map (widen l (CHR '';'' # b)) (rx_run (Alt x y) (k, r, []))"
    if "rx_run x (k @ l, r @ CHR '';'' # b, []) = map (widen l (CHR '';'' # b)) (rx_run x (k, r, []))"
      "rx_run y (k @ l, r @ CHR '';'' # b, []) = map (widen l (CHR '';'' # b)) (rx_run y (k, r, []))" for x y
    using that by simp
  note alt = this
  show ?thesis unfolding segment_split_re_def alts.simps
    by (intro alt semi; rule other) (simp_all add: lit_def lit_char_def gap_def space_def is_space_def)
qed

lemma run_split_left:
  assumes "l = [] \<or> \<not> word_char (hd l)"
  shows "rx_run segment_split_re (k @ l, r, []) = map (widen l []) (rx_run segment_split_re (k, r, []))"
proof -
  have "inner segment_split_re" by (simp add: segment_split_re_def lit_def lit_char_def gap_def space_def)
  then show ?thesis using run_widen [of l "[]" segment_split_re "(k, r, [])"] assms by (simp add: widen_def)
qed

lemma split_semicolon:
  "rx_split_from segment_split_re [] (a @ CHR '';'' # b) =
     rx_split_from segment_split_re [] a @ rx_split_from segment_split_re [] b"
proof -
  have r: "rx_run segment_split_re (k @ [], r @ CHR '';'' # b, []) = map (widen [] (CHR '';'' # b)) (rx_run segment_split_re (k, r, []))"
    if "r \<noteq> []" for k r
    using that by (intro run_split_re) auto
  have "rx_first segment_split_re (k @ [], CHR '';'' # b, []) = Some (CHR '';'' # k @ [], b, [])" for k
    by (simp add: segment_split_re_def rx_first_def rx_run_lit)
  from split_widen [OF r this, of "[]" a] obtain k' where
    "rx_split_from segment_split_re [] (a @ CHR '';'' # b) =
       rx_split_from segment_split_re [] a @ rx_split_from segment_split_re (CHR '';'' # k') b"
    by auto
  moreover have "rx_split_from segment_split_re ([] @ CHR '';'' # k') b = rx_split_from segment_split_re [] b"
    by (rule split_left, rule run_split_left) (simp add: semicolon_not_word)
  ultimately show ?thesis by simp
qed

text \<open>A semicolon separates: the commands of a chain are those of its parts.\<close>

lemma segments_semicolon:
  "command_segments (a @ CHR '';'' # b) = command_segments a @ command_segments b"
proof -
  have "\<not> cli_control (CHR '';'')" by code_simp
  then show ?thesis by (simp add: command_segments_def sub_semicolon split_semicolon)
qed

section \<open>Verdicts\<close>

lemma first_hit_None: "first_hit ts = None \<longleftrightarrow> (\<forall>t\<in>set ts. rule_hit t = None)"
  by (induction ts) (auto split: option.splits)

lemma rule_hit_None: "rule_hit t = None \<longleftrightarrow> (\<forall>(rule, re)\<in>set forbidden. rx_search re t = None)"
  by (auto simp: rule_hit_def find_None_iff)

lemma violation_None:
  "violation cmd = None \<longleftrightarrow> rule_hit cmd = None \<and>
     (\<forall>s\<in>set (command_segments cmd). rule_hit s = None \<and> rule_hit (canonical_segment s) = None)"
  by (simp only: violation_def first_hit_None Let_def) auto

lemma segments_join:
  "parts \<noteq> [] \<Longrightarrow> command_segments (join_with '';'' parts) = concat (map command_segments parts)"
proof (induction parts)
  case (Cons p parts)
  then show ?case using segments_semicolon [of p "join_with '';'' parts"] by (cases parts) auto
qed simp



section \<open>Canonical forms\<close>

text \<open>Words that \<open>words\<close> produces, and joining them.\<close>

definition is_word :: "string \<Rightarrow> bool" where "is_word w \<longleftrightarrow> w \<noteq> [] \<and> list_all (\<lambda>c. \<not> is_space c) w"

lemma words_acc_words: "list_all (\<lambda>c. \<not> is_space c) acc \<Longrightarrow> list_all is_word (words_acc acc s)"
proof (induction s arbitrary: acc)
  case (Cons c s)
  show ?case using Cons.prems Cons.IH [of "[]"] Cons.IH [of "c # acc"] by (simp add: is_word_def)
qed (simp add: is_word_def)

lemma words_words: "list_all is_word (words s)"
  by (simp add: words_def words_acc_words)

lemma split_on_word: "list_all (\<lambda>c. c \<noteq> x) w \<Longrightarrow> split_on x (w @ x # s) = w # split_on x s"
  by (induction w) auto

lemma split_on_only: "list_all (\<lambda>c. c \<noteq> x) w \<Longrightarrow> split_on x w = [w]"
  by (induction w) auto

lemma split_join:
  assumes "ws \<noteq> []" and "list_all is_word ws"
  shows "split_on (CHR '' '') (join_with '' '' ws) = ws"
  using assms
proof (induction ws)
  case (Cons w ws)
  have "is_space (CHR '' '')" by code_simp
  then have "list_all (\<lambda>c. c \<noteq> CHR '' '') w" using Cons.prems by (auto simp: is_word_def list_all_iff)
  then show ?case using Cons by (cases ws) (auto simp: split_on_word split_on_only)
qed simp

section \<open>Wrappers\<close>

text \<open>The words \<open>do\<close>, \<open>nohup\<close> and \<open>sudo\<close> with its options, in any number.\<close>

definition sudo_option :: "string \<Rightarrow> bool" where
  "sudo_option w \<longleftrightarrow> starts_with ''-'' w \<and> 2 \<le> length w"

inductive wrappers :: "string list \<Rightarrow> bool" where
  none: "wrappers []"
| do: "wrappers ws \<Longrightarrow> wrappers (''do'' # ws)"
| nohup: "wrappers ws \<Longrightarrow> wrappers (''nohup'' # ws)"
| sudo: "wrappers ws \<Longrightarrow> list_all sudo_option opts \<Longrightarrow> wrappers (''sudo'' # opts @ ws)"

definition command_word :: "string \<Rightarrow> bool" where
  "command_word w \<longleftrightarrow> is_word w \<and> w \<notin> {''do'', ''nohup'', ''sudo''} \<and> \<not> sudo_option w"

abbreviation (input) blank :: char where "blank \<equiv> CHR '' ''"

lemma blank_space: "is_space blank" by code_simp

lemma takeWhile_word:
  "list_all (\<lambda>c. \<not> is_space c) w \<Longrightarrow> s = [] \<or> is_space (hd s) \<Longrightarrow>
     takeWhile (\<lambda>c. \<not> is_space c) (w @ s) = w \<and> dropWhile (\<lambda>c. \<not> is_space c) (w @ s) = s"
  by (induction w) (cases s; auto)+

lemma run_gap: "c \<noteq> [] \<Longrightarrow> \<not> is_space (hd c) \<Longrightarrow> rx_run gap (l, blank # c, g) = [(blank # l, c, g)]"
  using blank_space by (cases c) (auto simp: gap_def space_def rx_run_Seq, subst rx_run.simps, simp)

lemma run_gap_none: "r = [] \<or> \<not> is_space (hd r) \<Longrightarrow> rx_run gap (l, r, g) = []"
  by (cases r) (auto simp: gap_def space_def rx_run_Seq)

lemma join_cons: "ws \<noteq> [] \<Longrightarrow> join_with '' '' (w # ws) = w @ blank # join_with '' '' ws"
  by (cases ws) auto

lemma join_hd:
  assumes "list_all is_word ws" and "ws \<noteq> []"
  obtains t where "join_with '' '' ws = hd ws @ t" "t = [] \<or> hd t = blank"
  using assms by (cases ws; cases "tl ws") auto

definition sudo_opt :: rx where "sudo_opt = seqs [gap, lit ''-'', words1]"

lemma first_sudo_opt:
  assumes "is_word w" and "t = [] \<or> is_space (hd t)"
  shows "rx_first sudo_opt (l, blank # w @ t, g) = (if sudo_option w then Some (rev (blank # w) @ l, t, g) else None)"
proof -
  have ne: "w \<noteq> []" "\<not> is_space (hd w)" "list_all (\<lambda>c. \<not> is_space c) w" using assms(1) by (cases w; auto simp: is_word_def)+
  have gap: "rx_run gap (l, blank # w @ t, g) = [(blank # l, w @ t, g)]" using ne by (intro run_gap) auto
  obtain c cs where w: "w = c # cs" using ne by (cases w) auto
  have "rx_first sudo_opt (l, blank # w @ t, g) = rx_first (Seq (lit ''-'') words1) (blank # l, w @ t, g)"
    by (simp add: sudo_opt_def rx_first_def rx_run_Seq [of gap] gap del: rx_run.simps)
  also have "\<dots> = (if c = CHR ''-'' then rx_first words1 (c # blank # l, cs @ t, g) else None)"
    by (simp add: rx_first_def rx_run_Seq [of "lit ''-''"] rx_run_lit w del: rx_run.simps)
  also have "rx_first words1 (c # blank # l, cs @ t, g) = (if cs \<noteq> [] then Some (rev cs @ c # blank # l, t, g) else None)"
  proof -
    have "list_all (\<lambda>c. \<not> is_space c) cs" using ne(3) w by simp
    moreover have "cs @ t \<noteq> [] \<and> \<not> is_space (hd (cs @ t)) \<longleftrightarrow> cs \<noteq> []" using calculation assms(2) by (cases cs) auto
    ultimately show ?thesis using takeWhile_word [of cs t] assms(2)
      by (simp only: words1_def nonspace_def first_plus_Cls)
  qed
  finally show ?thesis by (auto simp: sudo_option_def w Suc_le_eq)
qed

lemma first_sudo_opts:
  assumes "list_all is_word (opts @ w # ws)" and "list_all sudo_option opts" and "\<not> sudo_option w"
  shows "rx_first (Star sudo_opt) (l, blank # join_with '' '' (opts @ w # ws), g) =
    Some (rev (concat (map (\<lambda>w. blank # w) opts)) @ l, blank # join_with '' '' (w # ws), g)"
  using assms
proof (induction opts arbitrary: l)
  case Nil
  obtain t where t: "join_with '' '' (w # ws) = w @ t" "t = [] \<or> hd t = blank" using join_hd [of "w # ws"] Nil by auto
  have "rx_first sudo_opt (l, blank # w @ t, g) = None" using first_sudo_opt [of w t] Nil t(2) blank_space by auto
  then show ?case using t(1) by (simp add: first_Star_stop run_empty_iff)
next
  case (Cons v opts)
  define j where "j = join_with '' '' (opts @ w # ws)"
  have v: "is_word v" "sudo_option v" using Cons.prems by auto
  have e: "join_with '' '' ((v # opts) @ w # ws) = v @ blank # j" by (simp add: j_def join_cons)
  have 1: "rx_first sudo_opt (l, blank # v @ blank # j, g) = Some (rev (blank # v) @ l, blank # j, g)"
    using first_sudo_opt [of v "blank # j" l g] v blank_space by simp
  have "list_all is_word (opts @ w # ws)" "list_all sudo_option opts" using Cons.prems by auto
  from first_Star_step [OF 1 _ Cons.IH [OF this Cons.prems(3), of "rev (blank # v) @ l", folded j_def]]
  show ?case unfolding e by simp
qed

lemma word_prefix:
  assumes "list_all (\<lambda>c. \<not> is_space c) w" and "t = [] \<or> hd t = blank" and "list_all (\<lambda>c. \<not> is_space c) p"
    and "starts_with p (w @ t)" and "w \<noteq> p"
  shows "drop (length p) (w @ t) \<noteq> [] \<and> \<not> is_space (hd (drop (length p) (w @ t)))"
  using assms
proof (induction p arbitrary: w)
  case Nil
  then show ?case by (cases w) auto
next
  case (Cons c p)
  show ?case
  proof (cases w)
    case Nil
    then show ?thesis using Cons.prems blank_space by (cases t) auto
  next
    case (Cons d v)
    then show ?thesis using Cons.IH [of v] Cons.prems by auto
  qed
qed

lemma run_sudo_none: "r \<noteq> [] \<Longrightarrow> \<not> is_space (hd r) \<Longrightarrow> rx_run (Star sudo_opt) (l, r, g) = [(l, r, g)]"
  by (subst rx_run.simps) (simp add: sudo_opt_def run_gap_none run_Seq_empty del: rx_run.simps(3))

lemma run_lit_word:
  assumes "is_word w" and "t = [] \<or> hd t = blank" and "list_all (\<lambda>c. \<not> is_space c) p" and "w \<noteq> p"
    and "q \<in> set (rx_run (lit p) (l, w @ t, g))"
  shows "fst (snd q) \<noteq> []" and "\<not> is_space (hd (fst (snd q)))"
  using assms word_prefix [of w t p] by (auto simp: rx_run_lit is_word_def split: if_splits)

lemma run_Seq_none: "(\<And>q. q \<in> set (rx_run a p) \<Longrightarrow> rx_run b q = []) \<Longrightarrow> rx_run (Seq a b) p = []"
  by (simp add: rx_run_Seq del: rx_run.simps(3))

definition wrap_words :: rx where
  "wrap_words = Alt (lit ''do'') (Alt (Seq (lit ''sudo'') (Star sudo_opt)) (lit ''nohup''))"

lemma wrapper_re_split: "wrapper_re = Seq Bos (Seq wrap_words gap)"
  by (simp add: wrapper_re_def sudo_opt_def wrap_words_def)

lemma run_Bos: "rx_run (Seq Bos a) ([], s, g) = rx_run a ([], s, g)"
  by (simp add: rx_run_Seq del: rx_run.simps(3))

lemma unwrap_command:
  assumes "command_word w" and "list_all is_word ws"
  shows "unwrap (join_with '' '' (w # ws)) = join_with '' '' (w # ws)"
proof -
  have w: "is_word w" "w \<noteq> ''do''" "w \<noteq> ''nohup''" "w \<noteq> ''sudo''" using assms(1) by (auto simp: command_word_def)
  obtain t where t: "join_with '' '' (w # ws) = w @ t" "t = [] \<or> hd t = blank" using join_hd [of "w # ws"] w assms(2) by auto
  note sp = is_space_def
  have "rx_run gap q = []" if "q \<in> set (rx_run (lit p) ([], w @ t, []))" "p \<in> {''do'', ''nohup''}" for p q
    using run_lit_word [OF w(1) t(2) _ _ that(1)] that(2) w by (cases q) (auto simp: run_gap_none sp)
  moreover have "rx_run gap q = []" if in_sudo: "q \<in> set (rx_run (Seq (lit ''sudo'') (Star sudo_opt)) ([], w @ t, []))" for q
  proof -
    obtain q1 where q1: "q1 \<in> set (rx_run (lit ''sudo'') ([], w @ t, []))" "q \<in> set (rx_run (Star sudo_opt) q1)"
      using in_sudo unfolding rx_run_Seq set_concat set_map by blast
    have "fst (snd q1) \<noteq> []" "\<not> is_space (hd (fst (snd q1)))" using run_lit_word [OF w(1) t(2) _ _ q1(1)] w by (auto simp: sp)
    then show ?thesis using q1(2) run_sudo_none by (cases q1) (auto simp: run_gap_none)
  qed
  ultimately have "rx_run gap q = []" if "q \<in> set (rx_run wrap_words ([], w @ t, []))" for q
    using that unfolding wrap_words_def rx_run.simps(4) set_append Un_iff by blast
  then have "rx_run wrapper_re ([], w @ t, []) = []" unfolding wrapper_re_split run_Bos by (intro run_Seq_none) blast
  then show ?thesis unfolding t(1) by (subst unwrap.simps) (simp add: rx_first_def)
qed

lemma wrapper_first:
  assumes "rx_first wrap_words ([], s, []) = Some (l, blank # r, [])"
    and "r \<noteq> []" and "\<not> is_space (hd r)" and "length r < length s"
  shows "unwrap s = unwrap r"
proof -
  have b: "rx_first Bos ([], s, []) = Some ([], s, [])" by (simp add: rx_first_def)
  have g: "rx_first gap (l, blank # r, []) = Some (blank # l, r, [])" using run_gap [of r] assms by (simp add: rx_first_def)
  have "rx_first wrapper_re ([], s, []) = Some (blank # l, r, [])"
    unfolding wrapper_re_split by (rule first_Seq [OF b first_Seq [OF assms(1) g]])
  then show ?thesis using assms(4) by (subst unwrap.simps) simp
qed

lemma join_command:
  assumes "list_all is_word (us @ w # ws)"
  shows "join_with '' '' (us @ w # ws) \<noteq> []" and "\<not> is_space (hd (join_with '' '' (us @ w # ws)))"
proof -
  obtain v vs where v: "us @ w # ws = v # vs" by (cases us) auto
  have "list_all is_word (v # vs)" using assms unfolding v .
  then have "is_word v" by simp
  moreover obtain t where "join_with '' '' (v # vs) = v @ t" using join_hd [of "v # vs"] assms v by auto
  ultimately show "join_with '' '' (us @ w # ws) \<noteq> []" "\<not> is_space (hd (join_with '' '' (us @ w # ws)))"
    by (cases v; auto simp: v is_word_def)+
qed

lemma join_length: "length (join_with '' '' ws) \<le> length (join_with '' '' (us @ ws))"
proof (induction us)
  case (Cons u us)
  then show ?case by (cases "us @ ws") auto
qed simp

lemma unwrap_wrappers:
  assumes "wrappers wrap" and "command_word w" and "list_all is_word (wrap @ w # ws)"
  shows "unwrap (join_with '' '' (wrap @ w # ws)) = join_with '' '' (w # ws)"
  using assms(1,3)
proof (induction wrap rule: wrappers.induct)
  case none
  then show ?case using unwrap_command assms(2) by simp
next
  case (do wrap)
  note j = join_command [of wrap w ws]
  have "unwrap (''do'' @ blank # join_with '' '' (wrap @ w # ws)) = unwrap (join_with '' '' (wrap @ w # ws))"
    by (rule wrapper_first [where l = "rev ''do''"]) (use j do.prems in \<open>simp_all add: rx_first_def rx_run_lit wrap_words_def\<close>)
  then show ?case using do.IH do.prems by (simp add: join_cons)
next
  case (nohup wrap)
  note j = join_command [of wrap w ws]
  have "unwrap (''nohup'' @ blank # join_with '' '' (wrap @ w # ws)) = unwrap (join_with '' '' (wrap @ w # ws))"
    by (rule wrapper_first [where l = "rev ''nohup''"])
      (use j nohup.prems in \<open>simp_all add: rx_first_def rx_run_lit wrap_words_def run_Seq_empty del: rx_run.simps(3)\<close>)
  then show ?case using nohup.IH nohup.prems by (simp add: join_cons)
next
  case (sudo wrap opts)
  obtain v vs where v: "wrap @ w # ws = v # vs" by (cases wrap) auto
  have nv: "\<not> sudo_option v" using sudo.hyps(1) assms(2) v by (cases rule: wrappers.cases) (auto simp: command_word_def sudo_option_def)
  let ?j = "join_with '' '' (wrap @ w # ws)" and ?o = "join_with '' '' (opts @ wrap @ w # ws)"
  have ws: "list_all is_word (opts @ v # vs)" "list_all is_word (wrap @ w # ws)" using sudo.prems v by auto
  note j = join_command [OF ws(2)]
  have s: "rx_first (lit ''sudo'') ([], ''sudo'' @ blank # ?o, []) = Some (rev ''sudo'', blank # ?o, [])"
    by (simp add: rx_first_def rx_run_lit)
  have o: "rx_first (Star sudo_opt) (rev ''sudo'', blank # ?o, []) =
      Some (rev (concat (map (\<lambda>w. blank # w) opts)) @ rev ''sudo'', blank # ?j, [])"
    using first_sudo_opts [OF ws(1) sudo.hyps(2) nv] by (simp only: v)
  have "rx_run (lit ''do'') ([], ''sudo'' @ blank # ?o, []) = []" by (simp add: rx_run_lit)
  from first_Alt2 [OF this] have "rx_first wrap_words ([], ''sudo'' @ blank # ?o, []) =
      Some (rev (concat (map (\<lambda>w. blank # w) opts)) @ rev ''sudo'', blank # ?j, [])"
    unfolding wrap_words_def using first_Alt1 [OF first_Seq [OF s o]] by simp
  then have "unwrap (''sudo'' @ blank # ?o) = unwrap ?j"
    by (rule wrapper_first) (use j join_length [of "wrap @ w # ws" opts] in simp_all)
  then show ?case using sudo.IH ws(2) by (simp add: join_cons)
qed

section \<open>Abbreviations\<close>

text \<open>A token stands for a command word from its shortest accepted prefix on.\<close>

definition abbreviates :: "string \<Rightarrow> string \<times> nat \<Rightarrow> bool" where
  "abbreviates tok w \<longleftrightarrow> snd w \<le> length tok \<and> starts_with tok (fst w)"

text \<open>Every abbreviation of a path of command words leads down that path of the tree, and to no other.\<close>

fun resolves :: "cli_word list \<Rightarrow> (string \<times> nat) list \<Rightarrow> string list \<Rightarrow> bool" where
  "resolves tree [] extra = (extra \<noteq> [] \<and> find (hits (hd extra)) tree = None)"
| "resolves tree (w # ws) extra =
     (case find (\<lambda>v. word_name v = fst w) tree of
        None \<Rightarrow> False
      | Some v \<Rightarrow> list_all (\<lambda>n. find (hits (take n (fst w))) tree = Some v) [snd w..<Suc (length (fst w))] \<and>
                  (if word_sub v = [] then ws = [] else resolves (word_sub v) ws extra))"

lemma starts_with_take: "starts_with p s \<Longrightarrow> length p \<le> length s \<and> take (length p) s = p"
  by (induction p s rule: starts_with.induct) auto

lemma expand_resolved:
  "resolves tree path extra \<Longrightarrow> list_all2 abbreviates toks path \<Longrightarrow>
     expand_words tree (toks @ extra @ rest) = map fst path @ extra @ rest"
proof (induction tree path extra arbitrary: toks rule: resolves.induct)
  case (1 tree extra)
  then show ?case by (cases extra) auto
next
  case (2 tree w ws extra)
  then obtain tok toks' where toks: "toks = tok # toks'" "abbreviates tok w" "list_all2 abbreviates toks' ws"
    by (auto simp: list_all2_Cons2)
  obtain v where v: "find (\<lambda>v. word_name v = fst w) tree = Some v" using 2(2) by (auto split: option.splits)
  have n: "word_name v = fst w" using v by (auto simp: find_Some_iff)
  have len: "snd w \<le> length tok" "length tok \<le> length (fst w)" "take (length tok) (fst w) = tok"
    using toks(2) starts_with_take [of tok "fst w"] by (auto simp: abbreviates_def)
  have "list_all (\<lambda>n. find (hits (take n (fst w))) tree = Some v) [snd w..<Suc (length (fst w))]" using 2(2) v by simp
  then have "find (hits (take (length tok) (fst w))) tree = Some v" using len(1,2) by (simp only: list_all_iff) auto
  then have hit: "find (hits tok) tree = Some v" using len(3) by simp
  show ?case
  proof (cases "word_sub v = []")
    case True
    then show ?thesis using 2(2) v toks hit n by simp
  next
    case False
    then have "resolves (word_sub v) ws extra" using 2(2) v by simp
    then show ?thesis using 2(1) [OF v False] toks hit n False by simp
  qed
qed

text \<open>
  Commands that destroy a device's configuration, storage or sessions: the abbreviable words with their shortest
  prefixes, further words, and whether more words may follow.
\<close>

definition destructive :: "((string \<times> nat) list \<times> string list \<times> bool \<times> string) list" where
  "destructive =
     [([(''reload'', 3)], [], True, ''unscoped_reload''), ([(''reboot'', 3)], [], True, ''unscoped_reload''),
      ([(''halt'', 3)], [], True, ''unscoped_reload''), ([(''poweroff'', 4)], [], True, ''unscoped_reload''),
      ([(''write'', 2), (''erase'', 1)], [], True, ''erase_storage''),
      ([(''erase'', 3)], [''startup-config''], True, ''erase_storage''),
      ([(''format'', 4)], [''flash:''], True, ''erase_storage''),
      ([(''delete'', 3)], [''startup-config''], True, ''delete_files''),
      ([(''delete'', 3)], [], False, ''delete_root_config''),
      ([(''delete'', 3)], [''protocols'', ''bgp''], False, ''delete_protocol_group''),
      ([(''delete'', 3)], [''interfaces''], False, ''delete_config_stanza''),
      ([(''configure'', 4), (''replace'', 3)], [], True, ''config_replace''),
      ([(''crypto'', 3), (''key'', 1), (''zeroize'', 3)], [], True, ''crypto_zeroize''),
      ([(''clear'', 3), (''ip'', 2), (''bgp'', 2)], [''*''], False, ''clear_all_bgp''),
      ([(''clear'', 3), (''bgp'', 2)], [''*''], False, ''clear_all_bgp''),
      ([(''clear'', 3), (''ipv6'', 3), (''bgp'', 2)], [''*''], False, ''clear_all_bgp''),
      ([(''clear'', 3), (''bgp'', 2)], [''neighbor''], False, ''clear_all_bgp''),
      ([(''request'', 3), (''system'', 3), (''zeroize'', 3)], [], True, ''system_zeroize''),
      ([(''request'', 3), (''system'', 3), (''halt'', 3)], [], True, ''system_zeroize''),
      ([(''request'', 3), (''system'', 3), (''reboot'', 3)], [], True, ''system_zeroize''),
      ([(''request'', 3), (''system'', 3), (''power-off'', 3)], [], True, ''system_zeroize''),
      ([(''request'', 3), (''vmhost'', 4), (''zeroize'', 3)], [], True, ''system_zeroize''),
      ([(''request'', 3), (''vmhost'', 4), (''reboot'', 3)], [], True, ''system_zeroize''),
      ([(''request'', 3), (''restart'', 3), (''system'', 3)], [], True, ''panos_destructive''),
      ([(''request'', 3), (''shutdown'', 3), (''system'', 3)], [], True, ''panos_destructive''),
      ([(''request'', 3), (''software'', 4), (''reset'', 3)], [], True, ''sdwan_destructive''),
      ([(''execute'', 3), (''factoryreset'', 4)], [], True, ''fortios_destructive''),
      ([(''execute'', 3), (''formatlogdisk'', 4)], [], True, ''fortios_destructive''),
      ([(''execute'', 3), (''erase-disk'', 4)], [], True, ''fortios_destructive''),
      ([(''execute'', 3), (''reboot'', 3)], [], True, ''fortios_destructive''),
      ([(''execute'', 3), (''shutdown'', 3)], [], True, ''fortios_destructive''),
      ([(''execute'', 3), (''restore'', 3), (''image'', 3)], [], True, ''fortios_destructive''),
      ([(''load'', 3), (''override'', 3)], [], True, ''load_override''),
      ([(''load'', 3), (''replace'', 3)], [], True, ''load_override''),
      ([(''load'', 3), (''factory-default'', 3)], [], True, ''load_override''),
      ([], [''no'', ''router'', ''bgp''], True, ''wipe_bgp_asn''),
      ([], [''no'', ''router'', ''ospf''], True, ''wipe_bgp_asn''), ([], [''no'', ''feature''], True, ''no_feature''),
      ([], [''rm'', ''-rf'', ''/''], False, ''shell_wipe'')]"

text \<open>A match of one branch of a pattern is a match of the pattern.\<close>

fun branches :: "rx \<Rightarrow> rx list" where
  "branches (Alt a b) = branches a @ branches b"
| "branches (Seq a b) = map (Seq a) (branches b)"
| "branches a = [a]"

lemma run_branches: "r \<in> set (branches a) \<Longrightarrow> set (rx_run r p) \<subseteq> set (rx_run a p)"
proof (induction a arbitrary: r p)
  case (Seq a b)
  then obtain c where r: "r = Seq a c" "c \<in> set (branches b)" by auto
  show ?case unfolding r(1) rx_run_Seq set_concat set_map using Seq.IH(2) [OF r(2)] by blast
next
  case (Alt a b)
  then show ?case by fastforce
qed (simp_all del: rx_run.simps)

type_synonym spelling = "(string \<times> nat) list \<times> string list \<times> bool \<times> string"

definition full_text :: "spelling \<Rightarrow> string" where
  "full_text d = join_with '' '' (map fst (fst d) @ fst (snd d))"

definition starts_plain :: "spelling \<Rightarrow> bool" where
  "starts_plain d \<longleftrightarrow>
     (case fst d of [] \<Rightarrow> command_word (hd (fst (snd d)))
      | w # ws \<Rightarrow> list_all (\<lambda>n. command_word (take n (fst w))) [snd w..<Suc (length (fst w))])"

definition caught :: "spelling \<Rightarrow> bool" where
  "caught d \<longleftrightarrow>
     (case map_of forbidden (snd (snd (snd d))) of
        None \<Rightarrow> False
      | Some re \<Rightarrow> list_ex (\<lambda>r. (fst (snd (snd d)) \<longrightarrow> open_ended r) \<and> rx_first r ([], full_text d, []) \<noteq> None) (branches re))"

lemma destructive_resolves: "list_all (\<lambda>d. resolves cli_tree (fst d) (fst (snd d))) destructive"
  by code_simp

lemma destructive_plain: "list_all starts_plain destructive"
  by code_simp

lemma destructive_caught: "list_all caught destructive"
  by code_simp

end
