(* ===== verification/Guardrail_Spellings.thy ===== *)
theory Guardrail_Spellings
  imports Guardrail_Laws
begin

text \<open>Destructive commands are blocked in every spelling, and screening replaces exactly what is blocked.\<close>

section \<open>Spellings\<close>

lemma caught_hits:
  assumes "caught d" and "t = [] \<or> hd t = blank" and "fst (snd (snd d)) \<or> t = []"
  shows "rule_hit (full_text d @ t) \<noteq> None"
proof -
  obtain re r where re: "map_of forbidden (snd (snd (snd d))) = Some re" "r \<in> set (branches re)"
    "fst (snd (snd d)) \<longrightarrow> open_ended r" "rx_first r ([], full_text d, []) \<noteq> None"
    using assms(1) by (auto simp: caught_def list_ex_iff split: option.splits)
  then obtain q where q: "q \<in> set (rx_run r ([], full_text d, []))" by (auto simp: rx_first_def split: list.splits)
  have "rx_run r ([], full_text d @ t, []) \<noteq> []"
  proof (cases "t = []")
    case False
    then have "open_ended r" using assms(3) re(3) by blast
    from run_open_ended [OF assms(2) this q] show ?thesis by (auto simp: widen_def)
  qed (use q in auto)
  then have "rx_run re ([], full_text d @ t, []) \<noteq> []" using run_branches [OF re(2)] by (metis set_empty subset_empty)
  then have "rx_search re (full_text d @ t) \<noteq> None" by (intro search_here) (simp add: rx_first_def split: list.splits)
  moreover have "(snd (snd (snd d)), re) \<in> set forbidden" using re(1) by (rule map_of_SomeD)
  ultimately show ?thesis unfolding rule_hit_None by (intro notI) (drule (1) bspec, simp)
qed

lemma join_rest: "us \<noteq> [] \<Longrightarrow> \<exists>t. join_with '' '' (us @ rest) = join_with '' '' us @ t \<and> (t = [] \<or> hd t = blank) \<and> (rest = [] \<longrightarrow> t = [])"
proof (induction us)
  case (Cons u us)
  show ?case
  proof (cases us)
    case Nil
    then show ?thesis by (cases rest) auto
  next
    case (Cons v vs)
    then show ?thesis using Cons.IH by (cases "vs @ rest") auto
  qed
qed simp

lemma plain_head:
  assumes "starts_plain d" and "list_all2 abbreviates toks (fst d)" and "fst d = [] \<longrightarrow> fst (snd d) \<noteq> []"
  shows "\<exists>w ws. toks @ fst (snd d) = w # ws \<and> command_word w"
proof (cases "fst d")
  case Nil
  then show ?thesis using assms by (cases "fst (snd d)") (auto simp: starts_plain_def)
next
  case (Cons w ws)
  then obtain tok toks' where t: "toks = tok # toks'" "abbreviates tok w" using assms(2) by (auto simp: list_all2_Cons2)
  have p: "\<forall>n\<in>set [snd w..<Suc (length (fst w))]. command_word (take n (fst w))"
    using assms(1) Cons by (simp only: starts_plain_def list_all_iff list.case)
  have len: "snd w \<le> length tok" "length tok \<le> length (fst w)" "take (length tok) (fst w) = tok"
    using t(2) starts_with_take [of tok "fst w"] by (auto simp: abbreviates_def)
  have "length tok \<in> set [snd w..<Suc (length (fst w))]" using len(1,2) by auto
  from bspec [OF p this] have "command_word tok" unfolding len(3) .
  then show ?thesis using t by auto
qed

text \<open>
  C10: no spelling of a destructive command passes. For every command of the table: written in any case, with any
  white space, after any wrappers, with any accepted abbreviations of its words, as any command of a text, with more
  words after it where the table allows them, the guardrail blocks the text.
\<close>

theorem destructive_spelling_blocked:
  assumes "(path, extra, more, rule) \<in> set destructive" and "wrappers wrap" and "list_all2 abbreviates toks path"
    and "seg \<in> set (command_segments cmd)" and "words (lower seg) = wrap @ toks @ extra @ rest" and "more \<or> rest = []"
  shows "violation cmd \<noteq> None"
proof -
  let ?d = "(path, extra, more, rule)"
  have d: "resolves cli_tree path extra" "starts_plain ?d" "caught ?d"
    using destructive_resolves destructive_plain destructive_caught assms(1) by (force simp: list_all_iff)+
  have ne: "path = [] \<longrightarrow> extra \<noteq> []" using d(1) by (cases path) auto
  obtain w ws where w: "toks @ extra = w # ws" "command_word w" using plain_head [OF d(2), of toks] assms(3) ne by auto
  have e: "toks @ extra @ rest = w # ws @ rest" using w(1) by (metis append_Cons append_assoc)
  have all: "list_all is_word (wrap @ w # ws @ rest)" using words_words [of "lower seg"] unfolding assms(5) e .
  have "canonical_segment seg = join_with '' '' (expand_words cli_tree (toks @ extra @ rest))"
    using unwrap_wrappers [OF assms(2) w(2) all] split_join [of "w # ws @ rest"] all
    by (simp add: canonical_segment_def assms(5) e)
  also have "expand_words cli_tree (toks @ extra @ rest) = (map fst path @ extra) @ rest"
    using expand_resolved [OF d(1) assms(3)] by simp
  finally have c: "canonical_segment seg = join_with '' '' ((map fst path @ extra) @ rest)" .
  have "map fst path @ extra \<noteq> []" using ne by auto
  from join_rest [OF this, of rest] obtain t where t: "canonical_segment seg = full_text ?d @ t" "t = [] \<or> hd t = blank"
      "rest = [] \<longrightarrow> t = []"
    using c by (auto simp: full_text_def)
  have "rule_hit (canonical_segment seg) \<noteq> None"
    unfolding t(1) by (rule caught_hits [OF d(3) t(2)]) (use t(3) assms(6) in auto)
  then show ?thesis using assms(4) by (auto simp: violation_None)
qed

text \<open>\<open>show version; sudo -n REL  in 5\<close>, and the same text with the words in a chain.\<close>

theorem destructive_spelling_blocked_witness:
  "violation ''show version; sudo -n REL  in 5'' \<noteq> None"
proof -
  have d: "([(''reload'', 3)], [], True, ''unscoped_reload'') \<in> set destructive" by (simp add: destructive_def)
  have w: "wrappers ([''sudo''] @ [''-n''] @ [])" using wrappers.sudo [OF wrappers.none, of "[''-n'']"] by (simp add: sudo_option_def)
  have a: "list_all2 abbreviates [''rel''] [(''reload'', 3)]" by (simp add: abbreviates_def)
  have s: "''sudo -n REL  in 5'' \<in> set (command_segments ''show version; sudo -n REL  in 5'')" by code_simp
  have l: "words (lower ''sudo -n REL  in 5'') = ([''sudo''] @ [''-n''] @ []) @ [''rel''] @ [] @ [''in'', ''5'']" by code_simp
  show ?thesis using destructive_spelling_blocked [OF d w a s l] by simp
qed

section \<open>Screening\<close>

fun leaves :: "json \<Rightarrow> string list" and item_leaves :: "json list \<Rightarrow> string list" and field_leaves :: "(string \<times> json) list \<Rightarrow> string list" where
  "leaves (JStr s) = [s]"
| "leaves (JList vs) = item_leaves vs"
| "leaves (JObj kvs) = field_leaves kvs"
| "leaves v = []"
| "item_leaves [] = []"
| "item_leaves (v # vs) = leaves v @ item_leaves vs"
| "field_leaves [] = []"
| "field_leaves ((k, v) # kvs) = leaves v @ field_leaves kvs"

text \<open>The value with its texts left out.\<close>

fun shape :: "json \<Rightarrow> json" and item_shapes :: "json list \<Rightarrow> json list" and field_shapes :: "(string \<times> json) list \<Rightarrow> (string \<times> json) list" where
  "shape (JStr s) = JStr []"
| "shape (JList vs) = JList (item_shapes vs)"
| "shape (JObj kvs) = JObj (field_shapes kvs)"
| "shape v = v"
| "item_shapes [] = []"
| "item_shapes (v # vs) = shape v # item_shapes vs"
| "field_shapes [] = []"
| "field_shapes ((k, v) # kvs) = (k, shape v) # field_shapes kvs"

definition screened :: "string \<Rightarrow> string" where
  "screened s = (case violation s of None \<Rightarrow> s | Some rule \<Rightarrow> blocked_placeholder rule)"

definition blocked_of :: "string list \<Rightarrow> (string \<times> string) list" where
  "blocked_of ss = List.map_filter (\<lambda>s. map_option (\<lambda>rule. (s, rule)) (violation s)) ss"

lemma blocked_of_append: "blocked_of (a @ b) = blocked_of a @ blocked_of b"
  by (simp add: blocked_of_def List.map_filter_def)

lemma screened_llm:
  "screen_llm_cli v sink = (v', sink') \<Longrightarrow> leaves v' = map screened (leaves v) \<and> shape v' = shape v \<and> sink' = sink @ blocked_of (leaves v)"
  "screen_items vs sink = (vs', sink') \<Longrightarrow> item_leaves vs' = map screened (item_leaves vs) \<and> item_shapes vs' = item_shapes vs \<and>
     sink' = sink @ blocked_of (item_leaves vs)"
  "screen_fields kvs sink = (kvs', sink') \<Longrightarrow> field_leaves kvs' = map screened (field_leaves kvs) \<and> field_shapes kvs' = field_shapes kvs \<and>
     sink' = sink @ blocked_of (field_leaves kvs)"
proof (induction v sink and vs sink and kvs sink arbitrary: v' sink' and vs' sink' and kvs' sink'
    rule: screen_llm_cli_screen_items_screen_fields.induct)
  case (1 cmd sink)
  then show ?case by (auto simp: screened_def blocked_of_def List.map_filter_def split: option.splits)
qed (auto simp: blocked_of_append split: prod.splits, simp_all add: blocked_of_def List.map_filter_def)

text \<open>
  Screening model output. The result has the shape of the input; every text in it is a text of the input the
  guardrail lets through, or stands for a blocked one and names its rule, and the log lists exactly the blocked ones.
\<close>

theorem screening_exact:
  "leaves (fst (screen_llm_cli v [])) = map screened (leaves v) \<and> shape (fst (screen_llm_cli v [])) = shape v \<and>
   snd (screen_llm_cli v []) = blocked_of (leaves v)"
  using screened_llm(1) [of v "[]"] by (cases "screen_llm_cli v []") auto

end
