(* ===== verification/Remediation.thy ===== *)
theory Remediation
  imports Guardrail Net_Address
begin

text \<open>
  Change plans (\<open>remediation.py\<close>): the vendors, the validation of names, addresses and timers, the transaction
  each vendor wraps a change in, the three plan builders and the texts of a plan card. The SHA-1 digest, the
  random suffix of FRR backups and the creation time are arguments.
\<close>

section \<open>Vendors, actions and plans\<close>

datatype vendor_os = Arista_Eos | Juniper_Junos | Cisco_Nxos | Cisco_Ios_Xe | Frr | Fortinet_Fortios | Paloalto_Panos | Cisco_Sdwan

fun vendor_value :: "vendor_os \<Rightarrow> string" where
  "vendor_value Arista_Eos = ''arista_eos''"
| "vendor_value Juniper_Junos = ''juniper_junos''"
| "vendor_value Cisco_Nxos = ''cisco_nxos''"
| "vendor_value Cisco_Ios_Xe = ''cisco_ios''"
| "vendor_value Frr = ''frr''"
| "vendor_value Fortinet_Fortios = ''fortinet_fortios''"
| "vendor_value Paloalto_Panos = ''paloalto_panos''"
| "vendor_value Cisco_Sdwan = ''cisco_sdwan''"

datatype action_type = Graceful_Link_Drain | Interface_Flap_Dampening | Qos_Copp_Boost | Evpn_Mac_Freeze | Custom_Safe_Config

fun action_value :: "action_type \<Rightarrow> string" where
  "action_value Graceful_Link_Drain = ''graceful_link_drain''"
| "action_value Interface_Flap_Dampening = ''interface_flap_dampening''"
| "action_value Qos_Copp_Boost = ''qos_copp_control_plane_boost''"
| "action_value Evpn_Mac_Freeze = ''evpn_mac_mobility_freeze''"
| "action_value Custom_Safe_Config = ''custom_safe_config''"

record plan =
  pl_id :: string
  pl_device :: string
  pl_vendor :: vendor_os
  pl_action :: action_type
  pl_minutes :: int
  pl_rationale :: string
  pl_pre :: "string list"
  pl_config :: "string list"
  pl_commit :: "string list"
  pl_post :: "string list"
  pl_confirm :: "string list"
  pl_rollback :: "string list"
  pl_blast :: string
  pl_created :: string
  pl_body :: "string list"
  pl_inverse :: "string list"
  pl_interface :: string
  pl_neighbor :: string

text \<open>What the builders take from outside: SHA-1 in hex, three random bytes in hex, the time stamp.\<close>

record plan_env =
  pe_sha1 :: "string \<Rightarrow> string"
  pe_token :: string
  pe_now :: string

section \<open>Validation\<close>

definition is_alpha :: "char \<Rightarrow> bool" where "is_alpha c = lower_letter c"

definition device_char :: "char \<Rightarrow> bool" where
  "device_char c = (is_alpha c \<or> is_digit c \<or> c \<in> set ''._:-'')"

definition interface_char :: "char \<Rightarrow> bool" where
  "interface_char c = (is_alpha c \<or> is_digit c \<or> c \<in> set ''._:/-'')"

definition plan_id_char :: "char \<Rightarrow> bool" where
  "plan_id_char c = (is_alpha c \<or> is_digit c \<or> c \<in> set ''_-'')"

text \<open>\<open>^[...]{1,n}$\<close> under \<open>re.match\<close>: \<open>$\<close> also matches before a final line feed.\<close>

definition name_ok :: "(char \<Rightarrow> bool) \<Rightarrow> nat \<Rightarrow> string \<Rightarrow> bool" where
  "name_ok f n s =
     (let w = takeWhile f s; r = dropWhile f s in 1 \<le> length w \<and> length w \<le> n \<and> (r = [] \<or> r = [CHR 0x0A]))"

definition control_text_re :: rx where
  "control_text_re = plus1 (alts [Cls (\<lambda>c. (of_char c :: nat) < 32 \<or> (of_char c :: nat) = 127), lit [CHR 0xC2, CHR 0x85],
     lit [CHR 0xE2, CHR 0x80, CHR 0xA8], lit [CHR 0xE2, CHR 0x80, CHR 0xA9]])"

definition clean_text :: "string \<Rightarrow> nat \<Rightarrow> string" where
  "clean_text value limit = take limit (strip (rx_sub control_text_re (\<lambda>_ _. '' '') value))"

definition validate_device :: "json \<Rightarrow> plan_error + string" where
  "validate_device j = (let t = text_of j in if name_ok device_char 255 t then Inr t else Inl Bad_Device)"

definition validate_ansible_host :: "string \<Rightarrow> plan_error + string" where
  "validate_ansible_host device =
     (case validate_device (JStr device) of
        Inl e \<Rightarrow> Inl e
      | Inr _ \<Rightarrow>
          if lower device \<in> set [''all'', ''ungrouped''] \<or> starts_with ''-'' device \<or> starts_with ''.'' device then Inl Many_Hosts
          else if CHR '':'' \<in> set device \<and> parse_v6 device = None then Inl Host_Union
          else Inr device)"

definition validate_interface :: "json \<Rightarrow> plan_error + string" where
  "validate_interface j = (let t = text_of j in if name_ok interface_char 64 t then Inr t else Inl Bad_Interface)"

definition validate_plan_id :: "string \<Rightarrow> plan_error + string" where
  "validate_plan_id t = (if name_ok plan_id_char 64 t then Inr t else Inl Bad_Plan_Id)"

text \<open>\<open>str(ip_address(s))\<close>: dotted decimal, or hexadecimal groups with the first longest run of zeros as \<open>::\<close>.\<close>

fun show_hex :: "nat \<Rightarrow> string" where
  "show_hex n = (if n < 16 then [hex_digit n] else show_hex (n div 16) @ [hex_digit (n mod 16)])"

declare show_hex.simps [simp del]

definition groups_of :: "int \<Rightarrow> nat list" where
  "groups_of n = map (\<lambda>i. nat (n div 65536 ^ (7 - i) mod 65536)) [0..<8]"

definition zero_run :: "nat list \<Rightarrow> nat \<Rightarrow> nat" where
  "zero_run gs i = length (takeWhile (\<lambda>g. g = 0) (drop i gs))"

definition show_v6 :: "int \<Rightarrow> string" where
  "show_v6 n =
     (let gs = groups_of n; i = max_by (zero_run gs) 0 [0..<8]; k = zero_run gs i; hex = map show_hex gs
      in if k < 2 then join_with '':'' hex
         else join_with '':'' (take i hex) @ ''::'' @ join_with '':'' (drop (i + k) hex))"

definition dotted_v4 :: "int \<Rightarrow> string" where
  "dotted_v4 n = join_with ''.'' (map (\<lambda>i. show_nat (nat (n div 256 ^ (3 - i) mod 256))) [0..<4])"

definition show_ip :: "string \<Rightarrow> string option" where
  "show_ip s =
     (case ip_address s of
        None \<Rightarrow> None
      | Some (V4 n) \<Rightarrow> Some (dotted_v4 n)
      | Some (V6 n) \<Rightarrow> (case partition_on (CHR ''%'') s of (_, scoped, scope) \<Rightarrow>
                         Some (show_v6 n @ (if scoped then ''%'' @ scope else []))))"

definition validate_neighbor_ip :: "string option \<Rightarrow> plan_error + string option" where
  "validate_neighbor_ip value =
     (case value of
        None \<Rightarrow> Inr None
      | Some s \<Rightarrow> if strip s = [] then Inr None
                   else (case show_ip (strip s) of None \<Rightarrow> Inl Bad_Neighbor | Some ip \<Rightarrow> Inr (Some ip)))"

text \<open>\<open>f"{n:02d}"\<close> for a number that is not negative.\<close>

definition two_digits :: "nat \<Rightarrow> string" where
  "two_digits n = (if n < 10 then ''0'' @ show_nat n else show_nat n)"

definition hhmmss :: "int \<Rightarrow> string" where
  "hhmmss minutes = two_digits (nat (minutes div 60)) @ '':'' @ two_digits (nat (minutes mod 60)) @ '':00''"

section \<open>Vendor transactions\<close>

abbreviation (input) quoted :: "string \<Rightarrow> string" where "quoted s \<equiv> [dq] @ s @ [dq]"
abbreviation (input) squoted :: "string \<Rightarrow> string" where "squoted s \<equiv> [sq] @ s @ [sq]"

record steps =
  st_config :: "string list"
  st_commit :: "string list"
  st_confirm :: "string list"
  st_rollback :: "string list"

definition frr_steps :: "string \<Rightarrow> string \<Rightarrow> string list \<Rightarrow> int \<Rightarrow> steps" where
  "frr_steps token tag0 body minutes =
     (let tag = tag0 @ ''_'' @ token; bak = ''/etc/frr/frr.conf.'' @ tag @ ''.bak''
      in \<lparr>st_config =
            [''cp /etc/frr/frr.conf '' @ bak,
             ''vtysh -c '' @ squoted ''configure terminal'' @ '' '' @ join_with '' '' (map (\<lambda>c. ''-c '' @ squoted c) body)],
          st_commit =
            [''nohup sh -c '' @ squoted (''sleep '' @ show_int (minutes * 60) @ '' && cp '' @ bak
               @ '' /etc/frr/frr.conf && systemctl reload frr'') @ '' >/dev/null 2>&1 &''],
          st_confirm = [''pkill -f '' @ squoted (''frr.conf.'' @ tag), ''vtysh -c '' @ squoted ''write integrated''],
          st_rollback = [''cp '' @ bak @ '' /etc/frr/frr.conf && systemctl reload frr'']\<rparr>)"

definition wrap_vendor_transaction :: "string \<Rightarrow> vendor_os \<Rightarrow> string \<Rightarrow> string list \<Rightarrow> int \<Rightarrow> steps" where
  "wrap_vendor_transaction token v tag body minutes =
     (let n = show_int minutes
      in case v of
        Juniper_Junos \<Rightarrow>
          \<lparr>st_config = [''configure exclusive''] @ body @ [''show | compare''],
           st_commit = [''commit confirmed '' @ n @ '' comment '' @ quoted (''netlog-ai '' @ tag)],
           st_confirm = [''commit comment '' @ quoted (''netlog-ai '' @ tag @ '' confirmed''), ''exit''],
           st_rollback = [''rollback 0'', ''commit and-quit'']\<rparr>
      | Arista_Eos \<Rightarrow>
          \<lparr>st_config = [''configure session '' @ tag] @ body @ [''show session-config diffs''],
           st_commit = [''commit timer '' @ hhmmss minutes],
           st_confirm = [''configure session '' @ tag, ''commit''],
           st_rollback = [''configure session '' @ tag, ''abort'']\<rparr>
      | Cisco_Nxos \<Rightarrow>
          \<lparr>st_config = [''checkpoint '' @ tag @ '' description netlog-ai-pre-change'', ''configure terminal''] @ body,
           st_commit = [''end''],
           st_confirm = [''copy running-config startup-config''],
           st_rollback = [''rollback running-config checkpoint '' @ tag]\<rparr>
      | Cisco_Ios_Xe \<Rightarrow>
          \<lparr>st_config = [''configure terminal revert timer '' @ n] @ body,
           st_commit = [''end''],
           st_confirm = [''configure confirm'', ''copy running-config startup-config''],
           st_rollback = [''configure revert now'']\<rparr>
      | Fortinet_Fortios \<Rightarrow>
          \<lparr>st_config = [''execute backup config flash netlog-ai-'' @ tag, ''config system global'', ''    set cfg-save revert'',
                         ''    set cfg-revert-timeout '' @ show_int (minutes * 60), ''end''] @ body,
           st_commit = [''# changes are live and UNSAVED; auto-revert in '' @ n @ '' min restarts the unit on the saved config ''
                          @ [CHR 0xE2, CHR 0x80, CHR 0x94] @ '' run in a maintenance window''],
           st_confirm = [''execute cfg save'', ''config system global'', ''    set cfg-save automatic'', ''end''],
           st_rollback = [''execute cfg reload'']\<rparr>
      | Paloalto_Panos \<Rightarrow>
          (let snapshot = ''netlog-ai-'' @ tag @ ''.xml''
           in \<lparr>st_config = [''configure'', ''save config to '' @ snapshot] @ body @ [''validate full''],
               st_commit = [''commit description '' @ quoted (''netlog-ai '' @ tag),
                            ''# PAN-OS has no commit-confirmed timer: if post-checks fail within '' @ n
                              @ '' min, run the rollback block''],
               st_confirm = [''exit''],
               st_rollback = [''configure'', ''load config from '' @ snapshot,
                              ''commit description '' @ quoted (''netlog-ai rollback '' @ tag)]\<rparr>)
      | Cisco_Sdwan \<Rightarrow>
          \<lparr>st_config = [''config-transaction''] @ body,
           st_commit = [''commit confirmed '' @ n],
           st_confirm = [''config-transaction'', ''commit''],
           st_rollback = [''# let the commit-confirmed timer expire, or roll back now:'', ''config-transaction'',
                          ''rollback configuration 0'', ''commit'']\<rparr>
      | Frr \<Rightarrow> frr_steps token tag body minutes)"

definition make_plan_id :: "plan_env \<Rightarrow> string \<Rightarrow> action_type \<Rightarrow> string \<Rightarrow> string" where
  "make_plan_id env device action target =
     ''REM-'' @ upper (take 8 (pe_sha1 env (device @ '':'' @ action_value action @ '':'' @ target)))"

definition session_tag :: "string \<Rightarrow> string" where
  "session_tag plan_id = map (\<lambda>c. if c = CHR ''-'' then CHR ''_'' else c) plan_id"

section \<open>Builders\<close>

definition drain_in :: string where "drain_in = ''NETLOG-DRAIN-IN''"
definition drain_out :: string where "drain_out = ''NETLOG-DRAIN-OUT''"
definition junos_neighbor :: "string \<Rightarrow> string" where "junos_neighbor ip = ''protocols bgp group UNDERLAY neighbor '' @ ip"

definition drain_inverse :: "vendor_os \<Rightarrow> string \<Rightarrow> string option \<Rightarrow> string list" where
  "drain_inverse v intf neighbor =
     (case v of
        Juniper_Junos \<Rightarrow>
          (case neighbor of
             None \<Rightarrow> []
           | Some ip \<Rightarrow> [''delete '' @ junos_neighbor ip @ '' import '' @ drain_in, ''delete '' @ junos_neighbor ip @ '' export '' @ drain_out,
                          ''delete policy-options policy-statement '' @ drain_in, ''delete policy-options policy-statement '' @ drain_out])
          @ [''delete interfaces '' @ intf @ '' disable'']
      | Arista_Eos \<Rightarrow> [''interface '' @ intf, ''   no bgp session tracker'', ''   no shutdown'']
      | Fortinet_Fortios \<Rightarrow> [''config system interface'', ''    edit '' @ intf, ''        set status up'', ''    next'', ''end'']
      | Paloalto_Panos \<Rightarrow> [''set network interface ethernet '' @ intf @ '' link-state auto'']
      | _ \<Rightarrow> [''interface '' @ intf, '' no shutdown''])"

text \<open>Pre-checks, body and post-checks of a drain.\<close>

definition drain_commands :: "vendor_os \<Rightarrow> string \<Rightarrow> string option \<Rightarrow> string list \<times> string list \<times> string list" where
  "drain_commands v intf neighbor =
     (case v of
        Juniper_Junos \<Rightarrow>
          ([''show interfaces '' @ intf @ '' extensive | match '' @ quoted ''error|flap|dbm'', ''show bgp summary''],
           (case neighbor of
              None \<Rightarrow> []
            | Some ip \<Rightarrow>
                [''set policy-options policy-statement '' @ drain_in @ '' term drain then local-preference 0'',
                 ''set policy-options policy-statement '' @ drain_in @ '' term drain then accept'',
                 ''set policy-options policy-statement '' @ drain_out @ '' term drain then reject'',
                 ''set '' @ junos_neighbor ip @ '' import '' @ drain_in, ''set '' @ junos_neighbor ip @ '' export '' @ drain_out])
           @ [''set interfaces '' @ intf @ '' disable''],
           [''show interfaces '' @ intf @ '' terse'', ''show bgp summary'', ''show route summary''])
      | Arista_Eos \<Rightarrow>
          ([''show interfaces '' @ intf @ '' transceiver dom'', ''show ip bgp summary''],
           [''ip as-path access-list DRAIN permit .*'', ''interface '' @ intf, ''   bgp session tracker DRAIN'', ''   shutdown''],
           [''show interfaces '' @ intf @ '' status'', ''show ip bgp summary''])
      | Fortinet_Fortios \<Rightarrow>
          ([''diagnose sys sdwan member'', ''get router info bgp summary''],
           [''config system interface'', ''    edit '' @ intf, ''        set status down'', ''    next'', ''end''],
           [''diagnose sys sdwan health-check'', ''get router info bgp summary''])
      | Paloalto_Panos \<Rightarrow>
          ([''show interface '' @ intf, ''show routing protocol bgp summary''],
           [''set network interface ethernet '' @ intf @ '' link-state down''],
           [''show interface '' @ intf, ''show routing protocol bgp summary''])
      | Cisco_Sdwan \<Rightarrow>
          ([''show sdwan bfd sessions'', ''show sdwan control connections''],
           [''interface '' @ intf, '' shutdown''],
           [''show sdwan bfd sessions'', ''show sdwan control connections''])
      | _ \<Rightarrow>
          ([''show interface '' @ intf, ''show ip bgp summary''],
           [''interface '' @ intf, '' shutdown''],
           [''show interface '' @ intf @ '' status'', ''show ip bgp summary'']))"

definition drain_blast_notes :: "vendor_os \<Rightarrow> string \<Rightarrow> string \<Rightarrow> string option \<Rightarrow> string" where
  "drain_blast_notes v device intf neighbor =
     ''Drains ECMP member '' @ intf @ '' on '' @ device @ ''; verify >=1 alternate spine path is Up.'' @
     (case v of
        Juniper_Junos \<Rightarrow>
          '' Assumes the peer already sits in BGP group UNDERLAY; the drain policies are appended after any existing import/export policies on that neighbor.''
          @ (if neighbor = None then '' No bgp_neighbor_ip given: no BGP policy drain, the interface is simply disabled and its sessions drop immediately.'' else [])
      | Arista_Eos \<Rightarrow>
          '' The EOS drain lines (`ip as-path access-list DRAIN`, `bgp session tracker`) are generic; verify the syntax on your EOS release before applying.''
      | _ \<Rightarrow> [])"

definition qos_commands :: "vendor_os \<Rightarrow> string \<Rightarrow> string list \<times> string list \<times> string list" where
  "qos_commands v intf =
     (case v of
        Juniper_Junos \<Rightarrow>
          ([''show interfaces queue '' @ intf, ''show bfd session''],
           [''set class-of-service interfaces '' @ intf @ '' scheduler-map STRICT-NC-PRIORITY''],
           [''show interfaces queue '' @ intf @ '' | match Policed'', ''show bfd session''])
      | Arista_Eos \<Rightarrow>
          ([''show qos interfaces '' @ intf @ '' queue'', ''show bfd peers''],
           [''interface '' @ intf, ''   tx-queue 7'', ''      priority strict'', ''      bandwidth percent 15''],
           [''show qos interfaces '' @ intf @ '' queue'', ''show bfd peers''])
      | _ \<Rightarrow>
          ([''show queuing interface '' @ intf, ''show bfd neighbors''],
           [''interface '' @ intf, '' priority-queue out''],
           [''show queuing interface '' @ intf, ''show bfd neighbors'']))"

text \<open>The plan from its parts, after the guardrail let them through.\<close>

definition assemble ::
  "plan_env \<Rightarrow> string \<Rightarrow> vendor_os \<Rightarrow> action_type \<Rightarrow> string \<Rightarrow> int \<Rightarrow> string \<Rightarrow> string list \<times> string list \<times> string list \<Rightarrow> plan" where
  "assemble env device v action target minutes rationale commands =
     (let (pre, body, post) = commands; plan_id = make_plan_id env device action target;
          st = wrap_vendor_transaction (pe_token env) v (session_tag plan_id) body minutes
      in \<lparr>pl_id = plan_id, pl_device = device, pl_vendor = v, pl_action = action, pl_minutes = minutes, pl_rationale = rationale,
          pl_pre = pre, pl_config = st_config st, pl_commit = st_commit st, pl_post = post, pl_confirm = st_confirm st,
          pl_rollback = st_rollback st, pl_blast = [], pl_created = pe_now env, pl_body = body, pl_inverse = [],
          pl_interface = [], pl_neighbor = []\<rparr>)"

definition timer_or :: "int \<Rightarrow> json option \<Rightarrow> json" where
  "timer_or usual timer = (case timer of None \<Rightarrow> JInt usual | Some j \<Rightarrow> j)"

definition build_graceful_link_drain ::
  "plan_env \<Rightarrow> int \<Rightarrow> json \<Rightarrow> vendor_os \<Rightarrow> json \<Rightarrow> string option \<Rightarrow> json option \<Rightarrow> string \<Rightarrow> plan_error + plan" where
  "build_graceful_link_drain env usual device v interface neighbor timer rationale =
     (case validate_device device of Inl e \<Rightarrow> Inl e | Inr dev \<Rightarrow>
      case validate_interface interface of Inl e \<Rightarrow> Inl e | Inr intf \<Rightarrow>
      case validate_neighbor_ip neighbor of Inl e \<Rightarrow> Inl e | Inr peer \<Rightarrow>
      let commands = drain_commands v intf peer
      in case validate (map JStr (fst (snd commands))) (timer_or usual timer) of Inl e \<Rightarrow> Inl e | Inr (_, minutes) \<Rightarrow>
      Inr ((assemble env dev v Graceful_Link_Drain intf minutes rationale commands)
           \<lparr>pl_blast := drain_blast_notes v dev intf peer, pl_inverse := drain_inverse v intf peer, pl_interface := intf,
            pl_neighbor := (case peer of None \<Rightarrow> [] | Some ip \<Rightarrow> ip)\<rparr>))"

definition build_qos_copp_remediation ::
  "plan_env \<Rightarrow> int \<Rightarrow> json \<Rightarrow> vendor_os \<Rightarrow> json \<Rightarrow> json option \<Rightarrow> string \<Rightarrow> plan_error + plan" where
  "build_qos_copp_remediation env usual device v interface timer rationale =
     (case validate_device device of Inl e \<Rightarrow> Inl e | Inr dev \<Rightarrow>
      case validate_interface interface of Inl e \<Rightarrow> Inl e | Inr intf \<Rightarrow>
      if v \<in> set [Fortinet_Fortios, Paloalto_Panos, Cisco_Sdwan] then Inl No_Template
      else let commands = qos_commands v intf
      in case validate (map JStr (fst (snd commands))) (timer_or usual timer) of Inl e \<Rightarrow> Inl e | Inr (_, minutes) \<Rightarrow>
      Inr ((assemble env dev v Qos_Copp_Boost intf minutes rationale commands)
           \<lparr>pl_blast := ''Non-disruptive QoS scheduler update on '' @ dev @ '' ('' @ intf @ '').''\<rparr>))"

definition build_custom_safe_plan ::
  "plan_env \<Rightarrow> int \<Rightarrow> json \<Rightarrow> vendor_os \<Rightarrow> json list \<Rightarrow> json list \<Rightarrow> json list \<Rightarrow> string \<Rightarrow> json option \<Rightarrow> plan_error + plan" where
  "build_custom_safe_plan env usual device v commands pre post rationale timer =
     (case validate_device device of Inl e \<Rightarrow> Inl e | Inr dev \<Rightarrow>
      case validate commands (timer_or usual timer) of Inl e \<Rightarrow> Inl e | Inr (body, minutes) \<Rightarrow>
      case validate_read_only pre ''pre-check'' of Inl e \<Rightarrow> Inl e | Inr pre \<Rightarrow>
      case validate_read_only post ''post-check'' of Inl e \<Rightarrow> Inl e | Inr post \<Rightarrow>
      Inr (assemble env dev v Custom_Safe_Config (join_with '';'' body) minutes rationale (pre, body, post)))"

section \<open>Cards\<close>

definition dash3 :: string where "dash3 = [CHR 0xE2, CHR 0x80, CHR 0x94]"

definition apply_heading :: "plan \<Rightarrow> string" where
  "apply_heading p =
     (let n = show_int (pl_minutes p)
      in case pl_vendor p of
           Paloalto_Panos \<Rightarrow> ''No Native Auto-Revert '' @ dash3 @ '' Manual Rollback Window '' @ n @ ''m''
         | Fortinet_Fortios \<Rightarrow> ''Revert Mode '' @ dash3 @ '' Unit Restarts on Saved Config in '' @ n @ ''m if Unsaved''
         | Cisco_Nxos \<Rightarrow> ''No Automatic Rollback '' @ dash3 @ '' Checkpoint Only, Use the Manual Rollback Commands''
         | Frr \<Rightarrow> ''Host Dead-Man Timer Restores the Backup in '' @ n @ ''m Unless Cancelled''
         | Cisco_Sdwan \<Rightarrow> ''commit confirmed '' @ n @ '' '' @ dash3 @ '' Verify Auto-Revert on Your Platform''
         | _ \<Rightarrow> ''Auto-Reverts in '' @ n @ ''m if Unconfirmed'')"

definition rollback_summary :: "plan \<Rightarrow> string" where
  "rollback_summary p =
     (let n = show_int (pl_minutes p)
      in if pl_vendor p \<in> set [Juniper_Junos, Cisco_Ios_Xe, Arista_Eos] then ''**Auto-Rollback Timer:** `'' @ n @ '' min`''
         else if pl_vendor p = Fortinet_Fortios
         then ''**Auto-Rollback:** revert mode, `'' @ n @ '' min` (unit restarts on the saved config)''
         else if pl_vendor p = Frr
         then ''**Auto-Rollback:** host dead-man timer, `'' @ n @ '' min` (background job; verify it is running)''
         else if pl_vendor p = Cisco_Sdwan
         then ''**Auto-Rollback Timer:** `'' @ n @ '' min` (`commit confirmed`; verify on your platform)''
         else ''**Auto-Rollback:** none '' @ dash3 @ '' use the manual rollback commands (4b)'')"

definition to_markdown_card :: "plan \<Rightarrow> string" where
  "to_markdown_card p =
     (let nl = [CHR 0x0A]; block = (\<lambda>ls. nl @ ''```text'' @ nl @ join_with nl ls @ nl @ ''```'')
      in ''### Remediation Plan `'' @ pl_id p @ ''` '' @ dash3 @ '' `'' @ pl_device p @ ''` ('' @ vendor_value (pl_vendor p) @ '')'' @ nl
         @ ''**Action:** `'' @ action_value (pl_action p) @ ''` | '' @ rollback_summary p @ nl
         @ ''**Rationale:** '' @ pl_rationale p @ nl
         @ (if pl_blast p = [] then [] else ''**Blast Radius:** '' @ pl_blast p @ nl)
         @ nl @ ''#### 1. Pre-Checks (Read-Only)'' @ block (pl_pre p) @ nl
         @ ''#### 2. Transactional Apply ('' @ apply_heading p @ '')'' @ block (pl_config p @ pl_commit p) @ nl
         @ ''#### 3. Post-Checks (Verify Convergence)'' @ block (pl_post p) @ nl
         @ ''#### 4a. Confirm Change (Make Persistent)'' @ block (pl_confirm p) @ nl
         @ ''#### 4b. Emergency Immediate Rollback'' @ block (pl_rollback p))"

end
