(* ===== verification/Remediation_Export.thy ===== *)
theory Remediation_Export
  imports Remediation
begin

text \<open>
  Exports of a plan (\<open>remediation_export.py\<close>): the YAML emitter, the blocks of hierarchical configuration, the
  second screening, the Ansible play of each vendor with its verification gate and rescue, and the Nornir script.
  A YAML document is a \<open>json\<close> value; \<open>json.dumps\<close> of the whole plan is an argument of \<open>export_plan\<close>.
\<close>

section \<open>YAML\<close>

abbreviation (input) bsl :: char where "bsl \<equiv> CHR 0x5C"
abbreviation (input) nl :: char where "nl \<equiv> CHR 0x0A"

text \<open>\<open>json.dumps(s, ensure_ascii=False)\<close>.\<close>

definition raw_escape :: "char \<Rightarrow> string" where
  "raw_escape c = (if (of_char c :: nat) < 32 \<or> c = dq \<or> c = bsl then json_escape_char c else [c])"

definition raw_quote :: "string \<Rightarrow> string" where
  "raw_quote s = [dq] @ concat (map raw_escape s) @ [dq]"

fun scalar :: "(rat \<Rightarrow> string) \<Rightarrow> json \<Rightarrow> string" where
  "scalar fr (JBool b) = (if b then ''true'' else ''false'')"
| "scalar fr JNull = ''null''"
| "scalar fr (JInt i) = show_int i"
| "scalar fr (JNum r) = fr r"
| "scalar fr (JStr s) = raw_quote s"
| "scalar fr _ = []"      \<comment> \<open>only called on scalars\<close>

definition pad :: "nat \<Rightarrow> string" where "pad n = replicate (2 * n) (CHR '' '')"

definition lstrip :: "string \<Rightarrow> string" where "lstrip s = dropWhile is_space s"

fun dump :: "(rat \<Rightarrow> string) \<Rightarrow> json \<Rightarrow> nat \<Rightarrow> string list"
  and dump_fields :: "(rat \<Rightarrow> string) \<Rightarrow> (string \<times> json) list \<Rightarrow> nat \<Rightarrow> string list"
  and dump_items :: "(rat \<Rightarrow> string) \<Rightarrow> json list \<Rightarrow> nat \<Rightarrow> string list"
where
  "dump fr (JObj kvs) n = (if kvs = [] then [pad n @ ''{}''] else dump_fields fr kvs n)"
| "dump fr (JList vs) n = dump_items fr vs n"
| "dump fr v n = [pad n @ scalar fr v]"
| "dump_fields fr [] n = []"
| "dump_fields fr ((key, v) # kvs) n =
     (case v of
        JObj [] \<Rightarrow> [pad n @ key @ '': {}'']
      | JList [] \<Rightarrow> [pad n @ key @ '': []'']
      | JObj _ \<Rightarrow> (pad n @ key @ '':'') # dump fr v (n + 1)
      | JList _ \<Rightarrow> (pad n @ key @ '':'') # dump fr v (n + 1)
      | _ \<Rightarrow> [pad n @ key @ '': '' @ scalar fr v]) @ dump_fields fr kvs n"
| "dump_items fr [] n = []"
| "dump_items fr (v # vs) n =
     (case v of
        JObj [] \<Rightarrow> [pad n @ ''- '' @ raw_quote ''{}'']
      | JList [] \<Rightarrow> [pad n @ ''- '' @ raw_quote ''[]'']
      | JObj _ \<Rightarrow> (case dump fr v (n + 1) of [] \<Rightarrow> [] | l # ls \<Rightarrow> (pad n @ ''- '' @ lstrip l) # ls)
      | JList _ \<Rightarrow> (pad n @ ''-'') # dump fr v (n + 1)
      | _ \<Rightarrow> [pad n @ ''- '' @ scalar fr v]) @ dump_items fr vs n"

definition to_yaml :: "(rat \<Rightarrow> string) \<Rightarrow> json \<Rightarrow> string" where
  "to_yaml fr doc = join_with [nl] (dump fr doc 0) @ [nl]"

section \<open>Configuration blocks\<close>

definition config_rows :: "string list \<Rightarrow> (nat \<times> string) list" where
  "config_rows lines =
     map (\<lambda>line. (length line - length (lstrip line), strip line)) (filter (\<lambda>line. strip line \<noteq> []) lines)"

text \<open>The stack has its innermost entry first; \<open>setdefault\<close> keeps an entry that is there.\<close>

definition pop_to :: "nat \<Rightarrow> (nat \<times> string) list \<Rightarrow> (nat \<times> string) list" where
  "pop_to indent stack = dropWhile (\<lambda>e. indent \<le> fst e) stack"

definition path_of :: "(nat \<times> string) list \<Rightarrow> string list" where
  "path_of stack = rev (map snd stack)"

definition set_default :: "'k \<Rightarrow> ('k \<times> 'v list) list \<Rightarrow> ('k \<times> 'v list) list" where
  "set_default k d = (if map_of d k = None then d @ [(k, [])] else d)"

definition append_at :: "'k \<Rightarrow> 'v \<Rightarrow> ('k \<times> 'v list) list \<Rightarrow> ('k \<times> 'v list) list" where
  "append_at k v d = (let d = set_default k d in AList.update k (dict_get d k [] @ [v]) d)"

fun fill_blocks ::
  "(nat \<times> string) list \<Rightarrow> (nat \<times> string) list \<Rightarrow> (string list \<times> string list) list \<Rightarrow> (string list \<times> string list) list" where
  "fill_blocks [] stack blocks = blocks"
| "fill_blocks ((indent, txt) # rows) stack blocks =
     (let stack = pop_to indent stack
      in if rows \<noteq> [] \<and> indent < fst (hd rows)
         then (let stack = (indent, txt) # stack in fill_blocks rows stack (set_default (path_of stack) blocks))
         else fill_blocks rows stack (append_at (path_of stack) txt blocks))"

definition config_blocks :: "string list \<Rightarrow> (string list \<times> string list) list" where
  "config_blocks lines = filter (\<lambda>b. snd b \<noteq> []) (fill_blocks (config_rows lines) [] [])"

section \<open>Screening again\<close>

definition is_comment :: "string \<Rightarrow> bool" where
  "is_comment c = (strip c = [] \<or> starts_with ''#'' (strip c) \<or> starts_with ''!'' (strip c))"

definition checks :: "string list \<Rightarrow> string list" where
  "checks commands = filter (\<lambda>c. \<not> is_comment c) commands"

definition export_control_re :: rx where
  "export_control_re =
     alts [Cls (\<lambda>c. let n = (of_char c :: nat) in (n < 32 \<and> n \<noteq> 9) \<or> n = 127), lit [CHR 0xC2, CHR 0x85],
           lit [CHR 0xE2, CHR 0x80, CHR 0xA8], lit [CHR 0xE2, CHR 0x80, CHR 0xA9]]"

definition template_re :: rx where "template_re = alts [lit ''{{'', lit ''{%'', lit ''{#'']"

fun clean_commands :: "string list \<Rightarrow> plan_error + unit" where
  "clean_commands [] = Inr ()"
| "clean_commands (cmd # cmds) =
     (if rx_search export_control_re cmd \<noteq> None then Inl (Control_Char cmd)
      else if rx_search template_re cmd \<noteq> None then Inl (Template_Syntax cmd)
      else clean_commands cmds)"

text \<open>A check that only has to pass.\<close>

fun passes :: "plan_error + 'a \<Rightarrow> plan_error + unit" where
  "passes (Inl e) = Inl e"
| "passes (Inr _) = Inr ()"

fun in_turn :: "(plan_error + unit) list \<Rightarrow> plan_error + unit" where
  "in_turn [] = Inr ()"
| "in_turn (Inl e # rest) = Inl e"
| "in_turn (Inr _ # rest) = in_turn rest"

definition screen_plan :: "bool \<Rightarrow> plan \<Rightarrow> plan_error + unit" where
  "screen_plan ansible p =
     in_turn
      [(if pl_body p = [] then Inl (Unsupported ''no body commands'') else Inr ()),
       passes (validate_plan_id (pl_id p)),
       (if ansible then passes (validate_ansible_host (pl_device p)) else passes (validate_device (JStr (pl_device p)))),
       (if pl_interface p = [] then Inr () else passes (validate_interface (JStr (pl_interface p)))),
       (if pl_neighbor p = [] then Inr () else passes (validate_neighbor_ip (Some (pl_neighbor p)))),
       passes (validate (map JStr (pl_body p)) (JInt (pl_minutes p))),
       (if pl_inverse p = [] then Inr () else passes (validate (map JStr (pl_inverse p)) (JInt (pl_minutes p)))),
       passes (validate_read_only (map JStr (pl_pre p)) ''pre-check''),
       passes (validate_read_only (map JStr (pl_post p)) ''post-check''),
       clean_commands (pl_body p @ pl_inverse p @ pl_pre p @ pl_post p)]"

section \<open>Header and verification gate\<close>

definition header :: "plan \<Rightarrow> string \<Rightarrow> string" where
  "header p tool =
     (let timer = (if pl_vendor p = Juniper_Junos
                   then ''commit confirmed '' @ show_int (pl_minutes p) @ '' min auto-reverts unless the verification gate passes''
                   else ''no device-side auto-revert timer in this export: safety net = dry run + verification gate + rescue rollback'');
          blast = clean_text (pl_blast p) 500
      in concat (map (\<lambda>l. l @ [nl])
        [''# netlog-ai remediation '' @ clean_text (pl_id p) 64 @ '' '' @ dash3 @ '' '' @ clean_text (pl_device p) 255
           @ '' ('' @ vendor_value (pl_vendor p) @ '') '' @ dash3 @ '' '' @ action_value (pl_action p),
         ''# Generated '' @ clean_text (pl_created p) 40 @ '' for '' @ tool @ ''. Rationale: '' @ clean_text (pl_rationale p) 500,
         ''# Blast radius: '' @ (if blast = [] then ''review before running'' else blast),
         ''# Rollback: '' @ timer @ ''.'',
         ''# 1) Dry run (nothing applied):  ansible-playbook -i <inventory> this.yml --check --diff'',
         ''#    or only the diff task:      ansible-playbook -i <inventory> this.yml --tags dry_run'',
         ''# 2) Apply, verify, confirm:     ansible-playbook -i <inventory> this.yml --diff'',
         ''#    (confirm/persist only runs after the post-check assertion or an operator '' @ squoted ''yes'' @ '')'',
         ''# Screened by netlog-ai SafetyGuardrail. Validate against a lab device first.'',
         ''---'']))"

record assertion =
  pa_neighbor :: string
  pa_established :: string

definition require_re :: string where "require_re = ''(?i)bgp|peers''"

text \<open>Whether the platform's summary prints the state as a word or as a prefix count.\<close>

fun word_style :: "vendor_os \<Rightarrow> bool option" where
  "word_style Arista_Eos = Some True"
| "word_style Juniper_Junos = Some True"
| "word_style Cisco_Ios_Xe = Some False"
| "word_style Cisco_Nxos = Some False"
| "word_style _ = None"

definition post_assertion :: "plan \<Rightarrow> assertion option" where
  "post_assertion p =
     (if pl_action p \<noteq> Graceful_Link_Drain \<or> pl_neighbor p = [] then None
      else case ip_address (pl_neighbor p) of
             Some (V4 n) \<Rightarrow>
               (case word_style (pl_vendor p) of
                  None \<Rightarrow> None
                | Some wordy \<Rightarrow>
                    if list_ex (\<lambda>c. is_infix ''bgp summary'' (lower c)) (checks (pl_post p))
                    then (let peer = concat (map (\<lambda>c. if c = CHR ''.'' then ''[.]'' else [c]) (dotted_v4 n))
                          in Some \<lparr>pa_neighbor = dotted_v4 n,
                                   pa_established = (if wordy then ''(?m)^ *'' @ peer @ '' .* Estab''
                                                     else ''(?m)^ *'' @ peer @ '' .* [0-9]+ *$'')\<rparr>)
                    else None)
           | _ \<Rightarrow> None)"

definition texts :: "string list \<Rightarrow> json" where "texts ss = JList (map JStr ss)"

definition verified :: string where "verified = ''netlog_verified | default(false) | bool''"
definition show_cli :: string where
  "show_cli = ''(netlog_post | default({})).stdout_lines | default('' @ squoted ''no post-checks configured'' @ '')''"
definition when_applied :: string where "when_applied = ''netlog_apply is defined and netlog_apply.changed''"

definition gate_tasks :: "plan \<Rightarrow> string \<Rightarrow> bool \<Rightarrow> json list" where
  "gate_tasks p shown assertable =
     (case (if assertable then post_assertion p else None) of
        Some spec \<Rightarrow>
          (let txt = ''netlog_post.stdout | join('' @ squoted [bsl, CHR ''n''] @ '')''
           in [JObj [(''name'', JStr (''Verify: BGP peer '' @ pa_neighbor spec @ '' is no longer Established (fails -> roll back)'')),
                     (''ansible.builtin.assert'', JObj
                       [(''that'', texts [''('' @ txt @ '') is search('' @ squoted require_re @ '')'',
                                        ''('' @ txt @ '') is not search('' @ squoted (pa_established spec) @ '')'']),
                        (''fail_msg'', JStr (''netlog-ai '' @ pl_id p @ '': post-checks do not show peer '' @ pa_neighbor spec
                           @ '' drained (still Established, or no BGP summary in the output).'')),
                        (''success_msg'', JStr (''peer '' @ pa_neighbor spec @ '' is no longer Established''))])]])
      | None \<Rightarrow>
          [JObj [(''name'', JStr ''Post-check output for operator review''),
                 (''ansible.builtin.debug'', JObj [(''msg'', JStr (''{{ '' @ shown @ '' }}''))])],
           JObj [(''name'', JStr (''Operator verification '' @ dash3 @ '' type yes to keep '' @ pl_id p @ ''; anything else rolls it back'')),
                 (''ansible.builtin.pause'', JObj [(''prompt'', JStr (''netlog-ai '' @ pl_id p
                    @ '': post-check output cannot be asserted automatically. Review it above. Type '' @ squoted ''yes''
                    @ '' to confirm, anything else (or no answer) rolls the change back''))]),
                 (''register'', JStr ''netlog_manual'')],
           JObj [(''name'', JStr ''Roll back unless the operator confirmed''),
                 (''ansible.builtin.assert'', JObj
                    [(''that'', texts [''(netlog_manual.user_input | default('' @ [sq, sq] @ '') | trim | lower) == '' @ squoted ''yes'']),
                     (''fail_msg'', JStr (''netlog-ai '' @ pl_id p @ '': not confirmed by the operator.''))])]])
     @ [JObj [(''name'', JStr ''Verification gate passed''),
              (''ansible.builtin.set_fact'', JObj [(''netlog_verified'', JBool True)])]]"

definition fail_task :: "plan \<Rightarrow> string \<Rightarrow> json" where
  "fail_task p how =
     JObj [(''name'', JStr (''Stop '' @ dash3 @ '' change rolled back or needs manual rollback'')),
           (''ansible.builtin.fail'', JObj [(''msg'', JStr (''netlog-ai '' @ pl_id p @ '': post-checks failed. '' @ how))])]"

section \<open>Plays\<close>

text \<open>A play: its connection and variables, the tasks before the change, and the block with its rescue.\<close>

record play =
  py_connection :: string
  py_os :: "string option"
  py_vars :: "(string \<times> json) list"
  py_extra :: "(string \<times> json) list"
  py_before :: "json list"
  py_name :: string
  py_block :: "json list"
  py_rescue :: "json list"

text \<open>The JSON value of a play, as \<open>_base_play\<close> and the last task of each vendor build it.\<close>

definition play_json :: "plan \<Rightarrow> play \<Rightarrow> json" where
  "play_json p y =
     JObj ([(''name'', JStr (''netlog-ai '' @ pl_id p @ '': '' @ action_value (pl_action p) @ '' on '' @ pl_device p)),
            (''hosts'', JStr (pl_device p)), (''gather_facts'', JBool False), (''connection'', JStr (py_connection y)),
            (''vars'', JObj ((case py_os y of None \<Rightarrow> [] | Some os \<Rightarrow> [(''ansible_network_os'', JStr os)]) @ py_vars y))]
       @ py_extra y
       @ [(''tasks'', JList (py_before y @
            [JObj [(''name'', JStr (py_name y)), (''when'', JStr ''not ansible_check_mode''), (''tags'', texts [''apply'']),
                   (''block'', JList (py_block y)), (''rescue'', JList (py_rescue y))]]))])"

fun cli_family :: "vendor_os \<Rightarrow> string option" where
  "cli_family Cisco_Ios_Xe = Some ''ios''"
| "cli_family Cisco_Nxos = Some ''nxos''"
| "cli_family Arista_Eos = Some ''eos''"
| "cli_family _ = None"

fun cli_vendor :: "vendor_os \<Rightarrow> string" where
  "cli_vendor Arista_Eos = ''arista''"
| "cli_vendor _ = ''cisco''"

definition blocks_json :: "(string list \<times> string list) list \<Rightarrow> json" where
  "blocks_json bs = JList (map (\<lambda>(p, ls). JObj [(''parents'', texts p), (''lines'', texts ls)]) bs)"

definition check_mode_tail :: "(string \<times> json) list" where
  "check_mode_tail = [(''check_mode'', JBool True), (''diff'', JBool True), (''tags'', texts [''dry_run''])]"

definition pre_task :: "string \<Rightarrow> string list \<Rightarrow> json list" where
  "pre_task action commands =
     (if commands = [] then []
      else [JObj [(''name'', JStr ''Pre-checks (read-only)''), (action, JObj [(''commands'', texts commands)]),
                  (''register'', JStr ''netlog_pre''), (''check_mode'', JBool False), (''changed_when'', JBool False)]])"

definition post_task :: "string \<Rightarrow> string list \<Rightarrow> json list" where
  "post_task action commands =
     (if commands = [] then []
      else [JObj [(''name'', JStr ''Post-checks''), (action, JObj [(''commands'', texts commands)]),
                  (''register'', JStr ''netlog_post''), (''changed_when'', JBool False)]])"

definition cli_rescue :: "plan \<Rightarrow> string \<Rightarrow> json \<Rightarrow> string \<Rightarrow> json list" where
  "cli_rescue p cfg args checkpoint =
     (if pl_vendor p = Cisco_Nxos
      then [JObj [(''name'', JStr ''Roll back to the pre-change checkpoint''),
                  (''cisco.nxos.nxos_rollback'', JObj [(''rollback_to'', JStr checkpoint)]), (''when'', JStr when_applied)],
            fail_task p ''Rolled back to the NX-OS checkpoint.'']
      else if pl_inverse p \<noteq> []
      then [JObj [(''name'', JStr ''Roll back (inverse change)''), (cfg, args), (''loop'', JStr ''{{ netlog_inverse_blocks }}''),
                  (''when'', JStr when_applied)],
            fail_task p ''Inverse change applied.'']
      else [fail_task p (''No automatic inverse for this plan '' @ dash3 @ '' roll back manually: ''
              @ join_with '' | '' (pl_rollback p))])"

definition cli_play :: "plan \<Rightarrow> string \<Rightarrow> play" where
  "cli_play p os =
     (let base = cli_vendor (pl_vendor p) @ ''.'' @ os @ ''.'' @ os; cmd = base @ ''_command''; cfg = base @ ''_config'';
          args = JObj [(''lines'', JStr ''{{ item.lines }}''), (''parents'', JStr ''{{ item.parents if item.parents else omit }}'')];
          pre = checks (pl_pre p); post = checks (pl_post p); checkpoint = ''netlog-'' @ lower (pl_id p)
      in \<lparr>py_connection = ''ansible.netcommon.network_cli'', py_os = Some base,
          py_vars = [(''netlog_blocks'', blocks_json (config_blocks (pl_body p)))]
            @ (if pl_inverse p = [] then [] else [(''netlog_inverse_blocks'', blocks_json (config_blocks (pl_inverse p)))]),
          py_extra = [],
          py_before = pre_task cmd pre @
            [JObj ([(''name'', JStr (''Dry run '' @ dash3 @ '' show the diff, apply nothing'')), (cfg, args),
                    (''loop'', JStr ''{{ netlog_blocks }}'')] @ check_mode_tail)],
          py_name = ''Apply, verify, roll back on failure'',
          py_block =
            (if pl_vendor p = Cisco_Nxos
             then [JObj [(''name'', JStr ''Checkpoint before change''), (cmd, JObj [(''commands'', texts [''checkpoint '' @ checkpoint])])]]
             else [])
            @ [JObj [(''name'', JStr ''Apply change''), (cfg, args), (''loop'', JStr ''{{ netlog_blocks }}''),
                     (''register'', JStr ''netlog_apply''), (''diff'', JBool True)]]
            @ post_task cmd post @ gate_tasks p show_cli (post \<noteq> [])
            @ [JObj [(''name'', JStr (''Persist (write memory) '' @ dash3 @ '' only after the verification gate passed'')),
                     (cfg, JObj [(''save_when'', JStr ''modified'')]), (''when'', JStr verified)]],
          py_rescue = cli_rescue p cfg args checkpoint\<rparr>)"

definition junos_play :: "plan \<Rightarrow> play" where
  "junos_play p =
     (let ls = map strip (filter (\<lambda>c. strip c \<noteq> []) (pl_body p)); comment = ''netlog-ai '' @ pl_id p;
          cmd = ''junipernetworks.junos.junos_command''; cfg = ''junipernetworks.junos.junos_config'';
          pre = checks (pl_pre p); post = checks (pl_post p)
      in \<lparr>py_connection = ''ansible.netcommon.netconf'', py_os = Some ''junipernetworks.junos.junos'', py_vars = [], py_extra = [],
          py_before = pre_task cmd pre @
            [JObj ([(''name'', JStr (''Dry run '' @ dash3 @ '' commit check + diff, apply nothing'')),
                    (cfg, JObj [(''lines'', texts ls), (''comment'', JStr comment)])] @ check_mode_tail)],
          py_name = ''Apply with commit confirmed, verify, confirm'',
          py_block =
            [JObj [(''name'', JStr (''Commit confirmed '' @ show_int (pl_minutes p) @ '' (auto-reverts unless confirmed)'')),
                   (cfg, JObj [(''lines'', texts ls), (''confirm'', JInt (pl_minutes p)), (''comment'', JStr comment)]),
                   (''register'', JStr ''netlog_apply''), (''diff'', JBool True)]]
            @ post_task cmd post @ gate_tasks p show_cli (post \<noteq> [])
            @ [JObj [(''name'', JStr (''Confirm the commit (make permanent) '' @ dash3 @ '' only after the verification gate passed'')),
                     (cfg, JObj [(''confirm_commit'', JBool True)]), (''when'', JStr verified)]],
          py_rescue =
            [JObj [(''name'', JStr ''Roll back the unconfirmed commit now''), (cfg, JObj [(''rollback'', JInt 1)]),
                   (''when'', JStr when_applied)],
             fail_task p ''Rolled back (rollback 1).'']\<rparr>)"

text \<open>The object-based collections only map a drain; its interface is read back from the body.\<close>

fun drain_interface :: "string list \<Rightarrow> plan_error + string" where
  "drain_interface [] = Inl (Unsupported ''could not find the drained interface'')"
| "drain_interface (cmd # cmds) =
     (let parts = words cmd
      in if parts \<noteq> [] \<and> hd parts = ''edit'' \<and> length parts > 1 then Inr (parts ! 1)
         else if ''interface'' \<in> set parts \<and> ''ethernet'' \<in> set parts
         then (case dropWhile (\<lambda>w. w \<noteq> ''ethernet'') parts of _ # intf # _ \<Rightarrow> Inr intf | _ \<Rightarrow> Inl (Raised Index_Error))
         else drain_interface cmds)"

definition nice_json :: string where "nice_json = ''netlog_post | default({}) | to_nice_json''"

definition fortios_task :: "string \<Rightarrow> string \<Rightarrow> string \<Rightarrow> (string \<times> json) list" where
  "fortios_task intf status name =
     [(''name'', JStr name),
      (''fortinet.fortios.fortios_system_interface'', JObj
         [(''vdom'', JStr ''{{ vdom }}''), (''state'', JStr ''present''),
          (''system_interface'', JObj [(''name'', JStr intf), (''status'', JStr status)])])]"

definition fortios_fact :: "string \<Rightarrow> string \<Rightarrow> (string \<times> json) list" where
  "fortios_fact intf name =
     [(''name'', JStr name),
      (''fortinet.fortios.fortios_configuration_fact'', JObj
         [(''vdom'', JStr ''{{ vdom }}''), (''selector'', JStr ''system_interface''), (''params'', JObj [(''name'', JStr intf)])]),
      (''check_mode'', JBool False)]"

definition fortios_play :: "plan \<Rightarrow> string \<Rightarrow> play" where
  "fortios_play p intf =
     \<lparr>py_connection = ''ansible.netcommon.httpapi'', py_os = Some ''fortinet.fortios.fortios'',
      py_vars = [(''vdom'', JStr ''root''), (''ansible_httpapi_use_ssl'', JBool True)], py_extra = [],
      py_before =
        [JObj (fortios_fact intf (''Pre-check: current '' @ intf @ '' settings (read-only)'')),
         JObj (fortios_task intf ''down'' (''Dry run '' @ dash3 @ '' show the diff, apply nothing'') @ check_mode_tail)],
      py_name = ''Apply, verify, roll back on failure'',
      py_block =
        [JObj (fortios_task intf ''down'' (''Drain: set '' @ intf @ '' status down'')
           @ [(''register'', JStr ''netlog_apply''), (''diff'', JBool True)]),
         JObj (fortios_fact intf (''Post-check: '' @ intf @ '' settings'') @ [(''register'', JStr ''netlog_post'')])]
        @ gate_tasks p nice_json False,
      py_rescue =
        [JObj (fortios_task intf ''up'' (''Roll back: set '' @ intf @ '' status up'') @ [(''when'', JStr when_applied)]),
         fail_task p (intf @ '' set back to up.'')]\<rparr>"

definition panos_link :: "string \<Rightarrow> string \<Rightarrow> string \<Rightarrow> (string \<times> json) list" where
  "panos_link intf state name =
     [(''name'', JStr name),
      (''paloaltonetworks.panos.panos_interface'', JObj
         [(''provider'', JStr ''{{ provider }}''), (''if_name'', JStr intf), (''link_state'', JStr state)])]"

definition panos_op :: "string \<Rightarrow> string \<Rightarrow> bool \<Rightarrow> (string \<times> json) list" where
  "panos_op name cmd xml =
     [(''name'', JStr name),
      (''paloaltonetworks.panos.panos_op'', JObj ([(''provider'', JStr ''{{ provider }}''), (''cmd'', JStr cmd)]
         @ (if xml then [(''cmd_is_xml'', JBool True)] else [])))]"

definition panos_commit :: "string \<Rightarrow> (string \<times> json) list" where
  "panos_commit name =
     [(''name'', JStr name), (''paloaltonetworks.panos.panos_commit_firewall'', JObj [(''provider'', JStr ''{{ provider }}'')])]"

definition panos_play :: "plan \<Rightarrow> string \<Rightarrow> play" where
  "panos_play p intf =
     (let snapshot = ''netlog-ai-'' @ lower (pl_id p) @ ''.xml''
      in \<lparr>py_connection = ''local'', py_os = None,
          py_vars = [(''provider'', JObj [(''ip_address'', JStr ''{{ ansible_host }}''), (''api_key'', JStr ''{{ panos_api_key }}'')])],
          py_extra = [],
          py_before =
            [JObj (panos_op ''Pre-check (read-only)'' (''show interface '' @ intf) False
               @ [(''check_mode'', JBool False), (''changed_when'', JBool False)]),
             JObj (panos_link intf ''down'' (''Dry run '' @ dash3 @ '' show the diff, apply nothing'') @ check_mode_tail)],
          py_name = ''Snapshot, apply, commit, verify '' @ dash3 @ '' restore snapshot on failure'',
          py_block =
            [JObj (panos_op (''Save rollback snapshot '' @ snapshot) (''<save><config><to>'' @ snapshot @ ''</to></config></save>'') True),
             JObj (panos_link intf ''down'' (''Drain: link-state down on '' @ intf)
               @ [(''register'', JStr ''netlog_apply''), (''diff'', JBool True)]),
             JObj (panos_commit ''Commit'' @ [(''register'', JStr ''netlog_commit'')]),
             JObj (panos_op ''Post-check'' ''show routing protocol bgp summary'' False
               @ [(''register'', JStr ''netlog_post''), (''changed_when'', JBool False)])]
            @ gate_tasks p nice_json False,
          py_rescue =
            [JObj (panos_op (''Load snapshot '' @ snapshot) (''<load><config><from>'' @ snapshot @ ''</from></config></load>'') True
               @ [(''when'', JStr when_applied)]),
             JObj (panos_commit ''Commit the restored configuration'' @ [(''when'', JStr when_applied)]),
             fail_task p (''Snapshot '' @ snapshot @ '' restored.'')]\<rparr>)"

definition frr_backup :: "plan \<Rightarrow> string" where
  "frr_backup p = ''/etc/frr/frr.conf.'' @ lower (pl_id p) @ ''.'' @ take 20 (filter is_digit (pl_created p)) @ ''.bak''"

definition copy_task :: "string \<Rightarrow> string \<Rightarrow> string \<Rightarrow> (string \<times> json) list" where
  "copy_task name src dest =
     [(''name'', JStr name),
      (''ansible.builtin.copy'', JObj [(''src'', JStr src), (''dest'', JStr dest), (''remote_src'', JBool True)])]"

definition argv_task :: "string \<Rightarrow> string list \<Rightarrow> (string \<times> json) list" where
  "argv_task name argv = [(''name'', JStr name), (''ansible.builtin.command'', JObj [(''argv'', texts argv)])]"

definition frr_play :: "plan \<Rightarrow> play" where
  "frr_play p =
     (let argv = [''vtysh'', ''-c'', ''configure terminal''] @ concat (map (\<lambda>cmd. [''-c'', strip cmd]) (pl_body p));
          conf = ''/etc/frr/frr.conf''; backup = frr_backup p
      in \<lparr>py_connection = ''ssh'', py_os = None, py_vars = [], py_extra = [(''become'', JBool True)],
          py_before =
            map (\<lambda>c. JObj (argv_task (''Pre-check: '' @ c) [''vtysh'', ''-c'', c]
                  @ [(''check_mode'', JBool False), (''changed_when'', JBool False)])) (checks (pl_pre p))
            @ [JObj [(''name'', JStr (''Dry run '' @ dash3 @ '' commands that would be applied'')),
                     (''ansible.builtin.debug'', JObj [(''var'', JStr ''netlog_argv'')]),
                     (''vars'', JObj [(''netlog_argv'', texts argv)]), (''tags'', texts [''dry_run''])]],
          py_name = ''Backup, apply, verify '' @ dash3 @ '' restore backup on failure'',
          py_block =
            [JObj (copy_task ''Backup frr.conf'' conf backup),
             JObj (argv_task ''Apply via vtysh'' argv @ [(''register'', JStr ''netlog_apply'')])]
            @ (if pl_post p = [] then []
               else [JObj (argv_task ''Post-checks (read-only)'' [''vtysh'', ''-c'', ''{{ item }}'']
                       @ [(''loop'', texts (checks (pl_post p))), (''register'', JStr ''netlog_post''), (''changed_when'', JBool False)])])
            @ gate_tasks p (''(netlog_post | default({})).results | default([]) | map(attribute='' @ squoted ''stdout_lines'' @ '') | list'') False
            @ [JObj (argv_task (''Persist '' @ dash3 @ '' only after the verification gate passed'') [''vtysh'', ''-c'', ''write memory'']
                 @ [(''when'', JStr verified)])],
          py_rescue =
            [JObj (copy_task ''Restore frr.conf'' backup conf @ [(''when'', JStr ''netlog_apply is defined'')]),
             JObj [(''name'', JStr ''Reload FRR''),
                   (''ansible.builtin.systemd'', JObj [(''name'', JStr ''frr''), (''state'', JStr ''reloaded'')]),
                   (''when'', JStr ''netlog_apply is defined'')],
             fail_task p (backup @ '' restored.'')]\<rparr>)"

text \<open>The object-based plays, for a drain whose interface can be found.\<close>

definition drain_play :: "plan \<Rightarrow> (string \<Rightarrow> play) \<Rightarrow> plan_error + play" where
  "drain_play p build =
     (if pl_action p \<noteq> Graceful_Link_Drain then Inl (Unsupported ''only graceful_link_drain is mapped'')
      else map_sum id build (drain_interface (pl_body p)))"

definition vendor_play :: "plan \<Rightarrow> plan_error + play" where
  "vendor_play p =
     (case pl_vendor p of
        Juniper_Junos \<Rightarrow> Inr (junos_play p)
      | Fortinet_Fortios \<Rightarrow> drain_play p (fortios_play p)
      | Paloalto_Panos \<Rightarrow> drain_play p (panos_play p)
      | Frr \<Rightarrow> Inr (frr_play p)
      | v \<Rightarrow> (case cli_family v of
               Some os \<Rightarrow> Inr (cli_play p os)
             | None \<Rightarrow> Inl (Unsupported ''SD-WAN edges are template-managed'')))"

definition to_ansible_playbook :: "(rat \<Rightarrow> string) \<Rightarrow> plan \<Rightarrow> plan_error + string" where
  "to_ansible_playbook fr p =
     (case screen_plan True p of
        Inl e \<Rightarrow> Inl e
      | Inr _ \<Rightarrow> map_sum id (\<lambda>y. header p ''Ansible'' @ to_yaml fr (JList [play_json p y])) (vendor_play p))"

section \<open>Nornir\<close>

text \<open>\<open>repr(s)\<close> on text without unprintable non-ASCII characters.\<close>

definition repr_char :: "char \<Rightarrow> char \<Rightarrow> string" where
  "repr_char q c =
     (let n = (of_char c :: nat)
      in if c = q \<or> c = bsl then [bsl, c]
         else if n = 10 then [bsl, CHR ''n''] else if n = 13 then [bsl, CHR ''r''] else if n = 9 then [bsl, CHR ''t'']
         else if n < 32 \<or> n = 127 then [bsl, CHR ''x'', hex_digit (n div 16), hex_digit (n mod 16)] else [c])"

definition repr_quote :: "string \<Rightarrow> char" where
  "repr_quote s = (if sq \<in> set s \<and> dq \<notin> set s then dq else sq)"

definition py_repr :: "string \<Rightarrow> string" where
  "py_repr s = (let q = repr_quote s in [q] @ concat (map (repr_char q) s) @ [q])"

definition repr_list :: "string list \<Rightarrow> string" where
  "repr_list ss = ''['' @ join_with '', '' (map py_repr ss) @ '']''"

definition repr_option :: "string option \<Rightarrow> string" where
  "repr_option v = (case v of None \<Rightarrow> ''None'' | Some s \<Rightarrow> py_repr s)"

fun napalm_driver :: "vendor_os \<Rightarrow> string option" where
  "napalm_driver Cisco_Ios_Xe = Some ''ios''"
| "napalm_driver Arista_Eos = Some ''eos''"
| "napalm_driver Juniper_Junos = Some ''junos''"
| "napalm_driver Cisco_Nxos = Some ''nxos_ssh''"
| "napalm_driver _ = None"

definition nornir_config :: "plan \<Rightarrow> string" where
  "nornir_config p = join_with [nl] (map (\<lambda>c. if pl_vendor p = Juniper_Junos then strip c else c) (pl_body p))"

definition nornir_lines :: "plan \<Rightarrow> string \<Rightarrow> string list" where
  "nornir_lines p driver =
     (let config = nornir_config p; post = checks (pl_post p); spec = (if post = [] then None else post_assertion p);
          doc_device = filter (\<lambda>c. c \<noteq> dq \<and> c \<noteq> bsl) (pl_device p)
      in
     [''#!/usr/bin/env python3'',
      [dq] @ [dq] @ [dq] @ ''netlog-ai remediation '' @ pl_id p @ '' '' @ [CHR 0xE2, CHR 0x80, CHR 0x94] @ '' '' @ doc_device @ '' ('' @ vendor_value (pl_vendor p) @ '', NAPALM driver '' @ [dq] @ driver @ [dq] @ '').'',
      [],
      ''Default run is a DRY RUN: NAPALM loads a merge candidate, prints the diff and'',
      ''discards it. Pass --apply to commit and run the post-checks. The change is'',
      ''kept only if the post-check assertion passes (or, when the output cannot be'',
      ''asserted for this plan, the operator types '' @ [dq] @ ''yes'' @ [dq] @ '' on a terminal); otherwise it'',
      ''is rolled back through NAPALM and the script exits 2. There is no device-side'',
      ''auto-revert timer in this export. Screened by netlog-ai SafetyGuardrail.'',
      ''Requires: pip install nornir nornir_napalm nornir_utils'',
      [dq] @ [dq] @ [dq],
      ''import re'',
      ''import sys'',
      [],
      ''from nornir import InitNornir'',
      ''from nornir_napalm.plugins.tasks import napalm_cli, napalm_configure'',
      ''from nornir_utils.plugins.functions import print_result'',
      [],
      ''DEVICE = '' @ py_repr (pl_device p),
      ''CONFIG = '' @ py_repr config,
      ''PRE_CHECKS = '' @ repr_list (checks (pl_pre p)),
      ''POST_CHECKS = '' @ repr_list post,
      ''# Post-condition on the post-check text: REQUIRE must match and ESTABLISHED must not'',
      ''# (a drained BGP peer is no longer Established). None = ask the operator instead.'',
      ''REQUIRE = '' @ repr_option (map_option (\<lambda>_. require_re) spec),
      ''ESTABLISHED = '' @ repr_option (map_option pa_established spec),
      ''APPLY = '' @ [dq] @ ''--apply'' @ [dq] @ '' in sys.argv'',
      [],
      [],
      ''def rollback(task):'',
      ''    task.host.get_connection('' @ [dq] @ ''napalm'' @ [dq] @ '', task.nornir.config).rollback()'',
      [],
      [],
      ''def assertion_failure(text):'',
      ''    '' @ [dq] @ [dq] @ [dq] @ ''Why the post-check output fails the assertion, or None when it holds.'' @ [dq] @ [dq] @ [dq],
      ''    if not re.search(REQUIRE, text):'',
      ''        return '' @ [dq] @ ''post-check output does not contain a BGP summary'' @ [dq],
      ''    if re.search(ESTABLISHED, text):'',
      ''        return '' @ [dq] @ ''the drained BGP peer is still Established'' @ [dq],
      ''    return None'',
      [],
      [],
      ''def operator_confirms():'',
      ''    if not sys.stdin.isatty():'',
      ''        print('' @ [dq] @ ''post-checks cannot be asserted automatically and there is no terminal to ask: rolling back'' @ [dq] @ '')'',
      ''        return False'',
      ''    return input('' @ [dq] @ ''Review the post-check output above. Type '' @ [sq] @ ''yes'' @ [sq] @ '' to keep the change: '' @ [dq] @ '').strip().lower() == '' @ [dq] @ ''yes'' @ [dq],
      [],
      [],
      ''def verified(post):'',
      ''    if post is None or post.failed:'',
      ''        return False'',
      ''    out = post[DEVICE][0].result'',
      ''    text = '' @ [dq] @ [bsl] @ ''n'' @ [dq] @ ''.join(str(v) for v in out.values()) if isinstance(out, dict) else str(out)'',
      ''    if REQUIRE is None:'',
      ''        return operator_confirms()'',
      ''    problem = assertion_failure(text)'',
      ''    if problem:'',
      ''        print('' @ [dq] @ ''ASSERTION FAILED: '' @ [dq] @ '' + problem)'',
      ''    return problem is None'',
      [],
      [],
      ''def main() -> int:'',
      ''    nr = InitNornir(config_file='' @ [dq] @ ''config.yaml'' @ [dq] @ '').filter(name=DEVICE)'',
      ''    if DEVICE not in nr.inventory.hosts:'',
      ''        print('' @ [dq] @ ''device '' @ [dq] @ '' + DEVICE + '' @ [dq] @ '' not found in the Nornir inventory'' @ [dq] @ '')'',
      ''        return 1'',
      ''    if PRE_CHECKS:'',
      ''        print_result(nr.run(task=napalm_cli, commands=PRE_CHECKS))'',
      ''    result = nr.run(task=napalm_configure, configuration=CONFIG, dry_run=not APPLY)'',
      ''    print_result(result)'',
      ''    if not APPLY or result.failed:'',
      ''        return 1 if result.failed else 0'',
      ''    post = nr.run(task=napalm_cli, commands=POST_CHECKS) if POST_CHECKS else None'',
      ''    if post is not None:'',
      ''        print_result(post)'',
      ''    if not verified(post):'',
      ''        print_result(nr.run(task=rollback))'',
      ''        return 2'',
      ''    return 0'',
      [],
      [],
      ''if __name__ == '' @ [dq] @ ''__main__'' @ [dq] @ '':'',
      ''    sys.exit(main())'',
      []])"

definition to_nornir_script :: "plan \<Rightarrow> plan_error + string" where
  "to_nornir_script p =
     (case screen_plan False p of
        Inl e \<Rightarrow> Inl e
      | Inr _ \<Rightarrow> (case napalm_driver (pl_vendor p) of
                   None \<Rightarrow> Inl (Unsupported ''no NAPALM driver mapping'')
                 | Some driver \<Rightarrow> Inr (join_with [nl] (nornir_lines p driver))))"

definition export_plan :: "(rat \<Rightarrow> string) \<Rightarrow> (plan \<Rightarrow> string) \<Rightarrow> plan \<Rightarrow> string \<Rightarrow> plan_error + string" where
  "export_plan fr json_text p fmt =
     (let fmt = lower (if fmt = [] then ''markdown'' else fmt)
      in if fmt = ''ansible'' then to_ansible_playbook fr p
         else if fmt = ''nornir'' then to_nornir_script p
         else if fmt = ''json'' then Inr (json_text p)
         else if fmt = ''markdown'' then Inr (to_markdown_card p)
         else Inl (Unsupported ''unknown export format''))"

end
