(* ===== verification/Remediation_Laws.thy ===== *)
theory Remediation_Laws
  imports Remediation Guardrail_Laws
begin

text \<open>Laws of plan building: what a built plan satisfies, and what validated names look like.\<close>

section \<open>Checks that pass\<close>

lemma map_sum_Inr [simp]: "map_sum id f x = Inr y \<longleftrightarrow> (\<exists>z. x = Inr z \<and> y = f z)"
  by (cases x) auto

lemma map_JStr_inj [simp]: "map JStr a = map JStr b \<longleftrightarrow> a = b"
  by (simp add: inj_map_eq_map inj_def)

lemma check_commands_pass:
  "check_commands js = Inr cs \<longleftrightarrow> js = map JStr cs \<and> (\<forall>c\<in>set cs. violation c = None)"
proof (induction js arbitrary: cs rule: check_commands.induct)
  case (2 cmd js)
  show ?case
  proof (cases "violation cmd")
    case None
    show ?thesis by (cases cs) (auto simp: None 2 [OF None])
  qed (cases cs; auto)
qed (auto split: option.splits)

lemma check_timer_pass: "check_timer j = Inr n \<longleftrightarrow> j = JInt n \<and> 1 \<le> n \<and> n \<le> 30"
  by (cases j) (auto simp: min_rollback_def max_rollback_def)

lemma validate_pass:
  "validate js t = Inr (cs, n) \<longleftrightarrow> js = map JStr cs \<and> (\<forall>c\<in>set cs. violation c = None) \<and> t = JInt n \<and> 1 \<le> n \<and> n \<le> 30"
proof (cases "check_timer t")
  case (Inl e)
  then show ?thesis using check_timer_pass [of t n] by (auto simp: validate_def)
next
  case (Inr m)
  have "validate js t = Inr (cs, n) \<longleftrightarrow> check_commands js = Inr cs \<and> m = n"
    by (cases "check_commands js") (auto simp: validate_def Inr)
  then show ?thesis using check_commands_pass [of js cs] check_timer_pass [of t m] Inr by auto
qed

lemma validate_read_only_pass:
  "validate_read_only js label = Inr cs \<longleftrightarrow> js = map JStr cs \<and> (\<forall>c\<in>set cs. read_only_violation (JStr c) = None)"
proof (induction js arbitrary: cs)
  case (Cons j js)
  show ?case
  proof (cases "read_only_violation j")
    case None
    then obtain s where j: "j = JStr s" by (cases j) auto
    show ?thesis by (cases cs) (use None in \<open>auto simp: j Cons.IH\<close>)
  qed (cases cs; auto)
qed auto

text \<open>A check without a violation is a list of read-only commands without a redirection outside quotes.\<close>

lemma read_only_pass:
  "read_only_violation (JStr c) = None \<longleftrightarrow> violation c = None \<and> (\<forall>s\<in>set (command_segments c). read_only_segment s) \<and>
     rx_search check_unsafe_re (rx_sub quoted_re (\<lambda>_ _. [dq, dq]) c) = None"
  by (auto simp: read_only_violation.simps(1) list_all_iff split: option.splits)

section \<open>Names\<close>

lemma name_ok_shape:
  assumes "\<not> f (CHR 0x0A)"
  shows "name_ok f n s \<longleftrightarrow> (\<exists>w. (s = w \<or> s = w @ [CHR 0x0A]) \<and> 1 \<le> length w \<and> length w \<le> n \<and> list_all f w)"
proof
  assume "name_ok f n s"
  then have "s = takeWhile f s @ dropWhile f s" "1 \<le> length (takeWhile f s)" "length (takeWhile f s) \<le> n"
    "dropWhile f s = [] \<or> dropWhile f s = [CHR 0x0A]" "list_all f (takeWhile f s)"
    by (auto simp: name_ok_def Let_def list_all_iff dest: set_takeWhileD)
  then show "\<exists>w. (s = w \<or> s = w @ [CHR 0x0A]) \<and> 1 \<le> length w \<and> length w \<le> n \<and> list_all f w" by (metis append_Nil2)
next
  assume "\<exists>w. (s = w \<or> s = w @ [CHR 0x0A]) \<and> 1 \<le> length w \<and> length w \<le> n \<and> list_all f w"
  then obtain w where w: "s = w \<or> s = w @ [CHR 0x0A]" "1 \<le> length w" "length w \<le> n" "\<forall>c\<in>set w. f c"
    by (auto simp: list_all_iff)
  have "takeWhile f (w @ t) = w @ takeWhile f t" "dropWhile f (w @ t) = dropWhile f t" for t
    using w(4) by (simp_all add: takeWhile_append2 dropWhile_append2)
  note nl = this [of "[CHR 0x0A]"]
  have tw: "takeWhile f w = w" "dropWhile f w = []" using w(4) by (simp_all add: takeWhile_eq_all_conv)
  from w(1) show "name_ok f n s"
  proof
    assume s: "s = w"
    show ?thesis unfolding name_ok_def Let_def s tw using w(2,3) by simp
  next
    assume s: "s = w @ [CHR 0x0A]"
    show ?thesis unfolding name_ok_def Let_def s nl using w(2,3) assms by simp
  qed
qed

text \<open>
  Validated names. A device or an interface name passes exactly if it has 1 to 255 (64) letters, digits and
  the punctuation of host names (and \<open>/\<close> for interfaces), apart from one line feed that may end it; it is not changed.
\<close>

theorem names_validated:
  "validate_device (JStr s) = (if \<exists>w. (s = w \<or> s = w @ [CHR 0x0A]) \<and> 1 \<le> length w \<and> length w \<le> 255 \<and> list_all device_char w
     then Inr s else Inl Bad_Device) \<and>
   validate_interface (JStr s) = (if \<exists>w. (s = w \<or> s = w @ [CHR 0x0A]) \<and> 1 \<le> length w \<and> length w \<le> 64 \<and> list_all interface_char w
     then Inr s else Inl Bad_Interface)"
proof -
  have "\<not> device_char (CHR 0x0A)" "\<not> interface_char (CHR 0x0A)" by code_simp+
  from name_ok_shape [where f = device_char, OF this(1)] name_ok_shape [where f = interface_char, OF this(2)] show ?thesis by (simp add: validate_device_def validate_interface_def)
qed

section \<open>Plans\<close>

definition built :: "plan_env \<Rightarrow> plan \<Rightarrow> bool" where
  "built env p \<longleftrightarrow>
     (\<exists>usual dev v intf peer timer why. build_graceful_link_drain env usual dev v intf peer timer why = Inr p) \<or>
     (\<exists>usual dev v intf timer why. build_qos_copp_remediation env usual dev v intf timer why = Inr p) \<or>
     (\<exists>usual dev v cmds pre post why timer. build_custom_safe_plan env usual dev v cmds pre post why timer = Inr p)"

lemmas plan_builders = build_graceful_link_drain_def build_qos_copp_remediation_def build_custom_safe_plan_def

definition wrapped :: "plan_env \<Rightarrow> plan \<Rightarrow> bool" where
  "wrapped env p \<longleftrightarrow>
     (let st = wrap_vendor_transaction (pe_token env) (pl_vendor p) (session_tag (pl_id p)) (pl_body p) (pl_minutes p)
      in pl_config p = st_config st \<and> pl_commit p = st_commit st \<and> pl_confirm p = st_confirm st \<and> pl_rollback p = st_rollback st)"

lemma assemble_fields [simp]:
  "pl_device (assemble env d v a t n why (pre, body, post)) = d" "pl_vendor (assemble env d v a t n why (pre, body, post)) = v"
  "pl_action (assemble env d v a t n why (pre, body, post)) = a" "pl_minutes (assemble env d v a t n why (pre, body, post)) = n"
  "pl_pre (assemble env d v a t n why (pre, body, post)) = pre" "pl_post (assemble env d v a t n why (pre, body, post)) = post"
  "pl_body (assemble env d v a t n why (pre, body, post)) = body"
  by (simp_all add: assemble_def Let_def)

lemma assemble_wrapped:
  "wrapped env ((assemble env d v a t n why c)\<lparr>pl_blast := b, pl_inverse := i, pl_interface := f, pl_neighbor := g\<rparr>)"
  "wrapped env ((assemble env d v a t n why c)\<lparr>pl_blast := b\<rparr>)" "wrapped env (assemble env d v a t n why c)"
  by (simp_all add: wrapped_def assemble_def Let_def split: prod.splits)

definition plan_safe :: "plan_env \<Rightarrow> plan \<Rightarrow> bool" where
  "plan_safe env p \<longleftrightarrow> 1 \<le> pl_minutes p \<and> pl_minutes p \<le> 30 \<and> (\<forall>c\<in>set (pl_body p). violation c = None) \<and>
     validate_device (JStr (pl_device p)) = Inr (pl_device p) \<and> wrapped env p"

lemma device_pass: "validate_device j = Inr d \<Longrightarrow> validate_device (JStr d) = Inr d"
  by (cases j) (auto simp: validate_device_def Let_def split: if_splits)

lemma drain_safe: "build_graceful_link_drain env usual dev v intf peer timer why = Inr p \<Longrightarrow> plan_safe env p"
proof -
  assume a: "build_graceful_link_drain env usual dev v intf peer timer why = Inr p"
  obtain d i q where 1: "validate_device dev = Inr d" "validate_interface intf = Inr i" "validate_neighbor_ip peer = Inr q"
    using a by (auto simp: plan_builders split: sum.splits)
  obtain pre body post where c: "drain_commands v i q = (pre, body, post)" by (metis prod_cases3)
  obtain cs n where n: "validate (map JStr body) (timer_or usual timer) = Inr (cs, n)"
    using a 1 c by (auto simp: plan_builders Let_def split: sum.splits)
  show ?thesis using a 1 c n validate_pass [of "map JStr body" "timer_or usual timer" cs n] device_pass [OF 1(1)]
    by (auto simp: plan_builders Let_def plan_safe_def assemble_wrapped)
qed

lemma qos_safe: "build_qos_copp_remediation env usual dev v intf timer why = Inr p \<Longrightarrow> plan_safe env p"
proof -
  assume a: "build_qos_copp_remediation env usual dev v intf timer why = Inr p"
  obtain d i where 1: "validate_device dev = Inr d" "validate_interface intf = Inr i"
    "v \<notin> set [Fortinet_Fortios, Paloalto_Panos, Cisco_Sdwan]"
    using a by (auto simp: plan_builders split: sum.splits if_splits)
  obtain pre body post where c: "qos_commands v i = (pre, body, post)" by (metis prod_cases3)
  obtain cs n where n: "validate (map JStr body) (timer_or usual timer) = Inr (cs, n)"
    using a 1 c by (auto simp: plan_builders Let_def split: sum.splits)
  show ?thesis using a 1 c n validate_pass [of "map JStr body" "timer_or usual timer" cs n] device_pass [OF 1(1)]
    by (auto simp: plan_builders Let_def plan_safe_def assemble_wrapped)
qed

lemma custom_safe:
  assumes "build_custom_safe_plan env usual dev v cmds pre post why timer = Inr p"
  shows "plan_safe env p" and "\<forall>c\<in>set (pl_pre p @ pl_post p). read_only_violation (JStr c) = None" and "cmds = map JStr (pl_body p)"
    and "pl_vendor p = v \<and> timer_or usual timer = JInt (pl_minutes p)"
proof -
  obtain d where 1: "validate_device dev = Inr d" using assms by (auto simp: plan_builders split: sum.splits)
  obtain body n where n: "validate cmds (timer_or usual timer) = Inr (body, n)"
    using assms 1 by (auto simp: plan_builders split: sum.splits)
  obtain pr where pr: "validate_read_only pre ''pre-check'' = Inr pr" using assms 1 n by (auto simp: plan_builders split: sum.splits)
  obtain po where po: "validate_read_only post ''post-check'' = Inr po" using assms 1 n pr by (auto simp: plan_builders split: sum.splits)
  have p: "p = assemble env d v Custom_Safe_Config (join_with '';'' body) n why (pr, body, po)"
    using assms 1 n pr po by (simp add: plan_builders)
  show "plan_safe env p" "\<forall>c\<in>set (pl_pre p @ pl_post p). read_only_violation (JStr c) = None" "cmds = map JStr (pl_body p)"
    "pl_vendor p = v \<and> timer_or usual timer = JInt (pl_minutes p)"
    using validate_pass [of cmds "timer_or usual timer" body n] n device_pass [OF 1] pr po validate_read_only_pass
    by (auto simp: p plan_safe_def assemble_wrapped)
qed

lemma built_safe: "built env p \<Longrightarrow> plan_safe env p"
  unfolding built_def using drain_safe qos_safe custom_safe(1) by metis


text \<open>
  Proposed changes are vetted. A custom plan contains exactly the proposed commands, none of which violates a
  rule; its checks consist of read-only commands, with no redirection, substitution or shell pipe outside quotes.
\<close>

theorem custom_plan_vetted:
  assumes "build_custom_safe_plan env usual dev v cmds pre post why timer = Inr p"
  shows "cmds = map JStr (pl_body p) \<and> (\<forall>c\<in>set (pl_body p). violation c = None) \<and>
    (\<forall>c\<in>set (pl_pre p @ pl_post p). \<forall>s\<in>set (command_segments c). read_only_segment s) \<and>
    (\<forall>c\<in>set (pl_pre p @ pl_post p). rx_search check_unsafe_re (rx_sub quoted_re (\<lambda>_ _. [dq, dq]) c) = None)"
  using custom_safe(1-3) [OF assms] unfolding plan_safe_def read_only_pass by blast

section \<open>Rollback timers\<close>

text \<open>The minutes after which the device, or the job on the FRR host, reverts the change, read off its commands.\<close>

definition number_after :: "string \<Rightarrow> string \<Rightarrow> int option" where
  "number_after prefix line =
     (if starts_with prefix line then Some (int (digits_value 0 (takeWhile is_digit (drop (length prefix) line)))) else None)"

definition clock_after :: "string \<Rightarrow> string \<Rightarrow> int option" where
  "clock_after prefix line =
     (if starts_with prefix line
      then (let t = drop (length prefix) line
            in Some (60 * int (digits_value 0 (takeWhile is_digit t)) + int (digits_value 0 (takeWhile is_digit (tl (dropWhile is_digit t))))))
      else None)"

fun device_timer :: "vendor_os \<Rightarrow> string list \<Rightarrow> string list \<Rightarrow> int option" where
  "device_timer Juniper_Junos config commit = number_after ''commit confirmed '' (hd commit)"
| "device_timer Cisco_Sdwan config commit = number_after ''commit confirmed '' (hd commit)"
| "device_timer Arista_Eos config commit = clock_after ''commit timer '' (hd commit)"
| "device_timer Cisco_Ios_Xe config commit = number_after ''configure terminal revert timer '' (hd config)"
| "device_timer Fortinet_Fortios config commit =
     map_option (\<lambda>s. s div 60) (number_after ''    set cfg-revert-timeout '' (config ! 3))"
| "device_timer Frr config commit = map_option (\<lambda>s. s div 60) (number_after (''nohup sh -c '' @ [sq] @ ''sleep '') (hd commit))"
| "device_timer Paloalto_Panos config commit = None"
| "device_timer Cisco_Nxos config commit = None"

lemma starts_with_append [simp]: "starts_with p (p @ s)"
  by (induction p) auto

lemma not_digits: "\<not> is_digit (CHR '' '')" "\<not> is_digit (CHR '':'')" by code_simp+

lemma read_timer_digits:
  "takeWhile is_digit (show_nat n) = show_nat n" "takeWhile is_digit (show_nat n @ CHR '' '' # t) = show_nat n"
proof -
  have "\<forall>c\<in>set (show_nat n). is_digit c" using show_nat_digits [of n] by (simp add: list_all_iff)
  then show "takeWhile is_digit (show_nat n) = show_nat n" "takeWhile is_digit (show_nat n @ CHR '' '' # t) = show_nat n"
    using not_digits by (simp_all add: takeWhile_append2 takeWhile_eq_all_conv)
qed

lemma show_int_nonneg: "0 \<le> n \<Longrightarrow> show_int n = show_nat (nat n)"
  by (simp add: show_int_def)

lemma two_digits_read: "takeWhile is_digit (two_digits n @ CHR '':'' # t) = two_digits n" "digits_value 0 (two_digits n) = n"
    "dropWhile is_digit (two_digits n @ CHR '':'' # t) = CHR '':'' # t"
proof -
  have "is_digit (CHR ''0'')" "\<not> is_digit (CHR '':'')" by code_simp+
  then have d: "\<forall>c\<in>set (two_digits n). is_digit c" "\<not> is_digit (CHR '':'')"
    using show_nat_digits [of n] by (auto simp: two_digits_def list_all_iff)
  then show "takeWhile is_digit (two_digits n @ CHR '':'' # t) = two_digits n"
    "dropWhile is_digit (two_digits n @ CHR '':'' # t) = CHR '':'' # t"
    by (simp_all add: takeWhile_append2 dropWhile_append2)
  show "digits_value 0 (two_digits n) = n" by (simp add: two_digits_def)
qed

lemma read_hhmmss: "0 \<le> n \<Longrightarrow> 60 * int (digits_value 0 (takeWhile is_digit (hhmmss n))) +
    int (digits_value 0 (takeWhile is_digit (tl (dropWhile is_digit (hhmmss n))))) = n"
proof -
  assume n: "0 \<le> n"
  have "hhmmss n = two_digits (nat (n div 60)) @ CHR '':'' # two_digits (nat (n mod 60)) @ CHR '':'' # ''00''" by (simp add: hhmmss_def)
  then show ?thesis using n by (simp add: two_digits_read pos_imp_zdiv_nonneg_iff)
qed

lemma wrapped_timer:
  assumes "0 \<le> n"
  shows "device_timer v (st_config (wrap_vendor_transaction tok v tag body n)) (st_commit (wrap_vendor_transaction tok v tag body n)) =
    (if v \<in> {Paloalto_Panos, Cisco_Nxos} then None else Some n)"
proof -
  have n60: "show_int (n * 60) = show_nat (nat (n * 60))" "int (nat (n * 60)) div 60 = n" using assms by (simp_all add: show_int_nonneg)
  show ?thesis
    using assms n60 by (cases v) (simp_all add: wrap_vendor_transaction_def frr_steps_def Let_def show_int_nonneg number_after_def
        clock_after_def read_hhmmss read_timer_digits)
qed

text \<open>
  C15: the device gets the plan's window. For every vendor with a rollback timer of its own (or the job on an FRR
  host), the minutes read off the generated commands are the plan's rollback minutes; the others have none.
\<close>

theorem rollback_timer_armed:
  assumes "built env p"
  shows "device_timer (pl_vendor p) (pl_config p) (pl_commit p) =
    (if pl_vendor p \<in> {Paloalto_Panos, Cisco_Nxos} then None else Some (pl_minutes p))"
proof -
  have "plan_safe env p" using assms by (rule built_safe)
  then show ?thesis using wrapped_timer [of "pl_minutes p"] by (simp add: plan_safe_def wrapped_def Let_def)
qed

section \<open>Witnesses\<close>

text \<open>A custom change of one command with one check, on IOS-XE with the usual five minutes.\<close>

definition demo_env :: plan_env where
  "demo_env = \<lparr>pe_sha1 = (\<lambda>_. ''0123456789''), pe_token = ''a1b2c3'', pe_now = []\<rparr>"

definition demo_result :: "plan_error + plan" where
  "demo_result = build_custom_safe_plan demo_env 5 (JStr ''r1'') Cisco_Ios_Xe [JStr ''ip ssh''] [JStr ''sho run''] [] [] None"

definition demo_plan :: plan where "demo_plan = projr demo_result"

lemma demo_result_isl: "\<not> isl demo_result"
  by code_simp

lemma demo_built: "build_custom_safe_plan demo_env 5 (JStr ''r1'') Cisco_Ios_Xe [JStr ''ip ssh''] [JStr ''sho run''] [] [] None = Inr demo_plan"
  using demo_result_isl by (simp add: demo_plan_def demo_result_def)

lemma built_demo: "built demo_env demo_plan"
  using demo_built unfolding built_def by blast


theorem custom_plan_vetted_witness: "map JStr (pl_body demo_plan) = [JStr ''ip ssh'']"
  using custom_plan_vetted [OF demo_built] by simp

theorem rollback_timer_armed_witness:
  "device_timer Cisco_Ios_Xe (pl_config demo_plan) (pl_commit demo_plan) = Some 5"
  using rollback_timer_armed [OF built_demo] custom_safe(4) [OF demo_built] by (simp add: timer_or_def)

end
