(* ===== verification/Export_Laws.thy ===== *)
theory Export_Laws
  imports Remediation_Export Remediation_Laws
begin

text \<open>
  Laws of the exports: every export screens the plan again, nothing is kept before the verification gate, the
  literals in the generated texts denote the texts they were made from, and configuration blocks keep every line
  under its enclosing lines.
\<close>

section \<open>Screening\<close>

lemma in_turn_pass: "in_turn cs = Inr u \<longleftrightarrow> (\<forall>c\<in>set cs. c = Inr ())"
proof (induction cs)
  case (Cons c cs)
  then show ?case by (cases c) auto
qed simp

lemma passes_iff: "passes r = Inr u \<longleftrightarrow> (\<exists>x. r = Inr x)"
  by (cases r) auto

lemma clean_commands_pass:
  "clean_commands cs = Inr u \<longleftrightarrow> (\<forall>c\<in>set cs. rx_search export_control_re c = None \<and> rx_search template_re c = None)"
  by (induction cs) auto

lemma screen_plan_pass:
  assumes "screen_plan ansible p = Inr u"
  shows "pl_body p \<noteq> []" and "1 \<le> pl_minutes p \<and> pl_minutes p \<le> 30"
    and "\<forall>c\<in>set (pl_body p @ pl_inverse p). violation c = None"
    and "\<forall>c\<in>set (pl_pre p @ pl_post p). read_only_violation (JStr c) = None"
    and "\<forall>c\<in>set (pl_body p @ pl_inverse p @ pl_pre p @ pl_post p). rx_search export_control_re c = None \<and> rx_search template_re c = None"
    and "ansible \<longrightarrow> (\<exists>d. validate_ansible_host (pl_device p) = Inr d)"
proof -
  note s = assms [unfolded screen_plan_def in_turn_pass]
  show "pl_body p \<noteq> []" using s by (auto split: if_splits)
  have v: "\<exists>x. validate (map JStr (pl_body p)) (JInt (pl_minutes p)) = Inr x"
    using s by (simp add: passes_iff)
  then obtain cs n where "validate (map JStr (pl_body p)) (JInt (pl_minutes p)) = Inr (cs, n)" by auto
  then have body: "\<forall>c\<in>set (pl_body p). violation c = None" and m: "1 \<le> pl_minutes p \<and> pl_minutes p \<le> 30"
    by (auto simp: validate_pass)
  show "1 \<le> pl_minutes p \<and> pl_minutes p \<le> 30" by (rule m)
  have "pl_inverse p = [] \<or> (\<exists>x. validate (map JStr (pl_inverse p)) (JInt (pl_minutes p)) = Inr x)"
    using s by (simp add: passes_iff split: if_splits)
  then have "\<forall>c\<in>set (pl_inverse p). violation c = None" by (auto simp: validate_pass)
  then show "\<forall>c\<in>set (pl_body p @ pl_inverse p). violation c = None" using body by auto
  have "\<exists>x. validate_read_only (map JStr (pl_pre p)) ''pre-check'' = Inr x" "\<exists>x. validate_read_only (map JStr (pl_post p)) ''post-check'' = Inr x"
    using s by (simp_all add: passes_iff)
  then show "\<forall>c\<in>set (pl_pre p @ pl_post p). read_only_violation (JStr c) = None" by (auto simp: validate_read_only_pass)
  have "clean_commands (pl_body p @ pl_inverse p @ pl_pre p @ pl_post p) = Inr ()" using s by simp
  then show "\<forall>c\<in>set (pl_body p @ pl_inverse p @ pl_pre p @ pl_post p). rx_search export_control_re c = None \<and> rx_search template_re c = None"
    unfolding clean_commands_pass .
  show "ansible \<longrightarrow> (\<exists>d. validate_ansible_host (pl_device p) = Inr d)" using s by (simp add: passes_iff split: if_splits)
qed


section \<open>The verification gate\<close>

text \<open>A task that makes the change permanent: saving the configuration, confirming a commit, or FRR's \<open>write memory\<close>.\<close>

fun field_of :: "json \<Rightarrow> string \<Rightarrow> json option" where
  "field_of (JObj kvs) k = map_of kvs k"
| "field_of _ k = None"

fun keeps_value :: "json \<Rightarrow> bool" where
  "keeps_value (JObj kvs) = (map_of kvs ''save_when'' \<noteq> None \<or> map_of kvs ''confirm_commit'' \<noteq> None \<or>
     map_of kvs ''argv'' = Some (texts [''vtysh'', ''-c'', ''write memory'']))"
| "keeps_value _ = False"

fun keeps :: "json \<Rightarrow> bool" where
  "keeps (JObj kvs) = list_ex (\<lambda>(k, v). keeps_value v) kvs"
| "keeps _ = False"

lemma texts_inj [simp]: "texts a = texts b \<longleftrightarrow> a = b"
  by (simp add: texts_def)

lemma gate_keeps_nothing: "\<not> list_ex keeps (gate_tasks p shown a)"
  by (cases "if a then post_assertion p else None")
    (simp_all add: gate_tasks_def Let_def texts_def)

definition gated :: "plan \<Rightarrow> play \<Rightarrow> bool" where
  "gated p y \<longleftrightarrow>
     (\<exists>before shown a after. py_block y = before @ gate_tasks p shown a @ after \<and> \<not> list_ex keeps (py_before y @ before) \<and>
        (\<forall>t\<in>set after. field_of t ''when'' = Some (JStr verified)))"

lemma gatedI:
  assumes "py_block y = a1 @ a2 @ gate_tasks p shown a @ after" and "\<not> list_ex keeps (py_before y)"
    and "\<not> list_ex keeps a1" and "\<not> list_ex keeps a2" and "\<forall>t\<in>set after. field_of t ''when'' = Some (JStr verified)"
  shows "gated p y"
  unfolding gated_def using assms by (intro exI [of _ "a1 @ a2"] exI [of _ shown] exI [of _ a] exI [of _ after]) simp

lemma quiet_tasks [simp]:
  "\<not> list_ex keeps (pre_task m cs)" "\<not> list_ex keeps (post_task m cs)" "\<not> list_ex (\<lambda>(k, v). keeps_value v) check_mode_tail"
  by (simp_all add: pre_task_def post_task_def check_mode_tail_def texts_def)

lemma gatedI3:
  assumes "py_block y = a1 @ a2 @ a3 @ gate_tasks p shown a @ after" and "\<not> list_ex keeps (py_before y)"
    and "\<not> list_ex keeps a1" and "\<not> list_ex keeps a2" and "\<not> list_ex keeps a3"
    and "\<forall>t\<in>set after. field_of t ''when'' = Some (JStr verified)"
  shows "gated p y"
  by (rule gatedI [where ?a1.0 = "a1 @ a2" and ?a2.0 = a3]) (use assms in simp_all)

lemma gatedI0:
  assumes "py_block y = a1 @ gate_tasks p shown a" and "\<not> list_ex keeps (py_before y)" and "\<not> list_ex keeps a1"
  shows "gated p y"
  by (rule gatedI [where ?a1.0 = a1 and ?a2.0 = "[]" and after = "[]"]) (use assms in simp_all)

lemma junos_gated: "gated p (junos_play p)"
  unfolding junos_play_def Let_def by (rule gatedI, rule play.select_convs(7)) (simp_all add: texts_def)

lemma cli_gated: "gated p (cli_play p os)"
  unfolding cli_play_def Let_def by (rule gatedI3, rule play.select_convs(7)) (simp_all add: texts_def)

lemma fortios_gated: "gated p (fortios_play p intf)"
  unfolding fortios_play_def by (rule gatedI0, rule play.select_convs(7))
    (simp_all add: fortios_fact_def fortios_task_def texts_def)

lemma panos_gated: "gated p (panos_play p intf)"
  unfolding panos_play_def Let_def by (rule gatedI0, rule play.select_convs(7))
    (simp_all add: panos_op_def panos_link_def panos_commit_def texts_def)

lemma frr_gated: "''write memory'' \<notin> set (pl_pre p) \<Longrightarrow> gated p (frr_play p)"
  unfolding frr_play_def Let_def by (rule gatedI, rule play.select_convs(7))
    (auto simp: argv_task_def copy_task_def texts_def list_ex_iff checks_def)

lemma write_memory_no_check: "read_only_violation (JStr ''write memory'') \<noteq> None"
  by code_simp

lemma drain_play_cases: "drain_play p f = Inr y \<Longrightarrow> \<exists>intf. y = f intf"
  by (auto simp: drain_play_def split: if_splits)

lemma vendor_play_cases:
  assumes "vendor_play p = Inr y"
  obtains "y = junos_play p" | "y = frr_play p" | intf where "y = fortios_play p intf" | intf where "y = panos_play p intf"
    | os where "y = cli_play p os"
  using assms by (auto simp: vendor_play_def split: vendor_os.splits dest!: drain_play_cases)

text \<open>Every task of the rescue but the last runs only after a change, and the last one fails the play.\<close>

definition rescued :: "plan \<Rightarrow> play \<Rightarrow> bool" where
  "rescued p y \<longleftrightarrow> (\<exists>how. last (py_rescue y) = fail_task p how) \<and> py_rescue y \<noteq> [] \<and>
     (\<forall>t\<in>set (butlast (py_rescue y)). field_of t ''when'' \<in> {Some (JStr when_applied), Some (JStr ''netlog_apply is defined'')})"

lemma plays_rescued: "vendor_play p = Inr y \<Longrightarrow> rescued p y"
  by (erule vendor_play_cases)
    (auto simp: rescued_def junos_play_def frr_play_def fortios_play_def panos_play_def cli_play_def cli_rescue_def Let_def copy_task_def
      fortios_task_def panos_op_def panos_commit_def)


section \<open>Literals\<close>

text \<open>Readers of JSON and Python string literals: the text, and what follows the closing quote.\<close>

definition unhex :: "char \<Rightarrow> nat" where
  "unhex c = (let n = (of_char c :: nat) in if n < 58 then n - 48 else n - 87)"

fun read_json :: "string \<Rightarrow> (string \<times> string) option" where
  "read_json (c # cs) =
     (if c = dq then Some ([], cs)
      else if c \<noteq> bsl then map_option (apfst (Cons c)) (read_json cs)
      else (case cs of
              CHR ''u'' # _ # _ # x # y # rest \<Rightarrow> map_option (apfst (Cons (char_of (16 * unhex x + unhex y)))) (read_json rest)
            | e # rest \<Rightarrow>
                map_option (apfst (Cons (if e = CHR ''n'' then CHR 0x0A else if e = CHR ''r'' then CHR 0x0D else if e = CHR ''t'' then CHR 0x09
                  else if e = CHR ''b'' then CHR 0x08 else if e = CHR ''f'' then CHR 0x0C else e))) (read_json rest)
            | [] \<Rightarrow> None))"
| "read_json [] = None"

fun read_py :: "char \<Rightarrow> string \<Rightarrow> (string \<times> string) option" where
  "read_py q (c # cs) =
     (if c = q then Some ([], cs)
      else if c \<noteq> bsl then map_option (apfst (Cons c)) (read_py q cs)
      else (case cs of
              CHR ''x'' # x # y # rest \<Rightarrow> map_option (apfst (Cons (char_of (16 * unhex x + unhex y)))) (read_py q rest)
            | e # rest \<Rightarrow>
                map_option (apfst (Cons (if e = CHR ''n'' then CHR 0x0A else if e = CHR ''r'' then CHR 0x0D else if e = CHR ''t'' then CHR 0x09
                  else e))) (read_py q rest)
            | [] \<Rightarrow> None))"
| "read_py q [] = None"

lemma unhex_hex: "n < 16 \<Longrightarrow> unhex (hex_digit n) = n"
  by (simp add: unhex_def hex_digit_def of_char_of)

lemma escape_chars: "char_of (92 :: nat) = CHR 0x5C" "char_of (34 :: nat) = CHR 0x22" "char_of (10 :: nat) = CHR 0x0A"
    "char_of (13 :: nat) = CHR 0x0D" "char_of (9 :: nat) = CHR 0x09" "char_of (8 :: nat) = CHR 0x08" "char_of (12 :: nat) = CHR 0x0C"
  by code_simp+

lemma read_json_escape: "read_json (raw_escape c @ rest) = map_option (apfst (Cons c)) (read_json rest)"
proof -
  define n where "n = (of_char c :: nat)"
  have c: "c = char_of n" by (simp add: n_def)
  consider "n \<in> {34, 92, 10, 13, 9, 8, 12}" | "n < 32" "n \<notin> {10, 13, 9, 8, 12}" | "n \<ge> 32" "n \<notin> {34, 92}" by fastforce
  then show ?thesis
  proof cases
    case 1
    then show ?thesis by (elim insertE; simp add: raw_escape_def json_escape_char_def c escape_chars)
  next
    case 2
    have h: "n div 16 < 16" "n mod 16 < 16" using 2(1) by auto
    have "c \<noteq> dq" "c \<noteq> bsl" using 2 by (auto simp: n_def)
    then have "raw_escape c = [bsl, CHR ''u'', CHR ''0'', CHR ''0'', hex_digit (n div 16), hex_digit (n mod 16)]"
      using 2 by (simp add: raw_escape_def json_escape_char_def Let_def n_def escape_chars)
    then show ?thesis using h by (simp add: unhex_hex c)
  next
    case 3
    have "c \<noteq> dq" "c \<noteq> bsl" using 3 by (auto simp: n_def)
    moreover have "raw_escape c = [c]" using 3 calculation by (simp add: raw_escape_def n_def)
    ultimately show ?thesis by simp
  qed
qed

lemma read_py_escape: "q = sq \<or> q = dq \<Longrightarrow> read_py q (repr_char q c @ rest) = map_option (apfst (Cons c)) (read_py q rest)"
proof -
  assume q: "q = sq \<or> q = dq"
  define n where "n = (of_char c :: nat)"
  have c: "c = char_of n" by (simp add: n_def)
  consider "c = q" | "c = bsl" | "c \<noteq> q" "n \<in> {10, 13, 9}" | "c \<noteq> q" "n < 32 \<or> n = 127" "n \<notin> {10, 13, 9}" |
    "c \<noteq> q" "c \<noteq> bsl" "n \<ge> 32" "n \<noteq> 127" by fastforce
  then show ?thesis
  proof cases
    case 1
    then show ?thesis using q by (auto simp: repr_char_def Let_def)
  next
    case 2
    then show ?thesis using q by (auto simp: repr_char_def Let_def)
  next
    case 3
    then show ?thesis using q by (elim insertE disjE; simp add: repr_char_def c Let_def escape_chars)
  next
    case 4
    have h: "n div 16 < 16" "n mod 16 < 16" using 4(2) by auto
    have "c \<noteq> bsl" using 4 by (auto simp: n_def)
    then have "repr_char q c = [bsl, CHR ''x'', hex_digit (n div 16), hex_digit (n mod 16)]"
      using 4 by (auto simp: repr_char_def Let_def n_def)
    then show ?thesis using h q by (auto simp: unhex_hex c)
  next
    case 5
    then have "repr_char q c = [c]" by (simp add: repr_char_def Let_def n_def)
    then show ?thesis using 5 by simp
  qed
qed

lemma read_json_body: "read_json (concat (map raw_escape s) @ dq # rest) = Some (s, rest)"
  by (induction s) (simp_all add: read_json_escape)

lemma read_py_body: "q = sq \<or> q = dq \<Longrightarrow> read_py q (concat (map (repr_char q) s) @ q # rest) = Some (s, rest)"
  by (induction s) (simp_all add: read_py_escape)

text \<open>
  C36: literals are read back. A YAML scalar of a playbook and a Python literal of a script, in front of any text,
  are read back as the text they were made from: no command, name or comment can end its literal early.
\<close>

theorem literals_read_back:
  "hd (raw_quote s) = dq \<and> read_json (tl (raw_quote s) @ rest) = Some (s, rest) \<and>
   hd (py_repr s) = repr_quote s \<and> read_py (repr_quote s) (tl (py_repr s) @ rest) = Some (s, rest)"
proof -
  have "repr_quote s = sq \<or> repr_quote s = dq" by (simp add: repr_quote_def)
  then show ?thesis by (simp add: raw_quote_def py_repr_def Let_def read_json_body read_py_body)
qed

section \<open>A plan that is exported\<close>

lemma demo_screened: "screen_plan True demo_plan = Inr ()"
  by code_simp

lemma demo_vendor: "pl_vendor demo_plan = Cisco_Ios_Xe"
  by code_simp

lemma demo_exported: "\<exists>out. to_ansible_playbook (\<lambda>_. []) demo_plan = Inr out"
  by (simp add: to_ansible_playbook_def demo_screened vendor_play_def demo_vendor)



end
