(* ===== verification/Block_Laws.thy ===== *)
theory Block_Laws
  imports Remediation_Export
begin

text \<open>Configuration blocks: every line ends up once, in order, under the lines that enclose it.\<close>

section \<open>Dictionaries of lists\<close>

lemma dict_set_default: "dict_get (set_default k d) q [] = dict_get d q []"
  by (auto simp: set_default_def dict_get_def map_add_def split: option.splits)

lemma keys_set_default: "distinct (map fst d) \<Longrightarrow> distinct (map fst (set_default k d)) \<and> set (map fst (set_default k d)) = insert k (set (map fst d))"
  by (auto simp: set_default_def map_of_eq_None_iff image_iff)

lemma dict_append_at: "dict_get (append_at k v d) q [] = (if q = k then dict_get d k [] @ [v] else dict_get d q [])"
  by (simp add: append_at_def Let_def dict_set_default)

lemma keys_append_at: "distinct (map fst d) \<Longrightarrow> distinct (map fst (append_at k v d))"
  using keys_set_default [of d k] by (simp add: append_at_def Let_def distinct_update)

lemma dict_filter:
  assumes "distinct (map fst d)"
  shows "dict_get (filter (\<lambda>b. snd b \<noteq> []) d) q [] = dict_get d q []"
  using assms
proof (induction d)
  case (Cons b d)
  have "q = fst b \<Longrightarrow> map_of d q = None" using Cons.prems by (simp add: map_of_eq_None_iff)
  then show ?case using Cons by (cases b) (auto simp: dict_get_def split: option.splits if_splits)
qed simp

section \<open>Enclosing lines\<close>

definition deeper_follows :: "(nat \<times> string) list \<Rightarrow> nat \<Rightarrow> bool" where
  "deeper_follows rows i \<longleftrightarrow> Suc i < length rows \<and> fst (rows ! i) < fst (rows ! Suc i)"

text \<open>The lines above a line that are less indented than everything from there down to it.\<close>

definition enclosing :: "(nat \<times> string) list \<Rightarrow> nat \<Rightarrow> string list" where
  "enclosing rows i = map (\<lambda>j. snd (rows ! j)) (filter (\<lambda>j. list_all (\<lambda>k. fst (rows ! j) < fst (rows ! k)) [Suc j..<Suc i]) [0..<i])"

definition open_at :: "(nat \<times> string) list \<Rightarrow> nat \<Rightarrow> nat list" where
  "open_at rows m = filter (\<lambda>j. deeper_follows rows j \<and> list_all (\<lambda>k. fst (rows ! j) < fst (rows ! k)) [Suc j..<m]) [0..<m]"

definition kept_at :: "(nat \<times> string) list \<Rightarrow> nat \<Rightarrow> nat list" where
  "kept_at rows m = filter (\<lambda>j. fst (rows ! j) < fst (rows ! m)) (open_at rows m)"

lemma open_step: "open_at rows (Suc m) = kept_at rows m @ (if deeper_follows rows m then [m] else [])"
  by (auto simp: open_at_def kept_at_def conj_commute conj_left_commute intro!: filter_cong)

lemma kept_enclosing: "m < length rows \<Longrightarrow> map (\<lambda>j. snd (rows ! j)) (kept_at rows m) = enclosing rows m"
proof -
  assume m: "m < length rows"
  have "kept_at rows m = filter (\<lambda>j. list_all (\<lambda>k. fst (rows ! j) < fst (rows ! k)) [Suc j..<Suc m]) [0..<m]"
    unfolding kept_at_def open_at_def filter_filter
  proof (rule filter_cong [OF refl])
    fix j
    assume "j \<in> set [0..<m]"
    then have j: "j < m" by simp
    let ?P = "\<lambda>k. fst (rows ! j) < fst (rows ! k)"
    have all: "list_all ?P [Suc j..<Suc m] \<longleftrightarrow> list_all ?P [Suc j..<m] \<and> ?P m"
      using j by (auto simp: list_all_iff less_Suc_eq)
    have "deeper_follows rows j" if "list_all ?P [Suc j..<Suc m]"
    proof -
      have "Suc j \<in> set [Suc j..<Suc m]" using j by auto
      then have "?P (Suc j)" using that unfolding list_all_iff by blast
      then show ?thesis using j m by (simp add: deeper_follows_def)
    qed
    then show "((deeper_follows rows j \<and> list_all ?P [Suc j..<m]) \<and> ?P m) = list_all ?P [Suc j..<Suc m]"
      using all by blast
  qed
  then show ?thesis by (simp add: enclosing_def)
qed

lemma open_sorted: "sorted_wrt (\<lambda>i j. fst (rows ! i) < fst (rows ! j)) (open_at rows m)"
proof (induction m)
  case (Suc m)
  have "sorted_wrt (\<lambda>i j. fst (rows ! i) < fst (rows ! j)) (kept_at rows m)"
    unfolding kept_at_def by (rule sorted_wrt_filter [OF Suc])
  then show ?case unfolding open_step by (auto simp: sorted_wrt_append kept_at_def)
qed (simp add: open_at_def)

lemma pop_sorted:
  assumes "sorted_wrt (\<lambda>a b. fst a < fst b) st"
  shows "pop_to d (rev st) = rev (filter (\<lambda>e. fst e < d) st)"
  using assms
proof (induction st rule: rev_induct)
  case (snoc e st)
  then show ?case
  proof (cases "fst e < d")
    case True
    then have "filter (\<lambda>e. fst e < d) st = st" using snoc.prems by (auto simp: sorted_wrt_append filter_id_conv intro: less_trans)
    then show ?thesis using True by (simp add: pop_to_def)
  next
    case False
    then show ?thesis using snoc by (simp add: pop_to_def sorted_wrt_append)
  qed
qed (simp add: pop_to_def)

definition stack_at :: "(nat \<times> string) list \<Rightarrow> nat \<Rightarrow> (nat \<times> string) list" where
  "stack_at rows m = rev (map ((!) rows) (open_at rows m))"

lemma pop_stack: "pop_to (fst (rows ! m)) (stack_at rows m) = rev (map ((!) rows) (kept_at rows m))"
proof -
  have "sorted_wrt (\<lambda>a b. fst a < fst b) (map ((!) rows) (open_at rows m))" using open_sorted [of rows m] by (simp add: sorted_wrt_map)
  then show ?thesis unfolding stack_at_def by (simp add: pop_sorted kept_at_def filter_map o_def)
qed

section \<open>Filling\<close>

definition lines_under :: "(nat \<times> string) list \<Rightarrow> string list \<Rightarrow> nat \<Rightarrow> string list" where
  "lines_under rows q m =
     map (\<lambda>i. snd (rows ! i)) (filter (\<lambda>i. \<not> deeper_follows rows i \<and> enclosing rows i = q) [m..<length rows])"

lemma fill_blocks_from:
  assumes "distinct (map fst blocks)" and "m \<le> length rows"
  shows "dict_get (fill_blocks (drop m rows) (stack_at rows m) blocks) q [] = dict_get blocks q [] @ lines_under rows q m \<and>
    distinct (map fst (fill_blocks (drop m rows) (stack_at rows m) blocks))"
  using assms
proof (induction "length rows - m" arbitrary: m blocks)
  case 0
  then show ?case by (simp add: lines_under_def)
next
  case (Suc n)
  then have m: "m < length rows" by simp
  obtain d t where r: "rows ! m = (d, t)" by (cases "rows ! m")
  have dr: "drop m rows = (d, t) # drop (Suc m) rows" using Cons_nth_drop_Suc [OF m] r by simp
  have pop: "pop_to d (stack_at rows m) = rev (map ((!) rows) (kept_at rows m))" using pop_stack [of rows m] r by simp
  have path: "path_of (rev (map ((!) rows) (kept_at rows m))) = enclosing rows m"
    using kept_enclosing [OF m] by (simp add: path_of_def rev_map o_def)
  have "hd (drop (Suc m) rows) = rows ! Suc m" if "Suc m < length rows" using that by (simp add: hd_drop_conv_nth)
  then have deep: "(drop (Suc m) rows \<noteq> [] \<and> d < fst (hd (drop (Suc m) rows))) = deeper_follows rows m"
    by (auto simp: deeper_follows_def r)
  have under: "lines_under rows q m = (if \<not> deeper_follows rows m \<and> enclosing rows m = q then [t] else []) @ lines_under rows q (Suc m)"
    using m by (simp add: lines_under_def upt_conv_Cons r)
  note IH = Suc.hyps(1) [of "Suc m"]
  have n: "n = length rows - Suc m" and le: "Suc m \<le> length rows" using Suc.hyps(2) m by simp_all
  show ?case
  proof (cases "deeper_follows rows m")
    case True
    let ?b = "set_default (path_of (stack_at rows (Suc m))) blocks"
    have st: "(d, t) # rev (map ((!) rows) (kept_at rows m)) = stack_at rows (Suc m)" using True by (simp add: stack_at_def open_step r)
    have fill: "fill_blocks (drop m rows) (stack_at rows m) blocks = fill_blocks (drop (Suc m) rows) (stack_at rows (Suc m)) ?b"
      unfolding dr fill_blocks.simps Let_def pop deep st if_P [OF True] ..
    have "distinct (map fst ?b)" by (rule conjunct1 [OF keys_set_default [OF Suc.prems(1)]])
    note step = IH [OF n this le]
    have "lines_under rows q m = lines_under rows q (Suc m)" using under True by simp
    then show ?thesis using step unfolding fill dict_set_default by simp
  next
    case False
    let ?b = "append_at (enclosing rows m) t blocks"
    have st: "rev (map ((!) rows) (kept_at rows m)) = stack_at rows (Suc m)" using False by (simp add: stack_at_def open_step)
    have fill: "fill_blocks (drop m rows) (stack_at rows m) blocks = fill_blocks (drop (Suc m) rows) (stack_at rows (Suc m)) ?b"
      unfolding dr fill_blocks.simps Let_def pop deep path if_not_P [OF False] unfolding st ..
    have "distinct (map fst ?b)" by (rule keys_append_at [OF Suc.prems(1)])
    note step = IH [OF n this le]
    have "lines_under rows q m = (if enclosing rows m = q then t # lines_under rows q (Suc m) else lines_under rows q (Suc m))"
      using under False by simp
    then show ?thesis using step unfolding fill dict_append_at by (cases "enclosing rows m = q") auto
  qed
qed


end
