(* ===== verification/Blast_Radius.thy ===== *)
theory Blast_Radius
  imports Suppression
begin

text \<open>
  Blast radius of degraded devices (\<open>analytics.py\<close>): the adjacency of a topology, its articulation points by
  Tarjan's iterative search, the findings that degrade a device, and the report. A dictionary that the search
  only looks up is a map; its inner \<open>for\<close> loop takes one neighbour per step. \<open>repr\<close> is Python's \<open>str\<close> of a
  value that is neither text, number, truth value nor \<open>None\<close>, \<open>fmt\<close> is \<open>f"{x:.1f}"\<close>.
\<close>

section \<open>Findings\<close>

record finding =
  fi_device :: string
  fi_severity :: string
  fi_message :: string
  fi_timestamp :: string
  fi_category :: string
  fi_entity :: string

text \<open>What a caller may pass: a \<open>Finding\<close>, a dict, or another object, here its attributes.\<close>

datatype finding_item = As_Finding finding | As_Dict "(string \<times> json) list" | As_Object "(string \<times> json) list"

text \<open>\<open>a or b or c\<close> over the fields of a dict.\<close>

fun first_field :: "(string \<times> json) list \<Rightarrow> string list \<Rightarrow> json option" where
  "first_field kvs [] = None"
| "first_field kvs (k # ks) = (if truthy (json_field kvs k) then Some (json_field kvs k) else first_field kvs ks)"

definition text_field :: "(json \<Rightarrow> string) \<Rightarrow> (string \<times> json) list \<Rightarrow> string list \<Rightarrow> string \<Rightarrow> string" where
  "text_field repr kvs ks usual = (case first_field kvs ks of None \<Rightarrow> usual | Some j \<Rightarrow> py_str repr j)"

text \<open>\<open>list(a or b or [])\<close>.\<close>

definition list_field :: "(string \<times> json) list \<Rightarrow> string list \<Rightarrow> py_error + json list" where
  "list_field kvs ks = (case first_field kvs ks of None \<Rightarrow> Inr [] | Some j \<Rightarrow> py_iter j)"

definition dict_devices :: "(json \<Rightarrow> string) \<Rightarrow> (string \<times> json) list \<Rightarrow> py_error + string list" where
  "dict_devices repr kvs =
     (case first_field kvs [''device'', ''hostname'', ''host''] of
        Some j \<Rightarrow> Inr [py_str repr j]
      | None \<Rightarrow> map_sum id (\<lambda>ds. map (py_str repr) (filter truthy ds)) (list_field kvs [''devices'']))"

definition object_devices :: "(json \<Rightarrow> string) \<Rightarrow> (string \<times> json) list \<Rightarrow> py_error + string list" where
  "object_devices repr kvs =
     map_sum id (\<lambda>ds. if ds \<noteq> [] then map (py_str repr) ds
                      else (case first_field kvs [''device'', ''hostname''] of None \<Rightarrow> [] | Some j \<Rightarrow> [py_str repr j]))
       (list_field kvs [''devices''])"

definition findings_of :: "(json \<Rightarrow> string) \<Rightarrow> (string \<times> json) list \<Rightarrow> string list \<Rightarrow> string list \<Rightarrow> string list \<Rightarrow> finding list" where
  "findings_of repr kvs message severity devices =
     map (\<lambda>d. \<lparr>fi_device = d, fi_severity = text_field repr kvs severity ''info'', fi_message = text_field repr kvs message [],
               fi_timestamp = text_field repr kvs [''timestamp''] [], fi_category = text_field repr kvs [''category''] [],
               fi_entity = []\<rparr>) devices"

fun coerce_finding :: "(json \<Rightarrow> string) \<Rightarrow> finding_item \<Rightarrow> py_error + finding list" where
  "coerce_finding repr (As_Finding f) = Inr [f]"
| "coerce_finding repr (As_Dict kvs) =
     map_sum id (findings_of repr kvs [''message'', ''description'', ''sample_message''] [''severity'', ''level'']) (dict_devices repr kvs)"
| "coerce_finding repr (As_Object kvs) =
     map_sum id (findings_of repr kvs [''message'', ''description'', ''sample_message''] [''severity'']) (object_devices repr kvs)"

fun iter_findings :: "(json \<Rightarrow> string) \<Rightarrow> finding_item list \<Rightarrow> py_error + finding list" where
  "iter_findings repr [] = Inr []"
| "iter_findings repr (i # is) =
     (case coerce_finding repr i of
        Inl e \<Rightarrow> Inl e
      | Inr fs \<Rightarrow> map_sum id (\<lambda>rest. fs @ rest) (iter_findings repr is))"

section \<open>Adjacency\<close>

record topo_node =
  tn_id :: string
  tn_role :: string
  tn_tier :: string

datatype topology_item = Graph "topo_node list" "(string \<times> string) list" | Dict "(string \<times> json) list"

record parts =
  pt_names :: "string list"
  pt_roles :: "(string \<times> string) list"
  pt_edges :: "(string \<times> string) list"

fun node_part :: "(json \<Rightarrow> string) \<Rightarrow> json \<Rightarrow> (string \<times> string option) option" where
  "node_part repr (JStr name) = Some (name, None)"
| "node_part repr (JObj kvs) =
     (let name = text_field repr kvs [''id'', ''name'', ''device''] []
      in if name = [] then None else Some (name, Some (text_field repr kvs [''role'', ''tier''] [])))"
| "node_part repr _ = None"

fun edge_pair :: "(json \<Rightarrow> string) \<Rightarrow> json \<Rightarrow> (string \<times> string) option" where
  "edge_pair repr (JObj kvs) =
     (case (first_field kvs [''source'', ''src'', ''a''], first_field kvs [''target'', ''dst'', ''b'']) of
        (Some left, Some right) \<Rightarrow> Some (py_str repr left, py_str repr right)
      | _ \<Rightarrow> None)"
| "edge_pair repr (JList [left, right]) = Some (py_str repr left, py_str repr right)"
| "edge_pair repr _ = None"

definition roles_of :: "(string \<times> string) list \<Rightarrow> (string \<times> string) list" where
  "roles_of named = fold (\<lambda>(n, r) d. AList.update n r d) named []"

fun topology_parts :: "(json \<Rightarrow> string) \<Rightarrow> topology_item \<Rightarrow> py_error + parts" where
  "topology_parts repr (Graph ns es) =
     Inr \<lparr>pt_names = map tn_id ns, pt_roles = roles_of (map (\<lambda>n. (tn_id n, or_str (tn_role n) (tn_tier n))) ns), pt_edges = es\<rparr>"
| "topology_parts repr (Dict kvs) =
     (case list_field kvs [''nodes'', ''devices''] of Inl e \<Rightarrow> Inl e | Inr raw \<Rightarrow>
      (case list_field kvs [''edges'', ''links''] of Inl e \<Rightarrow> Inl e | Inr links \<Rightarrow>
       (let named = List.map_filter (node_part repr) raw
        in Inr \<lparr>pt_names = map fst named,
                pt_roles = roles_of (List.map_filter (\<lambda>(n, r). map_option (Pair n) r) named),
                pt_edges = List.map_filter (edge_pair repr) links\<rparr>)))"

text \<open>A dict of sets, as the key list and the members of each.\<close>

type_synonym adjacency = "(string \<times> string list) list"

definition add_neighbor :: "string \<Rightarrow> string \<Rightarrow> adjacency \<Rightarrow> adjacency" where
  "add_neighbor l r adj = AList.update l (List.insert r (dict_get adj l [])) adj"

definition add_edge :: "string \<times> string \<Rightarrow> adjacency \<Rightarrow> adjacency" where
  "add_edge = (\<lambda>(l, r) adj. if l = [] \<or> r = [] \<or> l = r then adj else add_neighbor r l (add_neighbor l r adj))"

definition adjacency :: "string list \<Rightarrow> (string \<times> string) list \<Rightarrow> adjacency" where
  "adjacency names edges = fold add_edge edges (map (\<lambda>n. (n, [])) (dedup (filter (\<lambda>n. n \<noteq> []) names)))"

definition neighbors :: "adjacency \<Rightarrow> string \<Rightarrow> string list" where
  "neighbors adj x = sorted_set (dict_get adj x [])"

section \<open>Articulation points\<close>

text \<open>The search: the top of the stack is its head, with the neighbours its iterator has left.\<close>

record search =
  se_disc :: "string \<rightharpoonup> nat"
  se_low :: "string \<rightharpoonup> nat"
  se_parent :: "string \<rightharpoonup> string option"
  se_children :: "string \<Rightarrow> nat"
  se_cuts :: "string set"
  se_timer :: nat
  se_stack :: "(string \<times> string list) list"

definition new_search :: search where
  "new_search = \<lparr>se_disc = Map.empty, se_low = Map.empty, se_parent = Map.empty, se_children = (\<lambda>_. 0), se_cuts = {}, se_timer = 0,
     se_stack = []\<rparr>"

text \<open>\<open>parent.get(x)\<close>.\<close>

definition parent_of :: "search \<Rightarrow> string \<Rightarrow> string option" where
  "parent_of s x = (case se_parent s x of None \<Rightarrow> None | Some p \<Rightarrow> p)"

text \<open>\<open>parent[x] = p; timer += 1; disc[x] = low[x] = timer\<close>, and the push.\<close>

definition discover :: "adjacency \<Rightarrow> string option \<Rightarrow> string \<Rightarrow> search \<Rightarrow> search" where
  "discover adj p x s =
     s\<lparr>se_parent := (se_parent s)(x \<mapsto> p), se_timer := se_timer s + 1, se_disc := (se_disc s)(x \<mapsto> se_timer s + 1),
       se_low := (se_low s)(x \<mapsto> se_timer s + 1), se_stack := (x, neighbors adj x) # se_stack s\<rparr>"

definition lower_to :: "string \<Rightarrow> nat \<Rightarrow> search \<Rightarrow> search" where
  "lower_to x n s = s\<lparr>se_low := (se_low s)(x \<mapsto> min (the (se_low s x)) n)\<rparr>"

definition mark_cut :: "string \<Rightarrow> string \<Rightarrow> search \<Rightarrow> search" where
  "mark_cut node nxt s =
     (let s1 = (if parent_of s node = None \<and> se_children s node > 1 then s\<lparr>se_cuts := insert node (se_cuts s)\<rparr> else s)
      in if parent_of s node \<noteq> None \<and> the (se_low s nxt) \<ge> the (se_disc s node)
         then s1\<lparr>se_cuts := insert node (se_cuts s1)\<rparr> else s1)"

definition pop :: "string \<Rightarrow> (string \<times> string list) list \<Rightarrow> search \<Rightarrow> search" where
  "pop node rest s =
     (let s = s\<lparr>se_stack := rest\<rparr>
      in case rest of
           [] \<Rightarrow> s
         | (up, _) # _ \<Rightarrow> mark_cut up node (lower_to up (the (se_low s node)) s))"

fun search_step :: "adjacency \<Rightarrow> search \<Rightarrow> search" where
  "search_step adj s =
     (case se_stack s of
        [] \<Rightarrow> s
      | (node, []) # rest \<Rightarrow> pop node rest s
      | (node, nxt # its) # rest \<Rightarrow>
          (let s1 = s\<lparr>se_stack := (node, its) # rest\<rparr>
           in if se_disc s nxt = None
              then discover adj (Some node) nxt (s1\<lparr>se_children := (se_children s1)(node := se_children s1 node + 1)\<rparr>)
              else if parent_of s node \<noteq> Some nxt then lower_to node (the (se_disc s nxt)) s1
              else s1))"

declare search_step.simps [simp del]

text \<open>The vertices not yet found, among those an iterator or a neighbour set can still give.\<close>

definition unseen :: "adjacency \<Rightarrow> search \<Rightarrow> nat" where
  "unseen adj s = card ((\<Union>(set ` snd ` set adj) \<union> \<Union>(set ` snd ` set (se_stack s))) - dom (se_disc s))"

definition pending :: "search \<Rightarrow> nat" where
  "pending s = sum_list (map (\<lambda>f. Suc (length (snd f))) (se_stack s))"

lemma set_neighbors: "set (neighbors adj x) = set (dict_get adj x [])"
  by (simp add: neighbors_def sorted_set_def)

lemma neighbors_subset: "set (neighbors adj x) \<subseteq> \<Union>(set ` snd ` set adj)"
proof (cases "map_of adj x")
  case None
  then show ?thesis by (simp add: set_neighbors dict_get_def)
next
  case (Some ns)
  then have "ns \<in> snd ` set adj" using map_of_SomeD [OF Some] by force
  then show ?thesis using Some by (auto simp: set_neighbors dict_get_def)
qed

definition iterators :: "search \<Rightarrow> string set" where
  "iterators s = \<Union>(set ` snd ` set (se_stack s))"

lemma unseen_iterators: "unseen adj s = card ((\<Union>(set ` snd ` set adj) \<union> iterators s) - dom (se_disc s))"
  by (simp add: unseen_def iterators_def)

lemma finite_iterators: "finite ((\<Union>(set ` snd ` set adj) \<union> iterators s) - dom (se_disc s))"
  by (simp add: iterators_def)

lemma stack_step:
  "se_stack s = (node, []) # rest \<Longrightarrow> se_stack (search_step adj s) = rest \<and> se_disc (search_step adj s) = se_disc s"
  "se_stack s = (node, nxt # its) # rest \<Longrightarrow> se_disc s nxt \<noteq> None \<Longrightarrow>
     se_stack (search_step adj s) = (node, its) # rest \<and> se_disc (search_step adj s) = se_disc s"
  "se_stack s = (node, nxt # its) # rest \<Longrightarrow> se_disc s nxt = None \<Longrightarrow>
     se_stack (search_step adj s) = (nxt, neighbors adj nxt) # (node, its) # rest \<and>
     dom (se_disc (search_step adj s)) = insert nxt (dom (se_disc s))"
  by (auto simp: search_step.simps pop_def mark_cut_def lower_to_def discover_def Let_def split: list.splits)

lemma search_step_measure:
  assumes "se_stack s \<noteq> []"
  shows "unseen adj (search_step adj s) < unseen adj s \<or>
    unseen adj (search_step adj s) \<le> unseen adj s \<and> pending (search_step adj s) < pending s"
proof -
  obtain node its rest where st: "se_stack s = (node, its) # rest" using assms by (cases "se_stack s") auto
  have keep: ?thesis if "se_disc (search_step adj s) = se_disc s" "iterators (search_step adj s) \<subseteq> iterators s" "pending (search_step adj s) < pending s"
  proof -
    have "unseen adj (search_step adj s) \<le> unseen adj s"
      unfolding unseen_iterators that(1) by (rule card_mono) (use finite_iterators [of adj s] that(2) in auto)
    then show ?thesis using that(3) by simp
  qed
  show ?thesis
  proof (cases its)
    case Nil
    then show ?thesis using keep stack_step(1) [of s node rest adj] st by (simp add: iterators_def pending_def)
  next
    case (Cons nxt its')
    show ?thesis
    proof (cases "se_disc s nxt = None")
      case False
      then show ?thesis using keep stack_step(2) [of s node nxt its' rest adj] st Cons by (auto simp: iterators_def pending_def)
    next
      case True
      note step = stack_step(3) [OF _ True, of node its' rest adj]
      have "unseen adj (search_step adj s) < unseen adj s"
        unfolding unseen_iterators
      proof (rule psubset_card_mono [OF finite_iterators])
        have before: "iterators s = insert nxt (set its' \<union> \<Union>(set ` snd ` set rest))" using st Cons by (simp add: iterators_def)
        have after: "iterators (search_step adj s) = set (neighbors adj nxt) \<union> (set its' \<union> \<Union>(set ` snd ` set rest))"
          using st Cons step by (simp add: iterators_def)
        have d: "dom (se_disc (search_step adj s)) = insert nxt (dom (se_disc s))" using st Cons step by simp
        have "nxt \<notin> dom (se_disc s)" using True by auto
        then show "\<Union>(set ` snd ` set adj) \<union> iterators (search_step adj s) - dom (se_disc (search_step adj s))
            \<subset> \<Union>(set ` snd ` set adj) \<union> iterators s - dom (se_disc s)"
          unfolding before after d using neighbors_subset [of adj nxt] by blast
      qed
      then show ?thesis by blast
    qed
  qed
qed

function run_search :: "adjacency \<Rightarrow> search \<Rightarrow> search" where
  "run_search adj s = (if se_stack s = [] then s else run_search adj (search_step adj s))"
  by pat_completeness auto

termination
proof (relation "measures [\<lambda>(adj, s). unseen adj s, \<lambda>(adj, s). pending s]")
  show "((adj, search_step adj s), adj, s) \<in> measures [\<lambda>(adj, s). unseen adj s, \<lambda>(adj, s). pending s]" if "se_stack s \<noteq> []" for adj s
    using search_step_measure [OF that, of adj] by (auto simp: le_less)
qed simp

declare run_search.simps [simp del]

definition search_from :: "adjacency \<Rightarrow> string \<Rightarrow> search \<Rightarrow> search" where
  "search_from adj start s = (if se_disc s start \<noteq> None then s else run_search adj (discover adj None start s))"

definition search_all :: "adjacency \<Rightarrow> search" where
  "search_all adj = fold (search_from adj) (sort (map fst adj)) new_search"

definition articulation_points :: "adjacency \<Rightarrow> string set" where
  "articulation_points adj = se_cuts (search_all adj)"

section \<open>Report\<close>

definition degraded_words :: "string list" where "degraded_words = [''critical'', ''high'', ''error'']"

definition degraded_devices :: "finding list \<Rightarrow> adjacency \<Rightarrow> string list" where
  "degraded_devices fs adj =
     (let index = fold (\<lambda>n d. AList.update (lower n) n d) (map fst adj) [];
          bad = filter (\<lambda>f. lower (fi_severity f) \<in> set degraded_words) fs;
          names = map (\<lambda>f. dict_get index (lower (fi_device f)) (fi_device f)) bad
      in dedup (filter (\<lambda>n. n \<in> set (map fst adj)) names))"

datatype risk_tier = Critical_Spof | Latent_Spof | Degraded_Redundant | Healthy

fun risk_tier_of :: "bool \<Rightarrow> bool \<Rightarrow> risk_tier" where
  "risk_tier_of is_degraded is_cut =
     (if is_degraded \<and> is_cut then Critical_Spof else if is_cut then Latent_Spof else if is_degraded then Degraded_Redundant else Healthy)"

fun risk_order :: "risk_tier \<Rightarrow> nat" where
  "risk_order Critical_Spof = 0"
| "risk_order Latent_Spof = 1"
| "risk_order Degraded_Redundant = 2"
| "risk_order Healthy = 3"

record blast_node =
  bn_device :: string
  bn_degraded :: bool
  bn_cut :: bool
  bn_degree :: nat
  bn_neighbors :: "string list"
  bn_loss :: rat
  bn_tier :: risk_tier

record blast_report =
  br_nodes :: "blast_node list"
  br_cuts :: "string list"
  br_critical :: "string list"
  br_score :: rat
  br_summary :: string

definition blast_node_of :: "adjacency \<Rightarrow> string set \<Rightarrow> string list \<Rightarrow> string \<Rightarrow> blast_node" where
  "blast_node_of adj cuts degraded name =
     (let ns = neighbors adj name; lost = length (filter (\<lambda>h. h \<in> set degraded) ns); bad = (name \<in> set degraded)
      in \<lparr>bn_device = name, bn_degraded = bad, bn_cut = (name \<in> cuts), bn_degree = length ns, bn_neighbors = ns,
          bn_loss = (if ns = [] then 0 else round_digits 2 (100 * rat_of_nat lost / rat_of_nat (length ns))),
          bn_tier = risk_tier_of bad (name \<in> cuts)\<rparr>)"

definition spine_hit :: "(string \<times> string) list \<Rightarrow> blast_node \<Rightarrow> bool" where
  "spine_hit named_roles n = (bn_cut n \<or> is_infix ''spine'' (lower (bn_device n @ '' '' @ dict_get named_roles (bn_device n) [])))"

definition blast_score :: "blast_node list \<Rightarrow> finding list \<Rightarrow> (string \<times> string) list \<Rightarrow> rat" where
  "blast_score nodes fs named_roles =
     (let total = rat_of_nat (max (length nodes) 1); bad = filter bn_degraded nodes;
          affected = dedup (concat (map (\<lambda>n. bn_device n # bn_neighbors n) bad));
          fraction = rat_of_nat (length affected) / total;
          criticals = length (filter (\<lambda>f. lower (fi_severity f) \<in> set degraded_words) fs);
          density = min 1 (rat_of_nat criticals / total);
          score = 40 * fraction + (if list_ex (spine_hit named_roles) bad then 35 else 0) + 25 * density
      in round_digits 2 (min 100 (max 0 score)))"

definition no_devices :: blast_report where
  "no_devices = \<lparr>br_nodes = [], br_cuts = [], br_critical = [], br_score = 0, br_summary = ''Topology has no devices.''\<rparr>"

definition blast_report_of :: "(rat \<Rightarrow> string) \<Rightarrow> adjacency \<Rightarrow> (string \<times> string) list \<Rightarrow> finding list \<Rightarrow> blast_report" where
  "blast_report_of fmt adj named_roles fs =
     (let cuts = articulation_points adj; degraded = degraded_devices fs adj;
          nodes = sort_key (\<lambda>n. (risk_order (bn_tier n), bn_device n)) (map (blast_node_of adj cuts degraded) (sort (map fst adj)));
          aps = sorted_list_of_set cuts;
          critical = sort (map bn_device (filter (\<lambda>n. bn_tier n = Critical_Spof) nodes));
          score = blast_score nodes fs named_roles
      in \<lparr>br_nodes = nodes, br_cuts = aps, br_critical = critical, br_score = score,
          br_summary = ''Blast radius score '' @ fmt score @ ''. '' @ show_nat (length aps) @ '' articulation point(s), ''
            @ show_nat (length critical) @ '' critical SPOF(s).''\<rparr>)"

definition analyze_blast_radius ::
  "(json \<Rightarrow> string) \<Rightarrow> (rat \<Rightarrow> string) \<Rightarrow> topology_item \<Rightarrow> finding_item list \<Rightarrow> py_error + blast_report" where
  "analyze_blast_radius repr fmt topology items =
     (case topology_parts repr topology of Inl e \<Rightarrow> Inl e | Inr p \<Rightarrow>
      let adj = adjacency (pt_names p) (pt_edges p)
      in if adj = [] then Inr no_devices
         else map_sum id (blast_report_of fmt adj (pt_roles p)) (iter_findings repr items))"

end
