(* ===== verification/Cut_Vertices.thy ===== *)
theory Cut_Vertices
  imports Main
begin

text \<open>
  Cut vertices of an undirected graph, and what a depth-first search has to leave behind for them to be read off:
  a forest without cross edges, discovery times that grow downwards, and low points.
\<close>

section \<open>Reachability\<close>

definition joined :: "('a \<Rightarrow> 'a \<Rightarrow> bool) \<Rightarrow> 'a \<Rightarrow> 'a \<Rightarrow> bool" where
  "joined E = E\<^sup>*\<^sup>*"

definition joined_without :: "('a \<Rightarrow> 'a \<Rightarrow> bool) \<Rightarrow> 'a \<Rightarrow> 'a \<Rightarrow> 'a \<Rightarrow> bool" where
  "joined_without E v = (\<lambda>a b. E a b \<and> a \<noteq> v \<and> b \<noteq> v)\<^sup>*\<^sup>*"

text \<open>A cut vertex: without it, two other vertices are no longer joined.\<close>

definition separates :: "('a \<Rightarrow> 'a \<Rightarrow> bool) \<Rightarrow> 'a \<Rightarrow> bool" where
  "separates E v \<longleftrightarrow> (\<exists>a b. a \<noteq> v \<and> b \<noteq> v \<and> joined E a b \<and> \<not> joined_without E v a b)"

lemma joined_without_refl [simp]: "joined_without E v a a"
  by (simp add: joined_without_def)

lemma joined_without_edge: "E a b \<Longrightarrow> a \<noteq> v \<Longrightarrow> b \<noteq> v \<Longrightarrow> joined_without E v a b"
  unfolding joined_without_def by (rule r_into_rtranclp) simp

lemma joined_without_trans: "joined_without E v a b \<Longrightarrow> joined_without E v b c \<Longrightarrow> joined_without E v a c"
  unfolding joined_without_def by (rule rtranclp_trans)

lemma joined_without_sym:
  assumes "\<And>a b. E a b \<Longrightarrow> E b a" and "joined_without E v a b"
  shows "joined_without E v b a"
proof -
  have "symp (\<lambda>a b. E a b \<and> a \<noteq> v \<and> b \<noteq> v)" using assms(1) by (auto intro: sympI)
  then have "symp ((\<lambda>a b. E a b \<and> a \<noteq> v \<and> b \<noteq> v)\<^sup>*\<^sup>*)" by (rule symp_rtranclp)
  then show ?thesis using assms(2) unfolding joined_without_def by (rule sympD)
qed

lemma joined_without_closed:
  assumes "\<And>a b. a \<in> S \<Longrightarrow> E a b \<Longrightarrow> b \<noteq> v \<Longrightarrow> b \<in> S" and "joined_without E v a b" and "a \<in> S"
  shows "b \<in> S"
  using assms(2,3) unfolding joined_without_def by (induction rule: rtranclp_induct) (auto intro: assms(1))

section \<open>Depth-first forests\<close>

locale dfs_forest =
  fixes E :: "'a \<Rightarrow> 'a \<Rightarrow> bool" and D :: "'a set" and disc low :: "'a \<Rightarrow> nat" and par :: "'a \<Rightarrow> 'a option"
  assumes edge_sym: "E x y \<Longrightarrow> E y x"
    and edge_in: "E x y \<Longrightarrow> x \<in> D"
    and finite_D: "finite D"
    and tree_edge: "par x = Some p \<Longrightarrow> x \<in> D \<and> E p x \<and> disc p < disc x"
    and no_cross: "E x y \<Longrightarrow> (\<lambda>p c. par c = Some p)\<^sup>*\<^sup>* x y \<or> (\<lambda>p c. par c = Some p)\<^sup>*\<^sup>* y x"
    and low_self: "x \<in> D \<Longrightarrow> low x \<le> disc x"
    and low_back: "E x y \<Longrightarrow> par x \<noteq> Some y \<Longrightarrow> low x \<le> disc y"
    and low_child: "par c = Some x \<Longrightarrow> low x \<le> low c"
    and low_attained: "x \<in> D \<Longrightarrow> low x = disc x \<or> (\<exists>y. E x y \<and> par x \<noteq> Some y \<and> low x = disc y) \<or>
      (\<exists>c. par c = Some x \<and> low x = low c)"
begin

definition anc :: "'a \<Rightarrow> 'a \<Rightarrow> bool" where
  "anc = (\<lambda>p c. par c = Some p)\<^sup>*\<^sup>*"

definition is_cut :: "'a \<Rightarrow> bool" where
  "is_cut x \<longleftrightarrow> (case par x of
      None \<Rightarrow> (\<exists>c d. c \<noteq> d \<and> par c = Some x \<and> par d = Some x)
    | Some p \<Rightarrow> (\<exists>c. par c = Some x \<and> disc x \<le> low c))"

lemma anc_refl [simp]: "anc x x"
  by (simp add: anc_def)

lemma anc_trans: "anc x y \<Longrightarrow> anc y z \<Longrightarrow> anc x z"
  unfolding anc_def by (rule rtranclp_trans)

lemma anc_child: "par c = Some x \<Longrightarrow> anc x c"
  unfolding anc_def by (rule r_into_rtranclp)

lemma anc_step: "anc x y \<Longrightarrow> par z = Some y \<Longrightarrow> anc x z"
  unfolding anc_def by (rule rtranclp.rtrancl_into_rtrancl)

lemma anc_cases: "anc x y \<longleftrightarrow> x = y \<or> (\<exists>p. par y = Some p \<and> anc x p)"
  unfolding anc_def by (subst rtranclp.simps) auto

lemma anc_down: "anc x y \<Longrightarrow> x \<noteq> y \<Longrightarrow> \<exists>c. par c = Some x \<and> anc c y"
  unfolding anc_def by (erule converse_rtranclpE) auto

lemma anc_disc: "anc x y \<Longrightarrow> x = y \<or> disc x < disc y"
  unfolding anc_def by (induction rule: rtranclp_induct) (auto dest: tree_edge)

lemma anc_disc_le: "anc x y \<Longrightarrow> disc x \<le> disc y"
  using anc_disc by fastforce

lemma anc_linear: "anc x z \<Longrightarrow> anc y z \<Longrightarrow> anc x y \<or> anc y x"
  unfolding anc_def
proof (induction rule: rtranclp_induct)
  case (step p c)
  show ?case
  proof (cases "y = c")
    case True
    then show ?thesis using step.hyps by (blast intro: rtranclp.rtrancl_into_rtrancl)
  next
    case False
    from step.prems have "(\<lambda>p c. par c = Some p)\<^sup>*\<^sup>* y p" by (cases rule: rtranclp.cases) (use False step.hyps(2) in auto)
    then show ?thesis by (rule step.IH)
  qed
qed simp

lemma edge_anc: "E x y \<Longrightarrow> anc x y \<or> anc y x"
  unfolding anc_def by (rule no_cross)

lemma low_anc: "anc c u \<Longrightarrow> low c \<le> low u"
  unfolding anc_def by (induction rule: rtranclp_induct) (auto dest: low_child)

lemma low_edge: "anc c u \<Longrightarrow> E u w \<Longrightarrow> par u \<noteq> Some w \<Longrightarrow> low c \<le> disc w"
  using low_anc low_back le_trans by blast

lemma low_witness:
  "c \<in> D \<Longrightarrow> low c < disc c \<Longrightarrow> \<exists>u w. anc c u \<and> E u w \<and> disc w = low c"
proof (induction "Max (disc ` D) - disc c" arbitrary: c rule: less_induct)
  case less
  from low_attained [OF less.prems(1)] less.prems(2) consider y where "E c y" "low c = disc y" | d where "par d = Some c" "low c = low d"
    by auto
  then show ?case
  proof cases
    case 1
    then show ?thesis using anc_refl by metis
  next
    case 2
    have d: "d \<in> D" "disc c < disc d" using tree_edge [OF 2(1)] by auto
    have "disc d \<le> Max (disc ` D)" using d(1) finite_D by simp
    then have "Max (disc ` D) - disc d < Max (disc ` D) - disc c" using d(2) by simp
    moreover have "low d < disc d" using less.prems(2) 2(2) d(2) by simp
    ultimately obtain u w where "anc d u" "E u w" "disc w = low d" using less.hyps d(1) by blast
    then show ?thesis using anc_child [OF 2(1)] anc_trans 2(2) by metis
  qed
qed

section \<open>Below a cut\<close>

lemma above_child: "par c = Some x \<Longrightarrow> anc w c \<Longrightarrow> w = c \<or> anc w x"
  using anc_cases [of w c] by auto

lemma child_closed:
  assumes c: "par c = Some x" and high: "par x = None \<or> disc x \<le> low c"
    and u: "anc c u" and e: "E u w" and w: "w \<noteq> x"
  shows "anc c w"
proof (cases "anc u w")
  case True
  then show ?thesis using u anc_trans by blast
next
  case False
  then have wu: "anc w u" using edge_anc [OF e] by blast
  show ?thesis
  proof (rule ccontr)
    assume n: "\<not> anc c w"
    then have "anc w c" using anc_linear [OF u wu] by blast
    then have "anc w x" using above_child [OF c, of w] n by auto
    then have up: "par x \<noteq> None" "disc w < disc x" using anc_cases [of w x] anc_disc [of w x] w by auto
    show False
    proof (cases "par u = Some w")
      case True
      then have "u = c" using u n anc_cases [of c u] by auto
      then show False using True c w by simp
    next
      case False
      then have "low c \<le> disc w" using low_edge [OF u e] by simp
      then show False using high up by simp
    qed
  qed
qed

lemma joined_tree: "par c = Some x \<Longrightarrow> joined E x c \<and> joined E c x"
  unfolding joined_def using tree_edge edge_sym by blast

lemma child_separated:
  assumes c: "par c = Some x" and high: "par x = None \<or> disc x \<le> low c" and b: "b \<noteq> x" "\<not> anc c b" "joined E x b"
  shows "separates E x"
proof -
  have "\<not> joined_without E x c b"
    using joined_without_closed [of "{u. anc c u}" E x c b] child_closed [OF c high] b(2) by auto
  moreover have "joined E c b" using joined_tree [OF c] b(3) unfolding joined_def by (meson rtranclp_trans)
  moreover have "c \<noteq> x" using tree_edge [OF c] by auto
  ultimately show ?thesis using b(1) unfolding separates_def by blast
qed

lemma cut_separates:
  assumes "is_cut x"
  shows "separates E x"
proof (cases "par x")
  case None
  then obtain c d where cd: "c \<noteq> d" "par c = Some x" "par d = Some x" using assms by (auto simp: is_cut_def)
  have "disc x < disc d" "disc x < disc c" using cd tree_edge by blast+
  have "\<not> anc c d"
  proof
    assume "anc c d"
    then have "anc c x" using above_child [OF cd(3), of c] cd(1) by auto
    then show False using anc_disc_le [of c x] \<open>disc x < disc c\<close> by simp
  qed
  moreover have "d \<noteq> x" using \<open>disc x < disc d\<close> by auto
  ultimately show ?thesis using child_separated [OF cd(2)] None joined_tree [OF cd(3)] by blast
next
  case (Some p)
  then obtain c where c: "par c = Some x" "disc x \<le> low c" using assms by (auto simp: is_cut_def)
  have d: "disc p < disc x" "disc x < disc c" using tree_edge [OF Some] tree_edge [OF c(1)] by auto
  then have "\<not> anc c p" using anc_disc_le [of c p] by auto
  moreover have "p \<noteq> x" using d by auto
  moreover have "joined E x p" using joined_tree [OF Some] by blast
  ultimately show ?thesis using child_separated [OF c(1), of p] c(2) by blast
qed

section \<open>Around a vertex that is no cut\<close>

lemma anc_joined:
  "anc z y \<Longrightarrow> (\<And>u. anc z u \<Longrightarrow> anc u y \<Longrightarrow> u \<noteq> x) \<Longrightarrow> joined_without E x z y"
  unfolding anc_def
proof (induction rule: rtranclp_induct)
  case (step p c)
  have zc: "anc z c" using step.hyps unfolding anc_def by (rule rtranclp.rtrancl_into_rtrancl)
  have pc: "anc p c" using anc_child [OF step.hyps(2)] .
  have "joined_without E x z p"
  proof (rule step.IH)
    fix u
    assume "(\<lambda>p c. par c = Some p)\<^sup>*\<^sup>* z u" "(\<lambda>p c. par c = Some p)\<^sup>*\<^sup>* u p"
    then show "u \<noteq> x" using step.prems pc anc_trans unfolding anc_def by blast
  qed
  moreover have "joined_without E x p c"
    using tree_edge [OF step.hyps(2)] step.prems [of p] step.prems [of c] step.hyps pc zc
    by (intro joined_without_edge) (auto simp: anc_def)
  ultimately show ?case by (rule joined_without_trans)
qed simp

lemma has_root: "\<exists>r. par r = None \<and> anc r y"
proof (induction "disc y" arbitrary: y rule: less_induct)
  case less
  show ?case
  proof (cases "par y")
    case None
    then show ?thesis using anc_refl by blast
  next
    case (Some p)
    then have "disc p < disc y" using tree_edge by blast
    then obtain r where "par r = None" "anc r p" using less [of p] by auto
    then show ?thesis using anc_step [OF _ Some] by blast
  qed
qed

lemma root_unique: "par r = None \<Longrightarrow> par s = None \<Longrightarrow> anc r y \<Longrightarrow> anc s y \<Longrightarrow> r = s"
  using anc_linear [of r y s] anc_cases [of r s] anc_cases [of s r] by auto

lemma root_joined: "\<not> anc x y \<Longrightarrow> par r = None \<Longrightarrow> anc r y \<Longrightarrow> joined_without E x r y"
  by (rule anc_joined) auto

lemma below_joined: "par c = Some x \<Longrightarrow> anc c y \<Longrightarrow> joined_without E x c y"
  using tree_edge anc_disc_le by (intro anc_joined) fastforce+

text \<open>A vertex below a vertex that is neither a cut nor a root stays joined with the root.\<close>

lemma inner_joined:
  assumes p: "par x = Some p" and no: "\<not> is_cut x" and y: "y \<noteq> x" and r: "par r = None" "anc r y"
  shows "joined_without E x r y"
proof (cases "anc x y")
  case False
  then show ?thesis using root_joined r by blast
next
  case True
  then obtain c where c: "par c = Some x" "anc c y" using anc_down y by blast
  have d: "c \<in> D" "disc x < disc c" using tree_edge [OF c(1)] by auto
  have "low c < disc x" using no p c(1) by (auto simp: is_cut_def not_le)
  moreover obtain u w where w: "anc c u" "E u w" "disc w = low c" using low_witness [OF d(1)] d(2) calculation by auto
  ultimately have wx: "disc w < disc x" by simp
  have cu: "disc c \<le> disc u" using w(1) by (rule anc_disc_le)
  then have "\<not> anc u w" using anc_disc_le [of u w] wx d(2) by auto
  then have "anc w u" using edge_anc [OF w(2)] by blast
  then have "anc w c" using anc_linear [OF w(1)] anc_disc_le [of c w] wx d(2) by auto
  then have wax: "anc w x" using above_child [OF c(1), of w] wx d(2) by auto
  have nxw: "\<not> anc x w" using anc_disc_le [of x w] wx by auto
  obtain s where s: "par s = None" "anc s w" using has_root by blast
  have "anc s y" using s(2) wax True anc_trans by blast
  then have "s = r" using root_unique s(1) r by blast
  then have rw: "joined_without E x r w" using root_joined [OF nxw] s by blast
  have wu: "joined_without E x w u"
    using edge_sym [OF w(2)] wx cu d(2) by (intro joined_without_edge) auto
  have uc: "joined_without E x u c"
    using joined_without_sym [OF edge_sym below_joined [OF c(1) w(1)]] .
  show ?thesis
    by (rule joined_without_trans [OF rw joined_without_trans [OF wu joined_without_trans [OF uc below_joined [OF c]]]])
qed

lemma joined_same_root: "joined E a b \<Longrightarrow> par r = None \<Longrightarrow> anc r a \<Longrightarrow> anc r b"
  unfolding joined_def
proof (induction rule: rtranclp_induct)
  case (step y z)
  obtain s where s: "par s = None" "anc s z" using has_root by blast
  from edge_anc [OF step.hyps(2)] have "anc s y \<or> anc r z" using s step anc_trans by blast
  then show ?case using s step root_unique by blast
qed simp

lemma separates_cut:
  assumes "separates E x"
  shows "is_cut x"
proof (rule ccontr)
  assume no: "\<not> is_cut x"
  obtain a b where ab: "a \<noteq> x" "b \<noteq> x" "joined E a b" and apart: "\<not> joined_without E x a b"
    using assms unfolding separates_def by blast
  obtain r where r: "par r = None" "anc r a" using has_root by blast
  then have rb: "anc r b" using joined_same_root ab(3) by blast
  have via: False if "joined_without E x z a" "joined_without E x z b" for z
    using apart joined_without_trans [OF joined_without_sym [OF edge_sym that(1)] that(2)] by simp
  show False
  proof (cases "par x")
    case (Some p)
    then show False using via inner_joined [OF Some no] ab(1,2) r rb by blast
  next
    case None
    show False
    proof (cases "anc x a")
      case True
      then have "r = x" using root_unique r None by blast
      then obtain c d where "par c = Some x" "anc c a" "par d = Some x" "anc d b" using anc_down ab(1,2) r(2) rb by metis
      moreover from this have "c = d" using no None by (auto simp: is_cut_def)
      ultimately show False using via below_joined by blast
    next
      case False
      then have "\<not> anc x b" using root_unique [OF r(1) None rb] r(2) by auto
      then show False using via root_joined [OF False r] root_joined [OF _ r(1) rb] by blast
    qed
  qed
qed

theorem cut_iff: "is_cut x \<longleftrightarrow> separates E x"
  using cut_separates separates_cut by blast

end

end
