(* ===== verification/Blast_Laws.thy ===== *)
theory Blast_Laws
  imports Blast_Radius Cut_Vertices "HOL-Library.Multiset"
begin

text \<open>
  Laws of the blast radius: the search marks exactly the cut vertices of the topology, the report names them, and
  its score and losses stay in their ranges.
\<close>

section \<open>What the search keeps\<close>

text \<open>
  The invariant is stated over the vertices found \<open>D\<close>, discovery times, low points, parents, the vertices on the stack
  \<open>op\<close>, and for each of them the neighbours \<open>left\<close> that are still to be looked at.
\<close>

definition forest_ok ::
  "('a \<Rightarrow> 'a \<Rightarrow> bool) \<Rightarrow> 'a set \<Rightarrow> ('a \<Rightarrow> nat) \<Rightarrow> ('a \<Rightarrow> 'a option) \<Rightarrow> 'a set \<Rightarrow> ('a \<Rightarrow> 'a set) \<Rightarrow> bool" where
  "forest_ok E D dsc pr op left \<longleftrightarrow>
     finite D \<and> op \<subseteq> D \<and>
     (\<forall>x p. pr x = Some p \<longrightarrow> x \<in> D \<and> p \<in> D \<and> E p x \<and> dsc p < dsc x) \<and>
     (\<forall>x. x \<notin> op \<longrightarrow> left x = {}) \<and>
     (\<forall>x y. x \<in> D \<longrightarrow> E x y \<longrightarrow> y \<notin> left x \<longrightarrow> y \<in> D) \<and>
     (\<forall>x\<in>D. \<forall>y\<in>D. E x y \<longrightarrow> (\<lambda>p c. pr c = Some p)\<^sup>*\<^sup>* x y \<or> (\<lambda>p c. pr c = Some p)\<^sup>*\<^sup>* y x)"

definition low_ok ::
  "('a \<Rightarrow> 'a \<Rightarrow> bool) \<Rightarrow> 'a set \<Rightarrow> ('a \<Rightarrow> nat) \<Rightarrow> ('a \<Rightarrow> nat) \<Rightarrow> ('a \<Rightarrow> 'a option) \<Rightarrow> 'a set \<Rightarrow> ('a \<Rightarrow> 'a set) \<Rightarrow> bool" where
  "low_ok E D dsc lw pr op left \<longleftrightarrow>
     (\<forall>x\<in>D. lw x \<le> dsc x \<and>
       (\<forall>y. E x y \<longrightarrow> y \<notin> left x \<longrightarrow> pr x \<noteq> Some y \<longrightarrow> lw x \<le> dsc y) \<and>
       (\<forall>c. pr c = Some x \<longrightarrow> c \<notin> op \<longrightarrow> lw x \<le> lw c) \<and>
       (lw x = dsc x \<or> (\<exists>y\<in>D. E x y \<and> pr x \<noteq> Some y \<and> lw x = dsc y) \<or> (\<exists>c. c \<notin> op \<and> pr c = Some x \<and> lw x = lw c)))"

definition cut_now :: "('a \<Rightarrow> nat) \<Rightarrow> ('a \<Rightarrow> nat) \<Rightarrow> ('a \<Rightarrow> 'a option) \<Rightarrow> 'a set \<Rightarrow> 'a \<Rightarrow> bool" where
  "cut_now dsc lw pr op x \<longleftrightarrow> (case pr x of
      None \<Rightarrow> (\<exists>c d. c \<noteq> d \<and> c \<notin> op \<and> d \<notin> op \<and> pr c = Some x \<and> pr d = Some x)
    | Some p \<Rightarrow> (\<exists>c. c \<notin> op \<and> pr c = Some x \<and> dsc x \<le> lw c))"

definition cut_ok :: "('a \<Rightarrow> nat) \<Rightarrow> ('a \<Rightarrow> nat) \<Rightarrow> ('a \<Rightarrow> 'a option) \<Rightarrow> 'a set \<Rightarrow> 'a set \<Rightarrow> bool" where
  "cut_ok dsc lw pr op cuts \<longleftrightarrow> (\<forall>x. x \<in> cuts \<longleftrightarrow> cut_now dsc lw pr op x)"

lemma forest_okI:
  assumes "finite D" and "op \<subseteq> D" and "\<And>x p. pr x = Some p \<Longrightarrow> x \<in> D \<and> p \<in> D \<and> E p x \<and> dsc p < dsc x"
    and "\<And>x. x \<notin> op \<Longrightarrow> left x = {}" and "\<And>x y. x \<in> D \<Longrightarrow> E x y \<Longrightarrow> y \<notin> left x \<Longrightarrow> y \<in> D"
    and "\<And>x y. x \<in> D \<Longrightarrow> y \<in> D \<Longrightarrow> E x y \<Longrightarrow> (\<lambda>p c. pr c = Some p)\<^sup>*\<^sup>* x y \<or> (\<lambda>p c. pr c = Some p)\<^sup>*\<^sup>* y x"
  shows "forest_ok E D dsc pr op left"
  unfolding forest_ok_def by (intro conjI allI impI ballI; (rule assms; assumption)?) (use assms(1-3) in auto)

lemma forest_okD:
  assumes "forest_ok E D dsc pr op left"
  shows "finite D" "op \<subseteq> D" "pr x = Some p \<Longrightarrow> x \<in> D \<and> p \<in> D \<and> E p x \<and> dsc p < dsc x" "x \<notin> op \<Longrightarrow> left x = {}"
    "x \<in> D \<Longrightarrow> E x y \<Longrightarrow> y \<notin> left x \<Longrightarrow> y \<in> D"
    "x \<in> D \<Longrightarrow> y \<in> D \<Longrightarrow> E x y \<Longrightarrow> (\<lambda>p c. pr c = Some p)\<^sup>*\<^sup>* x y \<or> (\<lambda>p c. pr c = Some p)\<^sup>*\<^sup>* y x"
  using assms unfolding forest_ok_def by simp_all

lemma low_okI:
  assumes "\<And>x. x \<in> D \<Longrightarrow> lw x \<le> dsc x" and "\<And>x y. x \<in> D \<Longrightarrow> E x y \<Longrightarrow> y \<notin> left x \<Longrightarrow> pr x \<noteq> Some y \<Longrightarrow> lw x \<le> dsc y"
    and "\<And>x c. x \<in> D \<Longrightarrow> pr c = Some x \<Longrightarrow> c \<notin> op \<Longrightarrow> lw x \<le> lw c"
    and "\<And>x. x \<in> D \<Longrightarrow> lw x = dsc x \<or> (\<exists>y\<in>D. E x y \<and> pr x \<noteq> Some y \<and> lw x = dsc y) \<or> (\<exists>c. c \<notin> op \<and> pr c = Some x \<and> lw x = lw c)"
  shows "low_ok E D dsc lw pr op left"
  unfolding low_ok_def using assms by simp

lemma low_okD:
  assumes "low_ok E D dsc lw pr op left" and "x \<in> D"
  shows "lw x \<le> dsc x" "E x y \<Longrightarrow> y \<notin> left x \<Longrightarrow> pr x \<noteq> Some y \<Longrightarrow> lw x \<le> dsc y" "pr c = Some x \<Longrightarrow> c \<notin> op \<Longrightarrow> lw x \<le> lw c"
  using assms unfolding low_ok_def by simp_all

lemma low_okE:
  assumes "low_ok E D dsc lw pr op left" and "x \<in> D"
  obtains "lw x = dsc x" | y where "y \<in> D" "E x y" "pr x \<noteq> Some y" "lw x = dsc y" | c where "c \<notin> op" "pr c = Some x" "lw x = lw c"
  using assms unfolding low_ok_def by blast

section \<open>A vertex is found\<close>

lemma anc_mono:
  assumes "(\<lambda>p c. pr c = Some p)\<^sup>*\<^sup>* x y" and "pr n = None"
  shows "(\<lambda>p c. (pr(n := q)) c = Some p)\<^sup>*\<^sup>* x y"
  using assms(1)
proof (induction rule: rtranclp_induct)
  case (step p c)
  then have "(pr(n := q)) c = Some p" using assms(2) by auto
  then show ?case using step.IH by (rule rtranclp.rtrancl_into_rtrancl [rotated])
qed simp

lemma forest_found:
  assumes ok: "forest_ok E D dsc pr op left" and sym: "\<And>x y. E x y \<Longrightarrow> E y x" and irr: "\<not> E n n"
    and n: "n \<notin> D" and t: "\<And>x. x \<in> D \<Longrightarrow> dsc x < t"
    and q: "\<And>p. q = Some p \<Longrightarrow> p \<in> D \<and> E p n"
    and top: "\<And>y. y \<in> op \<Longrightarrow> \<exists>p. q = Some p \<and> (\<lambda>p c. pr c = Some p)\<^sup>*\<^sup>* y p"
    and left': "left' n = {y. E n y}" "\<And>x. x \<noteq> n \<Longrightarrow> left x - {n} \<subseteq> left' x \<and> left' x \<subseteq> left x"
  shows "forest_ok E (insert n D) (dsc(n := t)) (pr(n := q)) (insert n op) left'"
proof (rule forest_okI)
  note o = forest_okD [OF ok]
  have pn: "pr n = None" using o(3) [of n] n by (cases "pr n") auto
  have new: "(\<lambda>p c. (pr(n := q)) c = Some p)\<^sup>*\<^sup>* y n" if "y \<in> D" "E y n" for y
  proof -
    have "y \<in> op" using o(4) [of y] o(5) [OF that] n by auto
    then obtain p where p: "q = Some p" "(\<lambda>p c. pr c = Some p)\<^sup>*\<^sup>* y p" using top by blast
    have "(\<lambda>p c. (pr(n := q)) c = Some p)\<^sup>*\<^sup>* y p" by (rule anc_mono [OF p(2) pn])
    moreover have "(pr(n := q)) n = Some p" using p(1) by simp
    ultimately show ?thesis by (rule rtranclp.rtrancl_into_rtrancl)
  qed
  show "(\<lambda>p c. (pr(n := q)) c = Some p)\<^sup>*\<^sup>* x y \<or> (\<lambda>p c. (pr(n := q)) c = Some p)\<^sup>*\<^sup>* y x"
    if xy: "x \<in> insert n D" "y \<in> insert n D" "E x y" for x y
  proof -
    consider "x = n" "y \<in> D" | "y = n" "x \<in> D" | "x \<in> D" "y \<in> D" using xy irr by auto
    then show ?thesis
    proof cases
      case 1 then show ?thesis using new [of y] sym [OF xy(3)] by simp
    next
      case 2 then show ?thesis using new [of x] xy(3) by simp
    next
      case 3
      from o(6) [OF 3 xy(3)] show ?thesis using anc_mono [where pr = pr and n = n and q = q, OF _ pn] by (elim disjE) simp_all
    qed
  qed
  show "x \<in> insert n D \<and> p \<in> insert n D \<and> E p x \<and> (dsc(n := t)) p < (dsc(n := t)) x" if "(pr(n := q)) x = Some p" for x p
  proof (cases "x = n")
    case True
    then show ?thesis using q [of p] t [of p] n that by auto
  next
    case False
    then show ?thesis using o(3) [of x p] n that by auto
  qed
  show "y \<in> insert n D" if "x \<in> insert n D" "E x y" "y \<notin> left' x" for x y
  proof (cases "x = n")
    case True
    then show ?thesis using that left'(1) by auto
  next
    case False
    then show ?thesis using that left'(2) [OF False] o(5) [of x y] by blast
  qed
  show "left' x = {}" if "x \<notin> insert n op" for x
    using that left'(2) [of x] o(4) [of x] by auto
  show "finite (insert n D)" "insert n op \<subseteq> insert n D" using o(1,2) by auto
qed

lemma low_found:
  assumes ok: "low_ok E D dsc lw pr op left" and f: "forest_ok E D dsc pr op left" and n: "n \<notin> D" and t: "\<And>x. x \<in> D \<Longrightarrow> dsc x < t"
    and left': "left' n = {y. E n y}" "\<And>x. x \<noteq> n \<Longrightarrow> left x - {n} \<subseteq> left' x \<and> left' x \<subseteq> left x"
  shows "low_ok E (insert n D) (dsc(n := t)) (lw(n := t)) (pr(n := q)) (insert n op) left'"
proof (rule low_okI)
  note o = low_okD [OF ok] and fo = forest_okD [OF f]
  have child: "c \<noteq> n \<and> x \<noteq> n" if "pr c = Some x" for c x using fo(3) [OF that] n by auto
  show "(lw(n := t)) x \<le> (dsc(n := t)) x" if "x \<in> insert n D" for x using that o(1) [of x] by auto
  show "(lw(n := t)) x \<le> (dsc(n := t)) y" if x: "x \<in> insert n D" and y: "E x y" "y \<notin> left' x" "(pr(n := q)) x \<noteq> Some y" for x y
  proof (cases "x = n")
    case True
    then show ?thesis using y left'(1) by auto
  next
    case False
    then have xD: "x \<in> D" using x by simp
    show ?thesis
    proof (cases "y = n")
      case True
      then show ?thesis using o(1) [OF xD] t [OF xD] False by simp
    next
      case yn: False
      then have "y \<notin> left x" using left'(2) [OF False] y(2) by auto
      then show ?thesis using o(2) [OF xD y(1)] y(3) False yn by simp
    qed
  qed
  show "(lw(n := t)) x \<le> (lw(n := t)) c" if "x \<in> insert n D" "(pr(n := q)) c = Some x" "c \<notin> insert n op" for x c
    using that o(3) [of x c] child [of c x] by auto
  show "(lw(n := t)) x = (dsc(n := t)) x \<or>
        (\<exists>y\<in>insert n D. E x y \<and> (pr(n := q)) x \<noteq> Some y \<and> (lw(n := t)) x = (dsc(n := t)) y) \<or>
        (\<exists>c. c \<notin> insert n op \<and> (pr(n := q)) c = Some x \<and> (lw(n := t)) x = (lw(n := t)) c)" if x: "x \<in> insert n D" for x
  proof (cases "x = n")
    case False
    then have xD: "x \<in> D" using x by simp
    show ?thesis
    proof (rule low_okE [OF ok xD])
      assume "lw x = dsc x"
      then show ?thesis using False by simp
    next
      fix y
      assume y: "y \<in> D" "E x y" "pr x \<noteq> Some y" "lw x = dsc y"
      then have "y \<noteq> n" using n by auto
      then show ?thesis using y False by (intro disjI2 disjI1 bexI [of _ y]) simp_all
    next
      fix c
      assume c: "c \<notin> op" "pr c = Some x" "lw x = lw c"
      then show ?thesis using child [OF c(2)] by (intro disjI2 exI [of _ c]) simp
    qed
  qed simp
qed

lemma cut_now_open:
  assumes "\<And>c. pr c = Some x \<Longrightarrow> c \<in> op' \<longleftrightarrow> c \<in> op"
  shows "cut_now dsc lw pr op' x = cut_now dsc lw pr op x"
proof -
  have "(c \<notin> op' \<and> pr c = Some x) = (c \<notin> op \<and> pr c = Some x)" for c using assms by auto
  then show ?thesis unfolding cut_now_def by (auto split: option.splits)
qed

lemma cut_now_cong:
  assumes "\<And>c. c \<notin> op \<Longrightarrow> lw' c = lw c"
  shows "cut_now dsc lw' pr op x = cut_now dsc lw pr op x"
proof (cases "pr x")
  case (Some p)
  have "(c \<notin> op \<and> pr c = Some x \<and> dsc x \<le> lw' c) = (c \<notin> op \<and> pr c = Some x \<and> dsc x \<le> lw c)" for c
    using assms [of c] by auto
  then show ?thesis using Some by (simp add: cut_now_def)
qed (simp add: cut_now_def)

lemma cut_found:
  assumes ok: "cut_ok dsc lw pr op cuts" and f: "forest_ok E D dsc pr op left" and n: "n \<notin> D"
  shows "cut_ok (dsc(n := t)) (lw(n := t)) (pr(n := q)) (insert n op) cuts"
  unfolding cut_ok_def
proof
  fix x
  have child: "pr c = Some x \<Longrightarrow> c \<noteq> n \<and> x \<noteq> n" for c x using forest_okD(3) [OF f, of c x] n by auto
  have same: "(c \<notin> insert n op \<and> (pr(n := q)) c = Some x) = (c \<notin> insert n op \<and> pr c = Some x)" for c by auto
  have "cut_now (dsc(n := t)) (lw(n := t)) (pr(n := q)) (insert n op) x = cut_now dsc lw pr op x"
  proof (cases "x = n")
    case True
    then have "\<not> cut_now (dsc(n := t)) (lw(n := t)) (pr(n := q)) (insert n op) x" "\<not> cut_now dsc lw pr op x"
      using child by (auto simp: cut_now_def split: option.splits)
    then show ?thesis by simp
  next
    case False
    have "(c \<notin> insert n op \<and> (pr(n := q)) c = Some x) = (c \<notin> op \<and> pr c = Some x)"
      and "(c \<notin> insert n op \<and> (pr(n := q)) c = Some x \<and> dsc x \<le> (lw(n := t)) c) = (c \<notin> op \<and> pr c = Some x \<and> dsc x \<le> lw c)" for c
      using child [of c x] by (cases "c = n"; auto)+
    then show ?thesis using False unfolding cut_now_def by (simp split: option.splits) (metis (no_types))
  qed
  then show "(x \<in> cuts) = cut_now (dsc(n := t)) (lw(n := t)) (pr(n := q)) (insert n op) x"
    using ok by (simp add: cut_ok_def)
qed

section \<open>A neighbour is looked at\<close>

lemma forest_seen:
  assumes ok: "forest_ok E D dsc pr op left" and n: "n \<in> D" and left': "\<And>x. left x - {n} \<subseteq> left' x \<and> left' x \<subseteq> left x"
  shows "forest_ok E D dsc pr op left'"
proof (rule forest_okI)
  note o = forest_okD [OF ok]
  show "left' x = {}" if "x \<notin> op" for x using o(4) [OF that] left' [of x] by auto
  show "y \<in> D" if "x \<in> D" "E x y" "y \<notin> left' x" for x y
    using o(5) [OF that(1,2)] n left' [of x] that(3) by auto
qed (use forest_okD [OF ok] in \<open>simp_all\<close>)

lemma low_seen:
  assumes ok: "low_ok E D dsc lw pr op left" and x: "x \<in> op" and n: "n \<in> D" "E x n"
    and left': "\<And>y. left y - (if y = x then {n} else {}) \<subseteq> left' y"
    and m: "m = (if pr x = Some n then lw x else min (lw x) (dsc n))"
  shows "low_ok E D dsc (lw(x := m)) pr op left'"
proof (rule low_okI)
  note o = low_okD [OF ok]
  have le: "m \<le> lw x" using m by auto
  show "(lw(x := m)) z \<le> dsc z" if "z \<in> D" for z using o(1) [OF that] le by auto
  show "(lw(x := m)) z \<le> dsc y" if z: "z \<in> D" and y: "E z y" "y \<notin> left' z" "pr z \<noteq> Some y" for z y
  proof (cases "z = x \<and> y = n")
    case True
    then show ?thesis using m y by auto
  next
    case False
    then have "y \<notin> left z" using left' [of z] y(2) by (auto split: if_splits)
    then show ?thesis using o(2) [OF z y(1) _ y(3)] le by (auto intro: le_trans)
  qed
  show "(lw(x := m)) z \<le> (lw(x := m)) c" if "z \<in> D" "pr c = Some z" "c \<notin> op" for z c
    using o(3) [OF that] that(3) x le by (auto intro: le_trans)
  show "(lw(x := m)) z = dsc z \<or> (\<exists>y\<in>D. E z y \<and> pr z \<noteq> Some y \<and> (lw(x := m)) z = dsc y) \<or>
      (\<exists>c. c \<notin> op \<and> pr c = Some z \<and> (lw(x := m)) z = (lw(x := m)) c)" if z: "z \<in> D" for z
  proof (cases "z = x \<and> m \<noteq> lw x")
    case True
    then have "pr x \<noteq> Some n" "m = dsc n" using m by (auto simp: min_def split: if_splits)
    then show ?thesis using n True by auto
  next
    case False
    then have "(lw(x := m)) z = lw z" by auto
    then show ?thesis using low_okE [OF ok z] x by (metis fun_upd_other)
  qed
qed

lemma cut_seen: "cut_ok dsc lw pr op cuts \<Longrightarrow> x \<in> op \<Longrightarrow> cut_ok dsc (lw(x := m)) pr op cuts"
  unfolding cut_ok_def by (subst cut_now_cong [of op "lw(x := m)" lw]) auto

section \<open>A vertex is finished\<close>

lemma forest_done:
  assumes "forest_ok E D dsc pr op left" and "left n = {}"
  shows "forest_ok E D dsc pr (op - {n}) left"
proof (rule forest_okI)
  show "op - {n} \<subseteq> D" using forest_okD(2) [OF assms(1)] by auto
  show "left x = {}" if "x \<notin> op - {n}" for x using that assms(2) forest_okD(4) [OF assms(1), of x] by auto
qed (use forest_okD [OF assms(1)] in \<open>simp_all\<close>)

lemma low_done:
  assumes ok: "low_ok E D dsc lw pr op left" and n: "pr n = None"
  shows "low_ok E D dsc lw pr (op - {n}) left"
proof (rule low_okI)
  note o = low_okD [OF ok]
  have c: "c \<noteq> n" if "pr c = Some x" for c x using n that by auto
  show "lw x \<le> lw c" if "x \<in> D" "pr c = Some x" "c \<notin> op - {n}" for x c using o(3) [OF that(1,2)] that(3) c [OF that(2)] by auto
  show "lw x = dsc x \<or> (\<exists>y\<in>D. E x y \<and> pr x \<noteq> Some y \<and> lw x = dsc y) \<or> (\<exists>c. c \<notin> op - {n} \<and> pr c = Some x \<and> lw x = lw c)" if "x \<in> D" for x
    using low_okE [OF ok that] by (metis Diff_iff)
qed (use low_okD [OF ok] in \<open>simp_all\<close>)

lemma low_done_below:
  assumes ok: "low_ok E D dsc lw pr op left" and n: "pr n = Some a" and a: "a \<in> op" "a \<noteq> n" and m: "m = min (lw a) (lw n)"
  shows "low_ok E D dsc (lw(a := m)) pr (op - {n}) left"
proof (rule low_okI)
  note o = low_okD [OF ok]
  have le: "m \<le> lw a" "m \<le> lw n" using m by auto
  have fin: "c \<noteq> a" if "c \<notin> op - {n}" for c using that a by auto
  show "(lw(a := m)) z \<le> dsc z" if "z \<in> D" for z using o(1) [OF that] le by auto
  show "(lw(a := m)) z \<le> dsc y" if "z \<in> D" "E z y" "y \<notin> left z" "pr z \<noteq> Some y" for z y
    using o(2) [OF that] le by (auto intro: le_trans)
  show "(lw(a := m)) z \<le> (lw(a := m)) c" if z: "z \<in> D" and c: "pr c = Some z" "c \<notin> op - {n}" for z c
  proof (cases "c = n")
    case True
    then show ?thesis using n c a le by auto
  next
    case False
    then show ?thesis using o(3) [OF z c(1)] c(2) fin [OF c(2)] le by (auto intro: le_trans)
  qed
  show "(lw(a := m)) z = dsc z \<or> (\<exists>y\<in>D. E z y \<and> pr z \<noteq> Some y \<and> (lw(a := m)) z = dsc y) \<or>
      (\<exists>c. c \<notin> op - {n} \<and> pr c = Some z \<and> (lw(a := m)) z = (lw(a := m)) c)" if z: "z \<in> D" for z
  proof (cases "z = a \<and> m \<noteq> lw a")
    case True
    then have "m = lw n" using m by (auto simp: min_def split: if_splits)
    then show ?thesis using n a True by (intro disjI2 exI [of _ n]) auto
  next
    case False
    then have "(lw(a := m)) z = lw z" by auto
    then show ?thesis using low_okE [OF ok z] a by (metis Diff_iff fun_upd_other)
  qed
qed

lemma cut_done_root: "cut_ok dsc lw pr op cuts \<Longrightarrow> pr n = None \<Longrightarrow> cut_ok dsc lw pr (op - {n}) cuts"
  unfolding cut_ok_def by (subst cut_now_open [of pr _ "op - {n}" op]) auto

text \<open>The condition under which \<open>_mark_cut\<close> adds the parent.\<close>

lemma cut_done_below:
  assumes ok: "cut_ok dsc lw pr op cuts" and n: "pr n = Some a" "n \<in> op" and a: "a \<in> op" "a \<noteq> n"
    and last_open: "\<And>c. pr c = Some a \<Longrightarrow> c \<in> op \<Longrightarrow> c = n"
    and mark: "mark \<longleftrightarrow> (if pr a = None then \<exists>c. c \<noteq> n \<and> pr c = Some a else dsc a \<le> lw n)"
  shows "cut_ok dsc (lw(a := m)) pr (op - {n}) (if mark then insert a cuts else cuts)"
  unfolding cut_ok_def
proof
  fix x
  have "cut_now dsc (lw(a := m)) pr (op - {n}) x = cut_now dsc lw pr (op - {n}) x"
    by (rule cut_now_cong) (use a in auto)
  moreover have "cut_now dsc lw pr (op - {n}) x = (if x = a then x \<in> cuts \<or> mark else x \<in> cuts)"
  proof (cases "x = a")
    case False
    then have "c \<noteq> n" if "pr c = Some x" for c using n that by auto
    then have "cut_now dsc lw pr (op - {n}) x = cut_now dsc lw pr op x"
      by (intro cut_now_open) auto
    then show ?thesis using ok False by (simp add: cut_ok_def)
  next
    case True
    have child: "pr c = Some a \<Longrightarrow> c \<notin> op - {n}" for c using last_open by auto
    have "cut_now dsc lw pr (op - {n}) a \<longleftrightarrow> cut_now dsc lw pr op a \<or> mark"
    proof (cases "pr a")
      case None
      have "cut_now dsc lw pr (op - {n}) a \<longleftrightarrow> (\<exists>c d. c \<noteq> d \<and> pr c = Some a \<and> pr d = Some a)"
        using None child unfolding cut_now_def by (simp, blast)
      moreover have "(\<exists>c d. c \<noteq> d \<and> pr c = Some a \<and> pr d = Some a) \<longleftrightarrow> mark" using mark None n(1) by auto
      moreover have "cut_now dsc lw pr op a \<Longrightarrow> \<exists>c d. c \<noteq> d \<and> pr c = Some a \<and> pr d = Some a"
        using None unfolding cut_now_def by auto
      ultimately show ?thesis by blast
    next
      case (Some p)
      then show ?thesis using mark n unfolding cut_now_def by auto
    qed
    then show ?thesis using ok True by (simp add: cut_ok_def)
  qed
  ultimately show "(x \<in> (if mark then insert a cuts else cuts)) = cut_now dsc (lw(a := m)) pr (op - {n}) x"
    by auto
qed

section \<open>The search\<close>

definition link :: "adjacency \<Rightarrow> string \<Rightarrow> string \<Rightarrow> bool" where
  "link adj x y \<longleftrightarrow> y \<in> set (neighbors adj x)"

definition found :: "search \<Rightarrow> string set" where "found s = dom (se_disc s)"
definition disc_of :: "search \<Rightarrow> string \<Rightarrow> nat" where "disc_of s x = the (se_disc s x)"
definition low_of :: "search \<Rightarrow> string \<Rightarrow> nat" where "low_of s x = the (se_low s x)"
definition opened :: "search \<Rightarrow> string set" where "opened s = fst ` set (se_stack s)"

definition left_of :: "(string \<times> string list) list \<Rightarrow> string \<Rightarrow> string set" where
  "left_of st x = (case map_of st x of None \<Rightarrow> {} | Some its \<Rightarrow> set its)"

fun chained :: "(string \<Rightarrow> string option) \<Rightarrow> (string \<times> string list) list \<Rightarrow> bool" where
  "chained pr [] = True"
| "chained pr (e # rest) = (pr (fst e) = (if rest = [] then None else Some (fst (hd rest))) \<and> chained pr rest)"

definition search_ok :: "adjacency \<Rightarrow> search \<Rightarrow> bool" where
  "search_ok adj s \<longleftrightarrow>
     forest_ok (link adj) (found s) (disc_of s) (parent_of s) (opened s) (left_of (se_stack s)) \<and>
     low_ok (link adj) (found s) (disc_of s) (low_of s) (parent_of s) (opened s) (left_of (se_stack s)) \<and>
     cut_ok (disc_of s) (low_of s) (parent_of s) (opened s) (se_cuts s) \<and>
     (\<forall>x\<in>found s. disc_of s x \<le> se_timer s) \<and> distinct (map fst (se_stack s)) \<and> chained (parent_of s) (se_stack s) \<and>
     (\<forall>e\<in>set (se_stack s). set (snd e) \<subseteq> set (neighbors adj (fst e))) \<and>
     (\<forall>x. se_children s x = card {c. parent_of s c = Some x})"

lemma chained_anc: "chained pr (e # st) \<Longrightarrow> y \<in> fst ` set (e # st) \<Longrightarrow> (\<lambda>p c. pr c = Some p)\<^sup>*\<^sup>* y (fst e)"
proof (induction st arbitrary: e)
  case (Cons f st)
  show ?case
  proof (cases "y = fst e")
    case False
    then have "(\<lambda>p c. pr c = Some p)\<^sup>*\<^sup>* y (fst f)" using Cons by auto
    then show ?thesis using Cons.prems(1) by (auto intro: rtranclp.rtrancl_into_rtrancl)
  qed simp
qed simp

lemma chained_parent: "chained pr (e # st) \<Longrightarrow> c \<in> fst ` set (e # st) \<Longrightarrow> pr c = Some y \<Longrightarrow> y \<in> fst ` set st"
proof (induction st arbitrary: e)
  case (Cons f st)
  show ?case
  proof (cases "c = fst e")
    case False
    have "chained pr (f # st)" using Cons.prems(1) by simp
    moreover have "c \<in> fst ` set (f # st)" using False Cons.prems(2) by auto
    ultimately have "y \<in> fst ` set st" using Cons.prems(3) by (rule Cons.IH)
    then show ?thesis by simp
  qed (use Cons.prems in auto)
qed auto

lemma chained_cong: "chained pr st \<Longrightarrow> (\<And>x. x \<in> fst ` set st \<Longrightarrow> pr' x = pr x) \<Longrightarrow> chained pr' st"
  by (induction st) auto

lemma chained_same: "map fst st' = map fst st \<Longrightarrow> chained pr st' = chained pr st"
proof (induction st arbitrary: st')
  case (Cons e st)
  then obtain e' r where st': "st' = e' # r" "fst e' = fst e" "map fst r = map fst st" by (cases st') auto
  then have "r = [] \<longleftrightarrow> st = []" "r \<noteq> [] \<Longrightarrow> fst (hd r) = fst (hd st)" by (metis map_is_Nil_conv, metis list.map_sel(1) map_is_Nil_conv)
  then show ?case using Cons.IH [OF st'(3)] st'(1,2) by auto
qed simp

locale undirected =
  fixes adj :: adjacency
  assumes sym: "link adj x y \<Longrightarrow> link adj y x" and irr: "\<not> link adj x x"
begin

lemma discover_ok:
  assumes ok: "search_ok adj s" and n: "n \<notin> found s"
    and same: "map fst st = map fst (se_stack s)"
    and left: "\<And>x. left_of (se_stack s) x - {n} \<subseteq> left_of st x \<and> left_of st x \<subseteq> left_of (se_stack s) x"
    and its: "\<forall>e\<in>set st. set (snd e) \<subseteq> set (neighbors adj (fst e))"
    and q: "q = (if st = [] then None else Some (fst (hd st)))" and qn: "\<And>p. q = Some p \<Longrightarrow> link adj p n"
    and ch: "\<And>x. ch x = se_children s x + (if q = Some x then 1 else 0)"
  shows "search_ok adj (discover adj q n (s\<lparr>se_stack := st, se_children := ch\<rparr>))"
proof -
  let ?s = "discover adj q n (s\<lparr>se_stack := st, se_children := ch\<rparr>)" and ?t = "se_timer s + 1"
  note o = ok [unfolded search_ok_def]
  have f: "forest_ok (link adj) (found s) (disc_of s) (parent_of s) (opened s) (left_of (se_stack s))" using o by blast
  have pn: "parent_of s n = None" using forest_okD(3) [OF f, of n] n by (cases "parent_of s n") auto
  have op: "fst ` set st = opened s" using same unfolding opened_def by (metis list.set_map)
  have n_op: "n \<notin> opened s" using forest_okD(2) [OF f] n by auto
  have chain: "chained (parent_of s) st" using o chained_same [OF same] by blast
  have eqs: "found ?s = insert n (found s)" "disc_of ?s = (disc_of s)(n := ?t)" "low_of ?s = (low_of s)(n := ?t)"
      "parent_of ?s = (parent_of s)(n := q)" "opened ?s = insert n (opened s)" "se_cuts ?s = se_cuts s" "se_timer ?s = ?t"
      "se_stack ?s = (n, neighbors adj n) # st"
    using op by (auto simp: discover_def found_def disc_of_def low_of_def parent_of_def opened_def fun_eq_iff)
  have left': "left_of (se_stack ?s) n = {y. link adj n y}" "\<And>x. x \<noteq> n \<Longrightarrow> left_of (se_stack s) x - {n} \<subseteq> left_of (se_stack ?s) x \<and>
      left_of (se_stack ?s) x \<subseteq> left_of (se_stack s) x"
    using left by (auto simp: eqs left_of_def link_def)
  have t: "disc_of s x < ?t" if "x \<in> found s" for x using o that by (simp add: le_imp_less_Suc)
  have up: "q = Some p \<Longrightarrow> p \<in> opened s" for p using q op by (cases st) auto
  have "forest_ok (link adj) (found ?s) (disc_of ?s) (parent_of ?s) (opened ?s) (left_of (se_stack ?s))"
    unfolding eqs(1-5)
  proof (rule forest_found [OF f sym irr n t])
    show "p \<in> found s \<and> link adj p n" if "q = Some p" for p using up [OF that] qn [OF that] forest_okD(2) [OF f] by auto
    show "\<exists>p. q = Some p \<and> (\<lambda>p c. parent_of s c = Some p)\<^sup>*\<^sup>* y p" if "y \<in> opened s" for y
    proof -
      have y: "y \<in> fst ` set st" using that op by simp
      then obtain e r where st: "st = e # r" by (cases st) auto
      then have "(\<lambda>p c. parent_of s c = Some p)\<^sup>*\<^sup>* y (fst e)" using chained_anc y chain by blast
      then show ?thesis using q st by auto
    qed
  qed (use left' in simp_all)
  moreover have "low_ok (link adj) (found ?s) (disc_of ?s) (low_of ?s) (parent_of ?s) (opened ?s) (left_of (se_stack ?s))"
    unfolding eqs(1-5) by (rule low_found [OF _ f n t]) (use o left' in simp_all)
  moreover have "cut_ok (disc_of ?s) (low_of ?s) (parent_of ?s) (opened ?s) (se_cuts ?s)"
    unfolding eqs(2-6) by (rule cut_found [OF _ f n]) (use o in simp)
  moreover have "\<forall>x\<in>found ?s. disc_of ?s x \<le> se_timer ?s" unfolding eqs(1,2,7) using t by (auto intro: less_imp_le)
  moreover have "distinct (map fst (se_stack ?s))" unfolding eqs(8)
  proof -
    have "n \<notin> set (map fst st)" using op n_op by simp
    moreover have "distinct (map fst st)" unfolding same using o by blast
    ultimately show "distinct (map fst ((n, neighbors adj n) # st))" by simp
  qed
  moreover have "chained (parent_of ?s) (se_stack ?s)"
  proof -
    have "chained ((parent_of s)(n := q)) st" by (rule chained_cong [OF chain]) (use op n_op in auto)
    then show ?thesis unfolding eqs(4,8) using q by simp
  qed
  moreover have "\<forall>e\<in>set (se_stack ?s). set (snd e) \<subseteq> set (neighbors adj (fst e))" unfolding eqs(8) using its by auto
  moreover have "se_children ?s x = card {c. parent_of ?s c = Some x}" for x
  proof -
    have "finite {c. parent_of s c = Some x}"
      by (rule finite_subset [OF _ forest_okD(1) [OF f]]) (use forest_okD(3) [OF f] in auto)
    moreover have "{c. parent_of ?s c = Some x} = (if q = Some x then insert n {c. parent_of s c = Some x} else {c. parent_of s c = Some x})"
      unfolding eqs(4) using pn by auto
    ultimately show ?thesis using o ch [of x] pn by (simp add: discover_def)
  qed
  ultimately show ?thesis unfolding search_ok_def by blast
qed

lemma seen_ok:
  assumes ok: "search_ok adj s" and st: "se_stack s = (x, n # its) # rest" and n: "n \<in> found s"
    and low: "\<And>z. low_of s' z = (if z = x \<and> parent_of s x \<noteq> Some n then min (low_of s x) (disc_of s n) else low_of s z)"
    and same: "se_disc s' = se_disc s" "se_parent s' = se_parent s" "se_cuts s' = se_cuts s" "se_timer s' = se_timer s"
      "se_children s' = se_children s" "se_stack s' = (x, its) # rest"
  shows "search_ok adj s'"
proof -
  note o = ok [unfolded search_ok_def]
  have eqs: "found s' = found s" "disc_of s' = disc_of s" "parent_of s' = parent_of s" "opened s' = opened s"
      "low_of s' = (low_of s)(x := (if parent_of s x = Some n then low_of s x else min (low_of s x) (disc_of s n)))"
    using low same st by (auto simp: found_def disc_of_def parent_of_def opened_def fun_eq_iff)
  have low_inv: "low_ok (link adj) (found s) (disc_of s) (low_of s) (parent_of s) (opened s) (left_of (se_stack s))"
    and cut_inv: "cut_ok (disc_of s) (low_of s) (parent_of s) (opened s) (se_cuts s)"
    and forest_inv: "forest_ok (link adj) (found s) (disc_of s) (parent_of s) (opened s) (left_of (se_stack s))" using o by blast+
  have x: "x \<in> opened s" using st by (simp add: opened_def)
  have xn: "link adj x n" using o st by (auto simp: link_def)
  have left: "left_of (se_stack s) z - (if z = x then {n} else {}) \<subseteq> left_of (se_stack s') z \<and>
      left_of (se_stack s') z \<subseteq> left_of (se_stack s) z" for z
    unfolding same st by (auto simp: left_of_def)
  have lefts: "left_of (se_stack s) z - {n} \<subseteq> left_of (se_stack s') z \<and> left_of (se_stack s') z \<subseteq> left_of (se_stack s) z" for z
    using left [of z] by (auto split: if_splits)
  have "forest_ok (link adj) (found s') (disc_of s') (parent_of s') (opened s') (left_of (se_stack s'))"
    unfolding eqs by (rule forest_seen [OF forest_inv n lefts])
  moreover have "low_ok (link adj) (found s') (disc_of s') (low_of s') (parent_of s') (opened s') (left_of (se_stack s'))"
    unfolding eqs by (rule low_seen [OF low_inv x n xn]) (use left in auto)
  moreover have "cut_ok (disc_of s') (low_of s') (parent_of s') (opened s') (se_cuts s')"
    unfolding eqs same by (rule cut_seen [OF cut_inv x])
  moreover have "\<forall>z\<in>found s'. disc_of s' z \<le> se_timer s'" "se_children s' z = card {c. parent_of s' c = Some z}" for z
    unfolding eqs same using o by auto
  moreover have "distinct (map fst (se_stack s'))" "chained (parent_of s') (se_stack s')"
      "\<forall>e\<in>set (se_stack s'). set (snd e) \<subseteq> set (neighbors adj (fst e))"
    unfolding eqs same using o st by auto
  ultimately show ?thesis unfolding search_ok_def by blast
qed

lemma pop_ok:
  assumes ok: "search_ok adj s" and st: "se_stack s = (n, []) # rest"
  shows "search_ok adj (pop n rest s)"
proof -
  note o = ok [unfolded search_ok_def]
  have op: "fst ` set rest = opened s - {n}" using o st by (auto simp: opened_def)
  have "n \<notin> fst ` set rest" using o st by auto
  then have "map_of rest n = None" by (simp add: map_of_eq_None_iff)
  then have left: "left_of rest = left_of (se_stack s)" using st by (auto simp: left_of_def fun_eq_iff)
  have ln: "left_of (se_stack s) n = {}" using st by (simp add: left_of_def)
  have low_inv: "low_ok (link adj) (found s) (disc_of s) (low_of s) (parent_of s) (opened s) (left_of (se_stack s))"
    and cut_inv: "cut_ok (disc_of s) (low_of s) (parent_of s) (opened s) (se_cuts s)" using o by blast+
  have f: "forest_ok (link adj) (found s) (disc_of s) (parent_of s) (opened s - {n}) (left_of (se_stack s))"
    by (rule forest_done) (use o ln in simp_all)
  show ?thesis
  proof (cases rest)
    case Nil
    have eqs: "found (pop n rest s) = found s" "disc_of (pop n rest s) = disc_of s" "low_of (pop n rest s) = low_of s"
        "parent_of (pop n rest s) = parent_of s" "opened (pop n rest s) = opened s - {n}" "se_cuts (pop n rest s) = se_cuts s"
        "se_timer (pop n rest s) = se_timer s" "se_stack (pop n rest s) = rest" "se_children (pop n rest s) = se_children s"
      using Nil op by (auto simp: pop_def found_def disc_of_def low_of_def parent_of_def opened_def fun_eq_iff)
    have root: "parent_of s n = None" using o st Nil by simp
    have "low_ok (link adj) (found s) (disc_of s) (low_of s) (parent_of s) (opened s - {n}) (left_of (se_stack s))"
      by (rule low_done [OF low_inv root])
    moreover have "cut_ok (disc_of s) (low_of s) (parent_of s) (opened s - {n}) (se_cuts s)"
      by (rule cut_done_root [OF cut_inv root])
    ultimately show ?thesis using o st f unfolding search_ok_def eqs left by auto
  next
    case (Cons e r)
    obtain up i where e: "e = (up, i)" by (cases e)
    have par: "parent_of s n = Some up" using o st Cons e by simp
    have up: "up \<in> opened s" "up \<noteq> n" using o st Cons e by (auto simp: opened_def)
    have last_open: "c = n" if "parent_of s c = Some up" "c \<in> opened s" for c
    proof (rule ccontr)
      assume "c \<noteq> n"
      then have "c \<in> fst ` set (e # r)" using that(2) st Cons by (auto simp: opened_def)
      then have "up \<in> fst ` set r" using chained_parent [of "parent_of s" e r c up] that(1) o st Cons by auto
      then show False using o st Cons e by auto
    qed
    define mark where "mark \<longleftrightarrow> (if parent_of s up = None then \<exists>c. c \<noteq> n \<and> parent_of s c = Some up else disc_of s up \<le> low_of s n)"
    have fin: "finite {c. parent_of s c = Some up}"
      by (rule finite_subset [OF _ forest_okD(1) [OF f]]) (use forest_okD(3) [OF f] in auto)
    have "card {c. parent_of s c = Some up} = Suc (card ({c. parent_of s c = Some up} - {n}))"
      by (rule card.remove [OF fin]) (use par in simp)
    then have "se_children s up > 1 \<longleftrightarrow> {c. parent_of s c = Some up} - {n} \<noteq> {}"
      using o fin by (simp add: card_gt_0_iff)
    then have many: "se_children s up > 1 \<longleftrightarrow> (\<exists>c. c \<noteq> n \<and> parent_of s c = Some up)" by auto
    let ?m = "min (low_of s up) (low_of s n)"
    have eqs: "found (pop n rest s) = found s" "disc_of (pop n rest s) = disc_of s" "low_of (pop n rest s) = (low_of s)(up := ?m)"
        "parent_of (pop n rest s) = parent_of s" "opened (pop n rest s) = opened s - {n}"
        "se_timer (pop n rest s) = se_timer s" "se_stack (pop n rest s) = rest" "se_children (pop n rest s) = se_children s"
      using Cons e op by (auto simp: pop_def mark_cut_def lower_to_def found_def disc_of_def low_of_def parent_of_def opened_def fun_eq_iff Let_def)
    have cuts: "se_cuts (pop n rest s) = (if mark then insert up (se_cuts s) else se_cuts s)"
      using Cons e up many by (auto simp: pop_def mark_cut_def lower_to_def mark_def disc_of_def low_of_def parent_of_def Let_def)
    have "low_ok (link adj) (found s) (disc_of s) ((low_of s)(up := ?m)) (parent_of s) (opened s - {n}) (left_of (se_stack s))"
      by (rule low_done_below [OF low_inv par up]) simp
    moreover have "cut_ok (disc_of s) ((low_of s)(up := ?m)) (parent_of s) (opened s - {n}) (if mark then insert up (se_cuts s) else se_cuts s)"
      by (rule cut_done_below [OF cut_inv par _ up last_open mark_def]) (use st in \<open>simp_all add: opened_def\<close>)
    ultimately show ?thesis using o st f unfolding search_ok_def eqs cuts left by auto
  qed
qed

lemma search_step_ok:
  assumes ok: "search_ok adj s" and ne: "se_stack s \<noteq> []"
  shows "search_ok adj (search_step adj s) \<and> found s \<subseteq> found (search_step adj s)"
proof -
  note o = ok [unfolded search_ok_def]
  obtain x its rest where st: "se_stack s = (x, its) # rest" using ne by (cases "se_stack s") auto
  show ?thesis
  proof (cases its)
    case Nil
    have "found (pop x rest s) = found s"
      by (auto simp: pop_def mark_cut_def lower_to_def found_def Let_def split: list.splits)
    then show ?thesis using pop_ok [OF ok] st Nil by (simp add: search_step.simps)
  next
    case (Cons n its')
    show ?thesis
    proof (cases "se_disc s n = None")
      case True
      have n: "n \<notin> found s" using True by (auto simp: found_def)
      let ?ch = "(se_children s)(x := se_children s x + 1)"
      have "search_ok adj (discover adj (Some x) n (s\<lparr>se_stack := (x, its') # rest, se_children := ?ch\<rparr>))"
        by (rule discover_ok [OF ok n]) (use st Cons o in \<open>auto simp: left_of_def link_def\<close>)
      moreover have "search_step adj s = discover adj (Some x) n (s\<lparr>se_stack := (x, its') # rest, se_children := ?ch\<rparr>)"
        using st Cons True by (simp add: search_step.simps Let_def)
      ultimately show ?thesis by (auto simp: found_def discover_def)
    next
      case False
      have n: "n \<in> found s" using False by (auto simp: found_def)
      have step: "search_step adj s = (let s1 = s\<lparr>se_stack := (x, its') # rest\<rparr>
          in if parent_of s x \<noteq> Some n then lower_to x (disc_of s n) s1 else s1)"
        using st Cons False by (auto simp: search_step.simps disc_of_def Let_def)
      have "search_ok adj (search_step adj s)"
        by (rule seen_ok [OF ok, of x n its' rest])
          (use st Cons n in \<open>simp_all add: step Let_def lower_to_def low_of_def\<close>)
      then show ?thesis by (auto simp: step found_def lower_to_def Let_def)
    qed
  qed
qed

lemma run_search_ok:
  "a = adj \<Longrightarrow> search_ok adj s \<Longrightarrow> search_ok adj (run_search a s) \<and> found s \<subseteq> found (run_search a s) \<and> se_stack (run_search a s) = []"
proof (induction a s rule: run_search.induct)
  case (1 a s)
  show ?case
  proof (cases "se_stack s = []")
    case True
    then have "run_search a s = s" by (subst run_search.simps) simp
    then show ?thesis using "1.prems" True by simp
  next
    case False
    then have run: "run_search a s = run_search a (search_step a s)" by (subst run_search.simps) simp
    have "search_ok adj (search_step a s) \<and> found s \<subseteq> found (search_step a s)" using search_step_ok "1.prems" False by simp
    then show ?thesis using "1.IH" [OF False "1.prems"(1)] unfolding run by blast
  qed
qed

lemma search_from_ok:
  assumes "search_ok adj s" and "se_stack s = []"
  shows "search_ok adj (search_from adj x s) \<and> se_stack (search_from adj x s) = [] \<and> insert x (found s) \<subseteq> found (search_from adj x s)"
proof (cases "se_disc s x = None")
  case True
  then have x: "x \<notin> found s" by (auto simp: found_def)
  let ?s = "discover adj None x s"
  have "search_ok adj (discover adj None x (s\<lparr>se_stack := [], se_children := se_children s\<rparr>))"
    by (rule discover_ok [OF assms(1) x]) (use assms(2) in \<open>auto simp: left_of_def\<close>)
  moreover have "s\<lparr>se_stack := [], se_children := se_children s\<rparr> = s" using assms(2) by (cases s) simp
  ultimately have "search_ok adj ?s" by simp
  then have "search_ok adj (run_search adj ?s) \<and> found ?s \<subseteq> found (run_search adj ?s) \<and> se_stack (run_search adj ?s) = []"
    by (rule run_search_ok [OF refl])
  moreover have "found ?s = insert x (found s)" by (auto simp: found_def discover_def)
  ultimately show ?thesis using True by (simp add: search_from_def)
next
  case False
  then show ?thesis using assms by (auto simp: search_from_def found_def)
qed

lemma search_fold_ok:
  assumes "search_ok adj s" and "se_stack s = []"
  shows "search_ok adj (fold (search_from adj) xs s) \<and> se_stack (fold (search_from adj) xs s) = [] \<and>
    set xs \<union> found s \<subseteq> found (fold (search_from adj) xs s)"
  using assms
proof (induction xs arbitrary: s)
  case (Cons x xs)
  then show ?case using search_from_ok [OF Cons.prems, of x] Cons.IH [of "search_from adj x s"] by auto
qed simp

lemma new_search_ok: "search_ok adj new_search"
  by (auto simp: search_ok_def new_search_def forest_ok_def low_ok_def cut_ok_def cut_now_def found_def opened_def parent_of_def left_of_def)

lemma search_all_ok: "search_ok adj (search_all adj) \<and> se_stack (search_all adj) = [] \<and> fst ` set adj \<subseteq> found (search_all adj)"
  using search_fold_ok [OF new_search_ok, of "sort (map fst adj)"] by (simp add: search_all_def new_search_def)

lemma link_key: "link adj x y \<Longrightarrow> x \<in> fst ` set adj"
proof -
  assume "link adj x y"
  then have "map_of adj x \<noteq> None" by (cases "map_of adj x") (simp_all add: link_def set_neighbors dict_get_def)
  then show "x \<in> fst ` set adj" by (simp add: map_of_eq_None_iff)
qed

lemma forest_final:
  "dfs_forest (link adj) (found (search_all adj)) (disc_of (search_all adj)) (low_of (search_all adj)) (parent_of (search_all adj))"
proof -
  let ?s = "search_all adj"
  have ok: "search_ok adj ?s" and st: "se_stack ?s = []" and keys: "fst ` set adj \<subseteq> found ?s" using search_all_ok by auto
  have f: "forest_ok (link adj) (found ?s) (disc_of ?s) (parent_of ?s) {} (left_of [])"
    and l: "low_ok (link adj) (found ?s) (disc_of ?s) (low_of ?s) (parent_of ?s) {} (left_of [])"
    using ok st by (simp_all add: search_ok_def opened_def)
  have x: "x \<in> found ?s" if "link adj x y" for x y using link_key [OF that] keys by auto
  show ?thesis
  proof
    show "link adj x y \<Longrightarrow> link adj y x" for x y by (rule sym)
    show "link adj x y \<Longrightarrow> x \<in> found ?s" for x y by (rule x)
    show "finite (found ?s)" by (rule forest_okD(1) [OF f])
    show "parent_of ?s x = Some p \<Longrightarrow> x \<in> found ?s \<and> link adj p x \<and> disc_of ?s p < disc_of ?s x" for x p
      using forest_okD(3) [OF f] by blast
    show "(\<lambda>p c. parent_of ?s c = Some p)\<^sup>*\<^sup>* x y \<or> (\<lambda>p c. parent_of ?s c = Some p)\<^sup>*\<^sup>* y x" if "link adj x y" for x y
      by (rule forest_okD(6) [OF f x [OF that] x [OF sym [OF that]] that])
    show "x \<in> found ?s \<Longrightarrow> low_of ?s x \<le> disc_of ?s x" for x by (rule low_okD(1) [OF l])
    show "low_of ?s x \<le> disc_of ?s y" if "link adj x y" "parent_of ?s x \<noteq> Some y" for x y
      by (rule low_okD(2) [OF l x [OF that(1)] that(1) _ that(2)]) (simp add: left_of_def)
    show "low_of ?s x \<le> low_of ?s c" if "parent_of ?s c = Some x" for c x
      by (rule low_okD(3) [OF l _ that]) (use forest_okD(3) [OF f that] in auto)
    show "low_of ?s x = disc_of ?s x \<or> (\<exists>y. link adj x y \<and> parent_of ?s x \<noteq> Some y \<and> low_of ?s x = disc_of ?s y) \<or>
      (\<exists>c. parent_of ?s c = Some x \<and> low_of ?s x = low_of ?s c)" if "x \<in> found ?s" for x
      by (rule low_okE [OF l that]) blast+
  qed
qed

lemma cuts_separate: "x \<in> articulation_points adj \<longleftrightarrow> separates (link adj) x"
proof -
  let ?s = "search_all adj"
  have "x \<in> se_cuts ?s \<longleftrightarrow> cut_now (disc_of ?s) (low_of ?s) (parent_of ?s) {} x"
    using search_all_ok by (auto simp: search_ok_def cut_ok_def opened_def)
  also have "\<dots> \<longleftrightarrow> dfs_forest.is_cut (disc_of ?s) (low_of ?s) (parent_of ?s) x"
    unfolding dfs_forest.is_cut_def [OF forest_final] cut_now_def by (cases "parent_of ?s x") simp_all
  also have "\<dots> \<longleftrightarrow> separates (link adj) x" by (rule dfs_forest.cut_iff [OF forest_final])
  finally show ?thesis by (simp add: articulation_points_def)
qed

end

section \<open>The topology\<close>

text \<open>Two devices are wired when an edge names them, in either direction; an edge with an empty name or from a device to itself is none.\<close>

definition wired :: "(string \<times> string) list \<Rightarrow> string \<Rightarrow> string \<Rightarrow> bool" where
  "wired edges x y \<longleftrightarrow> x \<noteq> [] \<and> y \<noteq> [] \<and> x \<noteq> y \<and> ((x, y) \<in> set edges \<or> (y, x) \<in> set edges)"

lemma wired_sym: "wired edges x y \<Longrightarrow> wired edges y x"
  by (auto simp: wired_def)

lemma member_add_neighbor:
  "y \<in> set (dict_get (add_neighbor l r adj) x []) \<longleftrightarrow> y \<in> set (dict_get adj x []) \<or> (x = l \<and> y = r)"
  by (auto simp: add_neighbor_def)

lemma member_add_edge:
  "y \<in> set (dict_get (add_edge e adj) x []) \<longleftrightarrow> y \<in> set (dict_get adj x []) \<or> wired [e] x y"
  by (cases e) (auto simp: add_edge_def member_add_neighbor wired_def)

lemma wired_Cons: "wired (e # es) x y \<longleftrightarrow> wired [e] x y \<or> wired es x y"
  by (auto simp: wired_def)

lemma member_fold_edges:
  "y \<in> set (dict_get (fold add_edge es adj) x []) \<longleftrightarrow> y \<in> set (dict_get adj x []) \<or> wired es x y"
proof (induction es arbitrary: adj)
  case (Cons e es)
  then show ?case using wired_Cons [of e es x y] by (auto simp: member_add_edge)
qed (simp add: wired_def)

lemma dict_get_blank: "dict_get (map (\<lambda>n. (n, [])) ns) x [] = []"
  by (induction ns) (auto simp: dict_get_def)

lemma wired_Nil [simp]: "wired [] = (\<lambda>x y. False)"
  by (simp add: wired_def fun_eq_iff)

lemma link_wired: "link (adjacency names edges) x y \<longleftrightarrow> wired edges x y"
  unfolding link_def set_neighbors adjacency_def member_fold_edges by (simp add: dict_get_blank)

interpretation topo: undirected "adjacency names edges" for names edges
  by unfold_locales (auto simp: link_wired wired_def)

interpretation tarjan: dfs_forest "link (adjacency names edges)" "found (search_all (adjacency names edges))"
    "disc_of (search_all (adjacency names edges))" "low_of (search_all (adjacency names edges))" "parent_of (search_all (adjacency names edges))"
  for names edges
  by (rule topo.forest_final)

lemma link_wired_fun: "link (adjacency names edges) = wired edges"
  by (simp add: link_wired fun_eq_iff)

lemma cuts_wired: "x \<in> articulation_points (adjacency names edges) \<longleftrightarrow> separates (wired edges) x"
  unfolding topo.cuts_separate link_wired_fun ..

text \<open>
  C9: articulation points are the cut vertices. Whatever names and edges are given, the search marks exactly the devices
  whose removal separates two other devices that were connected.
\<close>

theorem articulation_exact: "x \<in> articulation_points (adjacency names edges) \<longleftrightarrow> separates (wired edges) x"
  by (rule cuts_wired)

section \<open>The report\<close>

lemma round_half_even_le: "x \<le> of_int n \<Longrightarrow> round_half_even x \<le> n"
  using round_half_even_bounds(1) [of x] by linarith

lemma round_half_even_ge: "of_int n \<le> x \<Longrightarrow> n \<le> round_half_even x"
  using round_half_even_bounds(2) [of x] by linarith

lemma round_digits_range:
  assumes "0 \<le> x" and "x \<le> 100"
  shows "0 \<le> round_digits n x \<and> round_digits n x \<le> 100"
proof -
  have p: "(0::rat) < 10 ^ n" by simp
  have "0 \<le> round_half_even (x * 10 ^ n)" by (rule round_half_even_ge) (use assms(1) in simp)
  moreover have "round_half_even (x * 10 ^ n) \<le> 100 * 10 ^ n" by (rule round_half_even_le) (use assms(2) p in simp)
  then have "(of_int (round_half_even (x * 10 ^ n)) :: rat) \<le> of_int (100 * 10 ^ n)" by (simp only: of_int_le_iff)
  ultimately show ?thesis using p by (simp add: round_digits_def pos_divide_le_eq)
qed

lemma loss_range: "0 \<le> bn_loss (blast_node_of adj cuts degraded name) \<and> bn_loss (blast_node_of adj cuts degraded name) \<le> 100"
proof (cases "neighbors adj name = []")
  case False
  let ?l = "rat_of_nat (length (filter (\<lambda>h. h \<in> set degraded) (neighbors adj name)))" and ?n = "rat_of_nat (length (neighbors adj name))"
  have "?l \<le> ?n" "0 < ?n" using False by simp_all
  then have "0 \<le> 100 * ?l / ?n" "100 * ?l / ?n \<le> 100" by (simp_all add: pos_divide_le_eq)
  then show ?thesis using False round_digits_range by (simp add: blast_node_of_def Let_def)
qed (simp add: blast_node_of_def Let_def)

lemma score_range: "0 \<le> blast_score nodes fs rs \<and> blast_score nodes fs rs \<le> 100"
  unfolding blast_score_def Let_def by (rule round_digits_range) auto

lemma keys_add_edge:
  "set (map fst (add_edge e adj)) = set (map fst adj) \<union> (if fst e = [] \<or> snd e = [] \<or> fst e = snd e then {} else {fst e, snd e})"
  by (cases e) (auto simp: add_edge_def add_neighbor_def keys_update simp del: set_map)

lemma keys_fold_edges:
  "set (map fst (fold add_edge es adj)) = set (map fst adj) \<union> {x. \<exists>y. wired es x y}"
proof (induction es arbitrary: adj)
  case (Cons e es)
  have "{x. \<exists>y. wired [e] x y} = (if fst e = [] \<or> snd e = [] \<or> fst e = snd e then {} else {fst e, snd e})"
    by (cases e) (auto simp: wired_def)
  moreover have "{x. \<exists>y. wired (e # es) x y} = {x. \<exists>y. wired [e] x y} \<union> {x. \<exists>y. wired es x y}"
    using wired_Cons [of e es] by blast
  ultimately show ?case by (simp add: Cons.IH keys_add_edge Un_assoc del: set_map)
qed simp

lemma adjacency_keys: "set (map fst (adjacency names edges)) = {n \<in> set names. n \<noteq> []} \<union> {x. \<exists>y. wired edges x y}"
  unfolding adjacency_def keys_fold_edges by (auto simp: image_iff)

lemma distinct_add_edge: "distinct (map fst adj) \<Longrightarrow> distinct (map fst (add_edge e adj))"
  by (cases e) (auto simp: add_edge_def add_neighbor_def intro!: distinct_keys_update simp del: distinct_map)

lemma distinct_adjacency: "distinct (map fst (adjacency names edges))"
proof -
  have "distinct (map fst adj) \<Longrightarrow> distinct (map fst (fold add_edge es adj))" for es adj
    by (induction es arbitrary: adj) (simp_all add: distinct_add_edge del: distinct_map)
  then show ?thesis unfolding adjacency_def by (simp add: o_def)
qed

lemma finite_cuts: "finite (articulation_points (adjacency names edges))"
proof (rule finite_subset)
  show "articulation_points (adjacency names edges) \<subseteq> fst ` set edges \<union> snd ` set edges"
  proof
    fix v
    assume "v \<in> articulation_points (adjacency names edges)"
    then obtain a b where ab: "a \<noteq> v" "b \<noteq> v" "joined (wired edges) a b" "\<not> joined_without (wired edges) v a b"
      unfolding cuts_wired separates_def by blast
    show "v \<in> fst ` set edges \<union> snd ` set edges"
    proof (rule ccontr)
      assume "v \<notin> fst ` set edges \<union> snd ` set edges"
      then have "wired edges \<le> (\<lambda>x y. wired edges x y \<and> x \<noteq> v \<and> y \<noteq> v)" by (force simp: wired_def)
      then have "joined_without (wired edges) v a b"
        using ab(3) unfolding joined_def joined_without_def by (meson rtranclp_mono predicate2D)
      then show False using ab(4) by simp
    qed
  qed
qed simp

lemma degraded_finding:
  assumes "d \<in> set (degraded_devices fs adj)"
  shows "d \<in> set (map fst adj) \<and> (\<exists>f\<in>set fs. lower (fi_severity f) \<in> set degraded_words \<and> lower (fi_device f) = lower d)"
proof -
  define index where "index = fold (\<lambda>n d. AList.update (lower n) n d) (map fst adj) []"
  have index: "\<forall>k v. map_of dct k = Some v \<longrightarrow> lower v = k \<Longrightarrow>
      \<forall>k v. map_of (fold (\<lambda>n d. AList.update (lower n) n d) ns dct) k = Some v \<longrightarrow> lower v = k" for ns dct
  proof (induction ns arbitrary: dct)
    case (Cons n ns)
    have "\<forall>k v. map_of (AList.update (lower n) n dct) k = Some v \<longrightarrow> lower v = k" using Cons.prems by simp
    then show ?case unfolding fold_simps by (rule Cons.IH)
  qed simp
  obtain f where f: "f \<in> set fs" "lower (fi_severity f) \<in> set degraded_words" "d = dict_get index (lower (fi_device f)) (fi_device f)"
      "d \<in> set (map fst adj)"
    using assms by (auto simp: degraded_devices_def Let_def index_def)
  have "lower d = lower (fi_device f)"
  proof (cases "map_of index (lower (fi_device f))")
    case (Some v)
    moreover have "\<forall>k v. map_of index k = Some v \<longrightarrow> lower v = k" unfolding index_def by (rule index) simp
    ultimately have "lower v = lower (fi_device f)" by blast
    then show ?thesis using f(3) \<open>map_of index (lower (fi_device f)) = Some v\<close> by (simp add: dict_get_def)
  qed (use f(3) in \<open>simp add: dict_get_def\<close>)
  then show ?thesis using f by auto
qed


section \<open>A chain of three devices\<close>

definition chain_edges :: "(string \<times> string) list" where "chain_edges = [(''leaf'', ''spine''), (''spine'', ''edge'')]"

definition chain_finding :: finding where
  "chain_finding = \<lparr>fi_device = ''SPINE'', fi_severity = ''High'', fi_message = [], fi_timestamp = [], fi_category = [], fi_entity = []\<rparr>"

lemma chain_nonempty: "adjacency [] chain_edges \<noteq> []"
  by code_simp

lemma chain_cut: "''spine'' \<in> articulation_points (adjacency [] chain_edges)"
  by code_simp


end
