(* ===== verification/Flap_Drift.thy ===== *)
theory Flap_Drift
  imports Blast_Radius Vault
begin

text \<open>
  Flap dampening and configuration drift (\<open>analytics.py\<close>): transitions grouped per entity, the decaying penalty and
  its states, the changed lines that explain a finding, and the overlay of a drawing. Arguments: \<open>iso\<close> is
  \<open>datetime.fromisoformat\<close> as an instant in UTC, \<open>pts\<close> and \<open>now\<close> those of \<open>Causal_Time\<close>, \<open>half_pow x\<close> is
  \<open>0.5 ** x\<close>, \<open>stdev\<close> that of \<open>statistics\<close>, and \<open>ndiff\<close> the output of \<open>difflib.ndiff\<close> on the lines of two texts.
\<close>

section \<open>Transitions\<close>

definition flap_substrings :: "string list" where
  "flap_substrings = [''flap'', ''adjacency'', ''established'', ''err-disable'', ''carrier'', ''bfd'', ''bgp'', ''ospf'', ''lacp'']"

definition word_rx :: "string list \<Rightarrow> rx" where
  "word_rx ws = alts (map (\<lambda>w. seqs [Wordb, ilit w, Wordb]) ws)"

definition flap_words :: rx where
  "flap_words = seqs [Wordb, alts (map ilit [''up'', ''down'', ''idle'', ''reset'']), Wordb]"

definition is_transition :: "string \<Rightarrow> bool" where
  "is_transition txt =
     (let low = lower txt in list_ex (\<lambda>w. is_infix w low) flap_substrings \<or> rx_search flap_words low \<noteq> None)"

definition intf_re :: rx where
  "intf_re =
     seqs [Wordb,
       Grp 1 (Alt
         (seqs [alts (map ilit [''Ethernet'', ''GigabitEthernet'', ''TenGigabitEthernet'', ''TenGigE'', ''HundredGigE'', ''Bundle-Ether'',
                                ''Port-channel'', ''Port-Channel'']), plus1 digit, Star (Seq (lit ''/'') (plus1 digit))])
         (seqs [alts (map ilit [''ge'', ''xe'', ''et'', ''ae'', ''lo'', ''irb'']), lit ''-'', plus1 digit, lit ''/'', plus1 digit, lit ''/'', plus1 digit,
                opt (Seq (lit ''.'') (plus1 digit))])),
       Wordb]"

definition dotted_quad :: rx where
  "dotted_quad = Grp 1 (Seq (rep_range 1 3 digit) (reps 3 (Seq (lit ''.'') (rep_range 1 3 digit))))"

definition flap_peer_re :: rx where
  "flap_peer_re = seqs [Wordb, alts (map ilit [''neighbor'', ''peer'']), plus1 space, dotted_quad, Wordb]"

definition flap_ip_re :: rx where "flap_ip_re = seqs [Wordb, dotted_quad, Wordb]"

text \<open>The address in a message about BGP, or the first protocol it names.\<close>

definition named_protocol :: "string \<Rightarrow> string" where
  "named_protocol message =
     (case find (\<lambda>w. is_infix w (lower message)) [''bfd'', ''bgp'', ''ospf'', ''lacp''] of Some w \<Rightarrow> w | None \<Rightarrow> ''session'')"

definition entity_id :: "string \<Rightarrow> string" where
  "entity_id message =
     (case rx_search intf_re message of
        Some g \<Rightarrow> group_of g 1
      | None \<Rightarrow>
         (case rx_search flap_peer_re message of
            Some g \<Rightarrow> group_of g 1
          | None \<Rightarrow>
             (case (if rx_search (word_rx [''bgp'']) message \<noteq> None then rx_search flap_ip_re message else None) of
                Some g \<Rightarrow> group_of g 1
              | None \<Rightarrow> named_protocol message)))"

definition line_stamp :: rx where
  "line_stamp =
     Alt (Grp 1 (seqs [reps 4 digit, lit ''-'', reps 2 digit, lit ''-'', reps 2 digit, any_of ''T '', reps 2 digit, lit '':'', reps 2 digit, lit '':'',
                       reps 2 digit, opt (Alt (lit ''Z'') (seqs [any_of ''+-'', reps 2 digit, opt (lit '':''), reps 2 digit]))]))
         (Grp 2 (seqs [Cls (\<lambda>c. let n = (of_char c :: nat) in 65 \<le> n \<and> n \<le> 90),
                       reps 2 (Cls (\<lambda>c. let n = (of_char c :: nat) in 97 \<le> n \<and> n \<le> 122)), plus1 space,
                       rep_range 1 2 digit, plus1 space, reps 2 digit, lit '':'', reps 2 digit, lit '':'', reps 2 digit]))"

definition line_re :: rx where
  "line_re = seqs [Bos, line_stamp, plus1 space, Grp 3 (plus1 nonspace), plus1 space, Grp 4 (Star (none_of [CHR 0x0A])), Eol]"

text \<open>A row: device, message, stamp.\<close>

datatype row_item = Text_Line string | Item finding_item

definition row_from_text :: "string \<Rightarrow> string \<times> string \<times> string" where
  "row_from_text line =
     (case rx_match line_re (strip line) of
        None \<Rightarrow> ([], line, [])
      | Some g \<Rightarrow> (group_of g 3, group_of g 4, or_str (group_of g 1) (group_of g 2)))"

fun row_of :: "(json \<Rightarrow> string) \<Rightarrow> row_item \<Rightarrow> string \<times> string \<times> string" where
  "row_of repr (Text_Line l) = row_from_text l"
| "row_of repr (Item (As_Finding f)) =
     (fi_device f, (if fi_entity f = [] then fi_message f else fi_entity f @ '' '' @ fi_message f), fi_timestamp f)"
| "row_of repr (Item (As_Dict kvs)) =
     (text_field repr kvs [''device'', ''hostname'', ''host''] [], text_field repr kvs [''message'', ''sample_message'', ''description''] [],
      text_field repr kvs [''timestamp''] [])"
| "row_of repr (Item (As_Object kvs)) =
     (text_field repr kvs [''device'', ''hostname''] [], text_field repr kvs [''message'', ''sample_message''] [],
      text_field repr kvs [''timestamp''] [])"

record clock =
  ck_iso :: "string \<Rightarrow> instant option"
  ck_pts :: ts_parser
  ck_now :: datetime

definition stamp_text :: "string \<Rightarrow> string" where
  "stamp_text value = (let t = strip value in if ends_with ''Z'' t then butlast t @ ''+00:00'' else t)"

definition year_start :: "datetime \<Rightarrow> instant" where
  "year_start ref = dt_seconds \<lparr>dt_year = dt_year ref, dt_month = 1, dt_day = 1, dt_secs = 0\<rparr>"

definition stamp_instant :: "clock \<Rightarrow> string \<Rightarrow> nat \<Rightarrow> datetime \<Rightarrow> rat \<Rightarrow> instant" where
  "stamp_instant ck value index ref gap_s =
     (let t = stamp_text value; arrival = year_start ref + of_nat index * gap_s
      in if t = [] then arrival
         else (case ck_iso ck t of
                 Some s \<Rightarrow> s
               | None \<Rightarrow> (case event_time_of (ck_pts ck) (ck_now ck) t (At ref) of Some d \<Rightarrow> dt_seconds d | None \<Rightarrow> arrival)))"

definition group_transitions ::
  "(json \<Rightarrow> string) \<Rightarrow> clock \<Rightarrow> row_item list \<Rightarrow> rat \<Rightarrow> ((string \<times> string) \<times> instant list) list" where
  "group_transitions repr ck items gap_s =
     (let rows = map (row_of repr) items; ref = reference_dt (ck_pts ck) (ck_now ck) (map (\<lambda>(d, m, t). t) rows);
          marks = map (\<lambda>(i, d, m, t). ((or_str d ''unknown'', entity_id m), stamp_instant ck t i ref gap_s))
            (filter (\<lambda>(i, d, m, t). is_transition m) (enumerate 0 rows))
      in map (\<lambda>(k, ts). (k, sort ts)) (fold (\<lambda>(k, t) d. push k t d) marks []))"

section \<open>Dampening\<close>

record dampening =
  da_penalty :: rat
  da_half_life :: rat
  da_suppress :: rat
  da_reuse :: rat

definition usual_dampening :: dampening where
  "usual_dampening = \<lparr>da_penalty = 1000, da_half_life = 900, da_suppress = 2000, da_reuse = 750\<rparr>"

datatype flap_state = Dampened_Storm | Active_Churn | Isolated_Transition
datatype jitter = Insufficient_Data | Periodic_Timer_Driven | Bursty_Physical_Noise

record flap_score =
  fs_penalty :: rat
  fs_peak :: rat
  fs_previous :: "instant option"
  fs_intervals :: "rat list"

definition flap_step :: "(rat \<Rightarrow> rat) \<Rightarrow> dampening \<Rightarrow> instant \<Rightarrow> flap_score \<Rightarrow> flap_score" where
  "flap_step half_pow da moment f =
     (let delta = (case fs_previous f of None \<Rightarrow> 0 | Some p \<Rightarrow> max 0 (moment - p));
          penalty = fs_penalty f * half_pow (delta / da_half_life da) + da_penalty da
      in \<lparr>fs_penalty = penalty, fs_peak = max (fs_peak f) penalty, fs_previous = Some moment,
          fs_intervals = fs_intervals f @ (if fs_previous f = None then [] else [delta])\<rparr>)"

definition flap_run :: "(rat \<Rightarrow> rat) \<Rightarrow> dampening \<Rightarrow> instant list \<Rightarrow> flap_score" where
  "flap_run half_pow da stamps =
     fold (flap_step half_pow da) stamps \<lparr>fs_penalty = 0, fs_peak = 0, fs_previous = None, fs_intervals = []\<rparr>"

definition jitter_of :: "(rat list \<Rightarrow> rat) \<Rightarrow> instant list \<Rightarrow> rat list \<Rightarrow> jitter \<times> rat option" where
  "jitter_of stdev stamps intervals =
     (if length stamps < 3 \<or> length intervals < 2 then (Insufficient_Data, None)
      else (let mean = sum_list intervals / of_nat (length intervals); cv = (if mean = 0 then 0 else stdev intervals / mean)
            in (if cv < 1/4 then Periodic_Timer_Driven else Bursty_Physical_Noise, Some cv)))"

definition flap_state_of :: "dampening \<Rightarrow> rat \<Rightarrow> flap_state" where
  "flap_state_of da peak =
     (if peak \<ge> da_suppress da then Dampened_Storm else if peak \<ge> da_reuse da then Active_Churn else Isolated_Transition)"

record flap_entity =
  fe_device :: string
  fe_entity :: string
  fe_count :: nat
  fe_peak :: rat
  fe_current :: rat
  fe_state :: flap_state
  fe_pattern :: jitter
  fe_intervals :: "rat list"
  fe_cv :: "rat option"

definition score_entity :: "(rat \<Rightarrow> rat) \<Rightarrow> (rat list \<Rightarrow> rat) \<Rightarrow> dampening \<Rightarrow> (string \<times> string) \<times> instant list \<Rightarrow> flap_entity" where
  "score_entity half_pow stdev da = (\<lambda>((device, entity), stamps).
     (let f = flap_run half_pow da stamps; (pattern, cv) = jitter_of stdev stamps (fs_intervals f)
      in \<lparr>fe_device = device, fe_entity = entity, fe_count = length stamps, fe_peak = round_digits 4 (fs_peak f),
          fe_current = round_digits 4 (fs_penalty f), fe_state = flap_state_of da (fs_peak f), fe_pattern = pattern,
          fe_intervals = map (round_digits 4) (fs_intervals f), fe_cv = map_option (round_digits 4) cv\<rparr>))"

definition dampening_cli :: "string \<Rightarrow> (string \<times> string list) list" where
  "dampening_cli entity =
     (let target = or_str entity ''Ethernet1''
      in [(''arista_eos'', [''interface '' @ target, ''   dampening'', ''router bgp'', ''   bgp dampening 15 750 2000 60'']),
          (''juniper_junos'',
             [''set policy-options damping damp-flap half-life 15 max-suppress 60 reuse 750 suppress 2000'',
              ''set protocols bgp damping'', ''set interfaces '' @ target @ '' hold-time up 2000 down 0'']),
          (''cisco_iosxr'', [''router bgp'', '' bgp dampening 15 750 2000 60'', ''interface '' @ target, '' dampening''])])"

record flap_report =
  fr_entities :: "flap_entity list"
  fr_dampened :: nat
  fr_churn :: nat
  fr_unstable :: "string option"
  fr_cli :: "(string \<times> string list) list"

definition analyze_flap_dynamics ::
  "(json \<Rightarrow> string) \<Rightarrow> clock \<Rightarrow> (rat \<Rightarrow> rat) \<Rightarrow> (rat list \<Rightarrow> rat) \<Rightarrow> dampening \<Rightarrow> row_item list \<Rightarrow> py_error + flap_report" where
  "analyze_flap_dynamics repr ck half_pow stdev da items =
     (if da_half_life da \<le> 0 then Inl Value_Error
      else (let es = sort_key (\<lambda>e. (- fe_peak e, fe_device e, fe_entity e))
                  (map (score_entity half_pow stdev da) (group_transitions repr ck items (da_half_life da)))
            in Inr \<lparr>fr_entities = es, fr_dampened = length (filter (\<lambda>e. fe_state e = Dampened_Storm) es),
                    fr_churn = length (filter (\<lambda>e. fe_state e = Active_Churn) es),
                    fr_unstable = (if es = [] then None else Some (fe_device (hd es) @ '':'' @ fe_entity (hd es))),
                    fr_cli = dampening_cli (if es = [] then ''Ethernet1'' else fe_entity (hd es))\<rparr>))"

section \<open>Configuration drift\<close>

definition drift_groups :: "(string \<times> rx) list" where
  "drift_groups =
     [(''bgp'', word_rx [''bgp'', ''neighbor'', ''remote-as'', ''peer-as'']), (''mtu'', word_rx [''mtu'']),
      (''vlan'', word_rx [''vlan'', ''vni'', ''vxlan'']), (''acl'', word_rx [''acl'', ''prefix-list'', ''access-list'']),
      (''ospf'', word_rx [''ospf'', ''area'']), (''interface'', word_rx [''shutdown'', ''speed'', ''interface''])]"

record config_diff =
  cd_before :: string
  cd_after :: string
  cd_hostname :: string
  cd_added :: "string list"
  cd_removed :: "string list"

datatype diff_item = No_Diff | As_Diff config_diff | Diff_Dict "(string \<times> json) list"

definition changed_lines :: "(string \<Rightarrow> string \<Rightarrow> string list) \<Rightarrow> config_diff \<Rightarrow> string list" where
  "changed_lines ndiff d =
     (if cd_added d \<noteq> [] \<or> cd_removed d \<noteq> [] then cd_added d @ cd_removed d
      else map (drop 2) (filter (\<lambda>l. starts_with ''+ '' l \<or> starts_with ''- '' l) (ndiff (cd_before d) (cd_after d))))"

fun diff_lines :: "(json \<Rightarrow> string) \<Rightarrow> (string \<Rightarrow> string \<Rightarrow> string list) \<Rightarrow> diff_item \<Rightarrow> py_error + string list" where
  "diff_lines repr ndiff No_Diff = Inr []"
| "diff_lines repr ndiff (As_Diff d) = Inr (filter (\<lambda>l. strip l \<noteq> []) (changed_lines ndiff d))"
| "diff_lines repr ndiff (Diff_Dict kvs) =
     (case list_field kvs [''changed_lines''] of Inl e \<Rightarrow> Inl e | Inr a \<Rightarrow>
      case list_field kvs [''added''] of Inl e \<Rightarrow> Inl e | Inr b \<Rightarrow>
      case list_field kvs [''removed''] of Inl e \<Rightarrow> Inl e | Inr c \<Rightarrow>
      Inr (if a @ b @ c \<noteq> [] then filter (\<lambda>l. strip l \<noteq> []) (map (py_str repr) (a @ b @ c))
           else changed_lines ndiff \<lparr>cd_before = text_field repr kvs [''before''] [], cd_after = text_field repr kvs [''after''] [],
             cd_hostname = [], cd_added = [], cd_removed = []\<rparr>))"

fun diff_hostname :: "(json \<Rightarrow> string) \<Rightarrow> diff_item \<Rightarrow> string" where
  "diff_hostname repr No_Diff = []"
| "diff_hostname repr (As_Diff d) = cd_hostname d"
| "diff_hostname repr (Diff_Dict kvs) = text_field repr kvs [''hostname''] []"

record drift_hit =
  dh_device :: string
  dh_message :: string
  dh_line :: string
  dh_confidence :: rat
  dh_explanation :: string
  dh_keywords :: "string list"

definition shared_keywords :: "string \<Rightarrow> string \<Rightarrow> string list" where
  "shared_keywords message line =
     (let blob = message @ [CHR 0x0A] @ line
      in map fst (filter (\<lambda>(n, re). rx_search re blob \<noteq> None \<and> rx_search re message \<noteq> None \<and> rx_search re line \<noteq> None) drift_groups))"

definition keywords_of :: "string \<Rightarrow> string \<Rightarrow> string list" where
  "keywords_of message line =
     (let ks = shared_keywords message line; e = entity_id message
      in if is_infix (lower e) (lower line) \<and> lower e \<notin> set (map lower ks) then ks @ [e] else ks)"

definition generic_entities :: "string list" where
  "generic_entities = [''session'', ''bgp'', ''ospf'', ''bfd'', ''lacp'']"

definition drift_confidence :: "finding \<Rightarrow> string \<Rightarrow> string list \<Rightarrow> string \<Rightarrow> rat" where
  "drift_confidence f line keywords hostname =
     (let e = lower (entity_id (fi_message f)); device = lower (fi_device f)
      in round_digits 4 (min 1
          (45/100 + (if length keywords > 1 then 1/10 else 0)
           + (if e \<notin> set generic_entities \<and> is_infix e (lower line) then 25/100 else 0)
           + (if device \<noteq> [] \<and> (is_infix device (lower line) \<or> lower hostname = device) then 2/10 else 0))))"

definition drift_hit_of :: "finding \<Rightarrow> string \<Rightarrow> string \<Rightarrow> drift_hit option" where
  "drift_hit_of f hostname line =
     (let ks = keywords_of (fi_message f) line
      in if ks = [] then None
         else Some \<lparr>dh_device = fi_device f, dh_message = fi_message f, dh_line = line,
                dh_confidence = drift_confidence f line ks hostname,
                dh_explanation = ''Changed line shares '' @ join_with '', '' ks @ '' with a '' @ fi_severity f @ '' finding on ''
                  @ or_str (fi_device f) ''unknown'' @ ''.'',
                dh_keywords = ks\<rparr>)"

fun best_drift_hit :: "finding \<Rightarrow> string \<Rightarrow> drift_hit option \<Rightarrow> string list \<Rightarrow> drift_hit option" where
  "best_drift_hit f hostname best [] = best"
| "best_drift_hit f hostname best (line # lines) =
     best_drift_hit f hostname
       (case drift_hit_of f hostname line of
          None \<Rightarrow> best
        | Some h \<Rightarrow> (case best of None \<Rightarrow> Some h | Some b \<Rightarrow> if dh_confidence h > dh_confidence b then Some h else best)) lines"

definition correlate_config_drift ::
  "(json \<Rightarrow> string) \<Rightarrow> (string \<Rightarrow> string \<Rightarrow> string list) \<Rightarrow> diff_item \<Rightarrow> finding_item list \<Rightarrow> py_error + drift_hit list" where
  "correlate_config_drift repr ndiff diff items =
     (case diff_lines repr ndiff diff of Inl e \<Rightarrow> Inl e | Inr lines \<Rightarrow>
      if lines = [] \<or> items = [] then Inr []
      else map_sum id (\<lambda>fs. sort_key (\<lambda>h. (- dh_confidence h, dh_device h))
             (List.map_filter (\<lambda>f. best_drift_hit f (diff_hostname repr diff) None lines) fs)) (iter_findings repr items))"

section \<open>Overlays\<close>

record overlay =
  ov_spof :: bool
  ov_tier :: risk_tier
  ov_change :: json
  ov_confidence :: rat
  ov_flaps :: nat

definition blank_overlay :: overlay where
  "blank_overlay = \<lparr>ov_spof = False, ov_tier = Healthy, ov_change = JNull, ov_confidence = 0, ov_flaps = 0\<rparr>"

definition overlay_node :: "blast_node \<Rightarrow> (string \<times> overlay) list \<Rightarrow> (string \<times> overlay) list" where
  "overlay_node n = AList.update (bn_device n) (blank_overlay\<lparr>ov_spof := bn_cut n, ov_tier := bn_tier n\<rparr>)"

definition overlay_flap :: "flap_entity \<Rightarrow> (string \<times> overlay) list \<Rightarrow> (string \<times> overlay) list" where
  "overlay_flap e d =
     (if fe_state e \<noteq> Dampened_Storm then d
      else (let slot = dict_get d (fe_device e) blank_overlay in AList.update (fe_device e) (slot\<lparr>ov_flaps := ov_flaps slot + 1\<rparr>) d))"

fun overlay_changes :: "(json \<Rightarrow> string) \<Rightarrow> (string \<times> json) list list \<Rightarrow> (string \<times> overlay) list \<Rightarrow> py_error + (string \<times> overlay) list" where
  "overlay_changes repr [] d = Inr d"
| "overlay_changes repr (hit # hits) d =
     (let device = text_field repr hit [''device''] []
      in case (case first_field hit [''confidence''] of None \<Rightarrow> Inr 0 | Some j \<Rightarrow> py_float j) of
           Inl e \<Rightarrow> Inl e
         | Inr c \<Rightarrow>
             overlay_changes repr hits
               (if device = [] \<or> c < 1/2 then d
                else (let slot = dict_get d device blank_overlay
                      in AList.update device
                           (if c \<ge> ov_confidence slot then slot\<lparr>ov_change := json_field hit ''change_number'', ov_confidence := c\<rparr> else slot) d)))"

definition build_device_overlays ::
  "(json \<Rightarrow> string) \<Rightarrow> blast_report option \<Rightarrow> flap_report option \<Rightarrow> (string \<times> json) list list \<Rightarrow> py_error + (string \<times> overlay) list" where
  "build_device_overlays repr blast flap hits =
     (let d = (case blast of None \<Rightarrow> [] | Some b \<Rightarrow> fold overlay_node (br_nodes b) []);
          d = (case flap of None \<Rightarrow> d | Some f \<Rightarrow> fold overlay_flap (fr_entities f) d)
      in overlay_changes repr hits d)"

end
