(* ===== verification/Flap_Laws.thy ===== *)
theory Flap_Laws
  imports Flap_Drift "HOL-Library.Multiset"
begin

text \<open>Laws of flap dampening and configuration drift: when an entity counts as a storm, and which change explains a finding.\<close>

section \<open>Penalties\<close>

definition flap_start :: flap_score where
  "flap_start = \<lparr>fs_penalty = 0, fs_peak = 0, fs_previous = None, fs_intervals = []\<rparr>"

lemma flap_run_snoc: "flap_run hp da (ts @ [t]) = flap_step hp da t (flap_run hp da ts)"
  by (simp add: flap_run_def)

lemma flap_run_Nil: "flap_run hp da [] = flap_start"
  by (simp add: flap_run_def flap_start_def)

lemma flap_previous: "fs_previous (flap_run hp da ts) = (if ts = [] then None else Some (last ts))"
  by (induction ts rule: rev_induct) (simp_all add: flap_run_snoc flap_run_Nil flap_start_def flap_step_def Let_def)

text \<open>What is used of \<open>0.5 ** x\<close>: it stays in the unit interval, is a half at one, falls, and does not exceed the product of its parts.\<close>

definition halving :: "(rat \<Rightarrow> rat) \<Rightarrow> bool" where
  "halving hp \<longleftrightarrow> (\<forall>x\<ge>0. 0 \<le> hp x \<and> hp x \<le> 1) \<and> hp 1 = 1/2 \<and> (\<forall>x y. 0 \<le> x \<longrightarrow> x \<le> y \<longrightarrow> hp y \<le> hp x) \<and>
     (\<forall>x y. 0 \<le> x \<longrightarrow> 0 \<le> y \<longrightarrow> hp (x + y) \<le> hp x * hp y)"

lemma penalty_bounds:
  assumes hp: "halving hp" and da: "0 \<le> da_penalty da" "0 < da_half_life da"
  shows "0 \<le> fs_penalty (flap_run hp da ts) \<and> fs_peak (flap_run hp da ts) \<le> of_nat (length ts) * da_penalty da \<and>
    fs_penalty (flap_run hp da ts) \<le> fs_peak (flap_run hp da ts) \<and> (ts \<noteq> [] \<longrightarrow> da_penalty da \<le> fs_penalty (flap_run hp da ts))"
proof (induction ts rule: rev_induct)
  case (snoc t ts)
  let ?f = "flap_run hp da ts"
  define d where "d = (case fs_previous ?f of None \<Rightarrow> 0 | Some p \<Rightarrow> max 0 (t - p)) / da_half_life da"
  have "0 \<le> d" using da by (auto simp: d_def split: option.splits)
  then have h: "0 \<le> hp d" "hp d \<le> 1" using hp by (auto simp: halving_def)
  have IH: "0 \<le> fs_penalty ?f" "fs_peak ?f \<le> of_nat (length ts) * da_penalty da" "fs_penalty ?f \<le> fs_peak ?f" using snoc.IH by auto
  have "fs_penalty ?f * hp d \<le> fs_penalty ?f" "0 \<le> fs_penalty ?f * hp d" using h IH(1) by (simp_all add: mult_left_le)
  then show ?case using IH da by (simp add: flap_run_snoc flap_step_def Let_def d_def algebra_simps)
qed (simp add: flap_run_Nil flap_start_def)

lemma peak_step: "fs_peak (flap_run hp da ts) \<le> fs_peak (flap_run hp da (ts @ us))"
proof (induction us rule: rev_induct)
  case (snoc u us)
  then show ?case unfolding append_assoc [symmetric] flap_run_snoc by (simp add: flap_step_def Let_def)
qed simp

text \<open>Three transitions within one half-life end with at least twice the penalty of one.\<close>

lemma three_in_half_life:
  assumes hp: "halving hp" and da: "0 \<le> da_penalty da" "0 < da_half_life da"
    and t: "a \<le> b" "b \<le> c" "c - a \<le> da_half_life da"
  shows "2 * da_penalty da \<le> fs_penalty (flap_run hp da (ts @ [a, b, c]))"
proof -
  let ?P = "da_penalty da" and ?x = "(b - a) / da_half_life da" and ?y = "(c - b) / da_half_life da"
  have xy: "0 \<le> ?x" "0 \<le> ?y" "?x + ?y \<le> 1" using t da by (simp_all add: add_divide_distrib [symmetric])
  have "hp 1 \<le> hp (?x + ?y)" using hp xy unfolding halving_def by (meson add_nonneg_nonneg)
  then have prod: "1/2 \<le> hp ?x * hp ?y" using hp xy unfolding halving_def by (meson order_trans) (metis order_trans)
  have y1: "1/2 \<le> hp ?y" using hp xy unfolding halving_def by (metis add_increasing le_add_same_cancel2 order_trans)
  let ?pa = "fs_penalty (flap_run hp da (ts @ [a]))"
  have pa: "?P \<le> ?pa" using penalty_bounds [OF hp da, of "ts @ [a]"] by simp
  have pb: "fs_penalty (flap_run hp da (ts @ [a, b])) = ?pa * hp ?x + ?P"
    using flap_run_snoc [of hp da "ts @ [a]" b] t(1) by (simp add: flap_step_def flap_previous Let_def)
  have pc: "fs_penalty (flap_run hp da (ts @ [a, b, c])) = (?pa * hp ?x + ?P) * hp ?y + ?P"
    using flap_run_snoc [of hp da "ts @ [a, b]" c] t(2) pb by (simp add: flap_step_def flap_previous Let_def)
  have "?P * (1/2) \<le> ?pa * (hp ?x * hp ?y)" by (rule mult_mono) (use pa prod da in auto)
  moreover have "?P * (1/2) \<le> ?P * hp ?y" using y1 da(1) by (rule mult_left_mono)
  ultimately show ?thesis unfolding pc by (simp add: algebra_simps)
qed

section \<open>States\<close>

lemma sort_key_all: "list_all P (sort_key f xs) = list_all P xs"
  by (simp add: list_all_iff)

lemma scored_fields:
  "fe_count (score_entity hp stdev da (k, ts)) = length ts"
  "fe_state (score_entity hp stdev da (k, ts)) = flap_state_of da (fs_peak (flap_run hp da ts))"
  by (simp_all add: score_entity_def Let_def split: prod.splits)

definition in_half_life :: "rat \<Rightarrow> instant list \<Rightarrow> bool" where
  "in_half_life h ts \<longleftrightarrow> (\<exists>us a b c vs. ts = us @ [a, b, c] @ vs \<and> c - a \<le> h)"

lemma storm_run:
  assumes hp: "halving hp" and s: "sorted ts" and near: "in_half_life 900 ts"
  shows "flap_state_of usual_dampening (fs_peak (flap_run hp usual_dampening ts)) = Dampened_Storm"
proof -
  obtain us a b c vs where ts: "ts = us @ [a, b, c] @ vs" "c - a \<le> 900" using near by (auto simp: in_half_life_def)
  have ab: "a \<le> b" "b \<le> c" using s by (auto simp: ts(1) sorted_append)
  have "2 * da_penalty usual_dampening \<le> fs_penalty (flap_run hp usual_dampening (us @ [a, b, c]))"
    by (rule three_in_half_life [OF hp]) (use ab ts(2) in \<open>simp_all add: usual_dampening_def\<close>)
  also have "\<dots> \<le> fs_peak (flap_run hp usual_dampening (us @ [a, b, c]))"
    using penalty_bounds [OF hp, of usual_dampening] by (simp add: usual_dampening_def)
  also have "\<dots> \<le> fs_peak (flap_run hp usual_dampening ts)"
    using peak_step [of hp usual_dampening "us @ [a, b, c]" vs] ts(1) by simp
  finally show ?thesis by (simp add: flap_state_of_def usual_dampening_def)
qed

lemma sort_nonempty: "sort xs = [] \<longleftrightarrow> xs = []"
  by (metis length_0_conv length_sort)

lemma sorted_groups:
  "list_all (\<lambda>(k, ts). sorted ts \<and> ts \<noteq> []) (group_transitions repr ck items g)"
proof -
  have "list_all (\<lambda>(k, ts). ts \<noteq> []) d \<Longrightarrow> list_all (\<lambda>(k, ts). ts \<noteq> []) (AList.update k (v @ [t]) d)"
    for d :: "((string \<times> string) \<times> instant list) list" and k v t
    by (induction d) auto
  then have run: "list_all (\<lambda>(k, ts). ts \<noteq> []) d \<Longrightarrow> list_all (\<lambda>(k, ts). ts \<noteq> []) (fold (\<lambda>(k, t) d. push k t d) ms d)"
    for ms and d :: "((string \<times> string) \<times> instant list) list"
    by (induction ms arbitrary: d) (auto simp: push_def)
  have groups: "list_all (\<lambda>(k, ts). ts \<noteq> []) (fold (\<lambda>(k, t) d. push k t d) ms [])"
    for ms :: "((string \<times> string) \<times> instant) list"
    by (rule run) simp
  have sorting: "list_all (\<lambda>(k, ts). sorted ts \<and> ts \<noteq> []) (map (\<lambda>(k, ts). (k, sort ts)) d)" if "list_all (\<lambda>(k, ts). ts \<noteq> []) d"
    for d :: "((string \<times> string) \<times> instant list) list"
    using that by (auto simp: list_all_iff sort_nonempty)
  show ?thesis unfolding group_transitions_def Let_def by (rule sorting [OF groups])
qed

lemma total_push: "(\<Sum>(k, xs)\<leftarrow>push k x d. length xs) = Suc (\<Sum>(k, xs)\<leftarrow>d. length xs)"
proof (induction d)
  case (Cons p d)
  obtain l ys where "p = (l, ys)" by (cases p)
  then show ?case using Cons.IH by (simp add: push_def dict_get_def)
qed (simp add: push_def dict_get_def)

lemma total_fold_push: "(\<Sum>(k, xs)\<leftarrow>fold (\<lambda>(k, x) d. push k x d) ms d. length xs) = length ms + (\<Sum>(k, xs)\<leftarrow>d. length xs)"
  by (induction ms arbitrary: d) (auto simp: total_push)

lemma sum_list_sort_key: "sum_list (map f (sort_key g xs)) = sum_list (map f xs :: nat list)"
proof -
  have "mset (map f (sort_key g xs)) = mset (map f xs)" by simp
  then show ?thesis by (simp only: sum_mset_sum_list [symmetric])
qed

lemma filter_enumerate: "length (filter (\<lambda>(i, x). P x) (enumerate n xs)) = length (filter P xs)"
  by (induction xs arbitrary: n) auto

lemma transitions_grouped:
  "(\<Sum>(k, ts)\<leftarrow>group_transitions repr ck items g. length ts) = length (filter (\<lambda>(d, m, t). is_transition m) (map (row_of repr) items))"
proof -
  have inner: "(\<Sum>(k, ts)\<leftarrow>map (\<lambda>(k, ts). (k, sort ts)) d. length ts) = (\<Sum>(k, ts)\<leftarrow>d. length ts)"
    for d :: "((string \<times> string) \<times> instant list) list"
    by (induction d) auto
  show ?thesis
    using filter_enumerate [of "\<lambda>(d, m, t). is_transition m" 0 "map (row_of repr) items"]
    unfolding group_transitions_def Let_def inner total_fold_push by simp
qed

text \<open>
  C39: storms are dampened and single flaps are not. With the usual parameters, every transition is counted in one entity
  and every group of transitions gets one score; it is a storm if three of its transitions lie within one half-life, it is no storm if it has a single transition, and
  no group is ever judged an isolated transition, since one transition already exceeds the reuse threshold.
\<close>

theorem storms_dampened:
  assumes "halving hp" and "analyze_flap_dynamics repr ck hp stdev usual_dampening items = Inr r"
  shows "mset (fr_entities r) = mset (map (score_entity hp stdev usual_dampening) (group_transitions repr ck items 900)) \<and>
    list_all (\<lambda>(k, ts).
       (if in_half_life 900 ts then fe_state (score_entity hp stdev usual_dampening (k, ts)) = Dampened_Storm
        else if length ts = 1 then fe_state (score_entity hp stdev usual_dampening (k, ts)) = Active_Churn
        else fe_state (score_entity hp stdev usual_dampening (k, ts)) \<noteq> Isolated_Transition)) (group_transitions repr ck items 900) \<and>
    fr_dampened r + fr_churn r = length (fr_entities r) \<and>
    sum_list (map fe_count (fr_entities r)) = length (filter (\<lambda>(d, m, t). is_transition m) (map (row_of repr) items))"
proof -
  let ?score = "score_entity hp stdev usual_dampening" and ?g = "group_transitions repr ck items 900"
  have es: "fr_entities r = sort_key (\<lambda>e. (- fe_peak e, fe_device e, fe_entity e)) (map ?score ?g)"
    and n: "fr_dampened r = length (filter (\<lambda>e. fe_state e = Dampened_Storm) (fr_entities r))"
      "fr_churn r = length (filter (\<lambda>e. fe_state e = Active_Churn) (fr_entities r))"
    using assms(2) by (auto simp: analyze_flap_dynamics_def usual_dampening_def Let_def)
  have state: "if in_half_life 900 ts then fe_state (?score (k, ts)) = Dampened_Storm
        else if length ts = 1 then fe_state (?score (k, ts)) = Active_Churn else fe_state (?score (k, ts)) \<noteq> Isolated_Transition"
    if "(k, ts) \<in> set ?g" for k ts
  proof -
    have ts: "sorted ts" "ts \<noteq> []" using sorted_groups [of repr ck items 900] that by (auto simp: list_all_iff)
    have b: "1000 \<le> fs_peak (flap_run hp usual_dampening ts)" "fs_peak (flap_run hp usual_dampening ts) \<le> of_nat (length ts) * 1000"
      using penalty_bounds [OF assms(1), of usual_dampening ts] ts(2) by (auto simp: usual_dampening_def)
    then show ?thesis using storm_run [OF assms(1) ts(1)] unfolding scored_fields by (auto simp: flap_state_of_def usual_dampening_def)
  qed
  have counts: "length es' = length (filter (\<lambda>e. fe_state e = Dampened_Storm) es') + length (filter (\<lambda>e. fe_state e = Active_Churn) es')"
    if "\<forall>e\<in>set es'. fe_state e \<noteq> Isolated_Transition" for es' :: "flap_entity list"
    using that
  proof (induction es')
    case (Cons e es')
    then show ?case by (cases "fe_state e") auto
  qed simp
  have none: "\<forall>e\<in>set (fr_entities r). fe_state e \<noteq> Isolated_Transition"
  proof
    fix e assume "e \<in> set (fr_entities r)"
    then obtain k ts where e: "e = ?score (k, ts)" "(k, ts) \<in> set ?g" unfolding es by auto
    then show "fe_state e \<noteq> Isolated_Transition" using state [OF e(2)] by (simp split: if_splits)
  qed
  have "fr_dampened r + fr_churn r = length (fr_entities r)" unfolding n by (rule counts [OF none, symmetric])
  moreover have "mset (fr_entities r) = mset (map ?score ?g)" unfolding es by simp
  moreover have "list_all (\<lambda>(k, ts). if in_half_life 900 ts then fe_state (?score (k, ts)) = Dampened_Storm
        else if length ts = 1 then fe_state (?score (k, ts)) = Active_Churn else fe_state (?score (k, ts)) \<noteq> Isolated_Transition) ?g"
    unfolding list_all_iff
  proof
    fix e assume "e \<in> set ?g"
    note here = state [of "fst e" "snd e", unfolded prod.collapse, OF this]
    show "case e of (k, ts) \<Rightarrow> if in_half_life 900 ts then fe_state (?score (k, ts)) = Dampened_Storm
        else if length ts = 1 then fe_state (?score (k, ts)) = Active_Churn else fe_state (?score (k, ts)) \<noteq> Isolated_Transition"
      using here by (simp only: split_beta prod.collapse)
  qed
  moreover have "sum_list (map fe_count (fr_entities r)) = length (filter (\<lambda>(d, m, t). is_transition m) (map (row_of repr) items))"
  proof -
    have "fe_count \<circ> ?score = (\<lambda>(k, ts). length ts)" by (auto simp: scored_fields)
    moreover have "sum_list (map fe_count (fr_entities r)) = sum_list (map fe_count (map ?score ?g))"
      unfolding es by (rule sum_list_sort_key)
    ultimately show ?thesis using transitions_grouped [of repr ck items 900] by simp
  qed
  ultimately show ?thesis by blast
qed

text \<open>A link of \<open>sw1\<close> that flaps three times in two minutes, by a clock that reads a stamp as its length in minutes.\<close>

definition linear_halving :: "rat \<Rightarrow> rat" where
  "linear_halving x = max 0 (1 - x / 2)"

lemma halving_linear: "halving linear_halving"
proof -
  have "linear_halving (x + y) \<le> linear_halving x * linear_halving y" if "0 \<le> x" "0 \<le> y" for x y
  proof (cases "x + y \<le> 2")
    case True
    have "1 - (x + y) / 2 \<le> (1 - x / 2) * (1 - y / 2)"
      using mult_nonneg_nonneg [OF that] by (simp add: algebra_simps add_divide_distrib)
    then show ?thesis using True that by (simp add: linear_halving_def max_def)
  qed (simp add: linear_halving_def)
  then show ?thesis by (auto simp: halving_def linear_halving_def)
qed

definition minute_clock :: clock where
  "minute_clock = \<lparr>ck_iso = (\<lambda>s. Some (60 * of_nat (length s))), ck_pts = (\<lambda>_. None),
     ck_now = \<lparr>dt_year = 2024, dt_month = 1, dt_day = 1, dt_secs = 0\<rparr>\<rparr>"

definition link_change :: "string \<Rightarrow> row_item" where
  "link_change t = Item (As_Finding \<lparr>fi_device = ''sw1'', fi_severity = ''high'', fi_message = ''ge-0/0/1 down'', fi_timestamp = t,
     fi_category = [], fi_entity = []\<rparr>)"

definition flapping_link :: "row_item list" where
  "flapping_link = map link_change [''123'', ''1'', ''12'']"

lemma flapping_groups: "group_transitions (\<lambda>_. []) minute_clock flapping_link 900 = [((''sw1'', ''ge-0/0/1''), [60, 120, 180])]"
  by code_simp

theorem storms_dampened_witness:
  "\<exists>r. analyze_flap_dynamics (\<lambda>_. []) minute_clock linear_halving (\<lambda>_. 0) usual_dampening flapping_link = Inr r \<and>
     map (\<lambda>e. (fe_device e, fe_entity e, fe_state e)) (fr_entities r) = [(''sw1'', ''ge-0/0/1'', Dampened_Storm)]"
proof -
  obtain r where r: "analyze_flap_dynamics (\<lambda>_. []) minute_clock linear_halving (\<lambda>_. 0) usual_dampening flapping_link = Inr r"
    by (simp add: analyze_flap_dynamics_def usual_dampening_def Let_def)
  have near: "in_half_life 900 [60, 120, 180]" by (auto simp: in_half_life_def intro!: exI [of _ "[]"])
  let ?e = "score_entity linear_halving (\<lambda>_. 0) usual_dampening ((''sw1'', ''ge-0/0/1''), [60, 120, 180])"
  note laws = storms_dampened [OF halving_linear r, unfolded flapping_groups]
  have "fr_entities r = [?e]" using laws by simp
  moreover have "fe_state ?e = Dampened_Storm" using laws near by simp
  moreover have "fe_device ?e = ''sw1'' \<and> fe_entity ?e = ''ge-0/0/1''"
    by (simp add: score_entity_def Let_def split: prod.splits)
  ultimately show ?thesis using r by simp
qed

section \<open>Drift\<close>

lemma rounded_share:
  assumes "45/100 \<le> x" and "x \<le> (1::rat)"
  shows "45/100 \<le> round_digits 4 x \<and> round_digits 4 x \<le> 1"
proof -
  have "4500 \<le> round_half_even (x * 10000)" using round_half_even_bounds(2) [of "x * 10000"] assms(1) by linarith
  moreover have "round_half_even (x * 10000) \<le> 10000" using round_half_even_bounds(1) [of "x * 10000"] assms(2) by linarith
  ultimately have "(of_int 4500 :: rat) \<le> of_int (round_half_even (x * 10000))" "of_int (round_half_even (x * 10000)) \<le> (of_int 10000 :: rat)"
    by (simp_all only: of_int_le_iff)
  then show ?thesis by (simp add: round_digits_def)
qed

lemma drift_confidence_range:
  "45/100 \<le> drift_confidence f line ks host \<and> drift_confidence f line ks host \<le> 1"
  unfolding drift_confidence_def Let_def by (rule rounded_share) simp_all

lemma best_drift_hit:
  "best_drift_hit f host b lines = Some h \<Longrightarrow>
     (b = Some h \<or> list_ex (\<lambda>l. drift_hit_of f host l = Some h) lines) \<and>
     (case b of None \<Rightarrow> True | Some g \<Rightarrow> dh_confidence g \<le> dh_confidence h) \<and>
     list_all (\<lambda>l. case drift_hit_of f host l of None \<Rightarrow> True | Some g \<Rightarrow> dh_confidence g \<le> dh_confidence h) lines"
proof (induction lines arbitrary: b)
  case (Cons l lines)
  show ?case
  proof (cases "drift_hit_of f host l")
    case None
    then show ?thesis using Cons.IH [of b] Cons.prems by simp
  next
    case (Some g)
    let ?b = "case b of None \<Rightarrow> Some g | Some b \<Rightarrow> if dh_confidence g > dh_confidence b then Some g else Some b"
    have "best_drift_hit f host ?b lines = Some h" using Cons.prems Some by (cases b) auto
    then show ?thesis using Cons.IH [of ?b] Some by (cases b) (auto split: if_splits)
  qed
qed simp

lemma no_drift_hit: "best_drift_hit f host b lines = None \<longleftrightarrow> b = None \<and> list_all (\<lambda>l. drift_hit_of f host l = None) lines"
  by (induction lines arbitrary: b) (auto split: option.splits)

text \<open>
  C40: a finding is explained by its best changed line. The hits are, sorted by falling confidence, one for each finding
  that some changed line shares a subject with; its line is a changed line, no other changed line fits the finding
  better, and the confidence lies between 0.45 and 1.
\<close>

theorem drift_explained:
  assumes "correlate_config_drift repr ndiff diff items = Inr hits" and "diff_lines repr ndiff diff = Inr lines" and "iter_findings repr items = Inr fs"
  shows "list_all (\<lambda>h. 45/100 \<le> dh_confidence h \<and> dh_confidence h \<le> 1 \<and>
      list_ex (\<lambda>f. list_ex (\<lambda>l. drift_hit_of f (diff_hostname repr diff) l = Some h) lines \<and>
        list_all (\<lambda>l. case drift_hit_of f (diff_hostname repr diff) l of None \<Rightarrow> True | Some g \<Rightarrow> dh_confidence g \<le> dh_confidence h) lines) fs) hits \<and>
    length hits = length (filter (\<lambda>f. list_ex (\<lambda>l. drift_hit_of f (diff_hostname repr diff) l \<noteq> None) lines) fs) \<and>
    sorted (map (\<lambda>h. - dh_confidence h) hits)"
proof (cases "lines = [] \<or> items = []")
  case True
  then have "hits = []" using assms by (simp add: correlate_config_drift_def)
  moreover have "filter (\<lambda>f. list_ex (\<lambda>l. drift_hit_of f (diff_hostname repr diff) l \<noteq> None) lines) fs = []"
    using True assms(3) by auto
  ultimately show ?thesis by simp
next
  case False
  let ?host = "diff_hostname repr diff"
  let ?best = "\<lambda>f. best_drift_hit f ?host None lines"
  have hits: "hits = sort_key (\<lambda>h. (- dh_confidence h, dh_device h)) (List.map_filter ?best fs)"
    using assms False by (auto simp: correlate_config_drift_def)
  have one: "45/100 \<le> dh_confidence h \<and> dh_confidence h \<le> 1 \<and> list_ex (\<lambda>l. drift_hit_of f ?host l = Some h) lines \<and>
      list_all (\<lambda>l. case drift_hit_of f ?host l of None \<Rightarrow> True | Some g \<Rightarrow> dh_confidence g \<le> dh_confidence h) lines"
    if "?best f = Some h" for f h
  proof -
    have "list_ex (\<lambda>l. drift_hit_of f ?host l = Some h) lines" using best_drift_hit [OF that] by auto
    moreover from this have "45/100 \<le> dh_confidence h \<and> dh_confidence h \<le> 1"
      using drift_confidence_range by (auto simp: list_ex_iff drift_hit_of_def Let_def split: if_splits)
    ultimately show ?thesis using best_drift_hit [OF that] by auto
  qed
  have "length (List.map_filter ?best fs) = length (filter (\<lambda>f. list_ex (\<lambda>l. drift_hit_of f ?host l \<noteq> None) lines) fs)"
  proof (induction fs)
    case (Cons f fs)
    have "?best f = None \<longleftrightarrow> \<not> list_ex (\<lambda>l. drift_hit_of f ?host l \<noteq> None) lines"
      by (simp add: no_drift_hit list_all_iff list_ex_iff)
    then show ?case using Cons.IH by (cases "?best f") (simp_all add: map_filter_simps)
  qed simp
  then have "length hits = length (filter (\<lambda>f. list_ex (\<lambda>l. drift_hit_of f ?host l \<noteq> None) lines) fs)" by (simp add: hits)
  moreover have "sorted (map (\<lambda>h. - dh_confidence h) hits)"
  proof -
    have "sorted (map (\<lambda>h. (- dh_confidence h, dh_device h)) hits)" unfolding hits by simp
    then show ?thesis unfolding sorted_wrt_map by (rule sorted_wrt_mono_rel [rotated]) (auto simp: less_eq_prod_def)
  qed
  moreover have "list_all (\<lambda>h. 45/100 \<le> dh_confidence h \<and> dh_confidence h \<le> 1 \<and>
      list_ex (\<lambda>f. list_ex (\<lambda>l. drift_hit_of f ?host l = Some h) lines \<and>
        list_all (\<lambda>l. case drift_hit_of f ?host l of None \<Rightarrow> True | Some g \<Rightarrow> dh_confidence g \<le> dh_confidence h) lines) fs) hits"
    unfolding list_all_iff hits set_sort set_map_filter using one by (fastforce simp: list_ex_iff list_all_iff)
  ultimately show ?thesis by blast
qed

text \<open>A change of the MTU explains a finding about it.\<close>

definition mtu_change :: diff_item where
  "mtu_change = As_Diff \<lparr>cd_before = [], cd_after = [], cd_hostname = ''sw1'', cd_added = [''ntp'', ''mtu 9000''], cd_removed = []\<rparr>"

definition mtu_finding :: finding_item where
  "mtu_finding = As_Finding \<lparr>fi_device = ''SW1'', fi_severity = ''high'', fi_message = ''mtu'', fi_timestamp = [],
     fi_category = [], fi_entity = []\<rparr>"

lemma mtu_lines: "diff_lines (\<lambda>_. []) (\<lambda>_ _. []) mtu_change = Inr [''ntp'', ''mtu 9000'']"
  by code_simp

lemma mtu_keywords: "keywords_of ''mtu'' ''ntp'' = []" "keywords_of ''mtu'' ''mtu 9000'' = [''mtu'']"
  by code_simp+

lemma mtu_confidence: "drift_confidence (case mtu_finding of As_Finding f \<Rightarrow> f) ''mtu 9000'' [''mtu''] ''sw1'' = 65/100"
  by code_simp

lemma mtu_hits:
  "correlate_config_drift (\<lambda>_. []) (\<lambda>_ _. []) mtu_change [mtu_finding] =
     Inr [\<lparr>dh_device = ''SW1'', dh_message = ''mtu'', dh_line = ''mtu 9000'', dh_confidence = 65/100,
       dh_explanation = ''Changed line shares mtu with a high finding on SW1.'', dh_keywords = [''mtu'']\<rparr>]"
proof -
  note conf = mtu_confidence [unfolded mtu_finding_def finding_item.case]
  show ?thesis
    by (simp add: correlate_config_drift_def mtu_lines, simp add: mtu_finding_def mtu_change_def drift_hit_of_def mtu_keywords conf
        map_filter_simps)
qed

theorem drift_explained_witness:
  "\<exists>hits. correlate_config_drift (\<lambda>_. []) (\<lambda>_ _. []) mtu_change [mtu_finding] = Inr hits \<and> map dh_line hits = [''mtu 9000''] \<and>
     list_all (\<lambda>h. 45/100 \<le> dh_confidence h \<and> dh_confidence h \<le> 1) hits"
proof -
  have "iter_findings (\<lambda>_. []) [mtu_finding] = Inr [case mtu_finding of As_Finding f \<Rightarrow> f]"
    by (simp add: mtu_finding_def)
  note laws = drift_explained [OF mtu_hits mtu_lines this]
  show ?thesis using mtu_hits laws by (simp add: list_all_iff)
qed

end
